(* ===== verification/Prelude.thy ===== *)
theory Prelude
  imports Main "HOL-Library.Sublist"
begin

text \<open>
  Shared vocabulary of the development: the error values of the Go code, the
  state-and-error computations every fallible Go function becomes, the two reasoning
  principles used for them (relations that every run respects, and inversion of a
  successful run), 64-bit wrap-around, and the list operations that stand for
  \<open>UPDATE\<close>, \<open>DELETE\<close> and uniqueness on database tables.
\<close>

section \<open>Error values\<close>

text \<open>
  The sentinel errors of \<^verbatim>\<open>internal/service\<close> and \<^verbatim>\<open>internal/store/postgres\<close>, grouped by the
  file family that declares them. A sentinel is identified by its variable, not by its
  text: two sentinels with the same message stay different, as two Go pointers do.
\<close>

datatype repo_err =
    ErrOptimisticLockConflict | ErrRecordNotFound
  | SqlErrNoRows | ContextCanceled | ContextDeadlineExceeded
  | ErrNotFound | ErrConflict | ErrInvalidData | ErrDatabase

datatype account_err =
    ErrInvalidEmail | ErrInvalidUsername | ErrInvalidPassword | ErrPasswordTooShort
  | ErrPasswordTooLong | ErrUserNotFound | ErrDuplicateEmail | ErrDuplicateUsername
  | ErrInvalidSignupInput | ErrInvalidDisplayName | ErrInvalidCreatedUser
  | ErrInvalidUserID | ErrInvalidTheme | ErrInvalidLocale | ErrUsernameUnavailable

datatype auth_err =
    ErrInvalidCredentials | ErrEmailUnconfirmed | ErrInvalidRateLimitConfig
  | ErrInvalidRateLimitKey | ErrRateLimitCapacity | ErrRateLimited
  | ErrUnknownRateLimitAction | ErrCurrentPasswordRequired | ErrCurrentPasswordMismatch
  | ErrRecentSignInRequired | ErrInvalidPasswordHashConfig | ErrInvalidPasswordHash

datatype session_err =
    ErrInvalidSessionUserID | ErrInvalidSessionLifetime | ErrInvalidSessionID
  | ErrSessionNotFound | ErrInvalidSession | ErrSessionExpired | ErrSessionRevoked
  | ErrSessionIDGeneration

datatype group_err =
    ErrInvalidGroup | ErrInvalidGroupName | ErrGroupNotFound | ErrNotGroupMember
  | ErrNotGroupAdmin | ErrGroupInviteNotFound | ErrLastGroupAdmin | ErrMembershipNotFound
  | ErrMembershipExists | ErrGroupInviteTaken | ErrGroupInviteGeneration

datatype guest_err =
    ErrInvalidGuestCreation | ErrInvalidCreatedGuest | ErrGuestUsernameGeneration
  | ErrGuestClaimCodeNotFound | ErrNotGuest | ErrInvalidGuestClaimCode
  | ErrGuestClaimCodeGeneration | ErrInvalidGuestUpgrade | ErrGuestUpgradeRequiresGuest
  | ErrInvalidUpgradedUser

datatype token_err =
    ErrInvalidConfirmationConfig | ErrInvalidConfirmationUser | ErrInvalidConfirmationToken
  | ErrEmailConfirmationTokenNotFound | ErrConfirmationTokenGeneration
  | ErrInvalidPasswordResetConfig | ErrInvalidPasswordResetToken
  | ErrPasswordResetTokenNotFound | ErrPasswordResetTokenGeneration
  | ErrInvalidPasswordResetUser

datatype oauth_err =
    ErrOAuthProviderUnavailable | ErrOAuthStateInvalid | ErrOAuthAuthenticationFailed
  | ErrOAuthIdentityNotFound | ErrOAuthIdentityConflict | ErrOAuthEmailConflict
  | ErrOAuthLastSignInMethod | ErrSSOSignInFailed | ErrSSOLogoutTokenInvalid
  | ErrSSOGuestIdentityTaken | ErrSSOUnavailable | ErrInvalidSSOChallenge | ErrSSOChallengeExpired
  | ErrInvalidProviderRegistry | ErrInvalidOAuthProvider | ErrDuplicateOAuthProvider

datatype admin_err =
    ErrInvalidAdminQuery | ErrAdminSelfAction | ErrLastAdministrator
  | ErrInvalidAuditEntry | ErrInvalidLoginAttempt | ErrInvalidConfirmationAccount

datatype ops_err =
    ErrInvalidMaintenanceConfig | ErrInvalidMaintenanceJob | ErrUnknownMaintenanceJob
  | ErrInvalidRetentionConfig | ErrInvalidUsageConfig | ErrInvalidUsageEvent | ErrUsageQueueFull
  | ErrInvalidSuspiciousConfig | ErrInvalidUsageReportConfig | ErrInvalidDatastoreStatsConfig

text \<open>
  The SQLSTATE codes \<^verbatim>\<open>ClassifyError\<close> tells apart, and the unique constraints some mapping
  function inspects by name.
\<close>

datatype pg_code =
    UniqueViolation \<comment> \<open>23505\<close>
  | NotNullViolation \<comment> \<open>23502\<close>
  | ForeignKeyViolation \<comment> \<open>23503\<close>
  | CheckViolation \<comment> \<open>23514\<close>
  | StringTruncation \<comment> \<open>22001\<close>
  | NumericOutOfRange \<comment> \<open>22003\<close>
  | InvalidTextRepresentation \<comment> \<open>22P02\<close>
  | OtherCode

datatype pg_constraint =
    Users_email_unique_idx | Users_username_unique_idx
  | Groups_invite_code_key | Group_members_group_user_unique
  | Oauth_identities_provider_subject_unique | OtherConstraint

text \<open>
  An error value: a sentinel, an anonymous \<^verbatim>\<open>errors.New\<close>, a \<^verbatim>\<open>fmt.Errorf\<close> with one \<^verbatim>\<open>%w\<close>
  (the added text is not kept), an \<^verbatim>\<open>errors.Join\<close> or several \<^verbatim>\<open>%w\<close>, the typed
  \<^verbatim>\<open>RateLimitError\<close> with its retry delay in nanoseconds, a server error with its code
  and constraint, or any other driver failure.
\<close>

datatype error =
    Repo repo_err
  | Account account_err
  | Auth auth_err
  | Ses session_err
  | Grp group_err
  | Gst guest_err
  | Tok token_err
  | OAuth oauth_err
  | Adm admin_err
  | Ops ops_err
  | AnonymousError
  | Wrap error
  | Join "error list"
  | RateLimitError int
  | PgError pg_code pg_constraint
  | DriverError

text \<open>
  \<^verbatim>\<open>errors.Is\<close>: the error itself or anything it unwraps to. \<^verbatim>\<open>RateLimitError.Unwrap\<close>
  (\<^verbatim>\<open>rate_limit.go\<close>) yields \<^verbatim>\<open>ErrRateLimited\<close>.
\<close>

fun errors_is :: "error \<Rightarrow> error \<Rightarrow> bool" where
  "errors_is (Wrap e) t = (Wrap e = t \<or> errors_is e t)"
| "errors_is (Join es) t = (Join es = t \<or> (\<exists>e \<in> set es. errors_is e t))"
| "errors_is (RateLimitError d) t = (RateLimitError d = t \<or> Auth ErrRateLimited = t)"
| "errors_is e t = (e = t)"

text \<open>\<^verbatim>\<open>errors.As\<close> with a \<^verbatim>\<open>*pgconn.PgError\<close> target: the first server error in the chain.\<close>

fun as_pg_error :: "error \<Rightarrow> (pg_code \<times> pg_constraint) option"
  and as_pg_error_list :: "error list \<Rightarrow> (pg_code \<times> pg_constraint) option" where
  "as_pg_error (PgError c k) = Some (c, k)"
| "as_pg_error (Wrap e) = as_pg_error e"
| "as_pg_error (Join es) = as_pg_error_list es"
| "as_pg_error _ = None"
| "as_pg_error_list [] = None"
| "as_pg_error_list (e # es) =
     (case as_pg_error e of Some p \<Rightarrow> Some p | None \<Rightarrow> as_pg_error_list es)"

section \<open>Computations with state and errors\<close>

text \<open>
  A Go function returning \<^verbatim>\<open>(T, error)\<close> becomes a function of the state to the error or the
  value, and the state afterwards. An error keeps the state reached, since nothing is
  undone in Go unless the code undoes it.
\<close>

type_synonym ('w, 'a) act = "'w \<Rightarrow> (error + 'a) \<times> 'w"

definition ret :: "'a \<Rightarrow> ('w, 'a) act" where
  "ret x w = (Inr x, w)"

definition fail :: "error \<Rightarrow> ('w, 'a) act" where
  "fail e w = (Inl e, w)"

text \<open>
  \<^verbatim>\<open>x, err := m(); if err != nil { return h(err) }; k(x)\<close>: the shape of almost every call in
  the services. \<open>attempt\<close> is the general form, where the continuation inspects the error.
\<close>

definition attempt :: "('w, 'a) act \<Rightarrow> (error + 'a \<Rightarrow> ('w, 'b) act) \<Rightarrow> ('w, 'b) act" where
  "attempt m k w = (case m w of (r, w') \<Rightarrow> k r w')"

definition call :: "('w, 'a) act \<Rightarrow> (error \<Rightarrow> error) \<Rightarrow> ('a \<Rightarrow> ('w, 'b) act) \<Rightarrow> ('w, 'b) act" where
  "call m h k w = (case m w of (Inl e, w') \<Rightarrow> (Inl (h e), w') | (Inr x, w') \<Rightarrow> k x w')"

text \<open>A pure validation step: \<^verbatim>\<open>if err := check(); err != nil { return h(err) }\<close>.\<close>

definition check :: "(error + 'a) \<Rightarrow> (error \<Rightarrow> error) \<Rightarrow> ('a \<Rightarrow> ('w, 'b) act) \<Rightarrow> ('w, 'b) act" where
  "check r h k w = (case r of Inl e \<Rightarrow> (Inl (h e), w) | Inr x \<Rightarrow> k x w)"

text \<open>Reading the state: \<^verbatim>\<open>time.Now()\<close> and similar.\<close>

definition reading :: "('w \<Rightarrow> 'a) \<Rightarrow> ('a \<Rightarrow> ('w, 'b) act) \<Rightarrow> ('w, 'b) act" where
  "reading f k w = k (f w) w"

subsection \<open>Inversion of runs\<close>

lemma ret_eq [simp]: "ret x w = (r, w') \<longleftrightarrow> r = Inr x \<and> w' = w"
  by (auto simp: ret_def)

lemma fail_eq [simp]: "fail e w = (r, w') \<longleftrightarrow> r = Inl e \<and> w' = w"
  by (auto simp: fail_def)

lemma call_Inr_iff [simp]:
  "call m h k w = (Inr y, w'') \<longleftrightarrow> (\<exists>x w'. m w = (Inr x, w') \<and> k x w' = (Inr y, w''))"
  by (auto simp: call_def split: prod.splits sum.splits)

lemma attempt_iff:
  "attempt m k w = (s, w'') \<longleftrightarrow> (\<exists>r w'. m w = (r, w') \<and> k r w' = (s, w''))"
  by (auto simp: attempt_def split: prod.splits)

lemma attempt_case_iff:
  "attempt m (\<lambda>r. case r of Inl e \<Rightarrow> f e | Inr x \<Rightarrow> g x) w = (s, w'') \<longleftrightarrow>
    (\<exists>e w'. m w = (Inl e, w') \<and> f e w' = (s, w'')) \<or> (\<exists>x w'. m w = (Inr x, w') \<and> g x w' = (s, w''))"
  by (auto simp: attempt_def split: prod.splits sum.splits)

lemma check_Inr_iff [simp]:
  "check r h k w = (Inr y, w') \<longleftrightarrow> (\<exists>x. r = Inr x \<and> k x w = (Inr y, w'))"
  by (auto simp: check_def split: sum.splits)

lemma reading_eq [simp]: "reading f k w = k (f w) w"
  by (simp add: reading_def)

lemmas run_defs = call_def attempt_def check_def ret_def fail_def reading_def

subsection \<open>Relations every run respects\<close>

text \<open>
  \<open>evolves R m\<close>: whatever \<open>m\<close> returns, the state before and after are related by
  \<open>R\<close>. With a preorder \<open>R\<close> it composes along the syntax of a computation, so a
  fact proved once for every repository operation holds for every service built from
  them. An invariant is the relation \<open>\<lambda>w w'. I w \<longrightarrow> I w'\<close>; a frame condition is an equality
  of fields.
\<close>

definition evolves :: "('w \<Rightarrow> 'w \<Rightarrow> bool) \<Rightarrow> ('w, 'a) act \<Rightarrow> bool" where
  "evolves R m \<longleftrightarrow> (\<forall>w. R w (snd (m w)))"

definition preord :: "('w \<Rightarrow> 'w \<Rightarrow> bool) \<Rightarrow> bool" where
  "preord R \<longleftrightarrow> reflp R \<and> transp R"

definition keeps :: "('w \<Rightarrow> bool) \<Rightarrow> 'w \<Rightarrow> 'w \<Rightarrow> bool" where
  "keeps I w w' \<longleftrightarrow> (I w \<longrightarrow> I w')"

definition same :: "('w \<Rightarrow> 'b) \<Rightarrow> 'w \<Rightarrow> 'w \<Rightarrow> bool" where
  "same f w w' \<longleftrightarrow> f w' = f w"

named_theorems evolves_intro \<open>composition rules and repository facts for evolves\<close>
named_theorems preord_intro \<open>relations that are preorders\<close>

lemma preord_keeps [preord_intro]: "preord (keeps I)"
  by (auto simp: preord_def keeps_def reflp_def transp_def)

lemma preord_same [preord_intro]: "preord (same f)"
  by (auto simp: preord_def same_def reflp_def transp_def)

lemma evolvesD: "evolves R m \<Longrightarrow> m w = (r, w') \<Longrightarrow> R w w'"
  by (auto simp: evolves_def dest: spec [of _ w])

lemma evolves_keepsD: "evolves (keeps I) m \<Longrightarrow> m w = (r, w') \<Longrightarrow> I w \<Longrightarrow> I w'"
  by (auto dest!: evolvesD simp: keeps_def)

lemma evolves_sameD: "evolves (same f) m \<Longrightarrow> m w = (r, w') \<Longrightarrow> f w' = f w"
  by (auto dest!: evolvesD simp: same_def)

lemma preord_refl: "preord R \<Longrightarrow> R w w"
  by (simp add: preord_def reflp_def)

lemma preord_trans: "preord R \<Longrightarrow> R a b \<Longrightarrow> R b c \<Longrightarrow> R a c"
  unfolding preord_def by (blast dest: transpD)

lemma evolves_ret [evolves_intro]: "preord R \<Longrightarrow> evolves R (ret x)"
  by (simp add: evolves_def ret_def preord_refl)

lemma evolves_fail [evolves_intro]: "preord R \<Longrightarrow> evolves R (fail e)"
  by (simp add: evolves_def fail_def preord_refl)

lemma evolves_attempt [evolves_intro]:
  assumes "preord R" and "evolves R m" and "\<And>r. evolves R (k r)"
  shows "evolves R (attempt m k)"
  unfolding evolves_def
proof
  fix w
  obtain r w' where m: "m w = (r, w')" by (cases "m w")
  have "R w w'" using assms(2) m by (rule evolvesD)
  moreover have "R w' (snd (k r w'))" using assms(3) by (simp add: evolves_def)
  ultimately have "R w (snd (k r w'))" by (rule preord_trans [OF assms(1)])
  with m show "R w (snd (attempt m k w))" by (simp add: attempt_def)
qed

lemma call_as_attempt:
  "call m h k = attempt m (\<lambda>r. case r of Inl e \<Rightarrow> fail (h e) | Inr x \<Rightarrow> k x)"
  by (rule ext) (simp add: call_def attempt_def fail_def split: prod.splits sum.splits)

lemma evolves_call [evolves_intro]:
  assumes "preord R" and "evolves R m" and "\<And>x. evolves R (k x)"
  shows "evolves R (call m h k)"
  unfolding call_as_attempt
  by (rule evolves_attempt) (auto simp: assms evolves_fail split: sum.splits)

lemma evolves_check [evolves_intro]:
  assumes "preord R" and "\<And>x. evolves R (k x)"
  shows "evolves R (check r h k)"
  using assms by (cases r) (auto simp: evolves_def check_def preord_refl)

lemma evolves_reading [evolves_intro]:
  assumes "\<And>x. evolves R (k x)"
  shows "evolves R (reading f k)"
  using assms by (auto simp: evolves_def)

lemma evolves_if [evolves_intro]:
  "(b \<Longrightarrow> evolves R m) \<Longrightarrow> (\<not> b \<Longrightarrow> evolves R n) \<Longrightarrow> evolves R (if b then m else n)"
  by simp

lemma evolves_case_option [evolves_intro]:
  "evolves R n \<Longrightarrow> (\<And>x. evolves R (k x)) \<Longrightarrow> evolves R (case q of None \<Rightarrow> n | Some x \<Rightarrow> k x)"
  by (cases q) auto

lemma evolves_case_sum [evolves_intro]:
  "(\<And>x. evolves R (f x)) \<Longrightarrow> (\<And>y. evolves R (g y)) \<Longrightarrow> evolves R (case q of Inl x \<Rightarrow> f x | Inr y \<Rightarrow> g y)"
  by (cases q) auto

lemma evolves_case_prod [evolves_intro]:
  "(\<And>x y. evolves R (f x y)) \<Longrightarrow> evolves R (case q of (x, y) \<Rightarrow> f x y)"
  by (cases q) auto

lemma evolves_Let [evolves_intro]:
  "(\<And>x. evolves R (f x)) \<Longrightarrow> evolves R (let x = v in f x)"
  by simp

lemma evolves_mono: "evolves R m \<Longrightarrow> (\<And>w w'. R w w' \<Longrightarrow> S w w') \<Longrightarrow> evolves S m"
  by (auto simp: evolves_def)

section \<open>64-bit integers\<close>

text \<open>
  \<^verbatim>\<open>int64\<close> values are modelled as \<^typ>\<open>int\<close>; where the code computes a sum it then tests for
  overflow, the two's-complement wrap-around is written out.
\<close>

definition wrap64 :: "int \<Rightarrow> int" where
  "wrap64 x = (x + 2 ^ 63) mod 2 ^ 64 - 2 ^ 63"

lemma wrap64_in_range [simp]: "- (2 ^ 63) \<le> x \<Longrightarrow> x < 2 ^ 63 \<Longrightarrow> wrap64 x = x"
  by (simp add: wrap64_def)

lemma wrap64_bounds: "- (2 ^ 63) \<le> wrap64 x" "wrap64 x < 2 ^ 63"
  using pos_mod_bound [of "2 ^ 64" "x + 2 ^ 63"] by (simp_all add: wrap64_def)

section \<open>Tables\<close>

text \<open>
  A table is the list of its rows. \<open>update_where\<close> is \<^verbatim>\<open>UPDATE ... WHERE\<close>, \<open>delete_where\<close> is
  \<^verbatim>\<open>DELETE ... WHERE\<close>, and \<open>unique_on\<close> says that the rows with a defined key have
  different keys (a unique index, partial where the key is \<^verbatim>\<open>NULL\<close>).
\<close>

definition update_where :: "('a \<Rightarrow> bool) \<Rightarrow> ('a \<Rightarrow> 'a) \<Rightarrow> 'a list \<Rightarrow> 'a list" where
  "update_where P f xs = map (\<lambda>x. if P x then f x else x) xs"

definition delete_where :: "('a \<Rightarrow> bool) \<Rightarrow> 'a list \<Rightarrow> 'a list" where
  "delete_where P xs = filter (\<lambda>x. \<not> P x) xs"

fun unique_on :: "('a \<Rightarrow> 'k option) \<Rightarrow> 'a list \<Rightarrow> bool" where
  "unique_on key [] = True"
| "unique_on key (x # xs) =
     ((key x = None \<or> (\<forall>y \<in> set xs. key y \<noteq> key x)) \<and> unique_on key xs)"

lemma set_update_where: "set (update_where P f xs) = (\<lambda>x. if P x then f x else x) ` set xs"
  by (simp add: update_where_def)

lemma set_delete_where [simp]: "set (delete_where P xs) = {x \<in> set xs. \<not> P x}"
  by (auto simp: delete_where_def)

lemma update_where_Nil [simp]: "update_where P f [] = []"
  by (simp add: update_where_def)

lemma delete_where_Nil [simp]: "delete_where P [] = []"
  by (simp add: delete_where_def)

lemma update_where_Cons [simp]:
  "update_where P f (x # xs) = (if P x then f x else x) # update_where P f xs"
  by (simp add: update_where_def)

lemma delete_where_Cons [simp]:
  "delete_where P (x # xs) = (if P x then delete_where P xs else x # delete_where P xs)"
  by (simp add: delete_where_def)

lemma map_update_where:
  "(\<And>x. P x \<Longrightarrow> g (f x) = g x) \<Longrightarrow> map g (update_where P f xs) = map g xs"
  by (induction xs) auto

lemma ball_update_where:
  "(\<forall>y \<in> set (update_where P f xs). Q y) \<longleftrightarrow> (\<forall>x \<in> set xs. if P x then Q (f x) else Q x)"
  by (induction xs) auto

lemma update_where_id: "(\<And>x. x \<in> set xs \<Longrightarrow> \<not> P x) \<Longrightarrow> update_where P f xs = xs"
  by (induction xs) auto

lemma delete_where_id: "(\<And>x. x \<in> set xs \<Longrightarrow> \<not> P x) \<Longrightarrow> delete_where P xs = xs"
  by (induction xs) auto

lemma unique_on_append:
  "unique_on key (xs @ [r]) \<longleftrightarrow>
     unique_on key xs \<and> (key r = None \<or> (\<forall>x \<in> set xs. key x \<noteq> key r))"
  by (induction xs) auto

lemma unique_on_delete [simp]: "unique_on key xs \<Longrightarrow> unique_on key (delete_where P xs)"
  by (induction xs) auto

lemma unique_on_filter: "unique_on key xs \<Longrightarrow> unique_on key (filter P xs)"
  by (induction xs) auto

lemma unique_on_map: "unique_on key xs \<longleftrightarrow> unique_on id (map key xs)"
  by (induction xs) auto

lemma unique_on_update_same:
  assumes "\<And>x. P x \<Longrightarrow> key (f x) = key x"
  shows "unique_on key (update_where P f xs) = unique_on key xs"
  using map_update_where [of P key f xs, OF assms]
  by (simp add: unique_on_map [of key "update_where P f xs"] unique_on_map [of key xs])

lemma unique_onD:
  "unique_on key xs \<Longrightarrow> x \<in> set xs \<Longrightarrow> y \<in> set xs \<Longrightarrow> key x = Some k \<Longrightarrow> key y = Some k \<Longrightarrow> x = y"
  by (induction xs) auto

lemma unique_on_distinct: "unique_on (\<lambda>x. Some (g x)) xs \<longleftrightarrow> distinct (map g xs)"
  by (induction xs) (auto simp: image_iff)

lemma find_Some_iff': "find P xs = Some x \<Longrightarrow> x \<in> set xs \<and> P x"
  by (auto simp: find_Some_iff)

lemma find_None_iff': "find P xs = None \<longleftrightarrow> (\<forall>x \<in> set xs. \<not> P x)"
  by (auto simp: find_None_iff)

lemma find_append: "find P (xs @ ys) = (case find P xs of None \<Rightarrow> find P ys | Some x \<Rightarrow> Some x)"
  by (induction xs) auto

lemma find_unique:
  "unique_on key xs \<Longrightarrow> x \<in> set xs \<Longrightarrow> key x = Some k \<Longrightarrow> find (\<lambda>y. key y = Some k) xs = Some x"
  by (induction xs) auto

lemma unique_on_replace:
  assumes "unique_on key xs"
    and "key r = None \<or> (\<forall>x \<in> set (delete_where (\<lambda>x. ident x = i) xs). key x \<noteq> key r)"
    and "unique_on (\<lambda>x. Some (ident x)) xs"
  shows "unique_on key (update_where (\<lambda>x. ident x = i) (\<lambda>_. r) xs)"
  using assms
proof (induction xs)
  case (Cons x xs)
  show ?case
  proof (cases "ident x = i")
    case True
    with Cons.prems have "update_where (\<lambda>x. ident x = i) (\<lambda>_. r) xs = xs"
      and "delete_where (\<lambda>x. ident x = i) xs = xs"
      by (auto intro: update_where_id delete_where_id)
    with True Cons.prems show ?thesis by auto
  next
    case False
    with Cons show ?thesis by (auto simp: set_update_where)
  qed
qed simp

lemma unique_on_replace_ident:
  assumes "unique_on (\<lambda>x. Some (ident x)) xs" and "ident r = i"
  shows "unique_on (\<lambda>x. Some (ident x)) (update_where (\<lambda>x. ident x = i) (\<lambda>_. r) xs)"
  using assms by (subst unique_on_update_same) auto

lemma ident_update_where:
  assumes "ident r = i"
  shows "ident ` set (update_where (\<lambda>x. ident x = i) (\<lambda>_. r) xs) = ident ` set xs"
proof -
  have "map ident (update_where (\<lambda>x. ident x = i) (\<lambda>_. r) xs) = map ident xs"
    by (rule map_update_where) (simp add: assms)
  then show ?thesis by (metis list.set_map)
qed

end
