(* ===== verification/GoStrings.thy ===== *)
theory GoStrings
  imports Prelude "HOL-Library.Word"
begin

text \<open>
  Go strings and the standard-library string functions the services use. A Go string is
  a byte sequence, here a \<^typ>\<open>string\<close>; \<open>runes\<close> is what \<^verbatim>\<open>for _, r := range s\<close> and
  \<^verbatim>\<open>[]rune(s)\<close> see, including the replacement rune for invalid bytes. Unicode case tables,
  RFC 5322 address parsing, textual IP addresses and SHA-256 are fields of the record
  \<open>golib\<close>, an argument of the definitions that use them.
\<close>

section \<open>UTF-8\<close>

abbreviation byte_at :: "string \<Rightarrow> nat \<Rightarrow> nat" where
  "byte_at s i \<equiv> of_char (s ! i)"

definition rune_error :: nat where
  "rune_error = 0xFFFD"

text \<open>\<^verbatim>\<open>utf8.acceptRanges\<close>: length of the encoding and range of its second byte, by first byte.\<close>

definition first_class :: "nat \<Rightarrow> (nat \<times> nat \<times> nat) option" where
  "first_class b =
     (if 0xC2 \<le> b \<and> b \<le> 0xDF then Some (2, 0x80, 0xBF)
      else if b = 0xE0 then Some (3, 0xA0, 0xBF)
      else if b = 0xED then Some (3, 0x80, 0x9F)
      else if 0xE1 \<le> b \<and> b \<le> 0xEF then Some (3, 0x80, 0xBF)
      else if b = 0xF0 then Some (4, 0x90, 0xBF)
      else if 0xF1 \<le> b \<and> b \<le> 0xF3 then Some (4, 0x80, 0xBF)
      else if b = 0xF4 then Some (4, 0x80, 0x8F)
      else None)"

definition continuation :: "nat \<Rightarrow> bool" where
  "continuation b \<longleftrightarrow> 0x80 \<le> b \<and> b \<le> 0xBF"

text \<open>\<^verbatim>\<open>utf8.DecodeRuneInString\<close>: the first rune and how many bytes it takes.\<close>

definition decode_rune :: "string \<Rightarrow> nat \<times> nat" where
  "decode_rune s =
     (if s = [] then (rune_error, 0)
      else let b0 = byte_at s 0 in
        if b0 < 0x80 then (b0, 1)
        else (case first_class b0 of
            None \<Rightarrow> (rune_error, 1)
          | Some (n, lo, hi) \<Rightarrow>
              if length s < n then (rune_error, 1)
              else let b1 = byte_at s 1 in
                if b1 < lo \<or> hi < b1 then (rune_error, 1)
                else if n = 2 then (b0 mod 0x20 * 0x40 + b1 mod 0x40, 2)
                else let b2 = byte_at s 2 in
                  if \<not> continuation b2 then (rune_error, 1)
                  else if n = 3 then
                    (b0 mod 0x10 * 0x1000 + b1 mod 0x40 * 0x40 + b2 mod 0x40, 3)
                  else let b3 = byte_at s 3 in
                    if \<not> continuation b3 then (rune_error, 1)
                    else (b0 mod 0x08 * 0x40000 + b1 mod 0x40 * 0x1000
                            + b2 mod 0x40 * 0x40 + b3 mod 0x40, 4)))"

lemma decode_rune_size:
  "s \<noteq> [] \<Longrightarrow> 0 < snd (decode_rune s) \<and> snd (decode_rune s) \<le> length s"
  by (cases s) (auto simp: decode_rune_def Let_def first_class_def Suc_le_eq split: option.split)

function decode_all :: "string \<Rightarrow> (nat \<times> nat) list" where
  "decode_all s =
     (if s = [] then []
      else decode_rune s # decode_all (drop (snd (decode_rune s)) s))"
  by pat_completeness auto
termination
proof (relation "measure length")
  fix s :: string
  assume "s \<noteq> []"
  then show "(drop (snd (decode_rune s)) s, s) \<in> measure length"
    using decode_rune_size [of s] by simp
qed simp

declare decode_all.simps [simp del]

definition runes :: "string \<Rightarrow> nat list" where
  "runes s = map fst (decode_all s)"

text \<open>\<^verbatim>\<open>utf8.RuneCountInString\<close> and \<^verbatim>\<open>utf8.ValidString\<close>: a one-byte replacement marks an invalid byte.\<close>

definition RuneCountInString :: "string \<Rightarrow> nat" where
  "RuneCountInString s = length (runes s)"

definition ValidString :: "string \<Rightarrow> bool" where
  "ValidString s \<longleftrightarrow> (rune_error, 1) \<notin> set (decode_all s)"

text \<open>\<^verbatim>\<open>utf8.AppendRune\<close>: surrogates and values past the last code point encode as the replacement rune.\<close>

definition encode_rune :: "nat \<Rightarrow> string" where
  "encode_rune r =
     (if r < 0x80 then [char_of r]
      else if r < 0x800 then [char_of (0xC0 + r div 0x40), char_of (0x80 + r mod 0x40)]
      else if (0xD800 \<le> r \<and> r \<le> 0xDFFF) \<or> 0x10FFFF < r then
        [char_of (0xEF :: nat), char_of (0xBF :: nat), char_of (0xBD :: nat)]
      else if r < 0x10000 then
        [char_of (0xE0 + r div 0x1000), char_of (0x80 + r div 0x40 mod 0x40),
         char_of (0x80 + r mod 0x40)]
      else
        [char_of (0xF0 + r div 0x40000), char_of (0x80 + r div 0x1000 mod 0x40),
         char_of (0x80 + r div 0x40 mod 0x40), char_of (0x80 + r mod 0x40)])"

definition is_ascii :: "string \<Rightarrow> bool" where
  "is_ascii s \<longleftrightarrow> (\<forall>c \<in> set s. of_char c < (0x80 :: nat))"

lemma decode_rune_ascii [simp]:
  "of_char c < (0x80 :: nat) \<Longrightarrow> decode_rune (c # s) = (of_char c, 1)"
  by (simp add: decode_rune_def Let_def)

lemma decode_all_Nil [simp]: "decode_all [] = []"
  by (simp add: decode_all.simps)

lemma decode_all_ascii_Cons [simp]:
  "of_char c < (0x80 :: nat) \<Longrightarrow> decode_all (c # s) = (of_char c, 1) # decode_all s"
  by (subst decode_all.simps) simp

lemma runes_Nil [simp]: "runes [] = []"
  by (simp add: runes_def)

lemma runes_ascii: "is_ascii s \<Longrightarrow> runes s = map of_char s"
  by (induction s) (auto simp: is_ascii_def runes_def)

lemma RuneCountInString_ascii: "is_ascii s \<Longrightarrow> RuneCountInString s = length s"
  by (simp add: RuneCountInString_def runes_ascii)

text \<open>Evaluation of ASCII strings without decoding.\<close>

lemma digit7_of_char: "of_char c < (0x80 :: nat) \<longleftrightarrow> \<not> digit7 c"
  by (cases c) (auto simp: of_char_def split: if_splits)

lemma is_ascii_code [code]: "is_ascii s = list_all (\<lambda>c. \<not> digit7 c) s"
  by (simp add: is_ascii_def list_all_iff digit7_of_char)

lemma RuneCountInString_code [code]:
  "RuneCountInString s = (if is_ascii s then length s else length (runes s))"
  by (auto simp: RuneCountInString_ascii) (simp add: RuneCountInString_def)

lemma length_decode_all: "length (decode_all s) \<le> length s"
proof (induction s rule: decode_all.induct)
  case (1 s)
  show ?case
  proof (cases "s = []")
    case False
    with "1.IH" decode_rune_size [of s]
    show ?thesis by (subst decode_all.simps) fastforce
  qed simp
qed

lemma RuneCountInString_le_length: "RuneCountInString s \<le> length s"
  by (simp add: RuneCountInString_def runes_def length_decode_all)

lemma runes_eq_Nil [simp]: "runes s = [] \<longleftrightarrow> s = []"
  by (subst runes_def, subst decode_all.simps) simp

section \<open>White space\<close>

text \<open>\<^verbatim>\<open>unicode.IsSpace\<close>: the White\_Space property.\<close>

definition IsSpace :: "nat \<Rightarrow> bool" where
  "IsSpace r \<longleftrightarrow> r \<in> set [0x09, 0x0A, 0x0B, 0x0C, 0x0D, 0x20, 0x85, 0xA0, 0x1680, 0x2028, 0x2029,
     0x202F, 0x205F, 0x3000] \<or> (0x2000 \<le> r \<and> r \<le> 0x200A)"

definition space_runes :: "nat list" where
  "space_runes = [0x20, 0x09, 0x0A, 0x0B, 0x0C, 0x0D, 0x85, 0xA0, 0x1680, 0x2000, 0x2001, 0x2002,
     0x2003, 0x2004, 0x2005, 0x2006, 0x2007, 0x2008, 0x2009, 0x200A, 0x2028, 0x2029, 0x202F,
     0x205F, 0x3000]"

definition space_encodings :: "string list" where
  "space_encodings = map encode_rune space_runes"

lemma space_encodings_code [code]:
  "space_encodings = [[CHR 0x20], [CHR 0x09], [CHR 0x0A], [CHR 0x0B], [CHR 0x0C], [CHR 0x0D],
     [CHR 0xC2, CHR 0x85], [CHR 0xC2, CHR 0xA0], [CHR 0xE1, CHR 0x9A, CHR 0x80]] @
     map (\<lambda>c. [CHR 0xE2, CHR 0x80, c]) [CHR 0x80, CHR 0x81, CHR 0x82, CHR 0x83, CHR 0x84, CHR 0x85,
       CHR 0x86, CHR 0x87, CHR 0x88, CHR 0x89, CHR 0x8A, CHR 0xA8, CHR 0xA9, CHR 0xAF] @
     [[CHR 0xE2, CHR 0x81, CHR 0x9F], [CHR 0xE3, CHR 0x80, CHR 0x80]]"
  by (simp add: space_encodings_def space_runes_def encode_rune_def char_of_def bit_simps)
text \<open>
  \<^verbatim>\<open>strings.TrimSpace\<close>. A white-space rune at either end is exactly one of the encodings
  above at that end, so trimming strips those encodings as long as one is there.
\<close>

function strip_front :: "string list \<Rightarrow> string \<Rightarrow> string" where
  "strip_front encs s =
     (case find (\<lambda>e. e \<noteq> [] \<and> prefix e s) encs of
        None \<Rightarrow> s
      | Some e \<Rightarrow> strip_front encs (drop (length e) s))"
  by pat_completeness auto
termination
proof (relation "measure (\<lambda>(encs, s). length s)")
  fix encs :: "string list" and s e :: string
  assume "find (\<lambda>e. e \<noteq> [] \<and> prefix e s) encs = Some e"
  then have "e \<noteq> []" and "prefix e s" by (auto dest: find_Some_iff')
  then have "0 < length e" and "length e \<le> length s" by (auto dest: prefix_length_le)
  then have "length s - length e < length s" by linarith
  then show "((encs, drop (length e) s), (encs, s)) \<in> measure (\<lambda>(encs, s). length s)"
    by simp
qed simp

declare strip_front.simps [simp del]

definition TrimLeftSpace :: "string \<Rightarrow> string" where
  "TrimLeftSpace s = strip_front space_encodings s"

definition TrimRightSpace :: "string \<Rightarrow> string" where
  "TrimRightSpace s = rev (strip_front (map rev space_encodings) (rev s))"

definition TrimSpace :: "string \<Rightarrow> string" where
  "TrimSpace s = TrimRightSpace (TrimLeftSpace s)"

lemma strip_front_suffix: "suffix (strip_front encs s) s"
proof (induction encs s rule: strip_front.induct)
  case (1 encs s)
  show ?case
  proof (cases "find (\<lambda>e. e \<noteq> [] \<and> prefix e s) encs")
    case None
    then show ?thesis by (subst strip_front.simps) simp
  next
    case (Some e)
    from "1.IH" [OF Some] have "suffix (strip_front encs (drop (length e) s)) s"
      by (rule suffix_order.trans) (rule suffix_drop)
    with Some show ?thesis by (subst strip_front.simps) simp
  qed
qed

lemma strip_front_done:
  "e \<in> set encs \<Longrightarrow> e \<noteq> [] \<Longrightarrow> \<not> prefix e (strip_front encs s)"
proof (induction encs s rule: strip_front.induct)
  case (1 encs s)
  show ?case
  proof (cases "find (\<lambda>e. e \<noteq> [] \<and> prefix e s) encs")
    case None
    then have "strip_front encs s = s" by (subst strip_front.simps) simp
    with None "1.prems" show ?thesis by (auto simp: find_None_iff)
  next
    case (Some e')
    with "1.IH" [OF Some] "1.prems" show ?thesis
      by (subst strip_front.simps) simp
  qed
qed

lemma strip_front_fix:
  "(\<And>e. e \<in> set encs \<Longrightarrow> e \<noteq> [] \<Longrightarrow> \<not> prefix e s) \<Longrightarrow> strip_front encs s = s"
  by (subst strip_front.simps) (auto split: option.split dest: find_Some_iff')

lemma TrimRightSpace_prefix: "prefix (TrimRightSpace s) s"
  using strip_front_suffix [of "map rev space_encodings" "rev s"]
  by (simp add: TrimRightSpace_def suffix_to_prefix)

lemma TrimSpace_idem [simp]: "TrimSpace (TrimSpace s) = TrimSpace s"
proof -
  let ?t = "TrimLeftSpace s" and ?u = "TrimSpace s"
  have "\<not> prefix e ?u" if "e \<in> set space_encodings" "e \<noteq> []" for e
    using strip_front_done [OF that, of s] TrimRightSpace_prefix [of ?t]
    by (auto simp: TrimSpace_def TrimLeftSpace_def dest: prefix_order.trans)
  then have left: "TrimLeftSpace ?u = ?u"
    unfolding TrimLeftSpace_def by (rule strip_front_fix)
  have "strip_front (map rev space_encodings) (strip_front (map rev space_encodings) (rev ?t)) =
      strip_front (map rev space_encodings) (rev ?t)"
    by (rule strip_front_fix) (rule strip_front_done)
  then have "TrimRightSpace ?u = ?u"
    by (simp add: TrimSpace_def TrimRightSpace_def)
  with left show ?thesis by (simp add: TrimSpace_def)
qed

lemma TrimSpace_Nil [simp]: "TrimSpace [] = []"
  using TrimRightSpace_prefix [of "TrimLeftSpace []"] strip_front_suffix [of space_encodings "[]"]
  by (simp add: TrimSpace_def TrimLeftSpace_def)

lemma TrimSpace_length: "length (TrimSpace s) \<le> length s"
  using prefix_length_le [OF TrimRightSpace_prefix [of "TrimLeftSpace s"]]
    suffix_length_le [OF strip_front_suffix [of space_encodings s]]
  by (simp add: TrimSpace_def TrimLeftSpace_def)

lemma TrimSpace_keeps:
  assumes "s \<noteq> []"
    and "\<And>e. e \<in> set space_encodings \<Longrightarrow> \<not> prefix e s"
    and "\<And>e. e \<in> set space_encodings \<Longrightarrow> \<not> prefix (rev e) (rev s)"
  shows "TrimSpace s = s"
proof -
  have "strip_front space_encodings s = s" using assms(2) by (intro strip_front_fix) auto
  moreover have "strip_front (map rev space_encodings) (rev s) = rev s"
    using assms(3) by (intro strip_front_fix) auto
  ultimately show ?thesis by (simp add: TrimSpace_def TrimLeftSpace_def TrimRightSpace_def)
qed

text \<open>A string that starts and ends with a graphic ASCII character has nothing to trim.\<close>

definition graphic :: "char \<Rightarrow> bool" where
  "graphic c \<longleftrightarrow> 32 < (of_char c :: nat) \<and> of_char c < (0x80 :: nat)"

lemma space_encodings_not_graphic:
  "\<forall>e \<in> set space_encodings. e \<noteq> [] \<and> \<not> graphic (hd e) \<and> \<not> graphic (last e)"
  by (simp add: space_encodings_def space_runes_def encode_rune_def graphic_def)

lemma TrimSpace_graphic:
  assumes "s \<noteq> []" "graphic (hd s)" "graphic (last s)"
  shows "TrimSpace s = s"
proof (rule TrimSpace_keeps)
  fix e
  assume "e \<in> set space_encodings"
  with space_encodings_not_graphic
  have e: "e \<noteq> []" "\<not> graphic (hd e)" "\<not> graphic (last e)" by auto
  show "\<not> prefix e s" using e assms by (auto simp: prefix_def)
  show "\<not> prefix (rev e) (rev s)"
  proof
    assume "prefix (rev e) (rev s)"
    then obtain t where "rev s = rev e @ t" by (auto simp: prefix_def)
    then have "hd (rev s) = hd (rev e)" using e by simp
    with e assms show False by (simp add: hd_rev)
  qed
qed (rule assms)

section \<open>Library functions outside the model\<close>

text \<open>
  A textual address as \<^verbatim>\<open>netip.ParseAddr\<close> yields it: IPv4, or IPv6 with its zone.
\<close>

datatype netip_addr = Addr4 "32 word" | Addr6 "128 word" string

record golib =
  unicode_lower :: "nat \<Rightarrow> nat"       \<comment> \<open>\<^verbatim>\<open>unicode.ToLower\<close> past ASCII\<close>
  unicode_upper :: "nat \<Rightarrow> nat"       \<comment> \<open>\<^verbatim>\<open>unicode.ToUpper\<close> past ASCII\<close>
  pg_lower :: "string \<Rightarrow> string"      \<comment> \<open>PostgreSQL \<^verbatim>\<open>lower\<close> in the database's locale\<close>
  ParseAddress :: "string \<Rightarrow> string option" \<comment> \<open>\<^verbatim>\<open>mail.ParseAddress\<close>, its \<^verbatim>\<open>Address\<close>\<close>
  ParseAddr :: "string \<Rightarrow> netip_addr option" \<comment> \<open>\<^verbatim>\<open>netip.ParseAddr\<close>\<close>
  addr_String :: "netip_addr \<Rightarrow> string" \<comment> \<open>\<^verbatim>\<open>netip.Addr.String\<close>\<close>
  sha256_hex :: "string \<Rightarrow> string"    \<comment> \<open>hexadecimal SHA-256\<close>

text \<open>
  \<^verbatim>\<open>strings.ToLower\<close> and \<^verbatim>\<open>strings.ToUpper\<close>: ASCII strings bytewise, others rune by rune.
\<close>

definition ascii_lower :: "nat \<Rightarrow> nat" where
  "ascii_lower r = (if 65 \<le> r \<and> r \<le> 90 then r + 32 else r)"

definition ascii_upper :: "nat \<Rightarrow> nat" where
  "ascii_upper r = (if 97 \<le> r \<and> r \<le> 122 then r - 32 else r)"

definition ToLower :: "golib \<Rightarrow> string \<Rightarrow> string" where
  "ToLower L s =
     (if is_ascii s then map (\<lambda>c. char_of (ascii_lower (of_char c))) s
      else concat (map (\<lambda>r. encode_rune (if r < 0x80 then ascii_lower r else unicode_lower L r)) (runes s)))"

definition ToUpper :: "golib \<Rightarrow> string \<Rightarrow> string" where
  "ToUpper L s =
     (if is_ascii s then map (\<lambda>c. char_of (ascii_upper (of_char c))) s
      else concat (map (\<lambda>r. encode_rune (if r < 0x80 then ascii_upper r else unicode_upper L r)) (runes s)))"

lemma ascii_lower_lt [simp]: "r < 0x80 \<Longrightarrow> ascii_lower r < 0x80"
  by (simp add: ascii_lower_def)

lemma ascii_upper_lt [simp]: "r < 0x80 \<Longrightarrow> ascii_upper r < 0x80"
  by (auto simp: ascii_upper_def)

lemma is_ascii_ToLower: "is_ascii s \<Longrightarrow> is_ascii (ToLower L s)"
  by (auto simp: ToLower_def is_ascii_def ascii_lower_def)

lemma is_ascii_ToUpper: "is_ascii s \<Longrightarrow> is_ascii (ToUpper L s)"
  by (auto simp: ToUpper_def is_ascii_def ascii_upper_def)

lemma ToLower_idem_ascii: "is_ascii s \<Longrightarrow> ToLower L (ToLower L s) = ToLower L s"
  using is_ascii_ToLower [of s L] by (auto simp: ToLower_def is_ascii_def ascii_lower_def)

lemma ToUpper_idem_ascii: "is_ascii s \<Longrightarrow> ToUpper L (ToUpper L s) = ToUpper L s"
  using is_ascii_ToUpper [of s L] by (auto simp: ToUpper_def is_ascii_def ascii_upper_def)

section \<open>Hexadecimal and decimal text\<close>

definition hex_digit :: "nat \<Rightarrow> char" where
  "hex_digit n = (if n < 10 then char_of (48 + n) else char_of (87 + n))"

text \<open>\<^verbatim>\<open>hex.EncodeToString\<close> on bytes, and \<^verbatim>\<open>hex.DecodeString\<close> as the test it is used for.\<close>

definition hex_encode :: "nat list \<Rightarrow> string" where
  "hex_encode bs = concat (map (\<lambda>b. [hex_digit (b div 16 mod 16), hex_digit (b mod 16)]) bs)"

definition is_hex_char :: "char \<Rightarrow> bool" where
  "is_hex_char c \<longleftrightarrow> (let n = of_char c :: nat in
     (48 \<le> n \<and> n \<le> 57) \<or> (97 \<le> n \<and> n \<le> 102) \<or> (65 \<le> n \<and> n \<le> 70))"

definition hex_decodable :: "string \<Rightarrow> bool" where
  "hex_decodable s \<longleftrightarrow> even (length s) \<and> list_all is_hex_char s"

lemma is_hex_char_hex_digit: "n < 16 \<Longrightarrow> is_hex_char (hex_digit n)"
  by (auto simp: is_hex_char_def hex_digit_def Let_def)

lemma length_hex_encode [simp]: "length (hex_encode bs) = 2 * length bs"
  by (induction bs) (auto simp: hex_encode_def)

lemma hex_decodable_encode: "hex_decodable (hex_encode bs)"
  unfolding hex_decodable_def by (induction bs) (auto simp: hex_encode_def is_hex_char_hex_digit)

lemma graphic_hex_char: "is_hex_char c \<Longrightarrow> graphic c"
  by (auto simp: is_hex_char_def graphic_def Let_def)

lemma TrimSpace_hex: "hex_decodable s \<Longrightarrow> TrimSpace s = s"
  by (cases "s = []")
     (auto simp: hex_decodable_def list_all_iff intro!: TrimSpace_graphic graphic_hex_char)

lemma hex_digit_inj: "m < 16 \<Longrightarrow> n < 16 \<Longrightarrow> hex_digit m = hex_digit n \<Longrightarrow> m = n"
  by (auto simp: hex_digit_def split: if_splits dest: arg_cong [of _ _ "of_char :: char \<Rightarrow> nat"])

lemma hex_encode_Cons:
  "hex_encode (b # bs) = hex_digit (b div 16 mod 16) # hex_digit (b mod 16) # hex_encode bs"
  by (simp add: hex_encode_def)

lemma hex_encode_inj:
  "length as = length bs \<Longrightarrow> \<forall>a \<in> set as. a < 256 \<Longrightarrow> \<forall>b \<in> set bs. b < 256 \<Longrightarrow>
    hex_encode as = hex_encode bs \<Longrightarrow> as = bs"
proof (induction as bs rule: list_induct2)
  case (Cons a as b bs)
  then have "hex_digit (a div 16 mod 16) = hex_digit (b div 16 mod 16)"
    and "hex_digit (a mod 16) = hex_digit (b mod 16)"
    by (simp_all add: hex_encode_Cons)
  then have "a div 16 mod 16 = b div 16 mod 16" and "a mod 16 = b mod 16"
    by (auto intro: hex_digit_inj)
  moreover have "a div 16 mod 16 = a div 16" and "b div 16 mod 16 = b div 16"
    using Cons.prems by auto
  ultimately have "a = b" by (metis div_mult_mod_eq)
  with Cons show ?case by (simp add: hex_encode_Cons)
qed simp

text \<open>\<^verbatim>\<open>strconv.FormatInt(n, 10)\<close>.\<close>

fun format_nat :: "nat \<Rightarrow> string" where
  "format_nat n = (if n < 10 then [char_of (48 + n)] else format_nat (n div 10) @ [char_of (48 + n mod 10)])"

declare format_nat.simps [simp del]

definition FormatInt :: "int \<Rightarrow> string" where
  "FormatInt n = (if n < 0 then CHR ''-'' # format_nat (nat (- n)) else format_nat (nat n))"

text \<open>\<^verbatim>\<open>strings.ContainsAny(value, "\x00\r\n")\<close>.\<close>

definition contains_control :: "string \<Rightarrow> bool" where
  "contains_control s \<longleftrightarrow> list_ex (\<lambda>c. of_char c \<in> {0, 10, 13 :: nat}) s"

section \<open>Ordering\<close>

text \<open>
  Byte order of strings, and sorting by a strict order (\<^verbatim>\<open>ORDER BY\<close>, \<^verbatim>\<open>sort.Slice\<close>) as an
  insertion sort; where the order leaves ties, the list order decides.
\<close>

fun string_less :: "string \<Rightarrow> string \<Rightarrow> bool" where
  "string_less [] [] = False"
| "string_less [] (_ # _) = True"
| "string_less (_ # _) [] = False"
| "string_less (c # s) (e # t) =
     (of_char c < (of_char e :: nat) \<or> (c = e \<and> string_less s t))"

fun insert_by :: "('a \<Rightarrow> 'a \<Rightarrow> bool) \<Rightarrow> 'a \<Rightarrow> 'a list \<Rightarrow> 'a list" where
  "insert_by before x [] = [x]"
| "insert_by before x (y # ys) = (if before x y then x # y # ys else y # insert_by before x ys)"

definition order_by :: "('a \<Rightarrow> 'a \<Rightarrow> bool) \<Rightarrow> 'a list \<Rightarrow> 'a list" where
  "order_by before xs = foldr (insert_by before) xs []"

lemma set_insert_by [simp]: "set (insert_by before x ys) = insert x (set ys)"
  by (induction ys) auto

lemma length_insert_by [simp]: "length (insert_by before x ys) = Suc (length ys)"
  by (induction ys) auto

lemma set_order_by [simp]: "set (order_by before xs) = set xs"
  by (induction xs) (auto simp: order_by_def)

lemma length_order_by [simp]: "length (order_by before xs) = length xs"
  by (induction xs) (auto simp: order_by_def)

text \<open>With a transitive order whose incomparable elements compare alike, the result is sorted.\<close>

lemma sorted_insert_by:
  assumes tr: "\<And>x y z. \<not> before y x \<Longrightarrow> \<not> before z y \<Longrightarrow> \<not> before z x"
    and asym: "\<And>x y. before x y \<Longrightarrow> \<not> before y x"
  shows "sorted_wrt (\<lambda>a b. \<not> before b a) ys \<Longrightarrow> sorted_wrt (\<lambda>a b. \<not> before b a) (insert_by before x ys)"
proof (induction ys)
  case (Cons y ys)
  show ?case
  proof (cases "before x y")
    case True
    have "\<not> before z x" if "z \<in> set ys" for z
      using Cons.prems that tr [OF asym [OF True]] by auto
    with True asym [OF True] Cons.prems show ?thesis by simp
  next
    case False
    with Cons show ?thesis by simp
  qed
qed simp

lemma sorted_order_by:
  assumes tr: "\<And>x y z. \<not> before y x \<Longrightarrow> \<not> before z y \<Longrightarrow> \<not> before z x"
    and asym: "\<And>x y. before x y \<Longrightarrow> \<not> before y x"
  shows "sorted_wrt (\<lambda>a b. \<not> before b a) (order_by before xs)"
proof (induction xs)
  case (Cons x xs)
  then show ?case
    using sorted_insert_by [of before "order_by before xs" x, OF tr asym] by (simp add: order_by_def)
qed (simp add: order_by_def)

section \<open>Evaluation\<close>

text \<open>
  Code equations that evaluate ASCII text on the bits of its characters: nothing is decoded, and trimming
  returns at once when both ends are graphic.
\<close>

lemma ValidString_ascii: "is_ascii s \<Longrightarrow> ValidString s"
proof -
  assume "is_ascii s"
  then have "\<forall>p \<in> set (decode_all s). fst p < 0x80"
    by (induction s) (auto simp: is_ascii_def)
  then show ?thesis by (auto simp: ValidString_def rune_error_def)
qed

lemma ValidString_code [code]: "ValidString s \<longleftrightarrow> is_ascii s \<or> (rune_error, 1) \<notin> set (decode_all s)"
  using ValidString_ascii [of s] by (auto simp: ValidString_def)

lemma graphic_code [code]:
  "graphic c \<longleftrightarrow> \<not> digit7 c \<and> (digit6 c \<or> digit5 c \<and> (digit0 c \<or> digit1 c \<or> digit2 c \<or> digit3 c \<or> digit4 c))"
  by (cases c) (simp add: graphic_def split: if_splits)

lemma TrimSpace_code [code]:
  "TrimSpace s = (if s \<noteq> [] \<and> graphic (hd s) \<and> graphic (last s) then s
     else TrimRightSpace (TrimLeftSpace s))"
  using TrimSpace_graphic [of s] by (auto simp: TrimSpace_def)

lemma runes_code [code]: "runes s = (if is_ascii s then map of_char s else map fst (decode_all s))"
  using runes_ascii [of s] by (simp add: runes_def)

fun lower_char :: "char \<Rightarrow> char" where
  "lower_char (Char b0 b1 b2 b3 b4 b5 b6 b7) =
     (if \<not> b7 \<and> b6 \<and> \<not> b5 \<and> (b0 \<or> b1 \<or> b2 \<or> b3 \<or> b4) \<and> \<not> (b4 \<and> b3 \<and> (b2 \<or> b1 \<and> b0))
      then Char b0 b1 b2 b3 b4 True b6 b7 else Char b0 b1 b2 b3 b4 b5 b6 b7)"

lemma lower_char_correct [code_unfold]: "char_of (ascii_lower (of_char c)) = lower_char c"
proof (cases c)
  case (Char b0 b1 b2 b3 b4 b5 b6 b7)
  have "of_char (lower_char c) = ascii_lower (of_char c)"
    unfolding Char ascii_lower_def by (simp split: if_splits)
  then show ?thesis by (metis char_of_char)
qed

lemma contains_control_code [code]:
  "contains_control s = list_ex (\<lambda>c. c = CHR 0x00 \<or> c = CHR 0x0A \<or> c = CHR 0x0D) s"
proof -
  have "of_char c \<in> {0, 10, 13 :: nat} \<longleftrightarrow> c = CHR 0x00 \<or> c = CHR 0x0A \<or> c = CHR 0x0D" for c
    by (cases c) (simp split: if_splits)
  then show ?thesis by (simp add: contains_control_def)
qed

end
