(* ===== verification/Identity.thy ===== *)
theory Identity
  imports GoStrings
begin

text \<open>
  Normalisation and validation of the values users submit (\<^verbatim>\<open>identity.go\<close>,
  \<^verbatim>\<open>password.go\<close>, \<^verbatim>\<open>theme.go\<close>, and the display-name rule of \<^verbatim>\<open>signup.go\<close>): what an
  accepted value is guaranteed to look like, and which inputs are refused.
\<close>

definition maxEmailLength :: nat where "maxEmailLength = 255"
definition maxUsernameLength :: nat where "maxUsernameLength = 32"
definition maxDisplayNameLength :: nat where "maxDisplayNameLength = 255"
definition MinimumPasswordLength :: nat where "MinimumPasswordLength = 8"
definition MaximumPasswordLength :: nat where "MaximumPasswordLength = 128"

lemmas length_limits = maxEmailLength_def maxUsernameLength_def maxDisplayNameLength_def
  MinimumPasswordLength_def MaximumPasswordLength_def

definition NormalizeEmail :: "golib \<Rightarrow> string \<Rightarrow> error + string" where
  "NormalizeEmail L raw =
     (let normalized = ToLower L (TrimSpace raw) in
      if normalized = [] then Inr []
      else if maxEmailLength < RuneCountInString normalized then Inl (Account ErrInvalidEmail)
      else if ParseAddress L normalized \<noteq> Some normalized then Inl (Account ErrInvalidEmail)
      else Inr normalized)"

definition username_rune_ok :: "nat \<Rightarrow> bool" where
  "username_rune_ok character \<longleftrightarrow> \<not> (character = 64 \<or> IsSpace character)"

definition NormalizeUsername :: "golib \<Rightarrow> string \<Rightarrow> error + string" where
  "NormalizeUsername L raw =
     (let normalized = ToLower L (TrimSpace raw) in
      if normalized = [] then Inr []
      else if maxUsernameLength < RuneCountInString normalized then Inl (Account ErrInvalidUsername)
      else if \<not> list_all username_rune_ok (runes normalized) then Inl (Account ErrInvalidUsername)
      else Inr normalized)"

definition ValidatePassword :: "string \<Rightarrow> error + unit" where
  "ValidatePassword password =
     (if \<not> ValidString password then Inl (Account ErrInvalidPassword)
      else let length = RuneCountInString password in
        if length < MinimumPasswordLength then Inl (Account ErrPasswordTooShort)
        else if MaximumPasswordLength < length then Inl (Account ErrPasswordTooLong)
        else Inr ())"

definition normalizeDisplayName :: "string \<Rightarrow> error + string" where
  "normalizeDisplayName raw =
     (let displayName = TrimSpace raw in
      if maxDisplayNameLength < RuneCountInString displayName then Inl (Account ErrInvalidDisplayName)
      else Inr displayName)"

definition normalizeTheme :: "golib \<Rightarrow> string \<Rightarrow> error + string" where
  "normalizeTheme L raw =
     (let theme = ToLower L (TrimSpace raw) in
      if theme \<noteq> ''light'' \<and> theme \<noteq> ''dark'' then Inl (Account ErrInvalidTheme)
      else Inr theme)"

text \<open>\<^verbatim>\<open>optionalString\<close> / \<^verbatim>\<open>optionalNormalized\<close>: an empty value clears the nullable field.\<close>

definition optionalString :: "string \<Rightarrow> string option" where
  "optionalString value = (if value = [] then None else Some value)"

text \<open>
  The concrete library used by the worked examples: ASCII-only case folding, an address
  parser accepting any text with an \<open>@\<close>, and a digest that pads or cuts to 64 characters.
\<close>

definition ascii_lib :: golib where
  "ascii_lib = \<lparr>
     unicode_lower = (\<lambda>r. r), unicode_upper = (\<lambda>r. r),
     pg_lower = (\<lambda>s. map (\<lambda>c. char_of (ascii_lower (of_char c))) s),
     ParseAddress = (\<lambda>s. if CHR ''@'' \<in> set s then Some s else None),
     ParseAddr = (\<lambda>s. if s = ''::1'' then Some (Addr6 1 []) else None),
     addr_String = (\<lambda>a. ''addr''),
     sha256_hex = (\<lambda>s. take 64 (s @ replicate 64 (CHR ''0'')))\<rparr>"

text \<open>What the code relies on of the digest: 64 hexadecimal digits.\<close>

definition sha256_ok :: "golib \<Rightarrow> bool" where
  "sha256_ok L \<longleftrightarrow> (\<forall>s. length (sha256_hex L s) = 64)"

lemma sha256_ok_ascii_lib [simp]: "sha256_ok ascii_lib"
  by (auto simp: sha256_ok_def ascii_lib_def min_def)

lemma pg_lower_ascii_lib:
  "list_all (\<lambda>c. \<not> (65 \<le> (of_char c :: nat) \<and> (of_char c :: nat) \<le> 90)) s \<Longrightarrow> pg_lower ascii_lib s = s"
  by (induction s) (auto simp: ascii_lib_def ascii_lower_def)

section \<open>What acceptance guarantees\<close>

lemma NormalizeUsername_Inr:
  assumes "NormalizeUsername L raw = Inr u"
  shows "u = ToLower L (TrimSpace raw)" "RuneCountInString u \<le> maxUsernameLength"
    "\<forall>r \<in> set (runes u). r \<noteq> 64 \<and> \<not> IsSpace r"
  using assms
  by (auto simp: NormalizeUsername_def Let_def RuneCountInString_def list_all_iff username_rune_ok_def
      split: if_splits)

lemma NormalizeEmail_Inr:
  assumes "NormalizeEmail L raw = Inr e"
  shows "e = ToLower L (TrimSpace raw)" "RuneCountInString e \<le> maxEmailLength"
    "e \<noteq> [] \<Longrightarrow> ParseAddress L e = Some e"
  using assms
  by (auto simp: NormalizeEmail_def Let_def RuneCountInString_def split: if_splits)

lemma ValidatePassword_Inr_iff:
  "ValidatePassword p = Inr () \<longleftrightarrow>
     ValidString p \<and> MinimumPasswordLength \<le> RuneCountInString p
       \<and> RuneCountInString p \<le> MaximumPasswordLength"
  by (auto simp: ValidatePassword_def Let_def split: if_splits)

lemma normalizeTheme_Inr: "normalizeTheme L raw = Inr t \<Longrightarrow> t = ''light'' \<or> t = ''dark''"
  by (auto simp: normalizeTheme_def Let_def split: if_splits)

lemma optionalString_eq_Some [simp]: "optionalString v = Some x \<longleftrightarrow> v = x \<and> v \<noteq> []"
  by (auto simp: optionalString_def)

text \<open>An identifier that was normalised once is accepted unchanged, for ASCII input.\<close>

lemma space_encodings_ascii_head:
  "\<forall>e \<in> set space_encodings. e \<noteq> [] \<and> (of_char (hd e) < (0x80 :: nat) \<longrightarrow> length e = 1)"
  by (simp add: space_encodings_def space_runes_def encode_rune_def)

lemma is_ascii_TrimSpace: "is_ascii s \<Longrightarrow> is_ascii (TrimSpace s)"
proof -
  assume a: "is_ascii s"
  have "set (TrimSpace s) \<subseteq> set s"
    using set_mono_prefix [OF TrimRightSpace_prefix [of "TrimLeftSpace s"]]
      set_mono_suffix [OF strip_front_suffix [of space_encodings s]]
    by (auto simp: TrimSpace_def TrimLeftSpace_def)
  with a show ?thesis by (auto simp: is_ascii_def)
qed

end
