(* ===== verification/RateLimit.thy ===== *)
theory RateLimit
  imports Identity
begin

text \<open>
  Fixed-window rate limiting (\<^verbatim>\<open>internal/service/rate_limit.go\<close>): the limiter over any store of
  attempt counters, its administrator views, and the keys it uses. The contract of a store is
  a locale; what the limiter guarantees on top of it is proved there once and holds for the
  in-memory and for the PostgreSQL store.
\<close>

section \<open>Data\<close>

definition maxRateLimitKeyLength :: nat where "maxRateLimitKeyLength = 255"

record rate_limit_config =
  rcLimit :: int
  rcWindow :: int
  rcMaxKeys :: int

record rate_limit_decision =
  dAllowed :: bool
  dRemaining :: int
  dRetryAfter :: int

record rate_limit_hit =
  hCount :: int
  hStarted :: int

text \<open>The zero \<^verbatim>\<open>RateLimitHit\<close>: no live window. Times are nanoseconds.\<close>

definition no_hit :: rate_limit_hit where
  "no_hit = \<lparr>hCount = 0, hStarted = 0\<rparr>"

record stored_bucket =
  sbAction :: string
  sbKeyHint :: string
  sbCount :: int
  sbStarted :: int

text \<open>\<^verbatim>\<open>RateLimitStore\<close>, the interface; every method takes the time it needs.\<close>

record 's rate_limit_store =
  st_Hit :: "string \<Rightarrow> string \<Rightarrow> string \<Rightarrow> int \<Rightarrow> int \<Rightarrow> ('s, rate_limit_hit) act"
  st_Get :: "string \<Rightarrow> string \<Rightarrow> int \<Rightarrow> ('s, rate_limit_hit) act"
  st_Clear :: "string \<Rightarrow> string \<Rightarrow> ('s, unit) act"
  st_List :: "int \<Rightarrow> ('s, stored_bucket list) act"
  st_ClearAction :: "string \<Rightarrow> ('s, int) act"
  st_ClearAll :: "('s, int) act"

text \<open>\<^verbatim>\<open>RateLimiter\<close>; the clock is passed to the operations that read it.\<close>

record 's rate_limiter =
  rlConfig :: rate_limit_config
  rlStore :: "'s rate_limit_store"

definition NewRateLimiterWithStore :: "rate_limit_config \<Rightarrow> 's rate_limit_store \<Rightarrow> error + 's rate_limiter" where
  "NewRateLimiterWithStore config store =
     (if rcLimit config \<le> 0 \<or> rcWindow config \<le> 0 then Inl (Auth ErrInvalidRateLimitConfig)
      else Inr \<lparr>rlConfig = config, rlStore = store\<rparr>)"

record rate_limit_action_info =
  aiAction :: string
  aiLimit :: int
  aiWindow :: int
  aiBuckets :: int
  aiLocked :: int

record rate_limit_bucket_info =
  biAction :: string
  biKeyHint :: string
  biCount :: int
  biLimit :: int
  biRetryAfter :: int

record rate_limit_snapshot =
  snCount :: int
  snLimit :: int
  snRetryAfter :: int

section \<open>Keys\<close>

definition validateRateLimitKey :: "string \<Rightarrow> error + unit" where
  "validateRateLimitKey value =
     (if TrimSpace value = [] \<or> maxRateLimitKeyLength < length value \<or> contains_control value
      then Inl (Auth ErrInvalidRateLimitKey) else Inr ())"

definition redactRateLimitKey :: "string \<Rightarrow> string" where
  "redactRateLimitKey key =
     (let rs = runes key in
      if length rs \<le> 2 then replicate (length rs) (CHR ''*'')
      else encode_rune (hd rs) @ replicate (length rs - 2) (CHR ''*'') @ encode_rune (last rs))"

text \<open>\<^verbatim>\<open>netip.Addr.Unmap\<close>: an IPv4-mapped IPv6 address becomes the IPv4 address.\<close>

definition unmap :: "netip_addr \<Rightarrow> netip_addr" where
  "unmap a = (case a of
       Addr4 v \<Rightarrow> Addr4 v
     | Addr6 v zone \<Rightarrow> if drop_bit 32 v = 0xFFFF then Addr4 (ucast v) else Addr6 v zone)"

definition addr_zone :: "netip_addr \<Rightarrow> string" where
  "addr_zone a = (case a of Addr4 _ \<Rightarrow> [] | Addr6 _ zone \<Rightarrow> zone)"

text \<open>\<^verbatim>\<open>Addr.Prefix(64)\<close>: the low 64 bits are cleared.\<close>

definition mask64 :: "128 word \<Rightarrow> 128 word" where
  "mask64 v = push_bit 64 (drop_bit 64 v)"

definition originRateLimitKey :: "golib \<Rightarrow> string \<Rightarrow> string" where
  "originRateLimitKey L origin =
     (case ParseAddr L origin of
        None \<Rightarrow> origin
      | Some addr \<Rightarrow>
          if addr_zone addr \<noteq> [] then origin
          else (case unmap addr of
              Addr4 v \<Rightarrow> addr_String L (Addr4 v)
            | Addr6 v _ \<Rightarrow> addr_String L (Addr6 (mask64 v) []) @ ''/64''))"

section \<open>The limiter\<close>

definition retryAfter :: "'s rate_limiter \<Rightarrow> int \<Rightarrow> int \<Rightarrow> int" where
  "retryAfter l started now = rcWindow (rlConfig l) - (now - started)"

definition Allow :: "'s rate_limiter \<Rightarrow> int \<Rightarrow> string \<Rightarrow> string \<Rightarrow> ('s, rate_limit_decision) act" where
  "Allow l now action key =
     check (validateRateLimitKey action) id (\<lambda>_.
     check (validateRateLimitKey key) id (\<lambda>_.
     call (st_Hit (rlStore l) action key (redactRateLimitKey key) (rcWindow (rlConfig l)) now) id (\<lambda>hit.
     if rcLimit (rlConfig l) < hCount hit
     then ret \<lparr>dAllowed = False, dRemaining = 0, dRetryAfter = retryAfter l (hStarted hit) now\<rparr>
     else ret \<lparr>dAllowed = True, dRemaining = rcLimit (rlConfig l) - hCount hit, dRetryAfter = 0\<rparr>)))"

definition Clear :: "'s rate_limiter \<Rightarrow> string \<Rightarrow> string \<Rightarrow> ('s, unit) act" where
  "Clear l action key =
     check (validateRateLimitKey action) id (\<lambda>_.
     check (validateRateLimitKey key) id (\<lambda>_.
     st_Clear (rlStore l) action key))"

definition live :: "'s rate_limiter \<Rightarrow> int \<Rightarrow> ('s, stored_bucket list) act" where
  "live l now = attempt (st_List (rlStore l) now) (\<lambda>r. case r of Inl _ \<Rightarrow> ret [] | Inr buckets \<Rightarrow> ret buckets)"

definition LockedCount :: "'s rate_limiter \<Rightarrow> int \<Rightarrow> ('s, int) act" where
  "LockedCount l now = call (live l now) id (\<lambda>buckets.
     ret (int (length (filter (\<lambda>b. rcLimit (rlConfig l) \<le> sbCount b) buckets))))"

text \<open>One step of the loop of \<^verbatim>\<open>Actions\<close>: the entry of the bucket's action is found or appended.\<close>

fun tally :: "rate_limit_config \<Rightarrow> stored_bucket \<Rightarrow> rate_limit_action_info list \<Rightarrow> rate_limit_action_info list" where
  "tally c b [] =
     [\<lparr>aiAction = sbAction b, aiLimit = rcLimit c, aiWindow = rcWindow c, aiBuckets = 1,
       aiLocked = (if rcLimit c \<le> sbCount b then 1 else 0)\<rparr>]"
| "tally c b (a # as) =
     (if aiAction a = sbAction b
      then a\<lparr>aiBuckets := aiBuckets a + 1,
             aiLocked := (if rcLimit c \<le> sbCount b then aiLocked a + 1 else aiLocked a)\<rparr> # as
      else a # tally c b as)"

definition Actions :: "'s rate_limiter \<Rightarrow> int \<Rightarrow> ('s, rate_limit_action_info list) act" where
  "Actions l now = call (live l now) id (\<lambda>buckets.
     ret (order_by (\<lambda>a b. string_less (aiAction a) (aiAction b))
       (foldl (\<lambda>as b. tally (rlConfig l) b as) [] buckets)))"

definition Buckets :: "'s rate_limiter \<Rightarrow> int \<Rightarrow> string \<Rightarrow> ('s, rate_limit_bucket_info list) act" where
  "Buckets l now action =
     check (validateRateLimitKey action) id (\<lambda>_.
     call (st_List (rlStore l) now) id (\<lambda>stored.
     ret (order_by (\<lambda>a b. biCount b < biCount a)
       (map (\<lambda>b. \<lparr>biAction = sbAction b, biKeyHint = sbKeyHint b,
                biCount = min (sbCount b) (rcLimit (rlConfig l)), biLimit = rcLimit (rlConfig l),
                biRetryAfter = retryAfter l (sbStarted b) now\<rparr>)
          (filter (\<lambda>b. sbAction b = action) stored)))))"

definition ClearAction :: "'s rate_limiter \<Rightarrow> string \<Rightarrow> ('s, int) act" where
  "ClearAction l action =
     check (validateRateLimitKey action) id (\<lambda>_. st_ClearAction (rlStore l) action)"

definition ClearAll :: "'s rate_limiter \<Rightarrow> ('s, int) act" where
  "ClearAll l = st_ClearAll (rlStore l)"

definition Snapshot :: "'s rate_limiter \<Rightarrow> int \<Rightarrow> string \<Rightarrow> string \<Rightarrow> ('s, rate_limit_snapshot) act" where
  "Snapshot l now action key =
     check (validateRateLimitKey action) id (\<lambda>_.
     check (validateRateLimitKey key) id (\<lambda>_.
     call (st_Get (rlStore l) action key now) id (\<lambda>hit.
     if 0 < hCount hit
     then ret \<lparr>snCount = min (hCount hit) (rcLimit (rlConfig l)), snLimit = rcLimit (rlConfig l),
            snRetryAfter = retryAfter l (hStarted hit) now\<rparr>
     else ret \<lparr>snCount = 0, snLimit = rcLimit (rlConfig l), snRetryAfter = 0\<rparr>)))"

text \<open>
  A sequence of attempts at one key, as a caller makes them: how many were allowed, and the
  store afterwards. An attempt the store failed to count is not allowed.
\<close>

fun attempts :: "'s rate_limiter \<Rightarrow> string \<Rightarrow> string \<Rightarrow> int list \<Rightarrow> 's \<Rightarrow> int \<times> 's" where
  "attempts l action key [] s = (0, s)"
| "attempts l action key (t # ts) s =
     (case Allow l t action key s of
        (Inl _, s') \<Rightarrow> attempts l action key ts s'
      | (Inr d, s') \<Rightarrow> (case attempts l action key ts s' of
            (n, s'') \<Rightarrow> ((if dAllowed d then n + 1 else n), s'')))"

text \<open>Whether the store answered every one of these attempts.\<close>

fun answered :: "'s rate_limiter \<Rightarrow> string \<Rightarrow> string \<Rightarrow> int list \<Rightarrow> 's \<Rightarrow> bool" where
  "answered l action key [] s = True"
| "answered l action key (t # ts) s =
     (case Allow l t action key s of (Inl _, s') \<Rightarrow> False | (Inr _, s') \<Rightarrow> answered l action key ts s')"

text \<open>Attempts at arbitrary keys of one limiter, in order.\<close>

fun traffic :: "'s rate_limiter \<Rightarrow> (int \<times> string \<times> string) list \<Rightarrow> 's \<Rightarrow> 's" where
  "traffic l [] s = s"
| "traffic l ((t, action, key) # rest) s = traffic l rest (snd (Allow l t action key s))"

section \<open>The contract of a store\<close>

text \<open>
  A live window as the store keeps it: its count, when it started and when it ends
  (exclusive), in nanoseconds.
\<close>

record rate_window =
  wCount :: int
  wStarted :: int
  wExpires :: int

definition in_window :: "int \<Rightarrow> rate_window option \<Rightarrow> bool" where
  "in_window now q \<longleftrightarrow> (case q of None \<Rightarrow> False | Some v \<Rightarrow> now < wExpires v)"

lemma in_window_Some [simp]: "in_window now (Some v) \<longleftrightarrow> now < wExpires v"
  and in_window_None [simp]: "\<not> in_window now None"
  by (simp_all add: in_window_def)

text \<open>
  \<open>window_of\<close> reads the stored window of an action and key, \<open>same\<close> tells which pairs share
  one, \<open>inv\<close> is the store's own invariant and \<open>cap\<close> the count from which a window may not be
  dropped to make room. A hit continues a window that is live, opens one otherwise, never
  disturbs another key's live window that has reached the cap, and a failed hit loses none.
\<close>

locale rate_limit_store =
  fixes store :: "'s rate_limit_store"
    and window_of :: "'s \<Rightarrow> string \<Rightarrow> string \<Rightarrow> rate_window option"
    and inv :: "'s \<Rightarrow> bool"
    and same_key :: "string \<Rightarrow> string \<Rightarrow> string \<Rightarrow> string \<Rightarrow> bool"
    and cap :: int
  assumes hit_inv: "inv s \<Longrightarrow> st_Hit store a k h win now s = (r, s') \<Longrightarrow> inv s'"
    and hit_live: "inv s \<Longrightarrow> st_Hit store a k h win now s = (Inr x, s') \<Longrightarrow>
        window_of s a k = Some v \<Longrightarrow> now < wExpires v \<Longrightarrow>
        hCount x = wCount v + 1 \<and> hStarted x = wStarted v
        \<and> window_of s' a k = Some (v\<lparr>wCount := wCount v + 1\<rparr>)"
    and hit_fresh: "inv s \<Longrightarrow> st_Hit store a k h win now s = (Inr x, s') \<Longrightarrow>
        \<not> in_window now (window_of s a k) \<Longrightarrow> 0 < win \<Longrightarrow>
        \<exists>v. window_of s' a k = Some v \<and> wCount v = 1 \<and> hCount x = 1 \<and> hStarted x = wStarted v
          \<and> wStarted v \<le> now \<and> now < wExpires v \<and> wExpires v \<le> now + win"
    and hit_other: "inv s \<Longrightarrow> st_Hit store a k h win now s = (r, s') \<Longrightarrow> \<not> same_key a k a' k' \<Longrightarrow>
        window_of s a' k' = Some v \<Longrightarrow> now < wExpires v \<Longrightarrow> cap \<le> wCount v \<Longrightarrow>
        window_of s' a' k' = Some v"
    and hit_failed: "inv s \<Longrightarrow> st_Hit store a k h win now s = (Inl e, s') \<Longrightarrow>
        window_of s a' k' = Some v \<Longrightarrow> now < wExpires v \<Longrightarrow> window_of s' a' k' = Some v"
    and same_key_eq: "same_key a k a' k' \<Longrightarrow> window_of s a' k' = window_of s a k"
    and clear_gone: "inv s \<Longrightarrow> st_Clear store a k s = (Inr (), s') \<Longrightarrow> inv s' \<and> window_of s' a k = None"
begin

text \<open>The decision on one attempt, and what it leaves behind.\<close>

lemma Allow_live:
  assumes "rlStore l = store" "inv s" "window_of s a k = Some v" "now < wExpires v"
    and "Allow l now a k s = (Inr d, s')"
  shows "dAllowed d \<longleftrightarrow> wCount v < rcLimit (rlConfig l)"
    and "window_of s' a k = Some (v\<lparr>wCount := wCount v + 1\<rparr>)" and "inv s'"
    and "\<not> dAllowed d \<Longrightarrow> dRetryAfter d = rcWindow (rlConfig l) - (now - wStarted v)"
    and "dAllowed d \<Longrightarrow> dRemaining d = rcLimit (rlConfig l) - (wCount v + 1)"
proof -
  from assms obtain x where x: "st_Hit store a k (redactRateLimitKey k) (rcWindow (rlConfig l)) now s = (Inr x, s')"
    and d: "d = (if rcLimit (rlConfig l) < hCount x
      then \<lparr>dAllowed = False, dRemaining = 0, dRetryAfter = retryAfter l (hStarted x) now\<rparr>
      else \<lparr>dAllowed = True, dRemaining = rcLimit (rlConfig l) - hCount x, dRetryAfter = 0\<rparr>)"
    by (auto simp: Allow_def split: if_splits)
  note h = hit_live [OF assms(2) x assms(3,4)]
  show "dAllowed d \<longleftrightarrow> wCount v < rcLimit (rlConfig l)" using h d by auto
  show "window_of s' a k = Some (v\<lparr>wCount := wCount v + 1\<rparr>)" using h by simp
  show "inv s'" using hit_inv [OF assms(2) x] .
  show "\<not> dAllowed d \<Longrightarrow> dRetryAfter d = rcWindow (rlConfig l) - (now - wStarted v)"
    using h d by (auto simp: retryAfter_def split: if_splits)
  show "dAllowed d \<Longrightarrow> dRemaining d = rcLimit (rlConfig l) - (wCount v + 1)"
    using h d by (auto split: if_splits)
qed

lemma Allow_Inl:
  assumes "rlStore l = store" "inv s" "Allow l now a k s = (Inl e, s')"
  shows "inv s'" and "window_of s a' k' = Some v \<Longrightarrow> now < wExpires v \<Longrightarrow> window_of s' a' k' = Some v"
proof -
  have "s' = s \<or> (\<exists>e'. st_Hit store a k (redactRateLimitKey k) (rcWindow (rlConfig l)) now s = (Inl e', s'))"
    using assms(1,3)
    by (auto simp: Allow_def check_def call_def ret_def split: sum.splits prod.splits if_splits)
  then show "inv s'" and "window_of s a' k' = Some v \<Longrightarrow> now < wExpires v \<Longrightarrow> window_of s' a' k' = Some v"
    using assms(2) hit_inv hit_failed by blast+
qed

lemma Allow_fresh:
  assumes "rlStore l = store" "inv s" "\<not> in_window now (window_of s a k)" "0 < rcWindow (rlConfig l)"
    and "0 < rcLimit (rlConfig l)" and "Allow l now a k s = (Inr d, s')"
  obtains v where "dAllowed d" "inv s'" "window_of s' a k = Some v" "wCount v = 1"
    "now < wExpires v" "wExpires v \<le> now + rcWindow (rlConfig l)" "wStarted v \<le> now"
proof -
  from assms obtain x where x: "st_Hit store a k (redactRateLimitKey k) (rcWindow (rlConfig l)) now s = (Inr x, s')"
    and d: "dAllowed d \<longleftrightarrow> \<not> rcLimit (rlConfig l) < hCount x"
    by (auto simp: Allow_def split: if_splits)
  from hit_fresh [OF assms(2) x assms(3,4)] hit_inv [OF assms(2) x] d assms(5) that
  show thesis by auto
qed

text \<open>
  Within one window the limiter allows no more than what is left of the limit, whatever the
  store answers in between; when it answers every time, exactly that much.
\<close>

lemma attempts_bound:
  assumes "rlStore l = store"
  shows "inv s \<Longrightarrow> window_of s a k = Some v \<Longrightarrow> list_all (\<lambda>t. t < wExpires v) ts \<Longrightarrow>
    attempts l a k ts s = (n, s') \<Longrightarrow> 0 \<le> n \<and> n \<le> max 0 (rcLimit (rlConfig l) - wCount v)"
proof (induction ts arbitrary: s v n)
  case (Cons t ts)
  obtain r s1 where r: "Allow l t a k s = (r, s1)" by (cases "Allow l t a k s")
  show ?case
  proof (cases r)
    case (Inl e)
    from Allow_Inl [OF assms Cons.prems(1) r [unfolded Inl]] Cons.prems(2,3)
    have "inv s1" "window_of s1 a k = Some v" by auto
    with Cons r Inl show ?thesis by simp
  next
    case (Inr d)
    note al = Allow_live [OF assms Cons.prems(1,2) _ r [unfolded Inr]]
    from Cons.prems(4) r Inr obtain m where m: "attempts l a k ts s1 = (m, s')"
      and n: "n = (if dAllowed d then m + 1 else m)" by (auto split: prod.splits)
    have "0 \<le> m \<and> m \<le> max 0 (rcLimit (rlConfig l) - (wCount v + 1))"
      using Cons.IH [OF al(3,2) _ m] Cons.prems(3) by simp
    with al(1) Cons.prems(3) n show ?thesis by auto
  qed
qed simp

lemma attempts_exact:
  assumes "rlStore l = store"
  shows "inv s \<Longrightarrow> window_of s a k = Some v \<Longrightarrow> list_all (\<lambda>t. t < wExpires v) ts \<Longrightarrow> answered l a k ts s \<Longrightarrow>
    fst (attempts l a k ts s) = min (int (length ts)) (max 0 (rcLimit (rlConfig l) - wCount v))"
proof (induction ts arbitrary: s v)
  case (Cons t ts)
  obtain d s1 where r: "Allow l t a k s = (Inr d, s1)" and an: "answered l a k ts s1"
    using Cons.prems(4) by (auto split: prod.splits sum.splits)
  have t: "t < wExpires v" and ts: "list_all (\<lambda>t. t < wExpires v) ts" using Cons.prems(3) by simp_all
  note al = Allow_live [OF assms Cons.prems(1,2) t r]
  have "fst (attempts l a k ts s1) = min (int (length ts)) (max 0 (rcLimit (rlConfig l) - (wCount v + 1)))"
    using Cons.IH [OF al(3,2) _ an] ts by simp
  moreover have "fst (attempts l a k (t # ts) s) =
      (if dAllowed d then fst (attempts l a k ts s1) + 1 else fst (attempts l a k ts s1))"
    using r by (simp split: prod.splits)
  ultimately show ?case using al(1) by auto
qed simp

text \<open>The budget of one window, from the attempt that opens it.\<close>

lemma window_budget:
  assumes "rlStore l = store" "0 < rcWindow (rlConfig l)" "0 < rcLimit (rlConfig l)"
    and "inv s" "\<not> in_window t (window_of s a k)" "Allow l t a k s = (Inr d, s1)"
    and "window_of s1 a k = Some v" "list_all (\<lambda>u. u < wExpires v) ts"
  shows "fst (attempts l a k (t # ts) s) \<le> rcLimit (rlConfig l)"
    and "answered l a k (t # ts) s \<Longrightarrow>
      fst (attempts l a k (t # ts) s) = min (int (length (t # ts))) (rcLimit (rlConfig l))"
    and "t < wExpires v" and "wExpires v \<le> t + rcWindow (rlConfig l)"
proof -
  obtain v' where v': "dAllowed d" "inv s1" "window_of s1 a k = Some v'" "wCount v' = 1"
    "t < wExpires v'" "wExpires v' \<le> t + rcWindow (rlConfig l)"
    by (rule Allow_fresh [OF assms(1,4,5,2,3,6)])
  have v: "wCount v = 1" using v'(3,4) assms(7) by simp
  obtain n s2 where n: "attempts l a k ts s1 = (n, s2)" by (cases "attempts l a k ts s1")
  have all: "fst (attempts l a k (t # ts) s) = n + 1" using assms(6) v'(1) n by simp
  have "n \<le> max 0 (rcLimit (rlConfig l) - 1)"
    using attempts_bound [OF assms(1) v'(2) assms(7,8) n] v by simp
  then show "fst (attempts l a k (t # ts) s) \<le> rcLimit (rlConfig l)" using all assms(3) by simp
  show "t < wExpires v" "wExpires v \<le> t + rcWindow (rlConfig l)" using v' assms(7) by simp_all
  assume "answered l a k (t # ts) s"
  then have "answered l a k ts s1" using assms(6) by simp
  from attempts_exact [OF assms(1) v'(2) assms(7,8) this] n all v assms(3)
  show "fst (attempts l a k (t # ts) s) = min (int (length (t # ts))) (rcLimit (rlConfig l))" by auto
qed

text \<open>A window at its cap stays, and with it the refusal, whatever other keys do.\<close>

lemma traffic_keeps_blocked:
  assumes "rlStore l = store" "cap \<le> rcLimit (rlConfig l)"
  shows "inv s \<Longrightarrow> window_of s a k = Some v \<Longrightarrow> cap \<le> wCount v \<Longrightarrow>
    list_all (\<lambda>(t, _, _). t < wExpires v) ops \<Longrightarrow>
    \<exists>c. wCount v \<le> c \<and> inv (traffic l ops s) \<and> window_of (traffic l ops s) a k = Some (v\<lparr>wCount := c\<rparr>)"
proof (induction ops arbitrary: s v)
  case Nil
  then show ?case by (auto intro!: exI [of _ "wCount v"])
next
  case (Cons op ops)
  obtain t b j where op: "op = (t, b, j)" by (cases op)
  obtain r s1 where r: "Allow l t b j s = (r, s1)" by (cases "Allow l t b j s")
  have t: "t < wExpires v" using Cons.prems(4) op by simp
  have "\<exists>c. wCount v \<le> c \<and> inv s1 \<and> window_of s1 a k = Some (v\<lparr>wCount := c\<rparr>)"
  proof (cases r)
    case (Inl e)
    with Allow_Inl [OF assms(1) Cons.prems(1) r [unfolded Inl]] Cons.prems(2) t show ?thesis
      by (auto intro!: exI [of _ "wCount v"])
  next
    case (Inr d)
    show ?thesis
    proof (cases "same_key b j a k")
      case True
      with Cons.prems(2) have "window_of s b j = Some v" using same_key_eq by simp
      from Allow_live(2,3) [OF assms(1) Cons.prems(1) this t r [unfolded Inr]] True same_key_eq
      show ?thesis by (auto intro!: exI [of _ "wCount v + 1"])
    next
      case False
      from r Inr assms(1) obtain x where
        "st_Hit store b j (redactRateLimitKey j) (rcWindow (rlConfig l)) t s = (Inr x, s1)"
        by (auto simp: Allow_def split: if_splits)
      with hit_other [OF Cons.prems(1) this False Cons.prems(2) t Cons.prems(3)] hit_inv [OF Cons.prems(1)]
      show ?thesis by (auto intro!: exI [of _ "wCount v"])
    qed
  qed
  then obtain c where c: "wCount v \<le> c" "inv s1" "window_of s1 a k = Some (v\<lparr>wCount := c\<rparr>)" by blast
  from Cons.IH [OF c(2,3)] c(1) Cons.prems(3,4) op
  obtain c' where "c \<le> c'" "inv (traffic l ops s1)"
    "window_of (traffic l ops s1) a k = Some (v\<lparr>wCount := c'\<rparr>)" by auto
  with c(1) op r show ?case by (auto intro!: exI [of _ c'])
qed

lemma blocked_until_expiry:
  assumes "rlStore l = store" "cap \<le> rcLimit (rlConfig l)" "inv s" "window_of s a k = Some v"
    and "rcLimit (rlConfig l) \<le> wCount v" "list_all (\<lambda>(t, _, _). t < wExpires v) ops" "now < wExpires v"
    and "Allow l now a k (traffic l ops s) = (Inr d, s')"
  shows "\<not> dAllowed d"
proof -
  from assms(2,5) have "cap \<le> wCount v" by linarith
  from traffic_keeps_blocked [OF assms(1,2,3,4) this assms(6)]
  obtain c where c: "wCount v \<le> c" "inv (traffic l ops s)"
    "window_of (traffic l ops s) a k = Some (v\<lparr>wCount := c\<rparr>)" by blast
  from Allow_live(1) [OF assms(1) c(2,3) _ assms(8)] c(1) assms(5,7) show ?thesis by simp
qed

lemma cleared_is_fresh:
  assumes "rlStore l = store" "inv s" "Clear l a k s = (Inr (), s1)" "0 < rcWindow (rlConfig l)"
    and "0 < rcLimit (rlConfig l)" "Allow l now a k s1 = (Inr d, s2)"
  shows "dAllowed d"
proof -
  have "st_Clear store a k s = (Inr (), s1)" using assms(1,3) by (auto simp: Clear_def)
  with clear_gone [OF assms(2)] have i: "inv s1" and "window_of s1 a k = None" by auto
  then have f: "\<not> in_window now (window_of s1 a k)" by simp
  show ?thesis by (rule Allow_fresh [OF assms(1) i f assms(4,5,6)])
qed

end

section \<open>Keys: what they reveal and what they group\<close>

lemma length_redact:
  "length (runes key) \<le> 2 \<Longrightarrow> redactRateLimitKey key = replicate (length (runes key)) (CHR ''*'')"
  by (simp add: redactRateLimitKey_def)

lemma redact_long:
  "2 < length (runes key) \<Longrightarrow>
    redactRateLimitKey key =
      encode_rune (hd (runes key)) @ replicate (length (runes key) - 2) (CHR ''*'') @ encode_rune (last (runes key))"
  by (simp add: redactRateLimitKey_def Let_def)

lemma tally_actions:
  "aiAction ` set (tally c b as) = insert (sbAction b) (aiAction ` set as)"
  by (induction as) auto

lemma tally_distinct: "distinct (map aiAction as) \<Longrightarrow> distinct (map aiAction (tally c b as))"
proof (induction as)
  case (Cons a as)
  have "aiAction ` set (tally c b as) = insert (sbAction b) (aiAction ` set as)" by (rule tally_actions)
  with Cons show ?case by auto
qed simp

end
