(* ===== verification/RateLimitMemory.thy ===== *)
theory RateLimitMemory
  imports RateLimit "HOL-Library.AList"
begin

text \<open>
  The single-process store (\<^verbatim>\<open>internal/service/rate_limit_memory.go\<close>). Its map from composite keys
  to buckets is an association list with distinct keys, in the order a \<^verbatim>\<open>range\<close> over the Go map would
  visit it; every statement holds for all such lists, so for every iteration order. One
  operation runs under the mutex at a time.
\<close>

record memory_bucket =
  mbAction :: string
  mbHint :: string
  mbStarted :: int
  mbExpires :: int
  mbCount :: int

record memory_store =
  msLimit :: int
  msMaxKeys :: int
  msBuckets :: "(string \<times> memory_bucket) list"

definition newMemoryRateLimitStore :: "rate_limit_config \<Rightarrow> memory_store" where
  "newMemoryRateLimitStore config = \<lparr>msLimit = rcLimit config, msMaxKeys = rcMaxKeys config, msBuckets = []\<rparr>"

definition rateLimitCompositeKey :: "string \<Rightarrow> string \<Rightarrow> string" where
  "rateLimitCompositeKey action key = action @ [CHR 0x00] @ key"

definition pruneExpired :: "int \<Rightarrow> memory_store \<Rightarrow> memory_store" where
  "pruneExpired now m = m\<lparr>msBuckets := filter (\<lambda>(_, b). now < mbExpires b) (msBuckets m)\<rparr>"

text \<open>The scan for the oldest key that is not at its limit, with its running \<^verbatim>\<open>oldestKey, oldest\<close>.\<close>

fun oldest_unblocked :: "int \<Rightarrow> (string \<times> memory_bucket) list \<Rightarrow> string \<times> int \<Rightarrow> string \<times> int" where
  "oldest_unblocked limit [] acc = acc"
| "oldest_unblocked limit ((key, bucket) # rest) (oldestKey, oldest) =
     oldest_unblocked limit rest
       (if mbCount bucket < limit \<and> (oldestKey = [] \<or> mbStarted bucket < oldest)
        then (key, mbStarted bucket) else (oldestKey, oldest))"

definition evictOldestUnblocked :: "memory_store \<Rightarrow> bool \<times> memory_store" where
  "evictOldestUnblocked m =
     (let (oldestKey, _) = oldest_unblocked (msLimit m) (msBuckets m) ([], 0) in
      if oldestKey = [] then (False, m)
      else (True, m\<lparr>msBuckets := AList.delete oldestKey (msBuckets m)\<rparr>))"

definition memory_put :: "string \<Rightarrow> memory_bucket \<Rightarrow> (memory_store, rate_limit_hit) act" where
  "memory_put composite bucket m =
     (let bucket = bucket\<lparr>mbCount := mbCount bucket + 1\<rparr> in
      (Inr \<lparr>hCount = mbCount bucket, hStarted = mbStarted bucket\<rparr>,
       m\<lparr>msBuckets := AList.update composite bucket (msBuckets m)\<rparr>))"

definition memory_Hit :: "string \<Rightarrow> string \<Rightarrow> string \<Rightarrow> int \<Rightarrow> int \<Rightarrow> (memory_store, rate_limit_hit) act" where
  "memory_Hit action key hint window now m =
     (let m = pruneExpired now m;
          composite = rateLimitCompositeKey action key;
          new = \<lparr>mbAction = action, mbHint = hint, mbStarted = now, mbExpires = now + window, mbCount = 0\<rparr> in
      case map_of (msBuckets m) composite of
        Some bucket \<Rightarrow> memory_put composite bucket m
      | None \<Rightarrow>
          if msMaxKeys m \<le> int (length (msBuckets m)) then
            (case evictOldestUnblocked m of
               (False, m') \<Rightarrow> (Inl (Auth ErrRateLimitCapacity), m')
             | (True, m') \<Rightarrow> memory_put composite new m')
          else memory_put composite new m)"

definition memory_Get :: "string \<Rightarrow> string \<Rightarrow> int \<Rightarrow> (memory_store, rate_limit_hit) act" where
  "memory_Get action key now m =
     (case map_of (msBuckets m) (rateLimitCompositeKey action key) of
        None \<Rightarrow> (Inr no_hit, m)
      | Some bucket \<Rightarrow>
          if mbExpires bucket \<le> now then (Inr no_hit, m)
          else (Inr \<lparr>hCount = mbCount bucket, hStarted = mbStarted bucket\<rparr>, m))"

definition memory_Clear :: "string \<Rightarrow> string \<Rightarrow> (memory_store, unit) act" where
  "memory_Clear action key m =
     (Inr (), m\<lparr>msBuckets := AList.delete (rateLimitCompositeKey action key) (msBuckets m)\<rparr>)"

definition memory_List :: "int \<Rightarrow> (memory_store, stored_bucket list) act" where
  "memory_List now m =
     (let m = pruneExpired now m in
      (Inr (map (\<lambda>(_, b). \<lparr>sbAction = mbAction b, sbKeyHint = mbHint b, sbCount = mbCount b,
              sbStarted = mbStarted b\<rparr>) (msBuckets m)), m))"

definition memory_ClearAction :: "string \<Rightarrow> (memory_store, int) act" where
  "memory_ClearAction action m =
     (Inr (int (length (filter (\<lambda>(_, b). mbAction b = action) (msBuckets m)))),
      m\<lparr>msBuckets := filter (\<lambda>(_, b). mbAction b \<noteq> action) (msBuckets m)\<rparr>)"

definition memory_ClearAll :: "(memory_store, int) act" where
  "memory_ClearAll m = (Inr (int (length (msBuckets m))), m\<lparr>msBuckets := []\<rparr>)"

definition memoryRateLimitStore :: "memory_store rate_limit_store" where
  "memoryRateLimitStore = \<lparr>st_Hit = memory_Hit, st_Get = memory_Get, st_Clear = memory_Clear,
     st_List = memory_List, st_ClearAction = memory_ClearAction, st_ClearAll = memory_ClearAll\<rparr>"

text \<open>\<^verbatim>\<open>NewRateLimiter\<close>: the limiter over a fresh store, and the store.\<close>

definition NewRateLimiter :: "rate_limit_config \<Rightarrow> error + (memory_store rate_limiter \<times> memory_store)" where
  "NewRateLimiter config =
     (if rcLimit config \<le> 0 \<or> rcWindow config \<le> 0 \<or> rcMaxKeys config \<le> 0
      then Inl (Auth ErrInvalidRateLimitConfig)
      else Inr (\<lparr>rlConfig = config, rlStore = memoryRateLimitStore\<rparr>, newMemoryRateLimitStore config))"

section \<open>The store's invariant\<close>

text \<open>
  Distinct keys, never more than \<open>msMaxKeys\<close> of them, and no empty key (each holds the
  separator), so the empty string can mark \<open>no candidate\<close> in the eviction scan.
\<close>

definition memory_inv :: "int \<Rightarrow> memory_store \<Rightarrow> bool" where
  "memory_inv limit m \<longleftrightarrow> msLimit m = limit \<and> distinct (map fst (msBuckets m))
     \<and> map_of (msBuckets m) [] = None
     \<and> int (length (msBuckets m)) \<le> msMaxKeys m \<and> 0 < msMaxKeys m"

definition memory_window :: "memory_store \<Rightarrow> string \<Rightarrow> string \<Rightarrow> rate_window option" where
  "memory_window m action key =
     map_option (\<lambda>b. \<lparr>wCount = mbCount b, wStarted = mbStarted b, wExpires = mbExpires b\<rparr>)
       (map_of (msBuckets m) (rateLimitCompositeKey action key))"

lemma newMemoryRateLimitStore_inv:
  "0 < rcMaxKeys c \<Longrightarrow> memory_inv (rcLimit c) (newMemoryRateLimitStore c)"
  by (simp add: memory_inv_def newMemoryRateLimitStore_def)

lemma map_of_filter_snd:
  "distinct (map fst xs) \<Longrightarrow>
    map_of (filter (\<lambda>(_, b). P b) xs) k = (case map_of xs k of Some b \<Rightarrow> if P b then Some b else None | None \<Rightarrow> None)"
  by (induction xs) (auto simp: map_of_eq_None_iff split: option.splits dest!: map_of_SomeD)

lemma pruneExpired_inv: "memory_inv limit m \<Longrightarrow> memory_inv limit (pruneExpired now m)"
  by (auto simp: memory_inv_def pruneExpired_def distinct_map_filter map_of_filter_snd
      intro: order_trans [OF of_nat_mono [OF length_filter_le]])

lemma memory_window_pruned:
  "memory_inv limit m \<Longrightarrow> memory_window (pruneExpired now m) a k =
     (if in_window now (memory_window m a k) then memory_window m a k else None)"
  by (auto simp: memory_window_def pruneExpired_def memory_inv_def map_of_filter_snd in_window_def
      split: option.splits)

lemma oldest_unblocked_unblocked:
  assumes "oldest_unblocked limit xs (k0, t0) = (k, t)" and "k \<noteq> k0"
  shows "\<exists>b. (k, b) \<in> set xs \<and> mbCount b < limit"
  using assms
proof (induction xs arbitrary: k0 t0)
  case (Cons x xs)
  obtain key bucket where x: "x = (key, bucket)" by (cases x)
  show ?case
  proof (cases "mbCount bucket < limit \<and> (k0 = [] \<or> mbStarted bucket < t0)")
    case True
    with Cons x show ?thesis by (cases "k = key") auto
  next
    case False
    with Cons x show ?thesis by auto
  qed
qed simp

lemma length_delete_less: "(k, b) \<in> set xs \<Longrightarrow> length (AList.delete k xs) < length xs"
proof (induction xs)
  case (Cons x xs)
  then show ?case using length_delete_le [of k xs] by (auto simp: less_Suc_eq_le)
qed simp

lemma evict_keeps:
  assumes "memory_inv limit m" and "evictOldestUnblocked m = (ok, m')"
  shows "memory_inv limit m'"
    and "map_of (msBuckets m) c = Some b \<Longrightarrow> limit \<le> mbCount b \<Longrightarrow> map_of (msBuckets m') c = Some b"
    and "map_of (msBuckets m) c = None \<Longrightarrow> map_of (msBuckets m') c = None"
    and "\<not> ok \<Longrightarrow> m' = m" and "ok \<Longrightarrow> length (msBuckets m') < length (msBuckets m)"
    and "msMaxKeys m' = msMaxKeys m"
proof -
  obtain k t where o: "oldest_unblocked (msLimit m) (msBuckets m) ([], 0) = (k, t)"
    by (cases "oldest_unblocked (msLimit m) (msBuckets m) ([], 0)")
  with assms(2) have m': "if k = [] then \<not> ok \<and> m' = m
      else ok \<and> m' = m\<lparr>msBuckets := AList.delete k (msBuckets m)\<rparr>"
    by (auto simp: evictOldestUnblocked_def split: if_splits)
  have b: "\<exists>b. (k, b) \<in> set (msBuckets m) \<and> mbCount b < limit" if "k \<noteq> []"
    using oldest_unblocked_unblocked [OF o that] assms(1) by (simp add: memory_inv_def)
  show "memory_inv limit m'"
    using m' assms(1) length_delete_le [of k "msBuckets m"]
    by (auto simp: memory_inv_def distinct_delete delete_conv split: if_splits)
  show "map_of (msBuckets m') c = Some b" if "map_of (msBuckets m) c = Some b" "limit \<le> mbCount b" for c b
  proof (cases "k = []")
    case False
    with \<open>k \<noteq> [] \<Longrightarrow> _\<close> obtain b' where "(k, b') \<in> set (msBuckets m)" "mbCount b' < limit" by blast
    with assms(1) have "map_of (msBuckets m) k = Some b'" by (simp add: memory_inv_def)
    with that \<open>mbCount b' < limit\<close> have "c \<noteq> k" by auto
    with m' False that show ?thesis by (simp add: delete_conv)
  qed (use m' that in simp)
  show "map_of (msBuckets m) c = None \<Longrightarrow> map_of (msBuckets m') c = None"
    using m' by (auto simp: delete_conv split: if_splits)
  show "\<not> ok \<Longrightarrow> m' = m" using m' by (auto split: if_splits)
  show "ok \<Longrightarrow> length (msBuckets m') < length (msBuckets m)"
    using m' b length_delete_less [of k _ "msBuckets m"] by (auto split: if_splits)
  show "msMaxKeys m' = msMaxKeys m" using m' by (auto split: if_splits)
qed

lemma composite_nonempty [simp]: "rateLimitCompositeKey a k \<noteq> []"
  by (simp add: rateLimitCompositeKey_def)

text \<open>Without a zero byte in the action, different keys never share a bucket.\<close>

lemma composite_inj:
  assumes "CHR 0x00 \<notin> set a" "CHR 0x00 \<notin> set b"
    and "rateLimitCompositeKey a k = rateLimitCompositeKey b j"
  shows "a = b \<and> k = j"
proof -
  have "takeWhile (\<lambda>c. c \<noteq> CHR 0x00) (rateLimitCompositeKey x y) = x" if "CHR 0x00 \<notin> set x" for x y
    unfolding rateLimitCompositeKey_def using that by (induction x) auto
  with assms have "a = b" by metis
  with assms(3) show ?thesis by (simp add: rateLimitCompositeKey_def)
qed

lemma memory_put_run:
  "memory_put c b m = (Inr \<lparr>hCount = mbCount b + 1, hStarted = mbStarted b\<rparr>,
     m\<lparr>msBuckets := AList.update c (b\<lparr>mbCount := mbCount b + 1\<rparr>) (msBuckets m)\<rparr>)"
  by (simp add: memory_put_def)

lemma length_update_alist:
  "length (AList.update k v xs) = (if k \<in> fst ` set xs then length xs else Suc (length xs))"
  by (induction xs) auto

lemma memory_put_inv:
  assumes "memory_inv limit m" "c \<noteq> []"
    and "c \<in> fst ` set (msBuckets m) \<or> int (length (msBuckets m)) < msMaxKeys m"
    and "memory_put c b m = (r, m')"
  shows "memory_inv limit m'"
proof -
  let ?b = "b\<lparr>mbCount := mbCount b + 1\<rparr>"
  have "m' = m\<lparr>msBuckets := AList.update c ?b (msBuckets m)\<rparr>"
    using assms(4) by (simp add: memory_put_run)
  moreover have "distinct (map fst (AList.update c ?b (msBuckets m)))"
    using assms(1) by (simp add: memory_inv_def distinct_update)
  moreover have "int (length (AList.update c ?b (msBuckets m))) \<le> msMaxKeys m"
    using assms(1,3) by (auto simp only: memory_inv_def length_update_alist split: if_splits)
  ultimately show ?thesis
    using assms(1,2) by (simp add: memory_inv_def update_conv)
qed

text \<open>The three ways a hit can go: the live bucket is counted up, a new one is opened (after
  making room when the store is full), or the store is full of blocked keys.\<close>

lemma memory_Hit_cases:
  assumes inv: "memory_inv limit m" and hit: "memory_Hit a k h win now m = (r, m')"
  obtains (live) b where "map_of (msBuckets (pruneExpired now m)) (rateLimitCompositeKey a k) = Some b"
      "memory_put (rateLimitCompositeKey a k) b (pruneExpired now m) = (r, m')"
    | (opened) m1 where "map_of (msBuckets (pruneExpired now m)) (rateLimitCompositeKey a k) = None"
      "memory_inv limit m1" "int (length (msBuckets m1)) < msMaxKeys m1"
      "\<And>c b. map_of (msBuckets (pruneExpired now m)) c = Some b \<Longrightarrow> limit \<le> mbCount b \<Longrightarrow> map_of (msBuckets m1) c = Some b"
      "memory_put (rateLimitCompositeKey a k)
         \<lparr>mbAction = a, mbHint = h, mbStarted = now, mbExpires = now + win, mbCount = 0\<rparr> m1 = (r, m')"
    | (full) "r = Inl (Auth ErrRateLimitCapacity)" "m' = pruneExpired now m"
proof (cases "map_of (msBuckets (pruneExpired now m)) (rateLimitCompositeKey a k)")
  case (Some b)
  with hit live show thesis by (simp add: memory_Hit_def Let_def)
next
  case None
  let ?p = "pruneExpired now m"
  have p: "memory_inv limit ?p" using inv by (rule pruneExpired_inv)
  show thesis
  proof (cases "msMaxKeys ?p \<le> int (length (msBuckets ?p))")
    case False
    with None hit p show thesis by (intro opened [of ?p]) (simp_all add: memory_Hit_def Let_def)
  next
    case True
    obtain ok m1 where e: "evictOldestUnblocked ?p = (ok, m1)" by (cases "evictOldestUnblocked ?p")
    note k = evict_keeps [OF p e]
    show thesis
    proof (cases ok)
      case False
      with True None hit e k(4) show thesis by (intro full) (simp_all add: memory_Hit_def Let_def)
    next
      case ok: True
      have "int (length (msBuckets m1)) < msMaxKeys m1"
        using k(5,6) ok p by (simp add: memory_inv_def)
      with True None hit e k ok show thesis
        by (intro opened [of m1]) (simp_all add: memory_Hit_def Let_def)
    qed
  qed
qed

lemma memory_Hit_inv:
  assumes "memory_inv limit m" "memory_Hit a k h win now m = (r, m')"
  shows "memory_inv limit m'"
  using assms
proof (cases rule: memory_Hit_cases [consumes 2])
  case (live b)
  then have "rateLimitCompositeKey a k \<in> fst ` set (msBuckets (pruneExpired now m))"
    by (force dest: map_of_SomeD)
  then show ?thesis
    by (intro memory_put_inv [OF pruneExpired_inv [OF assms(1)] _ _ live(2)] disjI1) simp_all
next
  case (opened m1)
  then show ?thesis by (intro memory_put_inv [OF opened(2) _ _ opened(5)] disjI2) simp_all
next
  case full
  with pruneExpired_inv [OF assms(1)] show ?thesis by simp
qed

text \<open>A window that is live and at the limit, as the map sees it.\<close>

lemma memory_window_Some:
  assumes "memory_inv limit m" "memory_window m a k = Some v" "now < wExpires v"
  obtains b where "map_of (msBuckets (pruneExpired now m)) (rateLimitCompositeKey a k) = Some b"
    "v = \<lparr>wCount = mbCount b, wStarted = mbStarted b, wExpires = mbExpires b\<rparr>"
  using assms memory_window_pruned [OF assms(1), of now a k]
  by (auto simp: memory_window_def)

interpretation mem: rate_limit_store memoryRateLimitStore memory_window "memory_inv limit"
  "\<lambda>a k a' k'. rateLimitCompositeKey a k = rateLimitCompositeKey a' k'" limit
proof
  fix s :: memory_store and a k h win now r and s' :: memory_store
  assume i: "memory_inv limit s" and hit: "st_Hit memoryRateLimitStore a k h win now s = (r, s')"
  then have h': "memory_Hit a k h win now s = (r, s')" by (simp add: memoryRateLimitStore_def)
  from i h' show "memory_inv limit s'" by (rule memory_Hit_inv)
  show "memory_window s' a' k' = Some v"
    if other: "rateLimitCompositeKey a k \<noteq> rateLimitCompositeKey a' k'"
      and w: "memory_window s a' k' = Some v" "now < wExpires v" and full: "limit \<le> wCount v" for a' k' v
  proof -
    obtain b where b: "map_of (msBuckets (pruneExpired now s)) (rateLimitCompositeKey a' k') = Some b"
      "v = \<lparr>wCount = mbCount b, wStarted = mbStarted b, wExpires = mbExpires b\<rparr>"
      by (rule memory_window_Some [OF i w])
    from i h' show ?thesis
      by (cases rule: memory_Hit_cases [consumes 2])
         (use b other full in \<open>auto simp: memory_put_run memory_window_def update_conv\<close>)
  qed
next
  fix s :: memory_store and a k h win now x and s' :: memory_store and v
  assume i: "memory_inv limit s" and hit: "st_Hit memoryRateLimitStore a k h win now s = (Inr x, s')"
    and w: "memory_window s a k = Some v" "now < wExpires v"
  obtain b where b: "map_of (msBuckets (pruneExpired now s)) (rateLimitCompositeKey a k) = Some b"
    "v = \<lparr>wCount = mbCount b, wStarted = mbStarted b, wExpires = mbExpires b\<rparr>"
    by (rule memory_window_Some [OF i w])
  from hit have "memory_Hit a k h win now s = (Inr x, s')" by (simp add: memoryRateLimitStore_def)
  with i show "hCount x = wCount v + 1 \<and> hStarted x = wStarted v
      \<and> memory_window s' a k = Some (v\<lparr>wCount := wCount v + 1\<rparr>)"
    by (cases rule: memory_Hit_cases [consumes 2])
       (use b in \<open>auto simp: memory_put_run memory_window_def update_conv\<close>)
next
  fix s :: memory_store and a k h and win now :: int and x and s' :: memory_store
  assume i: "memory_inv limit s" and hit: "st_Hit memoryRateLimitStore a k h win now s = (Inr x, s')"
    and w: "\<not> in_window now (memory_window s a k)" "0 < win"
  from memory_window_pruned [OF i, of now a k] w
  have n: "map_of (msBuckets (pruneExpired now s)) (rateLimitCompositeKey a k) = None"
    by (simp add: memory_window_def)
  from hit have "memory_Hit a k h win now s = (Inr x, s')" by (simp add: memoryRateLimitStore_def)
  with i show "\<exists>v. memory_window s' a k = Some v \<and> wCount v = 1 \<and> hCount x = 1 \<and> hStarted x = wStarted v
      \<and> wStarted v \<le> now \<and> now < wExpires v \<and> wExpires v \<le> now + win"
    by (cases rule: memory_Hit_cases [consumes 2])
       (use n w in \<open>auto simp: memory_put_run memory_window_def update_conv\<close>)
next
  fix s :: memory_store and a k h win now e and s' :: memory_store and a' k' v
  assume i: "memory_inv limit s" and hit: "st_Hit memoryRateLimitStore a k h win now s = (Inl e, s')"
    and w: "memory_window s a' k' = Some v" "now < wExpires v"
  from hit have "memory_Hit a k h win now s = (Inl e, s')" by (simp add: memoryRateLimitStore_def)
  with i have "s' = pruneExpired now s"
    by (cases rule: memory_Hit_cases [consumes 2]) (auto simp: memory_put_run)
  with memory_window_pruned [OF i, of now a' k'] w show "memory_window s' a' k' = Some v" by simp
next
  fix a k a' k' s
  assume "rateLimitCompositeKey a k = rateLimitCompositeKey a' k'"
  then show "memory_window s a' k' = memory_window s a k" by (simp add: memory_window_def)
next
  fix s :: memory_store and a k and s' :: memory_store
  assume "memory_inv limit s" "st_Clear memoryRateLimitStore a k s = (Inr (), s')"
  then show "memory_inv limit s' \<and> memory_window s' a k = None"
    using length_delete_le [of "rateLimitCompositeKey a k" "msBuckets s"]
    by (auto simp: memoryRateLimitStore_def memory_Clear_def memory_inv_def memory_window_def
        delete_conv distinct_delete)
qed

section \<open>Properties\<close>

lemma memory_Hit_maxKeys: "memory_Hit a k h win now m = (r, m') \<Longrightarrow> msMaxKeys m' = msMaxKeys m"
  by (auto simp: memory_Hit_def Let_def memory_put_def pruneExpired_def evictOldestUnblocked_def
      split: option.splits if_splits prod.splits bool.splits)

lemma traffic_step:
  assumes "rlStore l = memoryRateLimitStore" "Allow l t a k s = (r, s1)"
  shows "s1 = s \<or> (\<exists>q. memory_Hit a k (redactRateLimitKey k) (rcWindow (rlConfig l)) t s = (q, s1))"
  using assms by (auto simp: Allow_def check_def call_def ret_def memoryRateLimitStore_def
      split: sum.splits prod.splits if_splits)

lemma traffic_memory_inv:
  assumes "rlStore l = memoryRateLimitStore"
  shows "memory_inv limit s \<Longrightarrow> memory_inv limit (traffic l ops s)"
proof (induction ops arbitrary: s)
  case (Cons op ops)
  obtain t a k where op: "op = (t, a, k)" by (cases op)
  obtain r s1 where r: "Allow l t a k s = (r, s1)" by (cases "Allow l t a k s")
  with Cons.prems have "memory_inv limit s1" using traffic_step [OF assms r] by (auto intro: memory_Hit_inv)
  with Cons.IH op r show ?case by simp
qed simp

lemma traffic_maxKeys:
  assumes "rlStore l = memoryRateLimitStore"
  shows "msMaxKeys (traffic l ops s) = msMaxKeys s"
proof (induction ops arbitrary: s)
  case (Cons op ops)
  obtain t a k where op: "op = (t, a, k)" by (cases op)
  obtain r s1 where r: "Allow l t a k s = (r, s1)" by (cases "Allow l t a k s")
  with Cons.IH op traffic_step [OF assms r] show ?case by (auto dest: memory_Hit_maxKeys)
qed simp

definition demo_limits :: rate_limit_config where
  "demo_limits = \<lparr>rcLimit = 2, rcWindow = 10, rcMaxKeys = 2\<rparr>"

definition demo_limiter :: "memory_store rate_limiter" where
  "demo_limiter = \<lparr>rlConfig = demo_limits, rlStore = memoryRateLimitStore\<rparr>"

definition demo_store :: memory_store where
  "demo_store = newMemoryRateLimitStore demo_limits"

definition demo_blocked :: memory_store where
  "demo_blocked = traffic demo_limiter [(1, ''a'', ''k''), (2, ''a'', ''k'')] demo_store"

lemma demo_limiter_new: "NewRateLimiter demo_limits = Inr (demo_limiter, demo_store)"
  by (simp add: NewRateLimiter_def demo_limits_def demo_limiter_def demo_store_def)

lemma demo_store_inv: "memory_inv (rcLimit demo_limits) demo_store"
  unfolding demo_store_def by (rule newMemoryRateLimitStore_inv) (simp add: demo_limits_def)

lemma demo_first_attempt:
  "\<exists>d s1. Allow demo_limiter 1 ''a'' ''k'' demo_store = (Inr d, s1)
     \<and> memory_window s1 ''a'' ''k'' = Some \<lparr>wCount = 1, wStarted = 1, wExpires = 11\<rparr>"
proof -
  have "case Allow demo_limiter 1 ''a'' ''k'' demo_store of (r, s1) \<Rightarrow>
      \<not> isl r \<and> memory_window s1 ''a'' ''k'' = Some \<lparr>wCount = 1, wStarted = 1, wExpires = 11\<rparr>"
    by code_simp
  then show ?thesis by (auto split: prod.splits simp: isl_def) (metis sum.collapse)
qed

text \<open>
  The budget of the in-memory limiter. From the attempt that opens a window for an action and key until
  that window ends, no more than \<open>Limit\<close> attempts are allowed, even if the store fails in between; when every
  attempt is answered, exactly \<open>Limit\<close> or as many as were made. The window ends at most \<open>Window\<close> later.
\<close>

theorem memory_window_budget:
  assumes "NewRateLimiter config = Inr (l, s0)" and "memory_inv (rcLimit config) s"
    and "\<not> in_window t (memory_window s a k)" and "Allow l t a k s = (Inr d, s1)"
    and "memory_window s1 a k = Some v" and "list_all (\<lambda>u. u < wExpires v) ts"
  shows "fst (attempts l a k (t # ts) s) \<le> rcLimit config
    \<and> (answered l a k (t # ts) s \<longrightarrow>
         fst (attempts l a k (t # ts) s) = min (int (length (t # ts))) (rcLimit config))
    \<and> t < wExpires v \<and> wExpires v \<le> t + rcWindow config"
proof -
  from assms(1) have l: "rlStore l = memoryRateLimitStore" "rlConfig l = config"
    "0 < rcWindow (rlConfig l)" "0 < rcLimit (rlConfig l)"
    by (auto simp: NewRateLimiter_def split: if_splits)
  from mem.window_budget [OF l(1,3,4) assms(2-6)] show ?thesis by (simp add: l(2))
qed

theorem memory_window_budget_witness:
  "fst (attempts demo_limiter ''a'' ''k'' [1, 2, 3] demo_store) = 2"
proof -
  from demo_first_attempt obtain d s1 where a: "Allow demo_limiter 1 ''a'' ''k'' demo_store = (Inr d, s1)"
    and w: "memory_window s1 ''a'' ''k'' = Some \<lparr>wCount = 1, wStarted = 1, wExpires = 11\<rparr>" by blast
  have fresh: "\<not> in_window 1 (memory_window demo_store ''a'' ''k'')"
    by (simp add: memory_window_def demo_store_def newMemoryRateLimitStore_def)
  have "answered demo_limiter ''a'' ''k'' [1, 2, 3] demo_store" by code_simp
  with memory_window_budget [OF demo_limiter_new demo_store_inv fresh a w, of "[2, 3]"]
  show ?thesis by (simp add: demo_limits_def)
qed

text \<open>
  Flooding does not lift a block. Once a key has reached the limit, every further attempt at it within its
  window is refused, whatever attempts at other keys happened in between, including so many fresh keys that the
  store had to evict others to make room.
\<close>

theorem memory_block_survives_flood:
  assumes "NewRateLimiter config = Inr (l, s0)" and "memory_inv (rcLimit config) s"
    and "memory_window s a k = Some v" "rcLimit config \<le> wCount v"
    and "list_all (\<lambda>(t, _, _). t < wExpires v) ops" "now < wExpires v"
    and "Allow l now a k (traffic l ops s) = (Inr d, s')"
  shows "\<not> dAllowed d"
proof -
  from assms(1) have l: "rlStore l = memoryRateLimitStore" "rlConfig l = config"
    by (auto simp: NewRateLimiter_def split: if_splits)
  from mem.blocked_until_expiry [OF l(1) _ assms(2,3) _ assms(5,6,7)] assms(4)
  show ?thesis by (simp add: l(2))
qed

theorem memory_block_survives_flood_witness:
  "\<exists>d s'. Allow demo_limiter 9 ''a'' ''k''
     (traffic demo_limiter [(3, ''a'', ''x''), (4, ''a'', ''y''), (5, ''b'', ''z'')] demo_blocked) = (Inr d, s')
     \<and> \<not> dAllowed d"
proof -
  let ?ops = "[(3, ''a'', ''x''), (4, ''a'', ''y''), (5, ''b'', ''z'')] :: (int \<times> string \<times> string) list"
  have i: "memory_inv (rcLimit demo_limits) demo_blocked"
    unfolding demo_blocked_def by (rule traffic_memory_inv [OF _ demo_store_inv]) (simp add: demo_limiter_def)
  have w: "memory_window demo_blocked ''a'' ''k'' = Some \<lparr>wCount = 2, wStarted = 1, wExpires = 11\<rparr>"
    by code_simp
  have "\<not> isl (fst (Allow demo_limiter 9 ''a'' ''k'' (traffic demo_limiter ?ops demo_blocked)))" by code_simp
  then obtain d s' where a: "Allow demo_limiter 9 ''a'' ''k'' (traffic demo_limiter ?ops demo_blocked) = (Inr d, s')"
    by (cases "Allow demo_limiter 9 ''a'' ''k'' (traffic demo_limiter ?ops demo_blocked)")
       (auto simp: isl_def, metis sum.collapse)
  have "\<not> dAllowed d"
    by (rule memory_block_survives_flood [OF demo_limiter_new i w _ _ _ a]) (simp_all add: demo_limits_def)
  with a show ?thesis by blast
qed

text \<open>
  Memory is bounded: a limiter starting from an empty store never holds more than \<open>MaxKeys\<close> windows, whatever
  attempts are made, and its keys stay distinct.
\<close>

theorem memory_traffic_bounded:
  assumes "NewRateLimiter config = Inr (l, s0)"
  shows "int (length (msBuckets (traffic l ops s0))) \<le> rcMaxKeys config
    \<and> distinct (map fst (msBuckets (traffic l ops s0)))"
proof -
  from assms have l: "rlStore l = memoryRateLimitStore" and s0: "s0 = newMemoryRateLimitStore config"
    and pos: "0 < rcMaxKeys config" by (auto simp: NewRateLimiter_def split: if_splits)
  have inv: "memory_inv (rcLimit config) (traffic l ops s0)"
    unfolding s0 by (rule traffic_memory_inv [OF l newMemoryRateLimitStore_inv [OF pos]])
  have "msMaxKeys (traffic l ops s0) = msMaxKeys s0" by (rule traffic_maxKeys [OF l])
  with inv show ?thesis by (simp add: memory_inv_def s0 newMemoryRateLimitStore_def)
qed

theorem memory_traffic_bounded_witness:
  "int (length (msBuckets (traffic demo_limiter [(1, ''a'', ''x''), (2, ''a'', ''y''), (3, ''a'', ''z'')] demo_store))) \<le> 2"
  using memory_traffic_bounded [OF demo_limiter_new, of "[(1, ''a'', ''x''), (2, ''a'', ''y''), (3, ''a'', ''z'')]"]
  by (simp add: demo_limits_def)

end
