(* ===== verification/Database.thy ===== *)
theory Database
  imports Identity
begin

text \<open>
  The persistent state (\<^verbatim>\<open>migrations/*.sql\<close>): one record per table row, the database as a
  record of tables, the schema constraints as predicates on rows and tables, the deletion
  rules of the foreign keys, and the way the Go code reaches the database through
  \<^verbatim>\<open>database/sql\<close>: single statements and transactions, each of which may fail for reasons
  outside the program. The world of the services adds the clock, the random source and the
  mail that was sent.
\<close>

section \<open>Rows\<close>

text \<open>\<^verbatim>\<open>service.User\<close> and the columns of \<^verbatim>\<open>users\<close>; nullable columns are options.\<close>

record user =
  uID :: int
  uEmail :: "string option"
  uPasswordHash :: "string option"
  uUsername :: "string option"
  uDisplayName :: "string option"
  uIsGuest :: bool
  uIsAdmin :: bool
  uTheme :: string
  uLocale :: string
  uCreatedAt :: int
  uEmailVerifiedAt :: "int option"
  uVersion :: int

definition zero_user :: user where
  "zero_user = \<lparr>uID = 0, uEmail = None, uPasswordHash = None, uUsername = None, uDisplayName = None,
     uIsGuest = False, uIsAdmin = False, uTheme = [], uLocale = [], uCreatedAt = 0,
     uEmailVerifiedAt = None, uVersion = 0\<rparr>"

text \<open>\<^verbatim>\<open>service.Session\<close>, and the stored row, whose key is the digest of the credential.\<close>

record session =
  sID :: string
  sUserID :: int
  sCreatedAt :: int
  sExpiresAt :: int
  sRevokedAt :: "int option"
  sSSOSessionID :: string
  sSSOIDToken :: string

record session_row =
  rID :: string
  rUserID :: int
  rCreatedAt :: int
  rExpiresAt :: int
  rRevokedAt :: "int option"
  rSSOSid :: "string option"
  rSSOIDToken :: "string option"

text \<open>\<^verbatim>\<open>service.Group\<close> and \<^verbatim>\<open>service.GroupMembership\<close> with their tables.\<close>

record group =
  gID :: int
  gName :: string
  gNameNorm :: string
  gInviteCode :: string
  gCreatedBy :: "int option"
  gCreatedAt :: int
  gVersion :: int

record membership =
  mID :: int
  mGroupID :: int
  mUserID :: int
  mRole :: string
  mCreatedAt :: int
  mVersion :: int

text \<open>\<^verbatim>\<open>service.GuestClaimCode\<close> with the row identifier.\<close>

record claim_code =
  ccID :: int
  ccUserID :: int
  ccCode :: string
  ccCreatedAt :: int
  ccLastUsedAt :: "int option"
  ccRevokedAt :: "int option"

text \<open>Rows of \<^verbatim>\<open>email_verification_tokens\<close> and \<^verbatim>\<open>password_reset_tokens\<close>; the key is a digest.\<close>

record token_row =
  tID :: int
  tUserID :: int
  tToken :: string
  tCreatedAt :: int
  tExpiresAt :: int
  tConsumedAt :: "int option"

record oauth_identity_row =
  oiID :: int
  oiUserID :: int
  oiProvider :: string
  oiSubject :: string
  oiEmail :: "string option"
  oiCreatedAt :: int

record oauth_state_row =
  osState :: string
  osProvider :: string
  osAction :: string
  osUserID :: "int option"
  osCodeVerifier :: "string option"
  osCreatedAt :: int
  osExpiresAt :: int
  osConsumedAt :: "int option"

record login_attempt =
  laID :: int
  laEmail :: string
  laUserID :: "int option"
  laIP :: "string option"
  laOutcome :: string
  laCreatedAt :: int

record audit_entry =
  aeID :: int
  aeOccurredAt :: int
  aeActorUserID :: "int option"
  aeActorEmail :: "string option"
  aeAction :: string
  aeTargetType :: "string option"
  aeTargetID :: "string option"
  aeDetail :: "string option"
  aeIP :: "string option"

text \<open>Rows of \<^verbatim>\<open>rate_limit_buckets\<close>; times are Unix milliseconds.\<close>

record bucket_row =
  rbScope :: string
  rbAction :: string
  rbKeyHash :: string
  rbKeyHint :: string
  rbCount :: int
  rbStarted :: int
  rbExpires :: int

record sso_login_row =
  ssSid :: string
  ssUserID :: int
  ssCreatedAt :: int
  ssExpiresAt :: int

section \<open>The database\<close>

text \<open>Tables with their identity sequences (the last value handed out).\<close>

record db =
  users :: "user list"
  users_seq :: int
  sessions :: "session_row list"
  groups :: "group list"
  groups_seq :: int
  group_members :: "membership list"
  group_members_seq :: int
  claim_codes :: "claim_code list"
  claim_codes_seq :: int
  email_tokens :: "token_row list"
  email_tokens_seq :: int
  reset_tokens :: "token_row list"
  reset_tokens_seq :: int
  oauth_identities :: "oauth_identity_row list"
  oauth_identities_seq :: int
  oauth_states :: "oauth_state_row list"
  login_attempts :: "login_attempt list"
  login_attempts_seq :: int
  audit_log :: "audit_entry list"
  audit_log_seq :: int
  buckets :: "bucket_row list"
  sso_logins :: "sso_login_row list"

definition empty_db :: db where
  "empty_db = \<lparr>users = [], users_seq = 0, sessions = [], groups = [], groups_seq = 0,
     group_members = [], group_members_seq = 0, claim_codes = [], claim_codes_seq = 0,
     email_tokens = [], email_tokens_seq = 0, reset_tokens = [], reset_tokens_seq = 0,
     oauth_identities = [], oauth_identities_seq = 0, oauth_states = [],
     login_attempts = [], login_attempts_seq = 0, audit_log = [], audit_log_seq = 0,
     buckets = [], sso_logins = []\<rparr>"

subsection \<open>Column types and check constraints\<close>

definition varchar :: "nat \<Rightarrow> string \<Rightarrow> bool" where
  "varchar n s \<longleftrightarrow> RuneCountInString s \<le> n"

definition opt_varchar :: "nat \<Rightarrow> string option \<Rightarrow> bool" where
  "opt_varchar n s \<longleftrightarrow> (case s of None \<Rightarrow> True | Some v \<Rightarrow> varchar n v)"

definition btrim :: "string \<Rightarrow> string" where
  "btrim s = rev (dropWhile (\<lambda>c. c = CHR '' '') (rev (dropWhile (\<lambda>c. c = CHR '' '') s)))"

text \<open>\<^verbatim>\<open>000001_create_users.up.sql\<close>: column widths, then the \<^verbatim>\<open>CHECK\<close> constraints.\<close>

definition users_widths :: "user \<Rightarrow> bool" where
  "users_widths u \<longleftrightarrow> opt_varchar 255 (uEmail u) \<and> opt_varchar 255 (uPasswordHash u)
     \<and> opt_varchar 32 (uUsername u) \<and> opt_varchar 255 (uDisplayName u)
     \<and> varchar 20 (uTheme u) \<and> varchar 10 (uLocale u)"

definition users_checks :: "golib \<Rightarrow> user \<Rightarrow> bool" where
  "users_checks L u \<longleftrightarrow>
     (uIsGuest u \<longrightarrow> uEmail u = None \<and> uPasswordHash u = None \<and> uEmailVerifiedAt u = None)
     \<and> (case uEmail u of None \<Rightarrow> True | Some e \<Rightarrow> e = pg_lower L (btrim e))
     \<and> (case uUsername u of None \<Rightarrow> True
        | Some n \<Rightarrow> n = pg_lower L (btrim n) \<and> n \<noteq> [] \<and> CHR ''@'' \<notin> set n)
     \<and> (uTheme u = ''light'' \<or> uTheme u = ''dark'') \<and> 0 \<le> uVersion u"

subsection \<open>Integrity\<close>

abbreviation user_ids :: "'z db_scheme \<Rightarrow> int set" where
  "user_ids d \<equiv> uID ` set (users d)"

abbreviation group_ids :: "'z db_scheme \<Rightarrow> int set" where
  "group_ids d \<equiv> gID ` set (groups d)"

definition users_ok :: "golib \<Rightarrow> 'z db_scheme \<Rightarrow> bool" where
  "users_ok L d \<longleftrightarrow>
     unique_on (\<lambda>u. Some (uID u)) (users d) \<and> unique_on uEmail (users d)
     \<and> unique_on uUsername (users d)
     \<and> (\<forall>u \<in> set (users d). 0 < uID u \<and> uID u \<le> users_seq d \<and> users_checks L u)
     \<and> 0 \<le> users_seq d"

definition sessions_ok :: "'z db_scheme \<Rightarrow> bool" where
  "sessions_ok d \<longleftrightarrow>
     unique_on (\<lambda>s. Some (rID s)) (sessions d)
     \<and> (\<forall>s \<in> set (sessions d). rUserID s \<in> user_ids d \<and> rCreatedAt s < rExpiresAt s)"

definition groups_ok :: "'z db_scheme \<Rightarrow> bool" where
  "groups_ok d \<longleftrightarrow>
     unique_on (\<lambda>g. Some (gID g)) (groups d) \<and> unique_on (\<lambda>g. Some (gInviteCode g)) (groups d)
     \<and> (\<forall>g \<in> set (groups d). 0 < gID g \<and> gID g \<le> groups_seq d \<and> gInviteCode g \<noteq> []
          \<and> (\<forall>u. gCreatedBy g = Some u \<longrightarrow> u \<in> user_ids d))
     \<and> 0 \<le> groups_seq d"

definition members_ok :: "'z db_scheme \<Rightarrow> bool" where
  "members_ok d \<longleftrightarrow>
     unique_on (\<lambda>m. Some (mGroupID m, mUserID m)) (group_members d)
     \<and> (\<forall>m \<in> set (group_members d). 0 < mID m \<and> mID m \<le> group_members_seq d
          \<and> mGroupID m \<in> group_ids d \<and> mUserID m \<in> user_ids d
          \<and> (mRole m = ''admin'' \<or> mRole m = ''member'') \<and> 0 \<le> mVersion m)
     \<and> 0 \<le> group_members_seq d"

definition claims_ok :: "'z db_scheme \<Rightarrow> bool" where
  "claims_ok d \<longleftrightarrow>
     unique_on (\<lambda>c. Some (ccCode c)) (claim_codes d)
     \<and> unique_on (\<lambda>c. if ccRevokedAt c = None then Some (ccUserID c) else None) (claim_codes d)
     \<and> (\<forall>c \<in> set (claim_codes d). ccUserID c \<in> user_ids d)"

definition tokens_ok :: "int set \<Rightarrow> token_row list \<Rightarrow> bool" where
  "tokens_ok ids ts \<longleftrightarrow>
     unique_on (\<lambda>t. Some (tToken t)) ts
     \<and> (\<forall>t \<in> set ts. tUserID t \<in> ids \<and> tCreatedAt t < tExpiresAt t)"

definition oauth_ok :: "'z db_scheme \<Rightarrow> bool" where
  "oauth_ok d \<longleftrightarrow>
     unique_on (\<lambda>i. Some (oiID i)) (oauth_identities d)
     \<and> unique_on (\<lambda>i. Some (oiProvider i, oiSubject i)) (oauth_identities d)
     \<and> (\<forall>i \<in> set (oauth_identities d). 0 < oiID i \<and> oiID i \<le> oauth_identities_seq d
          \<and> oiUserID i \<in> user_ids d)
     \<and> 0 \<le> oauth_identities_seq d
     \<and> unique_on (\<lambda>s. Some (osState s)) (oauth_states d)
     \<and> (\<forall>s \<in> set (oauth_states d). osCreatedAt s < osExpiresAt s
          \<and> (\<forall>u. osUserID s = Some u \<longrightarrow> u \<in> user_ids d))"

definition history_ok :: "'z db_scheme \<Rightarrow> bool" where
  "history_ok d \<longleftrightarrow>
     (\<forall>a \<in> set (login_attempts d). \<forall>u. laUserID a = Some u \<longrightarrow> u \<in> user_ids d)
     \<and> (\<forall>a \<in> set (audit_log d). \<forall>u. aeActorUserID a = Some u \<longrightarrow> u \<in> user_ids d)
     \<and> unique_on (\<lambda>b. Some (rbScope b, rbAction b, rbKeyHash b)) (buckets d)
     \<and> (\<forall>b \<in> set (buckets d). 0 < rbCount b \<and> rbStarted b < rbExpires b)
     \<and> unique_on (\<lambda>s. Some (ssSid s)) (sso_logins d)
     \<and> (\<forall>s \<in> set (sso_logins d). ssUserID s \<in> user_ids d)"

text \<open>Everything the schema promises of a stored database.\<close>

definition db_ok :: "golib \<Rightarrow> 'z db_scheme \<Rightarrow> bool" where
  "db_ok L d \<longleftrightarrow> users_ok L d \<and> sessions_ok d \<and> groups_ok d \<and> members_ok d \<and> claims_ok d
     \<and> tokens_ok (user_ids d) (email_tokens d) \<and> tokens_ok (user_ids d) (reset_tokens d)
     \<and> oauth_ok d \<and> history_ok d"

lemmas db_ok_defs = db_ok_def users_ok_def sessions_ok_def groups_ok_def members_ok_def
  claims_ok_def tokens_ok_def oauth_ok_def history_ok_def

lemma empty_db_ok: "db_ok L empty_db"
  by (simp add: db_ok_defs empty_db_def)

text \<open>
  \<^verbatim>\<open>DELETE FROM users\<close> with the deletion rules of
  \<^verbatim>\<open>000005_add_foreign_keys_and_deletion_rules.up.sql\<close> (and the later tables): owned rows go
  with the account, history and group authorship only lose the reference.
\<close>

definition forget_user :: "int \<Rightarrow> int option \<Rightarrow> int option" where
  "forget_user uid r = (if r = Some uid then None else r)"

definition delete_user_cascade :: "int \<Rightarrow> db \<Rightarrow> db" where
  "delete_user_cascade uid d = d\<lparr>
     users := delete_where (\<lambda>u. uID u = uid) (users d),
     sessions := delete_where (\<lambda>s. rUserID s = uid) (sessions d),
     oauth_identities := delete_where (\<lambda>i. oiUserID i = uid) (oauth_identities d),
     email_tokens := delete_where (\<lambda>t. tUserID t = uid) (email_tokens d),
     reset_tokens := delete_where (\<lambda>t. tUserID t = uid) (reset_tokens d),
     claim_codes := delete_where (\<lambda>c. ccUserID c = uid) (claim_codes d),
     group_members := delete_where (\<lambda>m. mUserID m = uid) (group_members d),
     oauth_states := delete_where (\<lambda>s. osUserID s = Some uid) (oauth_states d),
     sso_logins := delete_where (\<lambda>s. ssUserID s = uid) (sso_logins d),
     login_attempts := map (\<lambda>a. a\<lparr>laUserID := forget_user uid (laUserID a)\<rparr>) (login_attempts d),
     audit_log := map (\<lambda>a. a\<lparr>aeActorUserID := forget_user uid (aeActorUserID a)\<rparr>) (audit_log d),
     groups := map (\<lambda>g. g\<lparr>gCreatedBy := forget_user uid (gCreatedBy g)\<rparr>) (groups d)\<rparr>"

section \<open>The world\<close>

record mail =
  mailTo :: string
  mailSubject :: string
  mailTextBody :: string

text \<open>
  What can go wrong with a database call besides the statement itself: the request's
  context ends, the server fails, the connection breaks. \<open>faults\<close> is a script with one entry
  per database round trip (none left means no further fault); every theorem quantifies over
  it, so it ranges over all failure patterns.
\<close>

datatype db_fault = Canceled | DeadlineExceeded | ServerFailure | ConnectionFailure

fun fault_error :: "db_fault \<Rightarrow> error" where
  "fault_error Canceled = Repo ContextCanceled"
| "fault_error DeadlineExceeded = Repo ContextDeadlineExceeded"
| "fault_error ServerFailure = PgError OtherCode OtherConstraint"
| "fault_error ConnectionFailure = DriverError"

text \<open>
  \<open>now_ns\<close> is the clock in nanoseconds since the Unix epoch, constant during one operation;
  \<open>entropy\<close> is the random bytes still available, so that the source is unavailable when too
  few are left; \<open>outbox\<close> is the mail delivered so far, \<open>mail_down\<close> a script of deliveries
  that fail.
\<close>

record world =
  tables :: db
  faults :: "db_fault option list"
  now_ns :: int
  entropy :: "nat list"
  outbox :: "mail list"
  mail_down :: "bool list"

definition unix_now :: "'z world_scheme \<Rightarrow> int" where
  "unix_now w = now_ns w div 1000000000"

type_synonym 'a stmt = "(db, 'a) act"
type_synonym 'a prog = "(world, 'a) act"

subsection \<open>Statements and transactions\<close>

definition db_fault :: "world \<Rightarrow> error option \<times> world" where
  "db_fault w = (map_option fault_error (case faults w of [] \<Rightarrow> None | f # _ \<Rightarrow> f),
     w\<lparr>faults := tl (faults w)\<rparr>)"

text \<open>\<^verbatim>\<open>db.QueryRowContext\<close> / \<^verbatim>\<open>db.ExecContext\<close>: one statement, atomic.\<close>

definition query :: "'a stmt \<Rightarrow> 'a prog" where
  "query q w =
     (case db_fault w of
        (Some e, w') \<Rightarrow> (Inl e, w')
      | (None, w') \<Rightarrow> (case q (tables w') of
            (Inl e, d) \<Rightarrow> (Inl e, w')
          | (Inr x, d) \<Rightarrow> (Inr x, w'\<lparr>tables := d\<rparr>)))"

text \<open>
  \<^verbatim>\<open>db.BeginTx\<close> with the deferred \<^verbatim>\<open>tx.Rollback\<close>. The body commits with \<open>Some\<close> and leaves
  without committing with \<open>None\<close> or an error; unless the commit itself succeeds, the tables
  are those before the transaction. The code serialises writers of one group, of one account's
  sessions and of the administrators with advisory locks, so transactions run one at a time.
\<close>

definition transaction :: "(error \<Rightarrow> error) \<Rightarrow> 'a option prog \<Rightarrow> 'a option prog" where
  "transaction h body w =
     (case db_fault w of
        (Some e, w1) \<Rightarrow> (Inl (h e), w1)
      | (None, w1) \<Rightarrow> (case body w1 of
            (Inl e, w2) \<Rightarrow> (Inl e, w2\<lparr>tables := tables w1\<rparr>)
          | (Inr None, w2) \<Rightarrow> (Inr None, w2\<lparr>tables := tables w1\<rparr>)
          | (Inr (Some x), w2) \<Rightarrow> (case db_fault w2 of
                (Some e, w3) \<Rightarrow> (Inl (h e), w3\<lparr>tables := tables w1\<rparr>)
              | (None, w3) \<Rightarrow> (Inr (Some x), w3))))"

text \<open>
  \<^verbatim>\<open>rand.Read\<close> fills a slice or fails; \<^verbatim>\<open>rand.Int(rand.Reader, max)\<close> for \<^verbatim>\<open>max\<close> of five bits
  reads single bytes, keeps the low five bits and retries until the value is below \<^verbatim>\<open>max\<close>.
\<close>

definition rand_read :: "nat \<Rightarrow> nat list prog" where
  "rand_read n w =
     (if length (entropy w) < n then (Inl AnonymousError, w\<lparr>entropy := []\<rparr>)
      else (Inr (take n (entropy w)), w\<lparr>entropy := drop n (entropy w)\<rparr>))"

fun draw_below :: "nat \<Rightarrow> nat list \<Rightarrow> (nat \<times> nat list) option" where
  "draw_below m [] = None"
| "draw_below m (b # bs) = (if b mod 32 < m then Some (b mod 32, bs) else draw_below m bs)"

fun draw_code :: "string \<Rightarrow> nat \<Rightarrow> nat list \<Rightarrow> (string \<times> nat list) option" where
  "draw_code alphabet 0 bs = Some ([], bs)"
| "draw_code alphabet (Suc n) bs =
     (case draw_below (length alphabet) bs of
        None \<Rightarrow> None
      | Some (i, bs') \<Rightarrow> (case draw_code alphabet n bs' of
            None \<Rightarrow> None
          | Some (code, bs'') \<Rightarrow> Some ((alphabet ! i) # code, bs'')))"

definition rand_code :: "string \<Rightarrow> nat \<Rightarrow> string prog" where
  "rand_code alphabet n w =
     (case draw_code alphabet n (entropy w) of
        None \<Rightarrow> (Inl AnonymousError, w\<lparr>entropy := []\<rparr>)
      | Some (code, bs) \<Rightarrow> (Inr code, w\<lparr>entropy := bs\<rparr>))"

text \<open>\<^verbatim>\<open>MailSender.Send\<close>: delivered, or refused by the relay.\<close>

definition send_mail :: "mail \<Rightarrow> unit prog" where
  "send_mail m w =
     (case mail_down w of
        True # ds \<Rightarrow> (Inl AnonymousError, w\<lparr>mail_down := ds\<rparr>)
      | _ \<Rightarrow> (Inr (), w\<lparr>outbox := outbox w @ [m], mail_down := tl (mail_down w)\<rparr>))"

section \<open>Reasoning about database access\<close>

text \<open>A relation on databases, read as a relation on worlds.\<close>

definition on_tables :: "(db \<Rightarrow> db \<Rightarrow> bool) \<Rightarrow> world \<Rightarrow> world \<Rightarrow> bool" where
  "on_tables R w w' \<longleftrightarrow> R (tables w) (tables w')"

lemma preord_on_tables [preord_intro]: "preord R \<Longrightarrow> preord (on_tables R)"
  by (auto simp: preord_def on_tables_def reflp_def transp_def)

lemma db_fault_tables [simp]: "tables (snd (db_fault w)) = tables w"
  by (simp add: db_fault_def)

lemma db_faultD: "db_fault w = (r, w') \<Longrightarrow> w' = w\<lparr>faults := tl (faults w)\<rparr>"
  by (auto simp: db_fault_def)

lemma db_fault_none [simp]: "faults w = [] \<Longrightarrow> db_fault w = (None, w)"
  by (cases w) (simp add: db_fault_def)

text \<open>A fault is never one of the errors the code gives a meaning to.\<close>

definition is_fault :: "error \<Rightarrow> bool" where
  "is_fault e \<longleftrightarrow> e \<in> {Repo ContextCanceled, Repo ContextDeadlineExceeded,
     PgError OtherCode OtherConstraint, DriverError}"

lemma is_fault_fault_error [simp]: "is_fault (fault_error f)"
  by (cases f) (simp_all add: is_fault_def)

lemma db_fault_is_fault: "db_fault w = (Some e, w') \<Longrightarrow> is_fault e"
  by (auto simp: db_fault_def split: list.splits)

lemma query_cases:
  assumes "query q w = (r, w')"
  obtains (fault) e where "r = Inl e" "is_fault e" "w' = w\<lparr>faults := tl (faults w)\<rparr>"
    | (err) e d where "q (tables w) = (Inl e, d)" "r = Inl e" "w' = w\<lparr>faults := tl (faults w)\<rparr>"
    | (ok) x d where "q (tables w) = (Inr x, d)" "r = Inr x"
        "w' = w\<lparr>faults := tl (faults w), tables := d\<rparr>"
proof (cases "db_fault w")
  case (Pair f w1)
  then have w1: "w1 = w\<lparr>faults := tl (faults w)\<rparr>" by (rule db_faultD)
  show thesis
  proof (cases f)
    case (Some e)
    with Pair have "is_fault e" by (auto intro: db_fault_is_fault)
    with Some Pair assms w1 show thesis by (intro fault [of e]) (simp_all add: query_def)
  next
    case None
    obtain s d where q: "q (tables w) = (s, d)" by (cases "q (tables w)")
    show thesis
    proof (cases s)
      case (Inl e)
      with None Pair assms w1 q show thesis by (intro err [of e d]) (simp_all add: query_def)
    next
      case (Inr x)
      with None Pair assms w1 q show thesis by (intro ok [of x d]) (simp_all add: query_def)
    qed
  qed
qed

lemma query_Inr: "query q w = (Inr x, w') \<Longrightarrow> q (tables w) = (Inr x, tables w')"
  by (erule query_cases) auto

lemma query_Inr_world:
  "query q w = (Inr x, w') \<Longrightarrow>
    \<exists>d. q (tables w) = (Inr x, d) \<and> w' = w\<lparr>faults := tl (faults w), tables := d\<rparr>"
  by (erule query_cases) auto

lemma query_Inl: "query q w = (Inl e, w') \<Longrightarrow>
    (is_fault e \<or> (\<exists>d. q (tables w) = (Inl e, d))) \<and> tables w' = tables w"
  by (erule query_cases) auto

lemma query_ok [simp]:
  "faults w = [] \<Longrightarrow> q (tables w) = (Inr x, d) \<Longrightarrow> query q w = (Inr x, w\<lparr>tables := d\<rparr>)"
  by (simp add: query_def)

lemma query_err [simp]:
  "faults w = [] \<Longrightarrow> q (tables w) = (Inl e, d) \<Longrightarrow> query q w = (Inl e, w)"
  by (simp add: query_def)

lemma evolves_query [evolves_intro]:
  assumes "preord R" and "\<And>d x d'. q d = (Inr x, d') \<Longrightarrow> R d d'"
  shows "evolves (on_tables R) (query q)"
  unfolding evolves_def on_tables_def
proof
  fix w
  obtain r w' where "query q w = (r, w')" by (cases "query q w")
  then show "R (tables w) (tables (snd (query q w)))"
    by (rule query_cases) (use assms in \<open>auto simp: preord_refl \<open>query q w = (r, w')\<close>\<close>)
qed

text \<open>
  A transaction: whatever its body does, only a committed body changes the tables; so a
  relation between the start and a committing end is enough.
\<close>

lemma transaction_cases:
  assumes "transaction h body w = (r, w')"
  obtains (unchanged) "tables w' = tables w" "\<nexists>x. r = Inr (Some x)"
    | (committed) x w1 w2 where "r = Inr (Some x)" "tables w1 = tables w"
        "body w1 = (Inr (Some x), w2)" "tables w' = tables w2" "w1 = w\<lparr>faults := tl (faults w)\<rparr>"
  using assms
  by (auto simp: transaction_def dest!: db_faultD split: prod.splits option.splits sum.splits)

lemma transaction_Inr:
  assumes "transaction h body w = (Inr r, w')"
  obtains w2 where "body (w\<lparr>faults := tl (faults w)\<rparr>) = (Inr r, w2)"
    "r \<noteq> None \<Longrightarrow> tables w' = tables w2" "r = None \<Longrightarrow> tables w' = tables w"
  using assms
  by (auto simp: transaction_def dest!: db_faultD split: prod.splits option.splits sum.splits)

lemma evolves_transaction_commit:
  assumes "preord R"
    and "\<And>w x w'. body w = (Inr (Some x), w') \<Longrightarrow> R (tables w) (tables w')"
  shows "evolves (on_tables R) (transaction h body)"
  unfolding evolves_def on_tables_def
proof
  fix w
  obtain r w' where t: "transaction h body w = (r, w')" by (cases "transaction h body w")
  then show "R (tables w) (tables (snd (transaction h body w)))"
  proof (rule transaction_cases)
    assume "tables w' = tables w"
    with t assms(1) show ?thesis by (simp add: preord_refl)
  next
    fix x w1 w2
    assume "tables w1 = tables w" "body w1 = (Inr (Some x), w2)" "tables w' = tables w2"
    with t assms(2) [of w1 x w2] show ?thesis by simp
  qed
qed

lemma evolves_transaction:
  assumes "preord R" and "evolves (on_tables R) body"
  shows "evolves (on_tables R) (transaction h body)"
proof (rule evolves_transaction_commit [OF assms(1)])
  fix w x w'
  assume "body w = (Inr (Some x), w')"
  with assms(2) have "on_tables R w w'" by (rule evolvesD)
  then show "R (tables w) (tables w')" by (simp add: on_tables_def)
qed

lemma transaction_ok:
  "faults w = [] \<Longrightarrow> body w = (Inr (Some x), w') \<Longrightarrow> faults w' = [] \<Longrightarrow>
    transaction h body w = (Inr (Some x), w')"
  by (simp add: transaction_def)

lemma transaction_none:
  "faults w = [] \<Longrightarrow> body w = (Inr None, w') \<Longrightarrow>
    transaction h body w = (Inr None, w'\<lparr>tables := tables w\<rparr>)"
  by (simp add: transaction_def)

lemma transaction_err:
  "faults w = [] \<Longrightarrow> body w = (Inl e, w') \<Longrightarrow>
    transaction h body w = (Inl e, w'\<lparr>tables := tables w\<rparr>)"
  by (simp add: transaction_def)

lemma evolves_rand_read [evolves_intro]: "preord R \<Longrightarrow> evolves (on_tables R) (rand_read n)"
  by (simp add: evolves_def on_tables_def rand_read_def preord_refl)

lemma evolves_rand_code [evolves_intro]: "preord R \<Longrightarrow> evolves (on_tables R) (rand_code a n)"
  by (simp add: evolves_def on_tables_def rand_code_def preord_refl split: option.split)

lemma evolves_send_mail [evolves_intro]: "preord R \<Longrightarrow> evolves (on_tables R) (send_mail m)"
  by (simp add: evolves_def on_tables_def send_mail_def preord_refl split: list.split bool.split)

lemma rand_read_Inr:
  "rand_read n w = (Inr bs, w') \<Longrightarrow> length bs = n \<and> tables w' = tables w \<and> faults w' = faults w
     \<and> now_ns w' = now_ns w"
  by (auto simp: rand_read_def split: if_splits)

lemma rand_read_tables [simp]: "tables (snd (rand_read n w)) = tables w"
  by (simp add: rand_read_def)

lemma draw_below_lt: "draw_below m bs = Some (i, bs') \<Longrightarrow> i < m"
  by (induction bs) (auto split: if_splits)

lemma draw_code_Some:
  "draw_code a n bs = Some (code, bs') \<Longrightarrow> length code = n \<and> set code \<subseteq> set a"
proof (induction n arbitrary: bs code bs')
  case (Suc n)
  then obtain i bs1 c bs2 where d: "draw_below (length a) bs = Some (i, bs1)"
    and r: "draw_code a n bs1 = Some (c, bs2)" and code: "code = (a ! i) # c"
    by (auto split: option.splits)
  from Suc.IH [OF r] draw_below_lt [OF d] code show ?case by auto
qed simp

lemma rand_code_Inr:
  "rand_code a n w = (Inr code, w') \<Longrightarrow> length code = n \<and> set code \<subseteq> set a
     \<and> tables w' = tables w \<and> faults w' = faults w \<and> now_ns w' = now_ns w"
  by (auto simp: rand_code_def split: option.splits dest!: draw_code_Some)

section \<open>Refusals\<close>

text \<open>
  A computation that is refused: it returns an error and leaves the tables alone. Guards at the start of an
  operation refuse whatever comes after them.
\<close>

definition refused :: "'a prog \<Rightarrow> world \<Rightarrow> bool" where
  "refused m w \<longleftrightarrow> isl (fst (m w)) \<and> tables (snd (m w)) = tables w"

lemma refused_fail: "refused (fail e) w"
  by (simp add: refused_def fail_def)

lemma refused_if: "(b \<Longrightarrow> refused m w) \<Longrightarrow> (\<not> b \<Longrightarrow> refused n w) \<Longrightarrow> refused (if b then m else n) w"
  by simp

lemma refused_check: "(\<And>x. refused (k x) w) \<Longrightarrow> refused (check r h k) w"
  by (auto simp: refused_def check_def split: sum.splits)

section \<open>Deleting an account keeps the database consistent\<close>

lemma users_delete_cascade [simp]:
  "users (delete_user_cascade uid d) = delete_where (\<lambda>u. uID u = uid) (users d)"
  by (simp add: delete_user_cascade_def)

lemma group_members_delete_cascade [simp]:
  "group_members (delete_user_cascade uid d) = delete_where (\<lambda>m. mUserID m = uid) (group_members d)"
  by (simp add: delete_user_cascade_def)

lemma user_ids_delete_cascade:
  "user_ids (delete_user_cascade uid d) = user_ids d - {uid}"
  by auto

lemma tokens_ok_delete:
  "tokens_ok ids ts \<Longrightarrow> tokens_ok (ids - {uid}) (delete_where (\<lambda>t. tUserID t = uid) ts)"
  by (auto simp: tokens_ok_def)

lemma forget_user_Some [simp]: "forget_user uid r = Some u \<longleftrightarrow> r = Some u \<and> u \<noteq> uid"
  by (auto simp: forget_user_def)

lemma delete_cascade_ok:
  assumes ok: "db_ok L d"
  shows "db_ok L (delete_user_cascade uid d)"
proof -
  let ?d = "delete_user_cascade uid d"
  have ids: "user_ids ?d = user_ids d - {uid}" by (rule user_ids_delete_cascade)
  have gids: "group_ids ?d = group_ids d"
    by (auto simp: delete_user_cascade_def image_image)
  have "users_ok L ?d"
    using ok by (auto simp: db_ok_def users_ok_def delete_user_cascade_def)
  moreover have "sessions_ok ?d"
    using ok unfolding sessions_ok_def ids
    by (auto simp: db_ok_def sessions_ok_def delete_user_cascade_def)
  moreover have "groups_ok ?d"
  proof -
    let ?f = "\<lambda>g. g\<lparr>gCreatedBy := forget_user uid (gCreatedBy g)\<rparr>"
    have g: "groups ?d = map ?f (groups d)" by (simp add: delete_user_cascade_def)
    have "unique_on (\<lambda>g. Some (gID g)) (map ?f (groups d))
        = unique_on (\<lambda>g. Some (gID g)) (groups d)"
      and "unique_on (\<lambda>g. Some (gInviteCode g)) (map ?f (groups d))
        = unique_on (\<lambda>g. Some (gInviteCode g)) (groups d)"
      by (simp_all add: unique_on_distinct comp_def)
    with ok show ?thesis unfolding groups_ok_def ids g
      by (auto simp: db_ok_def groups_ok_def delete_user_cascade_def)
  qed
  moreover have "members_ok ?d"
    using ok unfolding members_ok_def ids gids
    by (auto simp: db_ok_def members_ok_def delete_user_cascade_def)
  moreover have "claims_ok ?d"
    using ok unfolding claims_ok_def ids
    by (auto simp: db_ok_def claims_ok_def delete_user_cascade_def)
  moreover have "tokens_ok (user_ids ?d) (email_tokens ?d)"
    and "tokens_ok (user_ids ?d) (reset_tokens ?d)"
    using ok unfolding ids by (simp_all add: db_ok_def delete_user_cascade_def tokens_ok_delete)
  moreover have "oauth_ok ?d"
    using ok unfolding oauth_ok_def ids
    by (auto simp: db_ok_def oauth_ok_def delete_user_cascade_def)
  moreover have "history_ok ?d"
    using ok unfolding history_ok_def ids
    by (auto simp: db_ok_def history_ok_def delete_user_cascade_def)
  ultimately show ?thesis by (simp add: db_ok_def)
qed

section \<open>Constraints and the tables they read\<close>

text \<open>Each group of constraints depends on its own tables only; a write elsewhere does not matter.\<close>

lemma users_ok_frame [simp]:
  "users_ok L (d\<lparr>sessions := x_sessions\<rparr>) = users_ok L d"
  "users_ok L (d\<lparr>groups := x_groups\<rparr>) = users_ok L d"
  "users_ok L (d\<lparr>groups_seq := x_groups_seq\<rparr>) = users_ok L d"
  "users_ok L (d\<lparr>group_members := x_group_members\<rparr>) = users_ok L d"
  "users_ok L (d\<lparr>group_members_seq := x_group_members_seq\<rparr>) = users_ok L d"
  "users_ok L (d\<lparr>claim_codes := x_claim_codes\<rparr>) = users_ok L d"
  "users_ok L (d\<lparr>claim_codes_seq := x_claim_codes_seq\<rparr>) = users_ok L d"
  "users_ok L (d\<lparr>email_tokens := x_email_tokens\<rparr>) = users_ok L d"
  "users_ok L (d\<lparr>email_tokens_seq := x_email_tokens_seq\<rparr>) = users_ok L d"
  "users_ok L (d\<lparr>reset_tokens := x_reset_tokens\<rparr>) = users_ok L d"
  "users_ok L (d\<lparr>reset_tokens_seq := x_reset_tokens_seq\<rparr>) = users_ok L d"
  "users_ok L (d\<lparr>oauth_identities := x_oauth_identities\<rparr>) = users_ok L d"
  "users_ok L (d\<lparr>oauth_identities_seq := x_oauth_identities_seq\<rparr>) = users_ok L d"
  "users_ok L (d\<lparr>oauth_states := x_oauth_states\<rparr>) = users_ok L d"
  "users_ok L (d\<lparr>login_attempts := x_login_attempts\<rparr>) = users_ok L d"
  "users_ok L (d\<lparr>login_attempts_seq := x_login_attempts_seq\<rparr>) = users_ok L d"
  "users_ok L (d\<lparr>audit_log := x_audit_log\<rparr>) = users_ok L d"
  "users_ok L (d\<lparr>audit_log_seq := x_audit_log_seq\<rparr>) = users_ok L d"
  "users_ok L (d\<lparr>buckets := x_buckets\<rparr>) = users_ok L d"
  "users_ok L (d\<lparr>sso_logins := x_sso_logins\<rparr>) = users_ok L d"
  by (simp_all add: users_ok_def)

lemma sessions_ok_frame [simp]:
  "sessions_ok (d\<lparr>groups := x_groups\<rparr>) = sessions_ok d"
  "sessions_ok (d\<lparr>groups_seq := x_groups_seq\<rparr>) = sessions_ok d"
  "sessions_ok (d\<lparr>group_members := x_group_members\<rparr>) = sessions_ok d"
  "sessions_ok (d\<lparr>group_members_seq := x_group_members_seq\<rparr>) = sessions_ok d"
  "sessions_ok (d\<lparr>claim_codes := x_claim_codes\<rparr>) = sessions_ok d"
  "sessions_ok (d\<lparr>claim_codes_seq := x_claim_codes_seq\<rparr>) = sessions_ok d"
  "sessions_ok (d\<lparr>email_tokens := x_email_tokens\<rparr>) = sessions_ok d"
  "sessions_ok (d\<lparr>email_tokens_seq := x_email_tokens_seq\<rparr>) = sessions_ok d"
  "sessions_ok (d\<lparr>reset_tokens := x_reset_tokens\<rparr>) = sessions_ok d"
  "sessions_ok (d\<lparr>reset_tokens_seq := x_reset_tokens_seq\<rparr>) = sessions_ok d"
  "sessions_ok (d\<lparr>oauth_identities := x_oauth_identities\<rparr>) = sessions_ok d"
  "sessions_ok (d\<lparr>oauth_identities_seq := x_oauth_identities_seq\<rparr>) = sessions_ok d"
  "sessions_ok (d\<lparr>oauth_states := x_oauth_states\<rparr>) = sessions_ok d"
  "sessions_ok (d\<lparr>login_attempts := x_login_attempts\<rparr>) = sessions_ok d"
  "sessions_ok (d\<lparr>login_attempts_seq := x_login_attempts_seq\<rparr>) = sessions_ok d"
  "sessions_ok (d\<lparr>audit_log := x_audit_log\<rparr>) = sessions_ok d"
  "sessions_ok (d\<lparr>audit_log_seq := x_audit_log_seq\<rparr>) = sessions_ok d"
  "sessions_ok (d\<lparr>buckets := x_buckets\<rparr>) = sessions_ok d"
  "sessions_ok (d\<lparr>sso_logins := x_sso_logins\<rparr>) = sessions_ok d"
  by (simp_all add: sessions_ok_def)

lemma groups_ok_frame [simp]:
  "groups_ok (d\<lparr>sessions := x_sessions\<rparr>) = groups_ok d"
  "groups_ok (d\<lparr>group_members := x_group_members\<rparr>) = groups_ok d"
  "groups_ok (d\<lparr>group_members_seq := x_group_members_seq\<rparr>) = groups_ok d"
  "groups_ok (d\<lparr>claim_codes := x_claim_codes\<rparr>) = groups_ok d"
  "groups_ok (d\<lparr>claim_codes_seq := x_claim_codes_seq\<rparr>) = groups_ok d"
  "groups_ok (d\<lparr>email_tokens := x_email_tokens\<rparr>) = groups_ok d"
  "groups_ok (d\<lparr>email_tokens_seq := x_email_tokens_seq\<rparr>) = groups_ok d"
  "groups_ok (d\<lparr>reset_tokens := x_reset_tokens\<rparr>) = groups_ok d"
  "groups_ok (d\<lparr>reset_tokens_seq := x_reset_tokens_seq\<rparr>) = groups_ok d"
  "groups_ok (d\<lparr>oauth_identities := x_oauth_identities\<rparr>) = groups_ok d"
  "groups_ok (d\<lparr>oauth_identities_seq := x_oauth_identities_seq\<rparr>) = groups_ok d"
  "groups_ok (d\<lparr>oauth_states := x_oauth_states\<rparr>) = groups_ok d"
  "groups_ok (d\<lparr>login_attempts := x_login_attempts\<rparr>) = groups_ok d"
  "groups_ok (d\<lparr>login_attempts_seq := x_login_attempts_seq\<rparr>) = groups_ok d"
  "groups_ok (d\<lparr>audit_log := x_audit_log\<rparr>) = groups_ok d"
  "groups_ok (d\<lparr>audit_log_seq := x_audit_log_seq\<rparr>) = groups_ok d"
  "groups_ok (d\<lparr>buckets := x_buckets\<rparr>) = groups_ok d"
  "groups_ok (d\<lparr>sso_logins := x_sso_logins\<rparr>) = groups_ok d"
  by (simp_all add: groups_ok_def)

lemma members_ok_frame [simp]:
  "members_ok (d\<lparr>sessions := x_sessions\<rparr>) = members_ok d"
  "members_ok (d\<lparr>groups_seq := x_groups_seq\<rparr>) = members_ok d"
  "members_ok (d\<lparr>claim_codes := x_claim_codes\<rparr>) = members_ok d"
  "members_ok (d\<lparr>claim_codes_seq := x_claim_codes_seq\<rparr>) = members_ok d"
  "members_ok (d\<lparr>email_tokens := x_email_tokens\<rparr>) = members_ok d"
  "members_ok (d\<lparr>email_tokens_seq := x_email_tokens_seq\<rparr>) = members_ok d"
  "members_ok (d\<lparr>reset_tokens := x_reset_tokens\<rparr>) = members_ok d"
  "members_ok (d\<lparr>reset_tokens_seq := x_reset_tokens_seq\<rparr>) = members_ok d"
  "members_ok (d\<lparr>oauth_identities := x_oauth_identities\<rparr>) = members_ok d"
  "members_ok (d\<lparr>oauth_identities_seq := x_oauth_identities_seq\<rparr>) = members_ok d"
  "members_ok (d\<lparr>oauth_states := x_oauth_states\<rparr>) = members_ok d"
  "members_ok (d\<lparr>login_attempts := x_login_attempts\<rparr>) = members_ok d"
  "members_ok (d\<lparr>login_attempts_seq := x_login_attempts_seq\<rparr>) = members_ok d"
  "members_ok (d\<lparr>audit_log := x_audit_log\<rparr>) = members_ok d"
  "members_ok (d\<lparr>audit_log_seq := x_audit_log_seq\<rparr>) = members_ok d"
  "members_ok (d\<lparr>buckets := x_buckets\<rparr>) = members_ok d"
  "members_ok (d\<lparr>sso_logins := x_sso_logins\<rparr>) = members_ok d"
  by (simp_all add: members_ok_def)

lemma claims_ok_frame [simp]:
  "claims_ok (d\<lparr>sessions := x_sessions\<rparr>) = claims_ok d"
  "claims_ok (d\<lparr>groups := x_groups\<rparr>) = claims_ok d"
  "claims_ok (d\<lparr>groups_seq := x_groups_seq\<rparr>) = claims_ok d"
  "claims_ok (d\<lparr>group_members := x_group_members\<rparr>) = claims_ok d"
  "claims_ok (d\<lparr>group_members_seq := x_group_members_seq\<rparr>) = claims_ok d"
  "claims_ok (d\<lparr>claim_codes_seq := x_claim_codes_seq\<rparr>) = claims_ok d"
  "claims_ok (d\<lparr>email_tokens := x_email_tokens\<rparr>) = claims_ok d"
  "claims_ok (d\<lparr>email_tokens_seq := x_email_tokens_seq\<rparr>) = claims_ok d"
  "claims_ok (d\<lparr>reset_tokens := x_reset_tokens\<rparr>) = claims_ok d"
  "claims_ok (d\<lparr>reset_tokens_seq := x_reset_tokens_seq\<rparr>) = claims_ok d"
  "claims_ok (d\<lparr>oauth_identities := x_oauth_identities\<rparr>) = claims_ok d"
  "claims_ok (d\<lparr>oauth_identities_seq := x_oauth_identities_seq\<rparr>) = claims_ok d"
  "claims_ok (d\<lparr>oauth_states := x_oauth_states\<rparr>) = claims_ok d"
  "claims_ok (d\<lparr>login_attempts := x_login_attempts\<rparr>) = claims_ok d"
  "claims_ok (d\<lparr>login_attempts_seq := x_login_attempts_seq\<rparr>) = claims_ok d"
  "claims_ok (d\<lparr>audit_log := x_audit_log\<rparr>) = claims_ok d"
  "claims_ok (d\<lparr>audit_log_seq := x_audit_log_seq\<rparr>) = claims_ok d"
  "claims_ok (d\<lparr>buckets := x_buckets\<rparr>) = claims_ok d"
  "claims_ok (d\<lparr>sso_logins := x_sso_logins\<rparr>) = claims_ok d"
  by (simp_all add: claims_ok_def)

lemma oauth_ok_frame [simp]:
  "oauth_ok (d\<lparr>sessions := x_sessions\<rparr>) = oauth_ok d"
  "oauth_ok (d\<lparr>groups := x_groups\<rparr>) = oauth_ok d"
  "oauth_ok (d\<lparr>groups_seq := x_groups_seq\<rparr>) = oauth_ok d"
  "oauth_ok (d\<lparr>group_members := x_group_members\<rparr>) = oauth_ok d"
  "oauth_ok (d\<lparr>group_members_seq := x_group_members_seq\<rparr>) = oauth_ok d"
  "oauth_ok (d\<lparr>claim_codes := x_claim_codes\<rparr>) = oauth_ok d"
  "oauth_ok (d\<lparr>claim_codes_seq := x_claim_codes_seq\<rparr>) = oauth_ok d"
  "oauth_ok (d\<lparr>email_tokens := x_email_tokens\<rparr>) = oauth_ok d"
  "oauth_ok (d\<lparr>email_tokens_seq := x_email_tokens_seq\<rparr>) = oauth_ok d"
  "oauth_ok (d\<lparr>reset_tokens := x_reset_tokens\<rparr>) = oauth_ok d"
  "oauth_ok (d\<lparr>reset_tokens_seq := x_reset_tokens_seq\<rparr>) = oauth_ok d"
  "oauth_ok (d\<lparr>login_attempts := x_login_attempts\<rparr>) = oauth_ok d"
  "oauth_ok (d\<lparr>login_attempts_seq := x_login_attempts_seq\<rparr>) = oauth_ok d"
  "oauth_ok (d\<lparr>audit_log := x_audit_log\<rparr>) = oauth_ok d"
  "oauth_ok (d\<lparr>audit_log_seq := x_audit_log_seq\<rparr>) = oauth_ok d"
  "oauth_ok (d\<lparr>buckets := x_buckets\<rparr>) = oauth_ok d"
  "oauth_ok (d\<lparr>sso_logins := x_sso_logins\<rparr>) = oauth_ok d"
  by (simp_all add: oauth_ok_def)

lemma history_ok_frame [simp]:
  "history_ok (d\<lparr>sessions := x_sessions\<rparr>) = history_ok d"
  "history_ok (d\<lparr>groups := x_groups\<rparr>) = history_ok d"
  "history_ok (d\<lparr>groups_seq := x_groups_seq\<rparr>) = history_ok d"
  "history_ok (d\<lparr>group_members := x_group_members\<rparr>) = history_ok d"
  "history_ok (d\<lparr>group_members_seq := x_group_members_seq\<rparr>) = history_ok d"
  "history_ok (d\<lparr>claim_codes := x_claim_codes\<rparr>) = history_ok d"
  "history_ok (d\<lparr>claim_codes_seq := x_claim_codes_seq\<rparr>) = history_ok d"
  "history_ok (d\<lparr>email_tokens := x_email_tokens\<rparr>) = history_ok d"
  "history_ok (d\<lparr>email_tokens_seq := x_email_tokens_seq\<rparr>) = history_ok d"
  "history_ok (d\<lparr>reset_tokens := x_reset_tokens\<rparr>) = history_ok d"
  "history_ok (d\<lparr>reset_tokens_seq := x_reset_tokens_seq\<rparr>) = history_ok d"
  "history_ok (d\<lparr>oauth_identities := x_oauth_identities\<rparr>) = history_ok d"
  "history_ok (d\<lparr>oauth_identities_seq := x_oauth_identities_seq\<rparr>) = history_ok d"
  "history_ok (d\<lparr>oauth_states := x_oauth_states\<rparr>) = history_ok d"
  "history_ok (d\<lparr>login_attempts_seq := x_login_attempts_seq\<rparr>) = history_ok d"
  "history_ok (d\<lparr>audit_log_seq := x_audit_log_seq\<rparr>) = history_ok d"
  by (simp_all add: history_ok_def)

text \<open>
  A write that leaves accounts, groups and memberships alone and keeps the constraints. Most
  operations are of this kind, and every invariant of the development contains this relation.
\<close>

definition quiet :: "db \<Rightarrow> db \<Rightarrow> bool" where
  "quiet d d' \<longleftrightarrow> (\<forall>L. db_ok L d \<longrightarrow> db_ok L d') \<and> users d' = users d \<and> groups d' = groups d
     \<and> group_members d' = group_members d"

definition covers_quiet :: "(db \<Rightarrow> db \<Rightarrow> bool) \<Rightarrow> bool" where
  "covers_quiet R \<longleftrightarrow> preord R \<and> (\<forall>d d'. quiet d d' \<longrightarrow> R d d')"

lemma preord_quiet [preord_intro]: "preord quiet"
  by (auto simp: preord_def quiet_def reflp_def transp_def)

lemma covers_quiet_quiet [preord_intro]: "covers_quiet quiet"
  by (simp add: covers_quiet_def preord_quiet)

lemma covers_quiet_ok [preord_intro]: "covers_quiet (keeps (db_ok L))"
  by (auto simp: covers_quiet_def preord_keeps keeps_def quiet_def)

lemma covers_quiet_preord: "covers_quiet R \<Longrightarrow> preord R"
  by (simp add: covers_quiet_def)

lemma covers_quietD: "covers_quiet R \<Longrightarrow> quiet d d' \<Longrightarrow> R d d'"
  by (simp add: covers_quiet_def)

lemma covers_quiet_mono:
  "covers_quiet R \<Longrightarrow> evolves (on_tables quiet) m \<Longrightarrow> evolves (on_tables R) m"
  by (erule evolves_mono) (auto simp: on_tables_def dest: covers_quietD)

lemma evolves_read_query:
  "preord R \<Longrightarrow> (\<And>d r d'. q d = (r, d') \<Longrightarrow> d' = d) \<Longrightarrow> evolves (on_tables R) (query q)"
  by (rule evolves_query) (blast intro: preord_refl)+

lemma query_read_tables:
  "query q w = (r, w') \<Longrightarrow> (\<And>d s d'. q d = (s, d') \<Longrightarrow> d' = d) \<Longrightarrow> tables w' = tables w"
  by (erule query_cases) auto

lemma evolves_eqD: "evolves (on_tables (=)) m \<Longrightarrow> m w = (r, w') \<Longrightarrow> tables w' = tables w"
  by (auto dest!: evolvesD simp: on_tables_def)

lemma preord_eq [preord_intro]: "preord (=)"
  by (simp add: preord_def reflp_def transp_def)

section \<open>A concrete world\<close>

text \<open>
  The starting point of the worked examples: an administrator, a registered account and a guest,
  no failures, a clock at 1000 seconds, and random bytes to draw from.
\<close>

definition demo_admin :: user where
  "demo_admin = zero_user\<lparr>uID := 1, uEmail := Some ''a@x'', uPasswordHash := Some ''h1'', uIsAdmin := True,
     uTheme := ''light'', uLocale := ''en''\<rparr>"

definition demo_member :: user where
  "demo_member = zero_user\<lparr>uID := 2, uEmail := Some ''b@x'', uPasswordHash := Some ''h2'',
     uTheme := ''light'', uLocale := ''en''\<rparr>"

definition demo_guest :: user where
  "demo_guest = zero_user\<lparr>uID := 3, uUsername := Some ''guest-1'', uIsGuest := True,
     uTheme := ''light'', uLocale := ''en''\<rparr>"

definition demo_db :: db where
  "demo_db = empty_db\<lparr>users := [demo_admin, demo_member, demo_guest], users_seq := 3\<rparr>"

definition demo_world :: world where
  "demo_world = \<lparr>tables = demo_db, faults = [], now_ns = 1000000000000, entropy = replicate 34 7,
     outbox = [], mail_down = []\<rparr>"

lemmas demo_defs = demo_admin_def demo_member_def demo_guest_def demo_db_def demo_world_def
  zero_user_def empty_db_def

lemma demo_world_simps [simp]:
  "tables demo_world = demo_db" "faults demo_world = []" "now_ns demo_world = 1000000000000"
  "unix_now demo_world = 1000" "entropy demo_world = replicate 34 7" "mail_down demo_world = []"
  by (simp_all add: demo_world_def unix_now_def)

lemma demo_db_ok: "db_ok ascii_lib demo_db"
  by (simp add: db_ok_defs demo_defs users_checks_def btrim_def pg_lower_ascii_lib)

end
