(* ===== verification/UserStore.thy ===== *)
theory UserStore
  imports Database
begin

text \<open>
  The account repository (\<^verbatim>\<open>store/postgres/adapter.go\<close>, \<^verbatim>\<open>store/postgres/users.go\<close>): error
  classification, revision-checked writes, and the rule that the last site administrator can be
  neither demoted nor deleted. Integrity of the whole database and the presence of an
  administrator are proved for every operation, under every pattern of database failures.
\<close>

section \<open>Error classification\<close>

text \<open>\<^verbatim>\<open>ClassifyError\<close> (\<^verbatim>\<open>adapter.go\<close>); a nil error has no value here.\<close>

definition ClassifyError :: "error \<Rightarrow> error" where
  "ClassifyError err =
     (if errors_is err (Repo ContextCanceled) then Repo ContextCanceled
      else if errors_is err (Repo ContextDeadlineExceeded) then Repo ContextDeadlineExceeded
      else if errors_is err (Repo SqlErrNoRows) then Repo ErrNotFound
      else if errors_is err (Repo ErrNotFound) then Repo ErrNotFound
      else if errors_is err (Repo ErrConflict) then Repo ErrConflict
      else if errors_is err (Repo ErrInvalidData) then Repo ErrInvalidData
      else if errors_is err (Repo ErrDatabase) then Repo ErrDatabase
      else (case as_pg_error err of
          Some (UniqueViolation, _) \<Rightarrow> Repo ErrConflict
        | Some (NotNullViolation, _) \<Rightarrow> Repo ErrInvalidData
        | Some (ForeignKeyViolation, _) \<Rightarrow> Repo ErrInvalidData
        | Some (CheckViolation, _) \<Rightarrow> Repo ErrInvalidData
        | Some (StringTruncation, _) \<Rightarrow> Repo ErrInvalidData
        | Some (NumericOutOfRange, _) \<Rightarrow> Repo ErrInvalidData
        | Some (InvalidTextRepresentation, _) \<Rightarrow> Repo ErrInvalidData
        | Some (OtherCode, _) \<Rightarrow> Repo ErrDatabase
        | None \<Rightarrow> Repo ErrDatabase))"

definition wrapOperation :: "error \<Rightarrow> error" where
  "wrapOperation err = Wrap (ClassifyError err)"

definition mapUserError :: "error \<Rightarrow> error" where
  "mapUserError err =
     (if errors_is err (Repo ContextCanceled) then Repo ContextCanceled
      else if errors_is err (Repo ContextDeadlineExceeded) then Repo ContextDeadlineExceeded
      else if errors_is err (Repo SqlErrNoRows) \<or> errors_is err (Repo ErrNotFound)
        then Account ErrUserNotFound
      else (case as_pg_error err of
          Some (UniqueViolation, Users_email_unique_idx) \<Rightarrow> Account ErrDuplicateEmail
        | Some (UniqueViolation, Users_username_unique_idx) \<Rightarrow> Account ErrDuplicateUsername
        | _ \<Rightarrow> ClassifyError err))"

lemma mapUserError_simps [simp]:
  "mapUserError (Repo SqlErrNoRows) = Account ErrUserNotFound"
  "mapUserError (PgError UniqueViolation Users_email_unique_idx) = Account ErrDuplicateEmail"
  "mapUserError (PgError UniqueViolation Users_username_unique_idx) = Account ErrDuplicateUsername"
  "mapUserError (PgError CheckViolation k) = Repo ErrInvalidData"
  "mapUserError (PgError StringTruncation k) = Repo ErrInvalidData"
  "mapUserError (Repo ErrInvalidData) = Repo ErrInvalidData"
  by (simp_all add: mapUserError_def ClassifyError_def)

text \<open>A failure of the database is reported as such, never as a missing or duplicate account.\<close>

lemma mapUserError_fault: "is_fault e \<Longrightarrow> mapUserError e \<in> Repo ` UNIV"
  by (auto simp: is_fault_def mapUserError_def ClassifyError_def)

section \<open>Statements on \<open>users\<close>\<close>

definition select_user :: "(user \<Rightarrow> bool) \<Rightarrow> user stmt" where
  "select_user P d = (case find P (users d) of None \<Rightarrow> (Inl (Repo SqlErrNoRows), d) | Some u \<Rightarrow> (Inr u, d))"

text \<open>The order of the server's checks: widths, check constraints, then the unique indexes.\<close>

definition user_violation :: "golib \<Rightarrow> user \<Rightarrow> user list \<Rightarrow> error option" where
  "user_violation L u others =
     (if \<not> users_widths u then Some (PgError StringTruncation OtherConstraint)
      else if \<not> users_checks L u then Some (PgError CheckViolation OtherConstraint)
      else if uEmail u \<noteq> None \<and> uEmail u \<in> uEmail ` set others
        then Some (PgError UniqueViolation Users_email_unique_idx)
      else if uUsername u \<noteq> None \<and> uUsername u \<in> uUsername ` set others
        then Some (PgError UniqueViolation Users_username_unique_idx)
      else None)"

definition insert_user :: "golib \<Rightarrow> user \<Rightarrow> user stmt" where
  "insert_user L u d =
     (let row = u\<lparr>uID := users_seq d + 1\<rparr> in
      case user_violation L row (users d) of
        Some e \<Rightarrow> (Inl e, d)
      | None \<Rightarrow> (Inr row, d\<lparr>users := users d @ [row], users_seq := users_seq d + 1\<rparr>))"

definition update_user_where :: "golib \<Rightarrow> (user \<Rightarrow> bool) \<Rightarrow> (user \<Rightarrow> user) \<Rightarrow> user stmt" where
  "update_user_where L P f d =
     (case find P (users d) of
        None \<Rightarrow> (Inl (Repo SqlErrNoRows), d)
      | Some u \<Rightarrow>
          (let row = f u in
           case user_violation L row (delete_where (\<lambda>v. uID v = uID u) (users d)) of
             Some e \<Rightarrow> (Inl e, d)
           | None \<Rightarrow> (Inr row, d\<lparr>users := update_where (\<lambda>v. uID v = uID u) (\<lambda>_. row) (users d)\<rparr>)))"

definition delete_user_where :: "int \<Rightarrow> int \<Rightarrow> bool stmt" where
  "delete_user_where uid version d =
     (if \<exists>u \<in> set (users d). uID u = uid \<and> uVersion u = version
      then (Inr True, delete_user_cascade uid d) else (Inr False, d))"

abbreviation site_admin :: "user \<Rightarrow> bool" where
  "site_admin u \<equiv> uIsAdmin u \<and> \<not> uIsGuest u"

section \<open>Repository operations\<close>

definition scanUser :: "user \<Rightarrow> error + user" where
  "scanUser u = (if uID u \<le> 0 \<or> uVersion u < 0 then Inl (Repo ErrInvalidData) else Inr u)"

definition CreateUser :: "golib \<Rightarrow> user \<Rightarrow> user prog" where
  "CreateUser L user =
     (let user = (if uTheme user = [] then user\<lparr>uTheme := ''light''\<rparr> else user);
          user = (if uLocale user = [] then user\<lparr>uLocale := ''en''\<rparr> else user) in
      call (query (insert_user L user)) mapUserError (\<lambda>row.
      check (scanUser row) mapUserError ret))"

definition find_user :: "(user \<Rightarrow> bool) \<Rightarrow> user prog" where
  "find_user P = call (query (select_user P)) mapUserError (\<lambda>row. check (scanUser row) mapUserError ret)"

definition FindUserByID :: "int \<Rightarrow> user prog" where
  "FindUserByID uid =
     (if uid \<le> 0 then fail (Account ErrUserNotFound) else find_user (\<lambda>u. uID u = uid))"

definition FindUserByEmail :: "golib \<Rightarrow> string \<Rightarrow> user prog" where
  "FindUserByEmail L email =
     (case NormalizeEmail L email of
        Inl _ \<Rightarrow> fail (Account ErrUserNotFound)
      | Inr normalized \<Rightarrow>
          if normalized = [] then fail (Account ErrUserNotFound)
          else find_user (\<lambda>u. uEmail u = Some normalized))"

definition FindUserByUsername :: "golib \<Rightarrow> string \<Rightarrow> user prog" where
  "FindUserByUsername L username =
     (case NormalizeUsername L username of
        Inl _ \<Rightarrow> fail (Account ErrUserNotFound)
      | Inr normalized \<Rightarrow>
          if normalized = [] then fail (Account ErrUserNotFound)
          else find_user (\<lambda>u. uUsername u = Some normalized))"

definition select_site_admin :: "int \<Rightarrow> bool stmt" where
  "select_site_admin uid d =
     (case find (\<lambda>u. uID u = uid) (users d) of
        None \<Rightarrow> (Inl (Repo SqlErrNoRows), d) | Some u \<Rightarrow> (Inr (site_admin u), d))"

definition count_other_admins :: "int \<Rightarrow> int stmt" where
  "count_other_admins uid d =
     (Inr (int (length (filter (\<lambda>u. site_admin u \<and> uID u \<noteq> uid) (users d)))), d)"

definition advisory_lock :: "unit stmt" where
  "advisory_lock d = (Inr (), d)"

definition keepAnotherAdministrator :: "int \<Rightarrow> unit prog" where
  "keepAnotherAdministrator uid =
     attempt (query (select_site_admin uid)) (\<lambda>r. case r of
       Inl err \<Rightarrow>
         if errors_is err (Repo SqlErrNoRows) then ret () else fail (mapUserError err)
     | Inr isAdmin \<Rightarrow>
         if \<not> isAdmin then ret ()
         else
           call (query advisory_lock) mapUserError (\<lambda>_.
           call (query (count_other_admins uid)) mapUserError (\<lambda>others.
           attempt (query (select_site_admin uid)) (\<lambda>r. case r of
             Inl err \<Rightarrow>
               if errors_is err (Repo SqlErrNoRows)
               then if isAdmin \<and> others = 0 then fail (Adm ErrLastAdministrator) else ret ()
               else fail (mapUserError err)
           | Inr isAdmin \<Rightarrow>
               if isAdmin \<and> others = 0 then fail (Adm ErrLastAdministrator) else ret ()))))"

definition user_exists :: "int \<Rightarrow> bool stmt" where
  "user_exists uid d = (Inr (\<exists>u \<in> set (users d). uID u = uid), d)"

definition classifyMissingUserWrite :: "int \<Rightarrow> 'a prog" where
  "classifyMissingUserWrite uid =
     (if uid \<le> 0 then fail (Account ErrUserNotFound)
      else call (query (user_exists uid)) mapUserError (\<lambda>there.
        if \<not> there then fail (Account ErrUserNotFound)
        else fail (Repo ErrOptimisticLockConflict)))"

text \<open>The columns \<^verbatim>\<open>UpdateUser\<close> writes; the identifier and the creation time stay.\<close>

definition set_user_columns :: "user \<Rightarrow> user \<Rightarrow> user" where
  "set_user_columns user row = row\<lparr>uEmail := uEmail user, uPasswordHash := uPasswordHash user,
     uUsername := uUsername user, uDisplayName := uDisplayName user, uIsGuest := uIsGuest user,
     uIsAdmin := uIsAdmin user, uTheme := uTheme user, uLocale := uLocale user,
     uEmailVerifiedAt := uEmailVerifiedAt user, uVersion := uVersion row + 1\<rparr>"

definition update_user_body :: "golib \<Rightarrow> user \<Rightarrow> int \<Rightarrow> user option prog" where
  "update_user_body L user expectedVersion =
     call (if \<not> uIsAdmin user \<or> uIsGuest user then keepAnotherAdministrator (uID user) else ret ())
       id (\<lambda>_.
     attempt (query (update_user_where L (\<lambda>u. uID u = uID user \<and> uVersion u = expectedVersion)
                (set_user_columns user))) (\<lambda>r. case r of
       Inr row \<Rightarrow> check (scanUser row) mapUserError (\<lambda>updated. ret (Some updated))
     | Inl scanErr \<Rightarrow>
         if \<not> errors_is scanErr (Repo SqlErrNoRows) then fail (mapUserError scanErr) else ret None))"

definition UpdateUser :: "golib \<Rightarrow> user \<Rightarrow> int \<Rightarrow> user prog" where
  "UpdateUser L user expectedVersion =
     call (transaction mapUserError (update_user_body L user expectedVersion)) id (\<lambda>r.
       case r of Some updated \<Rightarrow> ret updated | None \<Rightarrow> classifyMissingUserWrite (uID user))"

definition delete_user_body :: "int \<Rightarrow> int \<Rightarrow> unit option prog" where
  "delete_user_body uid expectedVersion =
     call (keepAnotherAdministrator uid) id (\<lambda>_.
     call (query (delete_user_where uid expectedVersion)) mapUserError (\<lambda>deleted.
       if deleted then ret (Some ()) else ret None))"

definition DeleteUser :: "int \<Rightarrow> int \<Rightarrow> unit prog" where
  "DeleteUser uid expectedVersion =
     call (transaction mapUserError (delete_user_body uid expectedVersion)) id (\<lambda>r.
       case r of Some _ \<Rightarrow> ret () | None \<Rightarrow> classifyMissingUserWrite uid)"

section \<open>Integrity\<close>

text \<open>
  Rows that reference accounts stay valid as long as no account identifier disappears, so a
  write to \<open>users\<close> that keeps the identifiers only has to re-establish \<open>users_ok\<close>.
\<close>

lemma db_ok_users_grow:
  assumes "db_ok L d" and "users_ok L d'" and "user_ids d \<subseteq> user_ids d'"
    and "d' = d\<lparr>users := users d', users_seq := users_seq d'\<rparr>"
  shows "db_ok L d'"
proof -
  have same: "sessions d' = sessions d" "groups d' = groups d" "groups_seq d' = groups_seq d"
    "group_members d' = group_members d" "group_members_seq d' = group_members_seq d"
    "claim_codes d' = claim_codes d" "email_tokens d' = email_tokens d"
    "reset_tokens d' = reset_tokens d" "oauth_identities d' = oauth_identities d"
    "oauth_identities_seq d' = oauth_identities_seq d" "oauth_states d' = oauth_states d"
    "login_attempts d' = login_attempts d" "audit_log d' = audit_log d"
    "buckets d' = buckets d" "sso_logins d' = sso_logins d"
    by (subst assms(4), simp)+
  show ?thesis
  using assms(1,2,3)
  by (auto simp: same db_ok_def sessions_ok_def groups_ok_def members_ok_def claims_ok_def
      tokens_ok_def oauth_ok_def history_ok_def)
qed

lemma user_violation_None:
  "user_violation L u others = None \<longleftrightarrow>
     users_widths u \<and> users_checks L u
     \<and> (uEmail u = None \<or> (\<forall>v \<in> set others. uEmail v \<noteq> uEmail u))
     \<and> (uUsername u = None \<or> (\<forall>v \<in> set others. uUsername v \<noteq> uUsername u))"
  by (auto simp: user_violation_def image_iff)

lemma insert_user_Inr:
  "insert_user L u d = (Inr row, d') \<longleftrightarrow>
     row = u\<lparr>uID := users_seq d + 1\<rparr> \<and> user_violation L row (users d) = None
     \<and> d' = d\<lparr>users := users d @ [row], users_seq := users_seq d + 1\<rparr>"
  by (auto simp: insert_user_def Let_def split: option.splits)

lemma insert_user_ok:
  assumes ok: "db_ok L d" and ins: "insert_user L u d = (Inr row, d')"
  shows "db_ok L d'"
proof -
  have u: "users_ok L d" using ok by (simp add: db_ok_def)
  have v: "user_violation L row (users d) = None"
    and row: "uID row = users_seq d + 1"
    and d': "d' = d\<lparr>users := users d @ [row], users_seq := users_seq d + 1\<rparr>"
    using ins by (auto simp: insert_user_Inr)
  have fresh: "\<forall>x \<in> set (users d). uID x < uID row"
    using u row by (auto simp: users_ok_def)
  then have "unique_on (\<lambda>u. Some (uID u)) (users d @ [row])"
    using u by (auto simp: unique_on_append users_ok_def)
  moreover have "unique_on uEmail (users d @ [row])" and "unique_on uUsername (users d @ [row])"
    using u v by (simp_all add: unique_on_append users_ok_def user_violation_None)
  ultimately have "users_ok L d'"
    using u v row unfolding d' users_ok_def by (auto simp: user_violation_None)
  then show ?thesis
    by (rule db_ok_users_grow [OF ok]) (auto simp: d')
qed

lemma update_user_where_Inr:
  assumes "update_user_where L P f d = (Inr row, d')"
  obtains u where "find P (users d) = Some u" "u \<in> set (users d)" "P u" "row = f u"
    "user_violation L row (delete_where (\<lambda>v. uID v = uID u) (users d)) = None"
    "d' = d\<lparr>users := update_where (\<lambda>v. uID v = uID u) (\<lambda>_. row) (users d)\<rparr>"
  using assms
  by (auto simp: update_user_where_def Let_def split: option.splits dest: find_Some_iff')

lemma update_user_where_ok:
  assumes ok: "db_ok L d" and upd: "update_user_where L P f d = (Inr row, d')"
    and same_id: "\<And>u. uID (f u) = uID u"
  shows "db_ok L d'"
proof -
  have uok: "users_ok L d" using ok by (simp add: db_ok_def)
  from upd obtain u where u: "u \<in> set (users d)" and row: "row = f u"
    and v: "user_violation L row (delete_where (\<lambda>v. uID v = uID u) (users d)) = None"
    and d': "d' = d\<lparr>users := update_where (\<lambda>v. uID v = uID u) (\<lambda>_. row) (users d)\<rparr>"
    by (rule update_user_where_Inr)
  have ids: "uID row = uID u" using row same_id by simp
  have uniq: "unique_on (\<lambda>u. Some (uID u)) (users d)" using uok by (simp add: users_ok_def)
  have "unique_on uEmail (users d')" and "unique_on uUsername (users d')"
    using uok v uniq unfolding d' users_ok_def user_violation_None
    by (auto intro!: unique_on_replace)
  moreover have "unique_on (\<lambda>u. Some (uID u)) (users d')"
    unfolding d' by (simp add: unique_on_replace_ident ids uniq)
  moreover have "\<forall>v \<in> set (users d'). 0 < uID v \<and> uID v \<le> users_seq d' \<and> users_checks L v"
    using uok u v ids unfolding d' users_ok_def user_violation_None
    by (auto simp: set_update_where)
  ultimately have "users_ok L d'"
    using uok by (simp add: users_ok_def d')
  moreover have "user_ids d \<subseteq> user_ids d'"
    unfolding d' by (simp add: ident_update_where ids)
  ultimately show ?thesis
    by (rule db_ok_users_grow [OF ok]) (simp add: d')
qed

lemma delete_user_where_ok:
  "db_ok L d \<Longrightarrow> delete_user_where uid v d = (Inr b, d') \<Longrightarrow> db_ok L d'"
  by (auto simp: delete_user_where_def delete_cascade_ok split: if_splits)

text \<open>Read-only statements keep every relation that is a preorder.\<close>

lemma read_only_stmts:
  "select_user P d = (r, d') \<Longrightarrow> d' = d"
  "select_site_admin uid d = (b, d') \<Longrightarrow> d' = d"
  "count_other_admins uid d = (n, d') \<Longrightarrow> d' = d"
  "advisory_lock d = (x, d') \<Longrightarrow> d' = d"
  "user_exists uid d = (b, d') \<Longrightarrow> d' = d"
  by (auto simp: select_user_def select_site_admin_def count_other_admins_def advisory_lock_def
      user_exists_def split: option.splits)

lemma evolves_user_reads [evolves_intro]:
  "preord R \<Longrightarrow> evolves (on_tables R) (query (select_user P))"
  "preord R \<Longrightarrow> evolves (on_tables R) (query (select_site_admin uid))"
  "preord R \<Longrightarrow> evolves (on_tables R) (query (count_other_admins uid))"
  "preord R \<Longrightarrow> evolves (on_tables R) (query advisory_lock)"
  "preord R \<Longrightarrow> evolves (on_tables R) (query (user_exists uid))"
  by (rule evolves_read_query, assumption, erule read_only_stmts)+

lemma evolves_find_user [evolves_intro]: "preord R \<Longrightarrow> evolves (on_tables R) (find_user P)"
  unfolding find_user_def by (intro evolves_intro preord_intro)

lemma evolves_FindUserByID [evolves_intro]: "preord R \<Longrightarrow> evolves (on_tables R) (FindUserByID uid)"
  unfolding FindUserByID_def by (intro evolves_intro preord_intro)

lemma evolves_FindUserByEmail [evolves_intro]:
  "preord R \<Longrightarrow> evolves (on_tables R) (FindUserByEmail L e)"
  unfolding FindUserByEmail_def by (intro evolves_intro preord_intro)

lemma evolves_FindUserByUsername [evolves_intro]:
  "preord R \<Longrightarrow> evolves (on_tables R) (FindUserByUsername L n)"
  unfolding FindUserByUsername_def by (intro evolves_intro preord_intro)

lemma evolves_keepAnotherAdministrator [evolves_intro]:
  "preord R \<Longrightarrow> evolves (on_tables R) (keepAnotherAdministrator uid)"
  unfolding keepAnotherAdministrator_def by (intro evolves_intro preord_intro)

lemma evolves_classifyMissingUserWrite [evolves_intro]:
  "preord R \<Longrightarrow> evolves (on_tables R) (classifyMissingUserWrite uid)"
  unfolding classifyMissingUserWrite_def by (intro evolves_intro preord_intro)

lemma set_user_columns_ID [simp]: "uID (set_user_columns u row) = uID row"
  by (simp add: set_user_columns_def)

lemma evolves_CreateUser_ok [evolves_intro]:
  "evolves (on_tables (keeps (db_ok L))) (CreateUser L u)"
  unfolding CreateUser_def
  by (intro evolves_intro preord_intro) (auto simp: keeps_def insert_user_ok)

lemma evolves_update_user_body_ok:
  "evolves (on_tables (keeps (db_ok L))) (update_user_body L u v)"
  unfolding update_user_body_def
  by (intro evolves_intro preord_intro) (auto simp: keeps_def update_user_where_ok)

lemma evolves_UpdateUser_ok [evolves_intro]:
  "evolves (on_tables (keeps (db_ok L))) (UpdateUser L u v)"
  unfolding UpdateUser_def by (intro evolves_intro preord_intro evolves_transaction evolves_update_user_body_ok)

lemma evolves_DeleteUser_ok [evolves_intro]:
  "evolves (on_tables (keeps (db_ok L))) (DeleteUser uid v)"
  unfolding DeleteUser_def delete_user_body_def
  by (intro evolves_intro preord_intro evolves_transaction) (auto simp: keeps_def delete_user_where_ok)

lemma FindUserByID_Inr:
  "FindUserByID uid w = (Inr u, w') \<Longrightarrow>
    find (\<lambda>v. uID v = uid) (users (tables w)) = Some u \<and> tables w' = tables w \<and> 0 < uid"
  by (auto simp: FindUserByID_def find_user_def select_user_def scanUser_def split: if_splits option.splits
      dest!: query_Inr)

lemma find_user_Inr:
  "find_user P w = (Inr u, w') \<Longrightarrow>
    find P (users (tables w)) = Some u \<and> 0 < uID u \<and> tables w' = tables w \<and> unix_now w' = unix_now w"
  by (auto simp: find_user_def select_user_def scanUser_def unix_now_def split: if_splits option.splits
      dest!: query_Inr_world)

lemma find_user_run:
  assumes "faults w = []" "users_ok L (tables w)"
  shows "find_user P w = (case find P (users (tables w)) of
      None \<Rightarrow> (Inl (Account ErrUserNotFound), w) | Some u \<Rightarrow> (Inr u, w))"
proof (cases "find P (users (tables w))")
  case (Some u)
  then have "u \<in> set (users (tables w))" by (auto dest: find_Some_iff')
  with assms(2) have "0 < uID u" "0 \<le> uVersion u" by (auto simp: users_ok_def users_checks_def)
  with Some assms(1) show ?thesis
    by (cases w) (simp add: find_user_def call_def check_def ret_def select_user_def scanUser_def)
qed (simp add: find_user_def call_def select_user_def assms(1))

section \<open>The last administrator\<close>

definition has_site_admin :: "'z db_scheme \<Rightarrow> bool" where
  "has_site_admin d \<longleftrightarrow> (\<exists>u \<in> set (users d). site_admin u)"

definition admin_inv :: "golib \<Rightarrow> db \<Rightarrow> bool" where
  "admin_inv L d \<longleftrightarrow> db_ok L d \<and> has_site_admin d"

text \<open>What a passed check guarantees: the account is no administrator, or another one exists.\<close>

definition spare_admin :: "int \<Rightarrow> db \<Rightarrow> bool" where
  "spare_admin uid d \<longleftrightarrow>
     (\<forall>u. find (\<lambda>v. uID v = uid) (users d) = Some u \<and> site_admin u \<longrightarrow>
        (\<exists>v \<in> set (users d). uID v \<noteq> uid \<and> site_admin v))"

lemma keepAnotherAdministrator_Inr:
  assumes "keepAnotherAdministrator uid w = (Inr (), w')"
  shows "tables w' = tables w" and "spare_admin uid (tables w)"
proof -
  show "tables w' = tables w"
    using evolves_keepAnotherAdministrator [OF preord_eq] assms by (rule evolves_eqD)
  obtain r w1 where q1: "query (select_site_admin uid) w = (r, w1)"
    by (cases "query (select_site_admin uid) w")
  have t1: "tables w1 = tables w"
    by (rule query_read_tables [OF q1]) (rule read_only_stmts)
  show "spare_admin uid (tables w)"
  proof (cases r)
    case (Inl e)
    have "is_fault e \<or> find (\<lambda>u. uID u = uid) (users (tables w)) = None"
      using query_Inl [of "select_site_admin uid" w e w1] q1 Inl
      by (auto simp: select_site_admin_def split: option.splits)
    with assms q1 Inl show ?thesis
      by (auto simp: keepAnotherAdministrator_def attempt_iff spare_admin_def is_fault_def
          split: if_splits)
  next
    case (Inr isAdmin)
    then have sel: "select_site_admin uid (tables w) = (Inr isAdmin, tables w1)"
      using q1 by (auto dest: query_Inr)
    show ?thesis
    proof (cases isAdmin)
      case False
      with sel show ?thesis
        by (auto simp: select_site_admin_def spare_admin_def split: option.splits)
    next
      case True
      with assms q1 Inr obtain w2 w3 others s w4 where
        q2: "query advisory_lock w1 = (Inr (), w2)"
        and q3: "query (count_other_admins uid) w2 = (Inr others, w3)"
        and q4: "query (select_site_admin uid) w3 = (s, w4)"
        and rest: "(case s of Inl err \<Rightarrow> if errors_is err (Repo SqlErrNoRows)
               then if True \<and> others = 0 then fail (Adm ErrLastAdministrator) else ret ()
               else fail (mapUserError err)
           | Inr isAdmin \<Rightarrow>
               if isAdmin \<and> others = 0 then fail (Adm ErrLastAdministrator) else ret ()) w4 = (Inr (), w')"
        by (auto simp: keepAnotherAdministrator_def attempt_iff)
      have t2: "tables w2 = tables w"
        using query_read_tables [OF q2] t1 by (simp add: advisory_lock_def)
      have t3: "tables w3 = tables w"
        using query_read_tables [OF q3] t2 by (simp add: count_other_admins_def)
      have others: "others = int (length (filter (\<lambda>u. site_admin u \<and> uID u \<noteq> uid) (users (tables w))))"
        using query_Inr [OF q3] t2 by (auto simp: count_other_admins_def)
      have "others \<noteq> 0"
      proof (cases s)
        case (Inl e)
        with rest show ?thesis by (auto split: if_splits)
      next
        case (Inr b)
        with query_Inr [of "select_site_admin uid" w3 b w4] q4 t3 sel True
        have b by (auto simp: select_site_admin_def split: option.splits)
        with rest Inr show ?thesis by (auto split: if_splits)
      qed
      then have "filter (\<lambda>u. site_admin u \<and> uID u \<noteq> uid) (users (tables w)) \<noteq> []"
        using others by auto
      then show ?thesis by (auto simp: spare_admin_def filter_empty_conv)
    qed
  qed
qed

lemma find_user_by_id:
  "users_ok L d \<Longrightarrow> u \<in> set (users d) \<Longrightarrow> find (\<lambda>v. uID v = uID u) (users d) = Some u"
  using find_unique [of "\<lambda>u. Some (uID u)" "users d" u "uID u"] by (simp add: users_ok_def)

text \<open>With a spare administrator, dropping or rewriting the account keeps one.\<close>

lemma spare_admin_delete:
  assumes "admin_inv L d" and "spare_admin uid d"
  shows "\<exists>v \<in> set (users d). uID v \<noteq> uid \<and> site_admin v"
proof -
  from assms(1) obtain a where a: "a \<in> set (users d)" "site_admin a"
    by (auto simp: admin_inv_def has_site_admin_def)
  show ?thesis
  proof (cases "uID a = uid")
    case True
    have "find (\<lambda>v. uID v = uID a) (users d) = Some a"
      using assms(1) a by (intro find_user_by_id [of L]) (simp_all add: admin_inv_def db_ok_def)
    with True a assms(2) show ?thesis by (auto simp: spare_admin_def)
  next
    case False
    with a show ?thesis by blast
  qed
qed

lemma update_user_body_commit:
  assumes "update_user_body L user ver w = (Inr (Some u'), w')"
  shows "update_user_where L (\<lambda>u. uID u = uID user \<and> uVersion u = ver) (set_user_columns user) (tables w)
           = (Inr u', tables w')"
    and "\<not> uIsAdmin user \<or> uIsGuest user \<Longrightarrow> spare_admin (uID user) (tables w)"
proof -
  from assms obtain w1 r w2 where
    k: "(if \<not> uIsAdmin user \<or> uIsGuest user then keepAnotherAdministrator (uID user) else ret ()) w = (Inr (), w1)"
    and q: "query (update_user_where L (\<lambda>u. uID u = uID user \<and> uVersion u = ver) (set_user_columns user)) w1 = (r, w2)"
    and rest: "(case r of Inr row \<Rightarrow> check (scanUser row) mapUserError (\<lambda>updated. ret (Some updated))
       | Inl scanErr \<Rightarrow> if \<not> errors_is scanErr (Repo SqlErrNoRows) then fail (mapUserError scanErr) else ret None) w2
       = (Inr (Some u'), w')"
    by (auto simp: update_user_body_def attempt_iff)
  have t1: "tables w1 = tables w"
    using k keepAnotherAdministrator_Inr(1) by (auto split: if_splits)
  from rest obtain row where r: "r = Inr row" and row: "row = u'" and w2: "w' = w2"
    by (cases r) (auto simp: scanUser_def split: if_splits)
  show "update_user_where L (\<lambda>u. uID u = uID user \<and> uVersion u = ver) (set_user_columns user) (tables w)
           = (Inr u', tables w')"
    using q r row w2 t1 by (auto dest: query_Inr)
  show "spare_admin (uID user) (tables w)" if "\<not> uIsAdmin user \<or> uIsGuest user"
    using k that by (auto dest: keepAnotherAdministrator_Inr(2))
qed

lemma update_keeps_admin:
  assumes inv: "admin_inv L d"
    and upd: "update_user_where L (\<lambda>u. uID u = uID user \<and> uVersion u = ver) (set_user_columns user) d
           = (Inr u', d')"
    and spare: "\<not> uIsAdmin user \<or> uIsGuest user \<Longrightarrow> spare_admin (uID user) d"
  shows "has_site_admin d'"
proof -
  from upd obtain u where u: "u \<in> set (users d)" "uID u = uID user"
    and row: "u' = set_user_columns user u"
    and d': "d' = d\<lparr>users := update_where (\<lambda>v. uID v = uID u) (\<lambda>_. u') (users d)\<rparr>"
    by (rule update_user_where_Inr) auto
  show ?thesis
  proof (cases "site_admin user")
    case True
    then have "site_admin u'" by (simp add: row set_user_columns_def)
    moreover have "u' \<in> set (users d')" using u d' by (auto simp: set_update_where)
    ultimately show ?thesis by (auto simp: has_site_admin_def)
  next
    case False
    with inv spare spare_admin_delete obtain v where "v \<in> set (users d)" "uID v \<noteq> uID user" "site_admin v"
      by blast
    with u d' have "v \<in> set (users d')" by (auto simp: set_update_where)
    with \<open>site_admin v\<close> show ?thesis by (auto simp: has_site_admin_def)
  qed
qed

lemma evolves_UpdateUser_admin [evolves_intro]:
  "evolves (on_tables (keeps (admin_inv L))) (UpdateUser L user ver)"
proof -
  have "evolves (on_tables (keeps (admin_inv L))) (transaction mapUserError (update_user_body L user ver))"
  proof (rule evolves_transaction_commit)
    fix w u' w'
    assume b: "update_user_body L user ver w = (Inr (Some u'), w')"
    show "keeps (admin_inv L) (tables w) (tables w')"
      unfolding keeps_def
    proof
      assume inv: "admin_inv L (tables w)"
      have "has_site_admin (tables w')"
        using inv update_user_body_commit [OF b] by (rule update_keeps_admin)
      moreover have "db_ok L (tables w')"
        using evolvesD [OF evolves_update_user_body_ok b] inv
        by (simp add: on_tables_def keeps_def admin_inv_def)
      ultimately show "admin_inv L (tables w')" by (simp add: admin_inv_def)
    qed
  qed (rule preord_intro)
  then show ?thesis unfolding UpdateUser_def
    by (intro evolves_intro preord_intro) simp_all
qed

lemma delete_user_body_commit:
  assumes "delete_user_body uid ver w = (Inr (Some ()), w')"
  shows "tables w' = delete_user_cascade uid (tables w)" and "spare_admin uid (tables w)"
    and "\<exists>u \<in> set (users (tables w)). uID u = uid \<and> uVersion u = ver"
proof -
  from assms obtain w1 w2 where k: "keepAnotherAdministrator uid w = (Inr (), w1)"
    and q: "query (delete_user_where uid ver) w1 = (Inr True, w2)" and w': "w' = w2"
    by (auto simp: delete_user_body_def split: if_splits)
  note t1 = keepAnotherAdministrator_Inr [OF k]
  from query_Inr [OF q] t1 w'
  show "tables w' = delete_user_cascade uid (tables w)" and "spare_admin uid (tables w)"
    and "\<exists>u \<in> set (users (tables w)). uID u = uid \<and> uVersion u = ver"
    by (auto simp: delete_user_where_def split: if_splits)
qed

lemma evolves_DeleteUser_admin [evolves_intro]:
  "evolves (on_tables (keeps (admin_inv L))) (DeleteUser uid ver)"
proof -
  have "evolves (on_tables (keeps (admin_inv L))) (transaction mapUserError (delete_user_body uid ver))"
  proof (rule evolves_transaction_commit)
    fix w x w'
    assume b: "delete_user_body uid ver w = (Inr (Some x), w')"
    then have b': "delete_user_body uid ver w = (Inr (Some ()), w')" by simp
    show "keeps (admin_inv L) (tables w) (tables w')"
      unfolding keeps_def delete_user_body_commit(1) [OF b']
    proof
      assume inv: "admin_inv L (tables w)"
      then have "has_site_admin (delete_user_cascade uid (tables w))"
        using spare_admin_delete [OF inv delete_user_body_commit(2) [OF b']]
        by (auto simp: has_site_admin_def)
      with inv show "admin_inv L (delete_user_cascade uid (tables w))"
        by (simp add: admin_inv_def delete_cascade_ok)
    qed
  qed (rule preord_intro)
  then show ?thesis unfolding DeleteUser_def
    by (intro evolves_intro preord_intro) simp_all
qed

lemma evolves_CreateUser_admin [evolves_intro]:
  "evolves (on_tables (keeps (admin_inv L))) (CreateUser L u)"
  unfolding CreateUser_def
  by (intro evolves_intro preord_intro)
     (auto simp: keeps_def admin_inv_def insert_user_ok has_site_admin_def insert_user_Inr)

lemma covers_quiet_admin [preord_intro]: "covers_quiet (keeps (admin_inv L))"
  by (auto simp: covers_quiet_def preord_keeps keeps_def quiet_def admin_inv_def has_site_admin_def)

section \<open>A successful update\<close>

lemma classifyMissingUserWrite_refuses: "classifyMissingUserWrite uid w \<noteq> (Inr x, w')"
  by (auto simp: classifyMissingUserWrite_def split: if_splits)

lemma UpdateUser_Inr:
  assumes "UpdateUser L user ver w = (Inr u', w')"
  obtains row where "row \<in> set (users (tables w))" "uID row = uID user" "uVersion row = ver"
    "u' = set_user_columns user row" "users_checks L u'"
    "tables w' = (tables w)\<lparr>users := update_where (\<lambda>v. uID v = uID user) (\<lambda>_. u') (users (tables w))\<rparr>"
proof -
  from assms obtain r w1 where t: "transaction mapUserError (update_user_body L user ver) w = (Inr r, w1)"
    and c: "(case r of Some updated \<Rightarrow> ret updated | None \<Rightarrow> classifyMissingUserWrite (uID user)) w1 = (Inr u', w')"
    by (auto simp: UpdateUser_def)
  have r: "r = Some u' \<and> w1 = w'"
  proof (cases r)
    case None
    with c have "classifyMissingUserWrite (uID user) w1 = (Inr u', w')" by simp
    then show ?thesis by (simp add: classifyMissingUserWrite_refuses)
  qed (use c in simp)
  from t obtain w2 where b: "update_user_body L user ver (w\<lparr>faults := tl (faults w)\<rparr>) = (Inr (Some u'), w2)"
    and w': "tables w' = tables w2"
    by (rule transaction_Inr) (auto simp: r)
  from update_user_body_commit(1) [OF b]
  have "update_user_where L (\<lambda>u. uID u = uID user \<and> uVersion u = ver) (set_user_columns user) (tables w)
      = (Inr u', tables w')" by (simp add: w')
  then obtain row where "row \<in> set (users (tables w))" "uID row = uID user \<and> uVersion row = ver"
    "u' = set_user_columns user row" "user_violation L u' (delete_where (\<lambda>v. uID v = uID row) (users (tables w))) = None"
    "tables w' = (tables w)\<lparr>users := update_where (\<lambda>v. uID v = uID row) (\<lambda>_. u') (users (tables w))\<rparr>"
    by (rule update_user_where_Inr)
  then show thesis using that by (auto simp: user_violation_None)
qed

text \<open>Writing back an account just read, with some fields changed: the row becomes the changed account at the next revision.\<close>

lemma write_back:
  assumes "users_ok L d" "u \<in> set (users d)" "row \<in> set (users d)" "uID row = uID u"
  shows "set_user_columns (f u) row = (f u)\<lparr>uID := uID u, uCreatedAt := uCreatedAt u, uVersion := uVersion u + 1\<rparr>"
proof -
  have "row = u" using assms unique_onD [of "\<lambda>u. Some (uID u)" "users d" row u "uID u"] by (simp add: users_ok_def)
  then show ?thesis by (cases "f u") (simp add: set_user_columns_def)
qed

end
