(* ===== verification/SessionStore.thy ===== *)
theory SessionStore
  imports UserStore
begin

text \<open>
  The session repository (\<^verbatim>\<open>store/postgres/sessions.go\<close>): sessions are stored under the
  SHA-256 digest of their credential, looked up through it, and revoked by credential, by account
  or by single sign-on session.
\<close>

definition sessionDigest :: "golib \<Rightarrow> string \<Rightarrow> string" where
  "sessionDigest L credential = sha256_hex L credential"

definition mapSessionError :: "error \<Rightarrow> error" where
  "mapSessionError err =
     (if errors_is err (Repo ContextCanceled) then Repo ContextCanceled
      else if errors_is err (Repo ContextDeadlineExceeded) then Repo ContextDeadlineExceeded
      else if errors_is err (Ses ErrSessionNotFound) \<or> errors_is err (Repo SqlErrNoRows)
        then Ses ErrSessionNotFound
      else (case as_pg_error err of
          Some (UniqueViolation, _) \<Rightarrow> Repo ErrConflict
        | _ \<Rightarrow> ClassifyError err))"

section \<open>Statements on \<open>sessions\<close>\<close>

definition session_violation :: "session_row \<Rightarrow> db \<Rightarrow> error option" where
  "session_violation row d =
     (if \<not> varchar 64 (rID row) \<or> \<not> opt_varchar 128 (rSSOSid row)
        then Some (PgError StringTruncation OtherConstraint)
      else if rExpiresAt row \<le> rCreatedAt row \<or> rSSOSid row = Some []
          \<or> (case rSSOIDToken row of None \<Rightarrow> False
             | Some t \<Rightarrow> RuneCountInString t < 1 \<or> 16384 < RuneCountInString t)
        then Some (PgError CheckViolation OtherConstraint)
      else if rID row \<in> rID ` set (sessions d) then Some (PgError UniqueViolation OtherConstraint)
      else if rUserID row \<notin> user_ids d then Some (PgError ForeignKeyViolation OtherConstraint)
      else None)"

definition insert_session :: "session_row \<Rightarrow> unit stmt" where
  "insert_session row d =
     (case session_violation row d of
        Some e \<Rightarrow> (Inl e, d) | None \<Rightarrow> (Inr (), d\<lparr>sessions := sessions d @ [row]\<rparr>))"

definition select_session :: "string \<Rightarrow> session_row stmt" where
  "select_session digest d =
     (case find (\<lambda>s. rID s = digest) (sessions d) of
        None \<Rightarrow> (Inl (Repo SqlErrNoRows), d) | Some s \<Rightarrow> (Inr s, d))"

text \<open>\<^verbatim>\<open>UPDATE sessions SET revoked_at = ...\<close>, returning the number of rows it matched.\<close>

definition coalesce_revoked :: "int \<Rightarrow> session_row \<Rightarrow> session_row" where
  "coalesce_revoked t s = s\<lparr>rRevokedAt := (case rRevokedAt s of None \<Rightarrow> Some t | Some r \<Rightarrow> Some r)\<rparr>"

definition revoke_sessions_where :: "(session_row \<Rightarrow> bool) \<Rightarrow> int \<Rightarrow> int stmt" where
  "revoke_sessions_where P t d =
     (Inr (int (length (filter P (sessions d)))),
      d\<lparr>sessions := update_where P (coalesce_revoked t) (sessions d)\<rparr>)"

definition active_session :: "int \<Rightarrow> int \<Rightarrow> session_row \<Rightarrow> bool" where
  "active_session uid now s \<longleftrightarrow> rUserID s = uid \<and> rRevokedAt s = None \<and> now < rExpiresAt s"

text \<open>\<^verbatim>\<open>ORDER BY created_at DESC, id DESC\<close>.\<close>

definition newer_session :: "session_row \<Rightarrow> session_row \<Rightarrow> bool" where
  "newer_session a b \<longleftrightarrow> rCreatedAt b < rCreatedAt a \<or> (rCreatedAt a = rCreatedAt b \<and> string_less (rID b) (rID a))"

definition select_active_sessions :: "int \<Rightarrow> int \<Rightarrow> session_row list stmt" where
  "select_active_sessions uid now d =
     (Inr (order_by newer_session (filter (active_session uid now) (sessions d))), d)"

section \<open>Repository operations\<close>

definition scanSession :: "session_row \<Rightarrow> error + session" where
  "scanSession row =
     (if rID row = [] \<or> 64 < length (rID row) \<or> rUserID row \<le> 0 \<or> rExpiresAt row \<le> rCreatedAt row
      then Inl (Repo ErrInvalidData)
      else Inr \<lparr>sID = rID row, sUserID = rUserID row, sCreatedAt = rCreatedAt row,
        sExpiresAt = rExpiresAt row, sRevokedAt = rRevokedAt row, sSSOSessionID = [], sSSOIDToken = []\<rparr>)"

fun scan_all :: "('r \<Rightarrow> error + 'a) \<Rightarrow> 'r list \<Rightarrow> error + 'a list" where
  "scan_all f [] = Inr []"
| "scan_all f (r # rs) =
     (case f r of Inl e \<Rightarrow> Inl e
      | Inr x \<Rightarrow> (case scan_all f rs of Inl e \<Rightarrow> Inl e | Inr xs \<Rightarrow> Inr (x # xs)))"

definition ListActiveSessions :: "int \<Rightarrow> session list prog" where
  "ListActiveSessions userID =
     (if userID \<le> 0 then fail (Ses ErrInvalidSessionUserID)
      else reading unix_now (\<lambda>now.
        call (query (select_active_sessions userID now)) mapSessionError (\<lambda>rows.
        check (scan_all scanSession rows) mapSessionError ret)))"

definition CountActiveSessions :: "int \<Rightarrow> int prog" where
  "CountActiveSessions userID =
     (if userID \<le> 0 then fail (Ses ErrInvalidSessionUserID)
      else reading unix_now (\<lambda>now.
        call (query (\<lambda>d. (Inr (int (length (filter (active_session userID now) (sessions d)))), d)))
          mapSessionError ret))"

definition null_if_empty :: "string \<Rightarrow> string option" where
  "null_if_empty s = (if s = [] then None else Some s)"

definition session_row_of :: "golib \<Rightarrow> session \<Rightarrow> session_row" where
  "session_row_of L s = \<lparr>rID = sessionDigest L (sID s), rUserID = sUserID s, rCreatedAt = sCreatedAt s,
     rExpiresAt = sExpiresAt s, rRevokedAt = sRevokedAt s, rSSOSid = null_if_empty (sSSOSessionID s),
     rSSOIDToken = null_if_empty (sSSOIDToken s)\<rparr>"

definition CreateSession :: "golib \<Rightarrow> session \<Rightarrow> unit prog" where
  "CreateSession L session =
     (if sID session = [] \<or> 64 < length (sID session) \<or> sUserID session \<le> 0
      then fail (Repo ErrInvalidData)
      else
        call (transaction mapSessionError
          (call (query advisory_lock) mapSessionError (\<lambda>_.
           call (query (insert_session (session_row_of L session))) mapSessionError (\<lambda>_.
           ret (Some ()))))) id (\<lambda>_. ret ()))"

definition FindSession :: "golib \<Rightarrow> string \<Rightarrow> session prog" where
  "FindSession L credential =
     (if credential = [] \<or> 64 < length credential then fail (Ses ErrSessionNotFound)
      else
        call (query (select_session (sessionDigest L credential))) mapSessionError (\<lambda>row.
        check (scanSession row) mapSessionError (\<lambda>session. ret (session\<lparr>sID := credential\<rparr>))))"

definition RevokeSSOSessions :: "string \<Rightarrow> int \<Rightarrow> int prog" where
  "RevokeSSOSessions sid revokedAt =
     (if sid = [] \<or> 128 < length sid then fail (Repo ErrInvalidData)
      else call (query (revoke_sessions_where (\<lambda>s. rSSOSid s = Some sid \<and> rRevokedAt s = None) revokedAt))
        mapSessionError ret)"

definition FindSSOIDToken :: "golib \<Rightarrow> string \<Rightarrow> string prog" where
  "FindSSOIDToken L credential =
     (if credential = [] \<or> 64 < length credential then fail (Ses ErrSessionNotFound)
      else attempt (query (select_session (sessionDigest L credential))) (\<lambda>r. case r of
          Inl err \<Rightarrow>
            if errors_is err (Repo SqlErrNoRows) then fail (Ses ErrSessionNotFound)
            else fail (mapSessionError err)
        | Inr row \<Rightarrow> ret (case rSSOIDToken row of None \<Rightarrow> [] | Some t \<Rightarrow> t)))"

definition RevokeSession :: "golib \<Rightarrow> string \<Rightarrow> int \<Rightarrow> unit prog" where
  "RevokeSession L credential revokedAt =
     (if credential = [] \<or> 64 < length credential then fail (Ses ErrSessionNotFound)
      else
        call (query (revoke_sessions_where (\<lambda>s. rID s = sessionDigest L credential) revokedAt))
          mapSessionError (\<lambda>rows.
        if rows = 0 then fail (Ses ErrSessionNotFound) else ret ()))"

definition RevokeUserSessions :: "int \<Rightarrow> unit prog" where
  "RevokeUserSessions userID =
     (if userID \<le> 0 then fail (Ses ErrInvalidSessionUserID)
      else reading unix_now (\<lambda>now.
        call (transaction mapSessionError
          (call (query advisory_lock) mapSessionError (\<lambda>_.
           call (query (revoke_sessions_where (\<lambda>s. rUserID s = userID) now)) mapSessionError (\<lambda>_.
           ret (Some ()))))) id (\<lambda>_. ret ())))"

section \<open>Integrity\<close>

lemma insert_session_Inr:
  "insert_session row d = (Inr x, d') \<longleftrightarrow>
     session_violation row d = None \<and> d' = d\<lparr>sessions := sessions d @ [row]\<rparr>"
  by (auto simp: insert_session_def split: option.splits)

lemma session_violation_None:
  "session_violation row d = None \<Longrightarrow>
     rCreatedAt row < rExpiresAt row \<and> (\<forall>s \<in> set (sessions d). rID s \<noteq> rID row)
     \<and> rUserID row \<in> user_ids d"
  by (auto simp: session_violation_def image_iff split: if_splits)

lemma insert_session_quiet:
  "insert_session row d = (Inr x, d') \<Longrightarrow> quiet d d'"
  by (auto simp: insert_session_Inr quiet_def db_ok_def sessions_ok_def unique_on_append
      dest!: session_violation_None)

lemma coalesce_revoked_simps [simp]:
  "rID (coalesce_revoked t s) = rID s" "rUserID (coalesce_revoked t s) = rUserID s"
  "rCreatedAt (coalesce_revoked t s) = rCreatedAt s" "rExpiresAt (coalesce_revoked t s) = rExpiresAt s"
  "rRevokedAt (coalesce_revoked t s) = Some (case rRevokedAt s of None \<Rightarrow> t | Some r \<Rightarrow> r)"
  by (simp_all add: coalesce_revoked_def split: option.split)

lemma revoke_sessions_quiet:
  "revoke_sessions_where P t d = (r, d') \<Longrightarrow> quiet d d'"
  by (auto simp: revoke_sessions_where_def quiet_def db_ok_def sessions_ok_def unique_on_update_same
      set_update_where)

lemma session_reads:
  "select_session dg d = (r, d') \<Longrightarrow> d' = d"
  "select_active_sessions uid t d = (s, d') \<Longrightarrow> d' = d"
  by (auto simp: select_session_def select_active_sessions_def split: option.splits)

lemma evolves_session_reads [evolves_intro]:
  "preord R \<Longrightarrow> evolves (on_tables R) (query (select_session dg))"
  "preord R \<Longrightarrow> evolves (on_tables R) (query (select_active_sessions uid t))"
  "preord R \<Longrightarrow> evolves (on_tables R) (query (\<lambda>d. (r d, d)))"
  by (rule evolves_read_query, assumption, (erule session_reads | simp))+

lemma evolves_insert_session: "evolves (on_tables quiet) (query (insert_session row))"
  by (intro evolves_query preord_intro) (erule insert_session_quiet)

lemma evolves_revoke_sessions: "evolves (on_tables quiet) (query (revoke_sessions_where P t))"
  by (intro evolves_query preord_intro) (erule revoke_sessions_quiet)

lemma evolves_FindSession [evolves_intro]:
  "preord R \<Longrightarrow> evolves (on_tables R) (FindSession L c)"
  unfolding FindSession_def by (intro evolves_intro preord_intro)

lemma evolves_CreateSession [evolves_intro]:
  "covers_quiet R \<Longrightarrow> evolves (on_tables R) (CreateSession L' s)"
  by (erule covers_quiet_mono, unfold CreateSession_def)
     (intro evolves_intro preord_intro evolves_transaction evolves_insert_session)

lemma evolves_RevokeSession [evolves_intro]:
  "covers_quiet R \<Longrightarrow> evolves (on_tables R) (RevokeSession L' c t)"
  by (erule covers_quiet_mono, unfold RevokeSession_def)
     (intro evolves_intro preord_intro evolves_revoke_sessions)

lemma evolves_RevokeSSOSessions [evolves_intro]:
  "covers_quiet R \<Longrightarrow> evolves (on_tables R) (RevokeSSOSessions sid t)"
  by (erule covers_quiet_mono, unfold RevokeSSOSessions_def)
     (intro evolves_intro preord_intro evolves_revoke_sessions)

lemma evolves_RevokeUserSessions [evolves_intro]:
  "covers_quiet R \<Longrightarrow> evolves (on_tables R) (RevokeUserSessions uid)"
  by (erule covers_quiet_mono, unfold RevokeUserSessions_def)
     (intro evolves_intro preord_intro evolves_transaction evolves_revoke_sessions)

end
