(* ===== verification/SessionService.thy ===== *)
theory SessionService
  imports SessionStore
begin

text \<open>
  The session lifecycle (\<^verbatim>\<open>internal/service/session.go\<close>): creation with a random credential
  and a fixed expiry, lookup that only returns a session that may still authenticate, revocation of
  one session or of all sessions of an account.
\<close>

definition sessionIDBytes :: nat where "sessionIDBytes = 32"
definition maxSessionID :: nat where "maxSessionID = sessionIDBytes * 2"
definition time_Second :: int where "time_Second = 1000000000"

text \<open>
  \<^verbatim>\<open>SessionService\<close>: its lifetime in nanoseconds and the optional single sign-on revoker. The
  repository is the one of \<open>SessionStore\<close>; a constructed service is never nil.
\<close>

record session_service =
  ssLifetime :: int
  ssSSO :: "(int \<Rightarrow> unit prog) option"

definition NewSessionService :: "int \<Rightarrow> error + session_service" where
  "NewSessionService lifetime =
     (if lifetime < time_Second then Inl (Ses ErrInvalidSessionLifetime)
      else Inr \<lparr>ssLifetime = lifetime, ssSSO = None\<rparr>)"

definition SetSSORevoker :: "(int \<Rightarrow> unit prog) \<Rightarrow> session_service \<Rightarrow> session_service" where
  "SetSSORevoker revoker s = s\<lparr>ssSSO := Some revoker\<rparr>"

definition newSessionID :: "string prog" where
  "newSessionID = call (rand_read sessionIDBytes) (\<lambda>_. Wrap (Ses ErrSessionIDGeneration)) (\<lambda>value.
     ret (hex_encode value))"

definition validateSessionID :: "string \<Rightarrow> error + unit" where
  "validateSessionID credential =
     (if TrimSpace credential = [] \<or> maxSessionID < length credential
      then Inl (Ses ErrInvalidSessionID) else Inr ())"

definition session_create :: "golib \<Rightarrow> session_service \<Rightarrow> int \<Rightarrow> string \<Rightarrow> string \<Rightarrow> session prog" where
  "session_create L s userID sid idToken =
     (if userID \<le> 0 then fail (Ses ErrInvalidSessionUserID)
      else
        call newSessionID id (\<lambda>credential.
        reading unix_now (\<lambda>createdAt.
        let expiresAt = wrap64 (createdAt + ssLifetime s div time_Second) in
        if expiresAt \<le> createdAt then fail (Ses ErrInvalidSessionLifetime)
        else
          let session = \<lparr>sID = credential, sUserID = userID, sCreatedAt = createdAt,
                sExpiresAt = expiresAt, sRevokedAt = None, sSSOSessionID = sid, sSSOIDToken = idToken\<rparr> in
          call (CreateSession L session) Wrap (\<lambda>_. ret session))))"

definition Create :: "golib \<Rightarrow> session_service \<Rightarrow> int \<Rightarrow> session prog" where
  "Create L s userID = session_create L s userID [] []"

definition CreateSSO :: "golib \<Rightarrow> session_service \<Rightarrow> int \<Rightarrow> string \<Rightarrow> string \<Rightarrow> session prog" where
  "CreateSSO L s userID sid idToken =
     (if TrimSpace sid = [] \<or> TrimSpace idToken = [] then fail (Ses ErrInvalidSession)
      else call (session_create L s userID sid idToken) id (\<lambda>session.
        ret (session\<lparr>sSSOIDToken := []\<rparr>)))"

definition Lookup :: "golib \<Rightarrow> string \<Rightarrow> session prog" where
  "Lookup L credential =
     check (validateSessionID credential) id (\<lambda>_.
     call (FindSession L credential) Wrap (\<lambda>session.
     if sID session = [] then fail (Ses ErrSessionNotFound)
     else if sID session \<noteq> credential \<or> sUserID session \<le> 0 \<or> sExpiresAt session \<le> sCreatedAt session
       then fail (Ses ErrInvalidSession)
     else if sRevokedAt session \<noteq> None then fail (Ses ErrSessionRevoked)
     else reading unix_now (\<lambda>now.
       if sExpiresAt session \<le> now then fail (Ses ErrSessionExpired) else ret session)))"

definition Revoke :: "golib \<Rightarrow> string \<Rightarrow> unit prog" where
  "Revoke L credential =
     check (validateSessionID credential) id (\<lambda>_.
     reading unix_now (\<lambda>now.
     call (RevokeSession L credential now) Wrap (\<lambda>_. ret ())))"

definition SignOut :: "golib \<Rightarrow> string \<Rightarrow> unit prog" where
  "SignOut L credential =
     (if TrimSpace credential = [] then ret ()
      else attempt (Revoke L credential) (\<lambda>r. case r of
          Inl err \<Rightarrow>
            if errors_is err (Ses ErrSessionNotFound) \<or> errors_is err (Ses ErrInvalidSessionID)
            then ret () else fail err
        | Inr _ \<Rightarrow> ret ()))"

definition RevokeUser :: "session_service \<Rightarrow> int \<Rightarrow> unit prog" where
  "RevokeUser s userID =
     (if userID \<le> 0 then fail (Ses ErrInvalidSessionUserID)
      else
        call (RevokeUserSessions userID) Wrap (\<lambda>_.
        case ssSSO s of
          None \<Rightarrow> ret ()
        | Some revoker \<Rightarrow> call (revoker userID) Wrap (\<lambda>_. ret ())))"

section \<open>Composition\<close>

lemma evolves_newSessionID [evolves_intro]: "preord R \<Longrightarrow> evolves (on_tables R) newSessionID"
  unfolding newSessionID_def by (intro evolves_intro preord_intro)

lemma evolves_session_create [evolves_intro]:
  assumes c: "covers_quiet R"
  shows "evolves (on_tables R) (session_create L' s uid sid tok)"
proof -
  note p = covers_quiet_preord [OF c]
  show ?thesis unfolding session_create_def
    by (intro evolves_intro preord_intro p c)
qed

lemma evolves_Create [evolves_intro]:
  "covers_quiet R \<Longrightarrow> evolves (on_tables R) (Create L' s uid)"
  unfolding Create_def by (rule evolves_session_create)

lemma evolves_CreateSSO [evolves_intro]:
  assumes c: "covers_quiet R"
  shows "evolves (on_tables R) (CreateSSO L' s uid sid tok)"
proof -
  note p = covers_quiet_preord [OF c]
  show ?thesis unfolding CreateSSO_def by (intro evolves_intro preord_intro p c)
qed

lemma evolves_Lookup [evolves_intro]: "preord R \<Longrightarrow> evolves (on_tables R) (Lookup L c)"
  unfolding Lookup_def by (intro evolves_intro preord_intro)

lemma evolves_Revoke [evolves_intro]:
  assumes c: "covers_quiet R"
  shows "evolves (on_tables R) (Revoke L' cr)"
proof -
  note p = covers_quiet_preord [OF c]
  show ?thesis unfolding Revoke_def by (intro evolves_intro preord_intro p c)
qed

lemma evolves_SignOut [evolves_intro]:
  assumes c: "covers_quiet R"
  shows "evolves (on_tables R) (SignOut L' cr)"
proof -
  note p = covers_quiet_preord [OF c]
  show ?thesis unfolding SignOut_def by (intro evolves_intro preord_intro p c)
qed

text \<open>The single sign-on revoker talks to another system; it must respect the same relation.\<close>

lemma evolves_RevokeUser [evolves_intro]:
  assumes c: "covers_quiet R"
    and sso: "\<And>f. ssSSO s = Some f \<Longrightarrow> evolves (on_tables R) (f uid)"
  shows "evolves (on_tables R) (RevokeUser s uid)"
proof -
  note p = covers_quiet_preord [OF c]
  show ?thesis
  proof (cases "ssSSO s")
    case None
    then show ?thesis unfolding RevokeUser_def
      by (simp only: option.case) (intro evolves_intro preord_intro p c)
  next
    case (Some f)
    show ?thesis unfolding RevokeUser_def Some option.case
      by (intro evolves_intro preord_intro p c sso [OF Some])
  qed
qed

section \<open>What a lookup returns\<close>

lemma FindSession_Inr:
  assumes "FindSession L c w = (Inr s, w')"
  obtains row where "row \<in> set (sessions (tables w))" "rID row = sessionDigest L c"
    "tables w' = tables w" "0 < rUserID row"
    "s = \<lparr>sID = c, sUserID = rUserID row, sCreatedAt = rCreatedAt row,
       sExpiresAt = rExpiresAt row, sRevokedAt = rRevokedAt row, sSSOSessionID = [], sSSOIDToken = []\<rparr>"
proof -
  from assms obtain row w1 where q: "query (select_session (sessionDigest L c)) w = (Inr row, w1)"
    and sc: "scanSession row = Inr (s\<lparr>sID := rID row\<rparr>)" and w': "w' = w1" and id: "sID s = c"
    by (auto simp: FindSession_def scanSession_def split: if_splits)
  have "row \<in> set (sessions (tables w))" "rID row = sessionDigest L c" "tables w1 = tables w"
    using query_Inr [OF q] by (auto simp: select_session_def split: option.splits dest: find_Some_iff')
  with sc w' id that show thesis
    by (cases s) (auto simp: scanSession_def split: if_splits)
qed

lemma Lookup_Inr:
  assumes "Lookup L c w = (Inr s, w')"
  obtains row where "row \<in> set (sessions (tables w))" "rID row = sessionDigest L c"
    "sUserID s = rUserID row" "sID s = c" "sCreatedAt s = rCreatedAt row"
    "sExpiresAt s = rExpiresAt row" "rRevokedAt row = None" "sRevokedAt s = None"
    "unix_now w < rExpiresAt row" "tables w' = tables w"
proof -
  from assms obtain w1 where f: "FindSession L c w = (Inr s, w1)"
    and r: "sRevokedAt s = None" and e: "\<not> sExpiresAt s \<le> unix_now w1" and w': "w' = w1"
    by (auto simp: Lookup_def split: if_splits)
  have "evolves (on_tables (=)) (FindSession L c)" by (intro evolves_intro preord_intro)
  moreover have "unix_now w1 = unix_now w"
    using f by (auto simp: FindSession_def unix_now_def split: if_splits dest!: query_Inr_world)
  ultimately show thesis
    using f r e w' that by (auto elim!: FindSession_Inr)
qed

section \<open>Behaviour without database failures\<close>

lemma FindSession_run:
  assumes "faults w = []" and "sha256_ok L" and "sessions_ok (tables w)" and "users_ok L (tables w)"
    and "c \<noteq> []" "length c \<le> maxSessionID"
  shows "FindSession L c w = (case find (\<lambda>s. rID s = sessionDigest L c) (sessions (tables w)) of
      None \<Rightarrow> (Inl (Ses ErrSessionNotFound), w)
    | Some row \<Rightarrow> (Inr \<lparr>sID = c, sUserID = rUserID row, sCreatedAt = rCreatedAt row,
        sExpiresAt = rExpiresAt row, sRevokedAt = rRevokedAt row, sSSOSessionID = [], sSSOIDToken = []\<rparr>, w))"
proof (cases "find (\<lambda>s. rID s = sessionDigest L c) (sessions (tables w))")
  case None
  then show ?thesis using assms
    by (simp add: FindSession_def call_def select_session_def mapSessionError_def maxSessionID_def
        sessionIDBytes_def)
next
  case (Some row)
  then have row: "row \<in> set (sessions (tables w))" "rID row = sessionDigest L c"
    by (auto dest: find_Some_iff')
  then have "rCreatedAt row < rExpiresAt row" "0 < rUserID row"
    using assms(3,4) by (auto simp: sessions_ok_def users_ok_def)
  moreover have "length (rID row) = 64" using row assms(2) by (simp add: sessionDigest_def sha256_ok_def)
  ultimately show ?thesis using assms Some
    by (cases w) (auto simp: FindSession_def call_def check_def ret_def select_session_def scanSession_def
        maxSessionID_def sessionIDBytes_def)
qed

text \<open>The decision \<open>Lookup\<close> takes, as a function of the stored row alone.\<close>

definition lookup_verdict :: "golib \<Rightarrow> string \<Rightarrow> int \<Rightarrow> db \<Rightarrow> error + session" where
  "lookup_verdict L c now d =
     (if TrimSpace c = [] \<or> maxSessionID < length c then Inl (Ses ErrInvalidSessionID)
      else case find (\<lambda>s. rID s = sessionDigest L c) (sessions d) of
          None \<Rightarrow> Inl (Wrap (Ses ErrSessionNotFound))
        | Some row \<Rightarrow>
            if rRevokedAt row \<noteq> None then Inl (Ses ErrSessionRevoked)
            else if rExpiresAt row \<le> now then Inl (Ses ErrSessionExpired)
            else Inr \<lparr>sID = c, sUserID = rUserID row, sCreatedAt = rCreatedAt row,
              sExpiresAt = rExpiresAt row, sRevokedAt = None, sSSOSessionID = [], sSSOIDToken = []\<rparr>)"

lemma Lookup_run:
  assumes "faults w = []" and "sha256_ok L" and "db_ok L (tables w)"
  shows "Lookup L c w = (lookup_verdict L c (unix_now w) (tables w), w)"
proof (cases "TrimSpace c = [] \<or> maxSessionID < length c")
  case True
  then show ?thesis by (simp add: Lookup_def check_def validateSessionID_def lookup_verdict_def)
next
  case False
  then have c: "c \<noteq> []" "length c \<le> maxSessionID" by auto
  have ok: "sessions_ok (tables w)" "users_ok L (tables w)" using assms(3) by (simp_all add: db_ok_def)
  have pos: "0 < rUserID row \<and> rCreatedAt row < rExpiresAt row"
    if "find (\<lambda>s. rID s = sessionDigest L c) (sessions (tables w)) = Some row" for row
    using that ok by (auto simp: sessions_ok_def users_ok_def dest!: find_Some_iff')
  show ?thesis
    using False c pos
    by (auto simp: Lookup_def check_def call_def FindSession_run [OF assms(1,2) ok c] validateSessionID_def
        lookup_verdict_def ret_def fail_def split: option.splits)
qed

lemma RevokeUserSessions_Inr:
  "RevokeUserSessions uid w = (Inr (), w') \<Longrightarrow>
    0 < uid \<and> tables w' = snd (revoke_sessions_where (\<lambda>s. rUserID s = uid) (unix_now w) (tables w))"
  by (auto simp: RevokeUserSessions_def advisory_lock_def split: if_splits elim!: transaction_Inr
      dest!: query_Inr)

lemma session_create_Inr:
  assumes "session_create L s uid sid tok w = (Inr ses, w')"
  shows "sUserID ses = uid" and "0 < uid" and "sCreatedAt ses = unix_now w"
    and "sCreatedAt ses < sExpiresAt ses" and "sRevokedAt ses = None"
    and "sExpiresAt ses = wrap64 (unix_now w + ssLifetime s div time_Second)"
    and "length (sID ses) = maxSessionID" and "hex_decodable (sID ses)"
    and "session_violation (session_row_of L ses) (tables w) = None"
    and "tables w' = (tables w)\<lparr>sessions := sessions (tables w) @ [session_row_of L ses]\<rparr>"
proof -
  from assms obtain bs w1 where r: "rand_read sessionIDBytes w = (Inr bs, w1)" and id: "sID ses = hex_encode bs"
    and u: "sUserID ses = uid" "0 < uid" and t: "sCreatedAt ses = unix_now w1"
    "sExpiresAt ses = wrap64 (unix_now w1 + ssLifetime s div time_Second)"
    "sCreatedAt ses < sExpiresAt ses" "sRevokedAt ses = None"
    and c: "CreateSession L ses w1 = (Inr (), w')"
    by (auto simp: session_create_def newSessionID_def Let_def split: if_splits)
  note w1 = rand_read_Inr [OF r]
  then have now: "unix_now w1 = unix_now w" by (simp add: unix_now_def)
  show "sUserID ses = uid" "0 < uid" "sCreatedAt ses = unix_now w"
    "sCreatedAt ses < sExpiresAt ses" "sRevokedAt ses = None"
    "sExpiresAt ses = wrap64 (unix_now w + ssLifetime s div time_Second)"
    using u t now by simp_all
  show "length (sID ses) = maxSessionID" "hex_decodable (sID ses)"
    using id w1 by (simp_all add: maxSessionID_def hex_decodable_encode)
  from c have "insert_session (session_row_of L ses) (tables w1) = (Inr (), tables w')"
    by (auto simp: CreateSession_def advisory_lock_def split: if_splits elim!: transaction_Inr
        dest!: query_Inr)
  then show "session_violation (session_row_of L ses) (tables w) = None"
    and "tables w' = (tables w)\<lparr>sessions := sessions (tables w) @ [session_row_of L ses]\<rparr>"
    using w1 by (simp_all add: insert_session_Inr)
qed

definition sessions_ended :: "int \<Rightarrow> db \<Rightarrow> bool" where
  "sessions_ended uid d \<longleftrightarrow> (\<forall>row \<in> set (sessions d). rUserID row = uid \<longrightarrow> rRevokedAt row \<noteq> None)"

lemma sessions_ended_revoke:
  "sessions_ended uid (snd (revoke_sessions_where (\<lambda>s. rUserID s = uid) t d))"
  by (simp add: sessions_ended_def revoke_sessions_where_def ball_update_where)

definition demo_sessions :: session_service where
  "demo_sessions = \<lparr>ssLifetime = 3600000000000, ssSSO = None\<rparr>"

definition demo_signed_in :: "(error + session) \<times> world" where
  "demo_signed_in = session_create ascii_lib demo_sessions 2 [] [] demo_world"

lemma demo_signed_in_run:
  "\<not> isl (fst demo_signed_in)" "faults (snd demo_signed_in) = []" "unix_now (snd demo_signed_in) = 1000"
  by code_simp+

lemma demo_signed_in_obtain:
  obtains ses w' where "session_create ascii_lib demo_sessions 2 [] [] demo_world = (Inr ses, w')"
    "faults w' = []" "unix_now w' = 1000" "sExpiresAt ses = 4600"
proof -
  obtain r w' where p: "session_create ascii_lib demo_sessions 2 [] [] demo_world = (r, w')"
    by (cases "session_create ascii_lib demo_sessions 2 [] [] demo_world")
  then obtain ses where r: "r = Inr ses" using demo_signed_in_run(1) by (cases r) (auto simp: demo_signed_in_def)
  with p have "sExpiresAt ses = wrap64 (1000 + 3600000000000 div time_Second)"
    using session_create_Inr(6) [of ascii_lib demo_sessions 2 "[]" "[]" demo_world ses w']
    by (simp add: demo_sessions_def)
  then show thesis
    using p r demo_signed_in_run that by (simp add: demo_signed_in_def time_Second_def)
qed

section \<open>Properties\<close>

text \<open>
  C1: A session lookup is decided by the stored row alone. When the database answers, \<open>Lookup\<close>
  refuses a malformed credential, one without a row, a revoked and an expired session, each with its
  own error, and otherwise returns the stored session under the presented credential; the state
  is not changed.
\<close>

theorem Lookup_decides:
  assumes "faults w = []" and "sha256_ok L" and "db_ok L (tables w)"
  shows "Lookup L c w = (lookup_verdict L c (unix_now w) (tables w), w)"
  using assms by (rule Lookup_run)

theorem Lookup_decides_witness:
  "Lookup ascii_lib ''abc'' demo_world = (Inl (Wrap (Ses ErrSessionNotFound)), demo_world)"
proof -
  have "TrimSpace ''abc'' = ''abc''" by (rule TrimSpace_graphic) (simp_all add: graphic_def)
  then have "lookup_verdict ascii_lib ''abc'' 1000 demo_db = Inl (Wrap (Ses ErrSessionNotFound))"
    by (simp add: lookup_verdict_def demo_defs maxSessionID_def sessionIDBytes_def)
  then show ?thesis using Lookup_decides [of demo_world ascii_lib "''abc''"] demo_db_ok by simp
qed

text \<open>
  C2: Create then look up. A session that was created can be looked up by its credential at any
  later moment before its expiry as long as the tables still hold it and the database answers; the
  credential is 64 hexadecimal digits, and only its digest is stored.
\<close>

theorem session_create_lookup:
  assumes create: "session_create L s uid sid tok w = (Inr ses, w')"
    and sha: "sha256_ok L" and ok: "db_ok L (tables w)"
    and later: "tables w'' = tables w'" "faults w'' = []" "unix_now w'' < sExpiresAt ses"
  shows "Lookup L (sID ses) w'' = (Inr (ses\<lparr>sSSOSessionID := [], sSSOIDToken := []\<rparr>), w'')
    \<and> length (sID ses) = 64 \<and> hex_decodable (sID ses)
    \<and> rID ` set (sessions (tables w')) =
        insert (sessionDigest L (sID ses)) (rID ` set (sessions (tables w)))"
proof -
  note c = session_create_Inr [OF create]
  let ?row = "session_row_of L ses"
  have "\<forall>x \<in> set (sessions (tables w)). rID x \<noteq> rID ?row"
    using session_violation_None [OF c(9)] by simp
  then have "find (\<lambda>x. rID x = sessionDigest L (sID ses)) (sessions (tables w)) = None"
    by (simp add: find_None_iff session_row_of_def)
  then have row: "find (\<lambda>x. rID x = sessionDigest L (sID ses)) (sessions (tables w')) = Some ?row"
    unfolding c(10) by (auto simp: find_append session_row_of_def)
  have "evolves (on_tables (keeps (db_ok L))) (session_create L s uid sid tok)"
    by (intro evolves_intro preord_intro)
  from evolvesD [OF this create] ok have ok': "db_ok L (tables w'')"
    by (simp add: on_tables_def keeps_def later)
  have "lookup_verdict L (sID ses) (unix_now w'') (tables w'') =
      Inr (ses\<lparr>sSSOSessionID := [], sSSOIDToken := []\<rparr>)"
    using row later c(5,7) TrimSpace_hex [OF c(8)]
    by (cases ses) (auto simp: lookup_verdict_def session_row_of_def maxSessionID_def sessionIDBytes_def)
  moreover have "length (sID ses) = 64" using c(7) by (simp add: maxSessionID_def sessionIDBytes_def)
  moreover have "rID ` set (sessions (tables w')) =
      insert (sessionDigest L (sID ses)) (rID ` set (sessions (tables w)))"
    unfolding c(10) by (simp add: session_row_of_def)
  ultimately show ?thesis using Lookup_run [OF later(2) sha ok'] c(8) by simp
qed

theorem session_create_lookup_witness:
  "\<exists>ses w'. session_create ascii_lib demo_sessions 2 [] [] demo_world = (Inr ses, w')
     \<and> Lookup ascii_lib (sID ses) w' = (Inr (ses\<lparr>sSSOSessionID := [], sSSOIDToken := []\<rparr>), w')"
proof -
  obtain ses w' where c: "session_create ascii_lib demo_sessions 2 [] [] demo_world = (Inr ses, w')"
    and "faults w' = []" "unix_now w' = 1000" "sExpiresAt ses = 4600"
    by (rule demo_signed_in_obtain)
  with session_create_lookup [of ascii_lib demo_sessions 2 "[]" "[]" demo_world ses w' w'] demo_db_ok
  show ?thesis by auto
qed

text \<open>
  The expiry of a created session: with a lifetime the service accepts and a clock in range, it is
  exactly the lifetime in whole seconds after creation, and the session is bound to the account asked
  for; an account identifier that is not positive is refused.
\<close>

theorem session_create_bounds:
  assumes "NewSessionService lifetime = Inr s" and "session_create L s uid sid tok w = (Inr ses, w')"
    and "0 \<le> now_ns w" "now_ns w < 2 ^ 63" "lifetime < 2 ^ 63"
  shows "sUserID ses = uid \<and> 0 < uid \<and> sCreatedAt ses = unix_now w
     \<and> sExpiresAt ses = unix_now w + lifetime div time_Second \<and> unix_now w < sExpiresAt ses"
proof -
  note c = session_create_Inr [OF assms(2)]
  have l: "ssLifetime s = lifetime" using assms(1) by (auto simp: NewSessionService_def split: if_splits)
  have "unix_now w + lifetime div time_Second < 2 ^ 63" "0 \<le> unix_now w + lifetime div time_Second"
    using assms by (auto simp: unix_now_def time_Second_def NewSessionService_def split: if_splits)
  then show ?thesis using c l by (auto simp: wrap64_in_range)
qed

theorem session_create_bounds_witness:
  "\<exists>ses w'. session_create ascii_lib demo_sessions 2 [] [] demo_world = (Inr ses, w')
     \<and> sUserID ses = 2 \<and> sExpiresAt ses = 4600"
proof -
  obtain ses w' where c: "session_create ascii_lib demo_sessions 2 [] [] demo_world = (Inr ses, w')"
    by (rule demo_signed_in_obtain)
  have "NewSessionService 3600000000000 = Inr demo_sessions"
    by (simp add: NewSessionService_def demo_sessions_def time_Second_def)
  from session_create_bounds [OF this c] c show ?thesis by (simp add: time_Second_def)
qed

text \<open>
  C3: Ending every session of an account. Once \<open>RevokeUser\<close> has succeeded, no credential whatever
  can be looked up as a session of that account, as long as the tables stay as it left them. The
  single sign-on revoker, when there is one, must not bring a session of the account to life.
\<close>

theorem RevokeUser_ends_sessions:
  assumes revoke: "RevokeUser s uid w = (Inr (), w')"
    and sso: "\<And>f. ssSSO s = Some f \<Longrightarrow> evolves (on_tables (keeps (sessions_ended uid))) (f uid)"
    and later: "tables w1 = tables w'" "Lookup L c w1 = (Inr ses, w2)"
  shows "sUserID ses \<noteq> uid"
proof -
  from revoke obtain v where v: "RevokeUserSessions uid w = (Inr (), v)"
    and rest: "(case ssSSO s of None \<Rightarrow> ret () | Some revoker \<Rightarrow> call (revoker uid) Wrap (\<lambda>_. ret ())) v = (Inr (), w')"
    by (auto simp: RevokeUser_def split: if_splits)
  have "sessions_ended uid (tables v)"
    using RevokeUserSessions_Inr [OF v] by (simp add: sessions_ended_revoke)
  moreover have "keeps (sessions_ended uid) (tables v) (tables w')"
  proof (cases "ssSSO s")
    case (Some f)
    with rest obtain v' where "f uid v = (Inr (), v')" "w' = v'" by auto
    with evolvesD [OF sso [OF Some]] show ?thesis by (auto simp: on_tables_def)
  qed (use rest in \<open>simp add: keeps_def\<close>)
  ultimately have "sessions_ended uid (tables w1)" by (simp add: keeps_def later)
  moreover from later(2) obtain row where "row \<in> set (sessions (tables w1))" "sUserID ses = rUserID row"
    "rRevokedAt row = None" by (rule Lookup_Inr)
  ultimately show ?thesis by (auto simp: sessions_ended_def)
qed

theorem RevokeUser_ends_sessions_witness:
  "\<exists>ses v v' v''. session_create ascii_lib demo_sessions 2 [] [] demo_world = (Inr ses, v)
     \<and> RevokeUser demo_sessions 3 v = (Inr (), v') \<and> Lookup ascii_lib (sID ses) v' = (Inr ses, v'')
     \<and> sUserID ses \<noteq> 3"
proof -
  obtain ses v where c: "session_create ascii_lib demo_sessions 2 [] [] demo_world = (Inr ses, v)"
    by (rule demo_signed_in_obtain)
  obtain r v' where r: "RevokeUser demo_sessions 3 v = (r, v')" by (cases "RevokeUser demo_sessions 3 v")
  have run: "fst (RevokeUser demo_sessions 3 (snd demo_signed_in)) = Inr ()"
    "fst (Lookup ascii_lib (sID (projr (fst demo_signed_in))) (snd (RevokeUser demo_sessions 3 (snd demo_signed_in))))
      = fst demo_signed_in"
    by code_simp+
  then have ok: "r = Inr ()" and "fst (Lookup ascii_lib (sID ses) v') = Inr ses"
    using c r by (simp_all add: demo_signed_in_def)
  then obtain v'' where l: "Lookup ascii_lib (sID ses) v' = (Inr ses, v'')" by (metis prod.collapse)
  have "sUserID ses \<noteq> 3"
    by (rule RevokeUser_ends_sessions [OF r [unfolded ok] _ refl l]) (simp add: demo_sessions_def)
  with c r ok l show ?thesis by blast
qed

end
