(* ===== verification/AuditTrail.thy ===== *)
theory AuditTrail
  imports SessionService
begin

text \<open>
  The administrator audit trail (\<^verbatim>\<open>internal/service/audit.go\<close>, \<^verbatim>\<open>store/postgres/audit.go\<close>):
  validation of a record and its storage. The security-log sink, which receives a copy and
  cannot fail the action, is output only and not part of the state.
\<close>

definition maxAuditActionLength :: nat where "maxAuditActionLength = 64"
definition maxAuditTargetType :: nat where "maxAuditTargetType = 32"
definition maxAuditTargetID :: nat where "maxAuditTargetID = 64"
definition maxAuditDetailLength :: nat where "maxAuditDetailLength = 1000"
definition maxAuditActorEmail :: nat where "maxAuditActorEmail = 255"
definition maxAuditOrigin :: nat where "maxAuditOrigin = 64"

lemmas audit_limits = maxAuditActionLength_def maxAuditTargetType_def maxAuditTargetID_def
  maxAuditDetailLength_def maxAuditActorEmail_def maxAuditOrigin_def

record audit_record =
  arActorUserID :: int
  arActorEmail :: string
  arAction :: string
  arTargetType :: string
  arTargetID :: string
  arDetail :: string
  arIP :: string

definition printable :: "string \<Rightarrow> bool" where
  "printable value \<longleftrightarrow> list_all (\<lambda>c. \<not> (c = 0 \<or> (c < 0x20 \<and> c \<noteq> 9) \<or> c = 0x7F)) (runes value)"

definition buildAuditEntry :: "audit_record \<Rightarrow> int \<Rightarrow> error + audit_entry" where
  "buildAuditEntry record occurredAt =
     (let action = TrimSpace (arAction record); actorEmail = TrimSpace (arActorEmail record);
          targetType = TrimSpace (arTargetType record); targetID = TrimSpace (arTargetID record);
          detail = TrimSpace (arDetail record); ip = TrimSpace (arIP record) in
      if arActorUserID record \<le> 0 \<or> occurredAt \<le> 0 then Inl (Adm ErrInvalidAuditEntry)
      else if action = [] \<or> maxAuditActionLength < length action \<or> \<not> printable action
        then Inl (Adm ErrInvalidAuditEntry)
      else if maxAuditActorEmail < RuneCountInString actorEmail \<or> \<not> printable actorEmail
        then Inl (Adm ErrInvalidAuditEntry)
      else if maxAuditTargetType < length targetType \<or> \<not> printable targetType
        then Inl (Adm ErrInvalidAuditEntry)
      else if maxAuditTargetID < length targetID \<or> \<not> printable targetID
        then Inl (Adm ErrInvalidAuditEntry)
      else if maxAuditDetailLength < RuneCountInString detail \<or> \<not> printable detail
        then Inl (Adm ErrInvalidAuditEntry)
      else if maxAuditOrigin < length ip \<or> \<not> printable ip then Inl (Adm ErrInvalidAuditEntry)
      else Inr \<lparr>aeID = 0, aeOccurredAt = occurredAt, aeActorUserID = Some (arActorUserID record),
        aeActorEmail = optionalString actorEmail, aeAction = action,
        aeTargetType = optionalString targetType, aeTargetID = optionalString targetID,
        aeDetail = optionalString detail, aeIP = optionalString ip\<rparr>)"

section \<open>Storage\<close>

text \<open>\<^verbatim>\<open>000004_create_history_and_oauth.up.sql\<close>: the widths of \<^verbatim>\<open>audit_log\<close>, and its foreign key.\<close>

definition audit_violation :: "audit_entry \<Rightarrow> db \<Rightarrow> error option" where
  "audit_violation e d =
     (if \<not> opt_varchar 255 (aeActorEmail e) \<or> \<not> varchar 64 (aeAction e) \<or> \<not> opt_varchar 32 (aeTargetType e)
        \<or> \<not> opt_varchar 64 (aeTargetID e) \<or> \<not> opt_varchar 1000 (aeDetail e) \<or> \<not> opt_varchar 64 (aeIP e)
        then Some (PgError StringTruncation OtherConstraint)
      else if (case aeActorUserID e of None \<Rightarrow> False | Some u \<Rightarrow> u \<notin> user_ids d)
        then Some (PgError ForeignKeyViolation OtherConstraint)
      else None)"

definition insert_audit :: "audit_entry \<Rightarrow> unit stmt" where
  "insert_audit e d =
     (case audit_violation e d of
        Some err \<Rightarrow> (Inl err, d)
      | None \<Rightarrow> (Inr (), d\<lparr>audit_log := audit_log d @ [e\<lparr>aeID := audit_log_seq d + 1\<rparr>],
          audit_log_seq := audit_log_seq d + 1\<rparr>))"

definition CreateAuditEntry :: "audit_entry \<Rightarrow> unit prog" where
  "CreateAuditEntry entry =
     (if aeAction entry = [] \<or> aeOccurredAt entry \<le> 0 then fail (Repo ErrInvalidData)
      else call (query (insert_audit entry)) wrapOperation ret)"

definition Record :: "audit_record \<Rightarrow> unit prog" where
  "Record record = reading unix_now (\<lambda>now.
     check (buildAuditEntry record now) id (\<lambda>entry.
     call (CreateAuditEntry entry) Wrap ret))"

text \<open>\<^verbatim>\<open>AuditRecorder\<close> as the services hold it: absent, or an operation whose result they ignore.\<close>

type_synonym auditor = "(audit_record \<Rightarrow> unit prog) option"

definition audit_ignoring :: "auditor \<Rightarrow> audit_record \<Rightarrow> unit prog" where
  "audit_ignoring a record = (case a of None \<Rightarrow> ret () | Some f \<Rightarrow> attempt (f record) (\<lambda>_. ret ()))"

section \<open>Lemmas\<close>

lemma insert_audit_quiet: "insert_audit e d = (Inr x, d') \<Longrightarrow> quiet d d'"
  by (auto simp: insert_audit_def audit_violation_def quiet_def db_ok_def history_ok_def
      split: option.splits if_splits)

lemma evolves_insert_audit: "evolves (on_tables quiet) (query (insert_audit e))"
  by (intro evolves_query preord_intro) (erule insert_audit_quiet)

lemma evolves_Record: "evolves (on_tables quiet) (Record r)"
  unfolding Record_def CreateAuditEntry_def
  by (intro evolves_intro preord_intro evolves_insert_audit)

definition quiet_auditor :: "auditor \<Rightarrow> bool" where
  "quiet_auditor a \<longleftrightarrow> (\<forall>f r. a = Some f \<longrightarrow> evolves (on_tables quiet) (f r))"

lemma quiet_auditor_Record [simp]: "quiet_auditor (Some Record)" "quiet_auditor None"
  by (simp_all add: quiet_auditor_def evolves_Record)

lemma evolves_audit_ignoring:
  assumes "quiet_auditor a" and c: "covers_quiet R"
  shows "evolves (on_tables R) (audit_ignoring a r)"
proof (rule covers_quiet_mono [OF c])
  show "evolves (on_tables quiet) (audit_ignoring a r)"
    using assms(1) unfolding audit_ignoring_def quiet_auditor_def
    by (cases a) (auto intro!: evolves_intro preord_intro)
qed

lemma opt_varchar_optionalString: "varchar n s \<Longrightarrow> opt_varchar n (optionalString s)"
  by (simp add: opt_varchar_def optionalString_def)

lemma runes_within_bytes: "\<not> n < length s \<Longrightarrow> RuneCountInString s \<le> n"
  using RuneCountInString_le_length [of s] by simp

lemma buildAuditEntry_Inr:
  assumes "buildAuditEntry r t = Inr e"
  shows "0 < arActorUserID r" "0 < t" "aeOccurredAt e = t" "aeActorUserID e = Some (arActorUserID r)"
    "aeAction e = TrimSpace (arAction r)" "aeAction e \<noteq> []"
    "opt_varchar 255 (aeActorEmail e)" "varchar 64 (aeAction e)" "opt_varchar 32 (aeTargetType e)"
    "opt_varchar 64 (aeTargetID e)" "opt_varchar 1000 (aeDetail e)" "opt_varchar 64 (aeIP e)"
  using assms
  by (auto simp: buildAuditEntry_def Let_def audit_limits opt_varchar_optionalString varchar_def
      runes_within_bytes split: if_splits)

section \<open>Properties\<close>

text \<open>
  An audit record that passes validation is always storable. With an existing actor and a database that
  answers, \<open>Record\<close> succeeds exactly when validation accepts, appends one entry with the trimmed action and the
  actor, and changes nothing else; the service's byte and rune limits are never wider than the columns.
\<close>

theorem Record_stores:
  assumes "faults w = []" and "arActorUserID r \<in> user_ids (tables w)"
  shows "case buildAuditEntry r (unix_now w) of
      Inl e \<Rightarrow> Record r w = (Inl e, w)
    | Inr e \<Rightarrow> Record r w = (Inr (), w\<lparr>tables := (tables w)\<lparr>
          audit_log := audit_log (tables w) @ [e\<lparr>aeID := audit_log_seq (tables w) + 1\<rparr>],
          audit_log_seq := audit_log_seq (tables w) + 1\<rparr>\<rparr>)
        \<and> aeActorUserID e = Some (arActorUserID r) \<and> aeAction e = TrimSpace (arAction r)"
proof (cases "buildAuditEntry r (unix_now w)")
  case (Inl e)
  then show ?thesis by (simp add: Record_def check_def)
next
  case (Inr e)
  note b = buildAuditEntry_Inr [OF Inr]
  have "audit_violation e (tables w) = None"
    using b assms(2) by (simp add: audit_violation_def)
  then have "query (insert_audit e) w = (Inr (), w\<lparr>tables := (tables w)\<lparr>
          audit_log := audit_log (tables w) @ [e\<lparr>aeID := audit_log_seq (tables w) + 1\<rparr>],
          audit_log_seq := audit_log_seq (tables w) + 1\<rparr>\<rparr>)"
    using assms(1) by (simp add: insert_audit_def)
  with Inr b show ?thesis
    by (simp add: Record_def CreateAuditEntry_def check_def call_def ret_def)
qed

definition demo_record :: audit_record where
  "demo_record = \<lparr>arActorUserID = 1, arActorEmail = ''a@x'', arAction = ''admin.x'', arTargetType = ''group'',
     arTargetID = ''7'', arDetail = [], arIP = []\<rparr>"

theorem Record_stores_witness:
  "fst (Record demo_record demo_world) = Inr ()
     \<and> map aeAction (audit_log (tables (snd (Record demo_record demo_world)))) = [''admin.x'']"
proof -
  have "buildAuditEntry demo_record 1000 = Inr \<lparr>aeID = 0, aeOccurredAt = 1000, aeActorUserID = Some 1,
      aeActorEmail = Some ''a@x'', aeAction = ''admin.x'', aeTargetType = Some ''group'', aeTargetID = Some ''7'',
      aeDetail = None, aeIP = None\<rparr>"
    by code_simp
  moreover have "arActorUserID demo_record \<in> user_ids (tables demo_world)"
    by (simp add: demo_record_def demo_defs)
  moreover have "audit_log demo_db = []" by (simp add: demo_defs)
  ultimately show ?thesis using Record_stores [of demo_world demo_record] by simp
qed

end
