(* ===== verification/GroupStore.thy ===== *)
theory GroupStore
  imports AuditTrail
begin

text \<open>
  Groups and memberships in PostgreSQL (\<^verbatim>\<open>store/postgres/groups.go\<close>): creation of a group with its
  first administrator in one transaction, revision-checked updates, and role changes and removals that never take
  away the last administrator.
\<close>

section \<open>Errors\<close>

definition mapGroupError :: "error \<Rightarrow> error" where
  "mapGroupError err =
     (if errors_is err (Repo ContextCanceled) then Repo ContextCanceled
      else if errors_is err (Repo ContextDeadlineExceeded) then Repo ContextDeadlineExceeded
      else if errors_is err (Grp ErrGroupNotFound) \<or> errors_is err (Repo SqlErrNoRows)
        then Grp ErrGroupNotFound
      else (case as_pg_error err of
          Some (UniqueViolation, Groups_invite_code_key) \<Rightarrow> Grp ErrGroupInviteTaken
        | Some (UniqueViolation, Group_members_group_user_unique) \<Rightarrow> Grp ErrMembershipExists
        | Some (UniqueViolation, _) \<Rightarrow> Repo ErrConflict
        | _ \<Rightarrow> ClassifyError err))"

definition mapMembershipError :: "error \<Rightarrow> error" where
  "mapMembershipError err =
     (if errors_is err (Repo ContextCanceled) then Repo ContextCanceled
      else if errors_is err (Repo ContextDeadlineExceeded) then Repo ContextDeadlineExceeded
      else if errors_is err (Grp ErrMembershipNotFound) \<or> errors_is err (Repo SqlErrNoRows)
        then Grp ErrMembershipNotFound
      else (case as_pg_error err of
          Some (UniqueViolation, _) \<Rightarrow> Grp ErrMembershipExists
        | _ \<Rightarrow> ClassifyError err))"

section \<open>Statements\<close>

text \<open>\<^verbatim>\<open>000003_create_groups_and_memberships.up.sql\<close>: widths, checks, uniqueness, foreign keys.\<close>

definition group_violation :: "golib \<Rightarrow> group \<Rightarrow> group list \<Rightarrow> db \<Rightarrow> error option" where
  "group_violation L g others d =
     (if \<not> varchar 64 (gName g) \<or> \<not> varchar 64 (gNameNorm g) \<or> \<not> varchar 64 (gInviteCode g)
        then Some (PgError StringTruncation OtherConstraint)
      else if btrim (gName g) = [] \<or> gNameNorm g \<noteq> pg_lower L (btrim (gNameNorm g)) \<or> gNameNorm g = []
          \<or> gInviteCode g = [] \<or> gVersion g < 0
        then Some (PgError CheckViolation OtherConstraint)
      else if gInviteCode g \<in> gInviteCode ` set others
        then Some (PgError UniqueViolation Groups_invite_code_key)
      else if (case gCreatedBy g of None \<Rightarrow> False | Some u \<Rightarrow> u \<notin> user_ids d)
        then Some (PgError ForeignKeyViolation OtherConstraint)
      else None)"

definition insert_group :: "golib \<Rightarrow> group \<Rightarrow> group stmt" where
  "insert_group L g d =
     (let row = g\<lparr>gID := groups_seq d + 1\<rparr> in
      case group_violation L row (groups d) d of
        Some e \<Rightarrow> (Inl e, d)
      | None \<Rightarrow> (Inr row, d\<lparr>groups := groups d @ [row], groups_seq := groups_seq d + 1\<rparr>))"

definition select_group :: "(group \<Rightarrow> bool) \<Rightarrow> group stmt" where
  "select_group P d = (case find P (groups d) of None \<Rightarrow> (Inl (Repo SqlErrNoRows), d) | Some g \<Rightarrow> (Inr g, d))"

definition update_group_stmt :: "golib \<Rightarrow> group \<Rightarrow> int \<Rightarrow> group stmt" where
  "update_group_stmt L grp version d =
     (case find (\<lambda>g. gID g = gID grp \<and> gVersion g = version) (groups d) of
        None \<Rightarrow> (Inl (Repo SqlErrNoRows), d)
      | Some g \<Rightarrow>
          (let row = g\<lparr>gName := gName grp, gNameNorm := gNameNorm grp, gInviteCode := gInviteCode grp,
                 gVersion := gVersion g + 1\<rparr> in
           case group_violation L row (delete_where (\<lambda>h. gID h = gID grp) (groups d)) d of
             Some e \<Rightarrow> (Inl e, d)
           | None \<Rightarrow> (Inr row, d\<lparr>groups := update_where (\<lambda>h. gID h = gID grp) (\<lambda>_. row) (groups d)\<rparr>)))"

definition member_violation :: "membership \<Rightarrow> db \<Rightarrow> error option" where
  "member_violation m d =
     (if \<not> varchar 16 (mRole m) then Some (PgError StringTruncation OtherConstraint)
      else if (mRole m \<noteq> ''admin'' \<and> mRole m \<noteq> ''member'') \<or> mVersion m < 0
        then Some (PgError CheckViolation OtherConstraint)
      else if (mGroupID m, mUserID m) \<in> (\<lambda>x. (mGroupID x, mUserID x)) ` set (group_members d)
        then Some (PgError UniqueViolation Group_members_group_user_unique)
      else if mGroupID m \<notin> group_ids d \<or> mUserID m \<notin> user_ids d
        then Some (PgError ForeignKeyViolation OtherConstraint)
      else None)"

definition insert_member :: "membership \<Rightarrow> membership stmt" where
  "insert_member m d =
     (let row = m\<lparr>mID := group_members_seq d + 1\<rparr> in
      case member_violation row d of
        Some e \<Rightarrow> (Inl e, d)
      | None \<Rightarrow> (Inr row, d\<lparr>group_members := group_members d @ [row], group_members_seq := group_members_seq d + 1\<rparr>))"

definition of_member :: "int \<Rightarrow> int \<Rightarrow> membership \<Rightarrow> bool" where
  "of_member gid uid m \<longleftrightarrow> mGroupID m = gid \<and> mUserID m = uid"

definition select_member :: "int \<Rightarrow> int \<Rightarrow> membership stmt" where
  "select_member gid uid d =
     (case find (of_member gid uid) (group_members d) of
        None \<Rightarrow> (Inl (Repo SqlErrNoRows), d) | Some m \<Rightarrow> (Inr m, d))"

definition update_member_role :: "string \<Rightarrow> int \<Rightarrow> int \<Rightarrow> int \<Rightarrow> membership stmt" where
  "update_member_role role gid uid version d =
     (case find (\<lambda>m. of_member gid uid m \<and> mVersion m = version) (group_members d) of
        None \<Rightarrow> (Inl (Repo SqlErrNoRows), d)
      | Some m \<Rightarrow>
          if \<not> varchar 16 role then (Inl (PgError StringTruncation OtherConstraint), d)
          else if role \<noteq> ''admin'' \<and> role \<noteq> ''member'' then (Inl (PgError CheckViolation OtherConstraint), d)
          else
            (let row = m\<lparr>mRole := role, mVersion := mVersion m + 1\<rparr> in
             (Inr row, d\<lparr>group_members := update_where (of_member gid uid) (\<lambda>_. row) (group_members d)\<rparr>)))"

definition delete_member :: "int \<Rightarrow> int \<Rightarrow> int \<Rightarrow> int stmt" where
  "delete_member gid uid version d =
     (let P = (\<lambda>m. of_member gid uid m \<and> mVersion m = version) in
      (Inr (int (length (filter P (group_members d)))),
       d\<lparr>group_members := delete_where P (group_members d)\<rparr>))"

definition count_other_group_admins :: "int \<Rightarrow> int \<Rightarrow> int stmt" where
  "count_other_group_admins gid uid d =
     (Inr (int (length (filter (\<lambda>m. mGroupID m = gid \<and> mUserID m \<noteq> uid \<and> mRole m = ''admin'') (group_members d)))), d)"

section \<open>Group repository\<close>

definition scanGroup :: "group \<Rightarrow> error + group" where
  "scanGroup g =
     (if gID g \<le> 0 \<or> gVersion g < 0 \<or> gName g = [] \<or> gNameNorm g = [] \<or> gInviteCode g = []
      then Inl (Repo ErrInvalidData) else Inr g)"

text \<open>\<^verbatim>\<open>findGroup\<close>: the row of one statement; a malformed row is reported as it is.\<close>

definition findGroup :: "group stmt \<Rightarrow> group prog" where
  "findGroup q = call (query q) mapGroupError (\<lambda>g. check (scanGroup g) id ret)"

definition createGroup :: "golib \<Rightarrow> group \<Rightarrow> group prog" where
  "createGroup L g = findGroup (insert_group L g)"

definition CreateGroup :: "golib \<Rightarrow> group \<Rightarrow> group prog" where
  "CreateGroup L g = createGroup L g"

definition FindGroupByID :: "int \<Rightarrow> group prog" where
  "FindGroupByID gid =
     (if gid \<le> 0 then fail (Grp ErrGroupNotFound) else findGroup (select_group (\<lambda>g. gID g = gid)))"

definition FindGroupByInviteCode :: "string \<Rightarrow> group prog" where
  "FindGroupByInviteCode code =
     (if code = [] then fail (Grp ErrGroupInviteNotFound)
      else findGroup (select_group (\<lambda>g. gInviteCode g = code)))"

definition classifyMissingGroupWrite :: "int \<Rightarrow> 'a prog" where
  "classifyMissingGroupWrite gid =
     (if gid \<le> 0 then fail (Grp ErrGroupNotFound)
      else call (query (\<lambda>d. (Inr (gid \<in> group_ids d), d))) mapGroupError (\<lambda>there.
        if \<not> there then fail (Grp ErrGroupNotFound) else fail (Repo ErrOptimisticLockConflict)))"

definition UpdateGroup :: "golib \<Rightarrow> group \<Rightarrow> int \<Rightarrow> group prog" where
  "UpdateGroup L grp expectedVersion =
     attempt (findGroup (update_group_stmt L grp expectedVersion)) (\<lambda>r. case r of
       Inr updated \<Rightarrow> ret updated
     | Inl scanErr \<Rightarrow>
         if \<not> errors_is scanErr (Grp ErrGroupNotFound) then fail scanErr
         else classifyMissingGroupWrite (gID grp))"

record group_summary =
  suGroup :: group
  suMemberCount :: int
  suRole :: string

definition member_count :: "int \<Rightarrow> db \<Rightarrow> int" where
  "member_count gid d = int (length (filter (\<lambda>m. mGroupID m = gid) (group_members d)))"

definition group_before :: "group_summary \<Rightarrow> group_summary \<Rightarrow> bool" where
  "group_before a b \<longleftrightarrow> string_less (gNameNorm (suGroup a)) (gNameNorm (suGroup b))
     \<or> (gNameNorm (suGroup a) = gNameNorm (suGroup b) \<and> gID (suGroup a) < gID (suGroup b))"

text \<open>The inner join of an account's memberships with their groups, ordered by name and identifier.\<close>

definition select_groups_for_user :: "int \<Rightarrow> group_summary list stmt" where
  "select_groups_for_user uid d =
     (Inr (order_by group_before (concat (map (\<lambda>m.
        map (\<lambda>g. \<lparr>suGroup = g, suMemberCount = member_count (gID g) d, suRole = mRole m\<rparr>)
          (filter (\<lambda>g. gID g = mGroupID m) (groups d)))
        (filter (\<lambda>m. mUserID m = uid) (group_members d))))), d)"

text \<open>The left join of every group with the account's membership; no membership gives the empty role.\<close>

definition select_all_groups_for_user :: "int \<Rightarrow> group_summary list stmt" where
  "select_all_groups_for_user uid d =
     (Inr (order_by group_before (concat (map (\<lambda>g.
        (case filter (of_member (gID g) uid) (group_members d) of
           [] \<Rightarrow> [\<lparr>suGroup = g, suMemberCount = member_count (gID g) d, suRole = []\<rparr>]
         | ms \<Rightarrow> map (\<lambda>m. \<lparr>suGroup = g, suMemberCount = member_count (gID g) d, suRole = mRole m\<rparr>) ms))
        (groups d)))), d)"

definition ListGroupsForUser :: "int \<Rightarrow> group_summary list prog" where
  "ListGroupsForUser uid =
     (if uid \<le> 0 then fail (Account ErrInvalidUserID)
      else call (query (select_groups_for_user uid)) mapGroupError ret)"

definition ListAllGroupsForUser :: "int \<Rightarrow> group_summary list prog" where
  "ListAllGroupsForUser uid =
     (if uid \<le> 0 then fail (Account ErrInvalidUserID)
      else call (query (select_all_groups_for_user uid)) mapGroupError ret)"

section \<open>Membership repository\<close>

definition scanMembership :: "membership \<Rightarrow> error + membership" where
  "scanMembership m =
     (if mID m \<le> 0 \<or> mGroupID m \<le> 0 \<or> mUserID m \<le> 0 \<or> mVersion m < 0 then Inl (Repo ErrInvalidData)
      else if mRole m \<noteq> ''admin'' \<and> mRole m \<noteq> ''member'' then Inl (Repo ErrInvalidData)
      else Inr m)"

definition new_member :: "int \<Rightarrow> int \<Rightarrow> string \<Rightarrow> int \<Rightarrow> int \<Rightarrow> membership" where
  "new_member gid uid role createdAt version = \<lparr>mID = 0, mGroupID = gid, mUserID = uid, mRole = role,
     mCreatedAt = createdAt, mVersion = version\<rparr>"

definition CreateGroupWithAdmin :: "golib \<Rightarrow> group \<Rightarrow> int \<Rightarrow> string \<Rightarrow> (group \<times> membership) prog" where
  "CreateGroupWithAdmin L grp userID role =
     call (transaction mapGroupError
       (call (createGroup L grp) id (\<lambda>created.
        call (query (insert_member (new_member (gID created) userID role (gCreatedAt created) 0)))
          mapGroupError (\<lambda>row.
        check (scanMembership row) mapGroupError (\<lambda>membership.
        ret (Some (created, membership))))))) id (\<lambda>r.
     case r of Some p \<Rightarrow> ret p | None \<Rightarrow> fail AnonymousError)"

definition CreateMembership :: "membership \<Rightarrow> membership prog" where
  "CreateMembership membership =
     call (query (insert_member membership)) mapMembershipError (\<lambda>row.
     check (scanMembership row) mapMembershipError ret)"

definition FindMembership :: "int \<Rightarrow> int \<Rightarrow> membership prog" where
  "FindMembership groupID userID =
     (if groupID \<le> 0 \<or> userID \<le> 0 then fail (Grp ErrMembershipNotFound)
      else call (query (select_member groupID userID)) mapMembershipError (\<lambda>row.
        check (scanMembership row) mapMembershipError ret))"

record group_member =
  gmUserID :: int
  gmRole :: string
  gmVersion :: int
  gmUsername :: "string option"
  gmDisplayName :: "string option"
  gmEmail :: "string option"

text \<open>\<^verbatim>\<open>ORDER BY\<close> on a nullable text column: \<^verbatim>\<open>NULL\<close> sorts last.\<close>

definition null_before :: "string option \<Rightarrow> string option \<Rightarrow> bool" where
  "null_before a b = (case (a, b) of (Some x, Some y) \<Rightarrow> string_less x y | (Some _, None) \<Rightarrow> True | _ \<Rightarrow> False)"

definition member_before :: "golib \<Rightarrow> group_member \<Rightarrow> group_member \<Rightarrow> bool" where
  "member_before L a b =
     (let ra = (gmRole a = ''admin''); rb = (gmRole b = ''admin'');
          da = map_option (pg_lower L) (gmDisplayName a); db = map_option (pg_lower L) (gmDisplayName b);
          ua = map_option (pg_lower L) (gmUsername a); ub = map_option (pg_lower L) (gmUsername b) in
      (ra \<and> \<not> rb) \<or> (ra = rb \<and> (null_before da db
        \<or> (da = db \<and> (null_before ua ub \<or> (ua = ub \<and> gmUserID a < gmUserID b))))))"

definition select_roster :: "golib \<Rightarrow> int \<Rightarrow> group_member list stmt" where
  "select_roster L gid d =
     (Inr (order_by (member_before L) (concat (map (\<lambda>m.
        map (\<lambda>u. \<lparr>gmUserID = mUserID m, gmRole = mRole m, gmVersion = mVersion m, gmUsername = uUsername u,
                 gmDisplayName = uDisplayName u, gmEmail = uEmail u\<rparr>)
          (filter (\<lambda>u. uID u = mUserID m) (users d)))
        (filter (\<lambda>m. mGroupID m = gid) (group_members d))))), d)"

definition ListMembers :: "golib \<Rightarrow> int \<Rightarrow> group_member list prog" where
  "ListMembers L groupID = call (query (select_roster L groupID)) mapMembershipError ret"

definition CountMembers :: "int \<Rightarrow> int prog" where
  "CountMembers groupID = call (query (\<lambda>d. (Inr (member_count groupID d), d))) mapMembershipError ret"

definition ensureAnotherAdmin :: "int \<Rightarrow> int \<Rightarrow> unit prog" where
  "ensureAnotherAdmin groupID excludeUserID =
     call (query (count_other_group_admins groupID excludeUserID)) mapMembershipError (\<lambda>otherAdmins.
     if otherAdmins = 0 then fail (Grp ErrLastGroupAdmin) else ret ())"

definition lockGroupMembers :: "int \<Rightarrow> unit prog" where
  "lockGroupMembers groupID = query advisory_lock"

definition update_role_body :: "membership \<Rightarrow> int \<Rightarrow> membership option prog" where
  "update_role_body membership expectedVersion =
     call (lockGroupMembers (mGroupID membership)) mapMembershipError (\<lambda>_.
     call (query (select_member (mGroupID membership) (mUserID membership))) mapMembershipError (\<lambda>current.
     call (if mRole current = ''admin'' \<and> mRole membership \<noteq> ''admin''
           then ensureAnotherAdmin (mGroupID membership) (mUserID membership) else ret ()) id (\<lambda>_.
     attempt (query (update_member_role (mRole membership) (mGroupID membership) (mUserID membership)
                expectedVersion)) (\<lambda>r. case r of
       Inl err \<Rightarrow>
         if errors_is err (Repo SqlErrNoRows) then fail (Repo ErrOptimisticLockConflict)
         else fail (mapMembershipError err)
     | Inr row \<Rightarrow> check (scanMembership row) mapMembershipError (\<lambda>updated. ret (Some updated))))))"

definition UpdateMembershipRole :: "membership \<Rightarrow> int \<Rightarrow> membership prog" where
  "UpdateMembershipRole membership expectedVersion =
     call (transaction mapMembershipError (update_role_body membership expectedVersion)) id (\<lambda>r.
     case r of Some m \<Rightarrow> ret m | None \<Rightarrow> fail AnonymousError)"

definition delete_member_body :: "int \<Rightarrow> int \<Rightarrow> int \<Rightarrow> unit option prog" where
  "delete_member_body groupID userID expectedVersion =
     call (lockGroupMembers groupID) mapMembershipError (\<lambda>_.
     call (query (select_member groupID userID)) mapMembershipError (\<lambda>current.
     call (if mRole current = ''admin'' then ensureAnotherAdmin groupID userID else ret ()) id (\<lambda>_.
     call (query (delete_member groupID userID expectedVersion)) mapMembershipError (\<lambda>rows.
     if rows = 0 then fail (Repo ErrOptimisticLockConflict) else ret (Some ())))))"

definition DeleteMembership :: "int \<Rightarrow> int \<Rightarrow> int \<Rightarrow> unit prog" where
  "DeleteMembership groupID userID expectedVersion =
     call (transaction mapMembershipError (delete_member_body groupID userID expectedVersion)) id (\<lambda>_. ret ())"

section \<open>Reads\<close>

lemma group_reads:
  "select_group P d = (r, d') \<Longrightarrow> d' = d"
  "select_member gid uid d = (q, d') \<Longrightarrow> d' = d"
  "count_other_group_admins gid uid d = (n, d') \<Longrightarrow> d' = d"
  "select_groups_for_user uid d = (s, d') \<Longrightarrow> d' = d"
  "select_all_groups_for_user uid d = (s, d') \<Longrightarrow> d' = d"
  "select_roster L gid d = (t, d') \<Longrightarrow> d' = d"
  by (auto simp: select_group_def select_member_def count_other_group_admins_def select_groups_for_user_def
      select_all_groups_for_user_def select_roster_def split: option.splits)

lemma evolves_group_reads [evolves_intro]:
  "preord R \<Longrightarrow> evolves (on_tables R) (query (select_group P))"
  "preord R \<Longrightarrow> evolves (on_tables R) (query (select_member gid uid))"
  "preord R \<Longrightarrow> evolves (on_tables R) (query (count_other_group_admins gid uid))"
  "preord R \<Longrightarrow> evolves (on_tables R) (query (select_groups_for_user uid))"
  "preord R \<Longrightarrow> evolves (on_tables R) (query (select_all_groups_for_user uid))"
  "preord R \<Longrightarrow> evolves (on_tables R) (query (select_roster L gid))"
  by (rule evolves_read_query, assumption, erule group_reads)+

lemma evolves_findGroup [evolves_intro]:
  "preord R \<Longrightarrow> evolves (on_tables R) (query q) \<Longrightarrow> evolves (on_tables R) (findGroup q)"
  unfolding findGroup_def by (intro evolves_call evolves_check evolves_ret preord_intro)

lemma evolves_group_finds [evolves_intro]:
  "preord R \<Longrightarrow> evolves (on_tables R) (FindGroupByID gid)"
  "preord R \<Longrightarrow> evolves (on_tables R) (FindGroupByInviteCode code)"
  "preord R \<Longrightarrow> evolves (on_tables R) (classifyMissingGroupWrite gid)"
  "preord R \<Longrightarrow> evolves (on_tables R) (ListGroupsForUser uid)"
  "preord R \<Longrightarrow> evolves (on_tables R) (ListAllGroupsForUser uid)"
  "preord R \<Longrightarrow> evolves (on_tables R) (FindMembership gid uid)"
  "preord R \<Longrightarrow> evolves (on_tables R) (ListMembers L gid)"
  "preord R \<Longrightarrow> evolves (on_tables R) (CountMembers gid)"
  "preord R \<Longrightarrow> evolves (on_tables R) (ensureAnotherAdmin gid uid)"
  "preord R \<Longrightarrow> evolves (on_tables R) (lockGroupMembers gid)"
  unfolding FindGroupByID_def FindGroupByInviteCode_def classifyMissingGroupWrite_def ListGroupsForUser_def
    ListAllGroupsForUser_def FindMembership_def ListMembers_def CountMembers_def ensureAnotherAdmin_def
    lockGroupMembers_def
  by (intro evolves_intro preord_intro; assumption)+

section \<open>Integrity\<close>

lemma group_violation_None:
  "group_violation L g others d = None \<Longrightarrow>
     gInviteCode g \<noteq> [] \<and> (\<forall>h \<in> set others. gInviteCode h \<noteq> gInviteCode g)
     \<and> (\<forall>u. gCreatedBy g = Some u \<longrightarrow> u \<in> user_ids d)"
  by (auto simp: group_violation_def image_iff split: if_splits option.splits)

lemma member_violation_None:
  "member_violation m d = None \<longleftrightarrow> varchar 16 (mRole m) \<and> (mRole m = ''admin'' \<or> mRole m = ''member'')
     \<and> 0 \<le> mVersion m \<and> (\<forall>x \<in> set (group_members d). (mGroupID x, mUserID x) \<noteq> (mGroupID m, mUserID m))
     \<and> mGroupID m \<in> group_ids d \<and> mUserID m \<in> user_ids d"
  by (auto simp: member_violation_def image_iff)

lemma insert_group_Inr:
  "insert_group L g d = (Inr row, d') \<longleftrightarrow>
     row = g\<lparr>gID := groups_seq d + 1\<rparr> \<and> group_violation L row (groups d) d = None
     \<and> d' = d\<lparr>groups := groups d @ [row], groups_seq := groups_seq d + 1\<rparr>"
  by (auto simp: insert_group_def Let_def split: option.splits)

lemma insert_member_Inr:
  "insert_member m d = (Inr row, d') \<longleftrightarrow>
     row = m\<lparr>mID := group_members_seq d + 1\<rparr> \<and> member_violation row d = None
     \<and> d' = d\<lparr>group_members := group_members d @ [row], group_members_seq := group_members_seq d + 1\<rparr>"
  by (auto simp: insert_member_def Let_def split: option.splits)

lemma insert_group_ok:
  assumes ok: "db_ok L d" and ins: "insert_group L' g d = (Inr row, d')"
  shows "db_ok L d'"
proof -
  note i = ins [unfolded insert_group_Inr]
  have v: "group_violation L' row (groups d) d = None" and d': "d' = d\<lparr>groups := groups d @ [row], groups_seq := groups_seq d + 1\<rparr>"
    and row: "gID row = groups_seq d + 1" using i by auto
  have g: "groups_ok d" and m: "members_ok d" using ok by (simp_all add: db_ok_def)
  have "\<forall>x \<in> set (groups d). gID x \<noteq> gID row" using g row by (auto simp: groups_ok_def)
  then have "groups_ok d'"
    using g group_violation_None [OF v] row unfolding d' groups_ok_def
    by (auto simp: unique_on_append)
  moreover have "members_ok d'" using m unfolding d' members_ok_def by auto
  ultimately show ?thesis using ok by (simp add: d' db_ok_def)
qed

lemma insert_member_ok:
  assumes ok: "db_ok L d" and ins: "insert_member m d = (Inr row, d')"
  shows "db_ok L d'"
proof -
  note i = ins [unfolded insert_member_Inr]
  have v: "member_violation row d = None"
    and d': "d' = d\<lparr>group_members := group_members d @ [row], group_members_seq := group_members_seq d + 1\<rparr>"
    and row: "mID row = group_members_seq d + 1" using i by auto
  have "members_ok d'"
    using ok v row unfolding d' member_violation_None db_ok_def members_ok_def
    by (auto simp: unique_on_append)
  then show ?thesis using ok by (simp add: d' db_ok_def)
qed

lemma update_group_Inr:
  assumes "update_group_stmt L grp ver d = (Inr row, d')"
  obtains g where "g \<in> set (groups d)" "gID g = gID grp" "gVersion g = ver"
    "row = g\<lparr>gName := gName grp, gNameNorm := gNameNorm grp, gInviteCode := gInviteCode grp, gVersion := gVersion g + 1\<rparr>"
    "group_violation L row (delete_where (\<lambda>h. gID h = gID grp) (groups d)) d = None"
    "d' = d\<lparr>groups := update_where (\<lambda>h. gID h = gID grp) (\<lambda>_. row) (groups d)\<rparr>"
  using assms by (auto simp: update_group_stmt_def Let_def split: option.splits dest!: find_Some_iff')

lemma update_group_ok:
  assumes ok: "db_ok L d" and upd: "update_group_stmt L' grp ver d = (Inr row, d')"
  shows "db_ok L d'" and "group_ids d' = group_ids d"
proof -
  obtain g where g: "g \<in> set (groups d)" "gID g = gID grp"
    and row: "row = g\<lparr>gName := gName grp, gNameNorm := gNameNorm grp, gInviteCode := gInviteCode grp, gVersion := gVersion g + 1\<rparr>"
    and v: "group_violation L' row (delete_where (\<lambda>h. gID h = gID grp) (groups d)) d = None"
    and d': "d' = d\<lparr>groups := update_where (\<lambda>h. gID h = gID grp) (\<lambda>_. row) (groups d)\<rparr>"
    using upd by (rule update_group_Inr)
  have gok: "groups_ok d" and m: "members_ok d" using ok by (simp_all add: db_ok_def)
  have ids: "gID row = gID grp" using row g by simp
  show same: "group_ids d' = group_ids d" unfolding d' by (simp add: ident_update_where ids)
  have "unique_on (\<lambda>g. Some (gID g)) (groups d')"
    using gok unfolding d' by (simp add: unique_on_replace_ident ids groups_ok_def)
  moreover have "unique_on (\<lambda>g. Some (gInviteCode g)) (groups d')"
    using gok group_violation_None [OF v] unfolding d' groups_ok_def
    by (auto intro!: unique_on_replace)
  moreover have "\<forall>h \<in> set (groups d'). 0 < gID h \<and> gID h \<le> groups_seq d' \<and> gInviteCode h \<noteq> []
      \<and> (\<forall>u. gCreatedBy h = Some u \<longrightarrow> u \<in> user_ids d')"
    using gok g row group_violation_None [OF v] unfolding d' groups_ok_def
    by (auto simp: ball_update_where)
  ultimately have "groups_ok d'" using gok by (simp add: groups_ok_def d')
  moreover have "members_ok d'" using m same by (simp add: members_ok_def d')
  ultimately show "db_ok L d'" using ok by (simp add: d' db_ok_def)
qed

lemma of_member_key: "of_member gid uid m \<longleftrightarrow> (mGroupID m, mUserID m) = (gid, uid)"
  by (simp add: of_member_def)

lemma update_member_role_Inr:
  assumes "update_member_role role gid uid ver d = (Inr row, d')"
  obtains m where "m \<in> set (group_members d)" "of_member gid uid m" "mVersion m = ver"
    "row = m\<lparr>mRole := role, mVersion := mVersion m + 1\<rparr>" "role = ''admin'' \<or> role = ''member''"
    "d' = d\<lparr>group_members := update_where (of_member gid uid) (\<lambda>_. row) (group_members d)\<rparr>"
  using assms
  by (auto simp: update_member_role_def Let_def split: option.splits if_splits dest!: find_Some_iff')

lemma update_member_role_ok:
  assumes ok: "db_ok L d" and upd: "update_member_role role gid uid ver d = (Inr row, d')"
  shows "db_ok L d'"
proof -
  obtain m where m: "m \<in> set (group_members d)" "of_member gid uid m"
    and row: "row = m\<lparr>mRole := role, mVersion := mVersion m + 1\<rparr>" and role: "role = ''admin'' \<or> role = ''member''"
    and d': "d' = d\<lparr>group_members := update_where (of_member gid uid) (\<lambda>_. row) (group_members d)\<rparr>"
    using upd by (rule update_member_role_Inr)
  have mok: "members_ok d" using ok by (simp add: db_ok_def)
  have "unique_on (\<lambda>m. Some (mGroupID m, mUserID m)) (group_members d')"
    using mok m row unfolding d'
    by (simp, subst unique_on_update_same) (auto simp: members_ok_def of_member_def)
  moreover have "\<forall>x \<in> set (group_members d'). 0 < mID x \<and> mID x \<le> group_members_seq d'
      \<and> mGroupID x \<in> group_ids d' \<and> mUserID x \<in> user_ids d' \<and> (mRole x = ''admin'' \<or> mRole x = ''member'') \<and> 0 \<le> mVersion x"
    using mok m row role unfolding d' members_ok_def by (auto simp: ball_update_where)
  ultimately have "members_ok d'" using mok by (simp add: members_ok_def d')
  then show ?thesis using ok by (simp add: d' db_ok_def)
qed

lemma delete_member_ok: "db_ok L d \<Longrightarrow> delete_member gid uid ver d = (Inr n, d') \<Longrightarrow> db_ok L d'"
  by (auto simp: delete_member_def Let_def db_ok_def members_ok_def)

section \<open>Every group keeps an administrator\<close>

definition groups_led :: "'z db_scheme \<Rightarrow> bool" where
  "groups_led d \<longleftrightarrow>
     (\<forall>g \<in> set (groups d). \<exists>m \<in> set (group_members d). mGroupID m = gID g \<and> mRole m = ''admin'')"

text \<open>
  What every group operation respects: accounts stay, the constraints stay, and groups that all had an
  administrator still do.
\<close>

definition group_write :: "db \<Rightarrow> db \<Rightarrow> bool" where
  "group_write d d' \<longleftrightarrow> users d' = users d \<and> users_seq d' = users_seq d
     \<and> (\<forall>L. db_ok L d \<longrightarrow> db_ok L d' \<and> (groups_led d \<longrightarrow> groups_led d'))"

definition covers_group :: "(db \<Rightarrow> db \<Rightarrow> bool) \<Rightarrow> bool" where
  "covers_group R \<longleftrightarrow> preord R \<and> (\<forall>d d'. group_write d d' \<or> quiet d d' \<longrightarrow> R d d')"

lemma covers_group_preord: "covers_group R \<Longrightarrow> preord R"
  by (simp add: covers_group_def)

lemma covers_group_quiet: "covers_group R \<Longrightarrow> covers_quiet R"
  by (simp add: covers_group_def covers_quiet_def)

lemma covers_group_ok [preord_intro]: "covers_group (keeps (db_ok L))"
  by (auto simp: covers_group_def preord_keeps keeps_def quiet_def group_write_def)

lemma covers_group_admin [preord_intro]: "covers_group (keeps (admin_inv L))"
  by (auto simp: covers_group_def preord_keeps keeps_def quiet_def group_write_def admin_inv_def
      has_site_admin_def)

definition group_inv :: "golib \<Rightarrow> db \<Rightarrow> bool" where
  "group_inv L d \<longleftrightarrow> db_ok L d \<and> groups_led d"

lemma covers_group_inv [preord_intro]: "covers_group (keeps (group_inv L))"
  by (auto simp: covers_group_def preord_keeps keeps_def quiet_def group_write_def group_inv_def groups_led_def)

lemma preord_group_write: "preord group_write"
  by (auto simp: preord_def group_write_def reflp_def transp_def)

lemma covers_group_mono:
  "covers_group R \<Longrightarrow> evolves (on_tables group_write) m \<Longrightarrow> evolves (on_tables R) m"
  by (erule evolves_mono) (auto simp: on_tables_def covers_group_def)

subsection \<open>Statements that keep the administrators\<close>

lemma update_group_write:
  assumes "update_group_stmt L' grp ver d = (Inr row, d')"
  shows "group_write d d'"
proof -
  have "groups_led d'" if ok: "db_ok L d" and led: "groups_led d" for L
  proof -
    have m: "group_members d' = group_members d" using assms by (rule update_group_Inr) simp
    have "gID g \<in> group_ids d" if "g \<in> set (groups d')" for g
      using that update_group_ok(2) [OF ok assms] by blast
    with led m show ?thesis by (fastforce simp: groups_led_def)
  qed
  moreover have "users d' = users d \<and> users_seq d' = users_seq d" using assms by (rule update_group_Inr) simp
  ultimately show ?thesis using update_group_ok(1) [OF _ assms] by (auto simp: group_write_def)
qed

lemma insert_member_write: "insert_member m d = (Inr row, d') \<Longrightarrow> group_write d d'"
  using insert_member_ok [of _ d m row d']
  by (auto simp: group_write_def insert_member_Inr groups_led_def)

text \<open>
  With another administrator in the group, or with an administrator's role, the row of one member may change
  or go.
\<close>

definition spare_group_admin :: "int \<Rightarrow> int \<Rightarrow> db \<Rightarrow> bool" where
  "spare_group_admin gid uid d \<longleftrightarrow>
     (\<exists>m \<in> set (group_members d). mGroupID m = gid \<and> mUserID m \<noteq> uid \<and> mRole m = ''admin'')"

lemma groups_led_step:
  assumes "groups_led d" "groups d' = groups d"
    and keep: "\<And>m. m \<in> set (group_members d) \<Longrightarrow> \<not> of_member gid uid m \<Longrightarrow> m \<in> set (group_members d')"
    and led: "(\<exists>m \<in> set (group_members d). of_member gid uid m \<and> mRole m = ''admin'') \<Longrightarrow>
        spare_group_admin gid uid d \<or> (\<exists>m \<in> set (group_members d'). mGroupID m = gid \<and> mRole m = ''admin'')"
  shows "groups_led d'"
  unfolding groups_led_def
proof
  fix g
  assume "g \<in> set (groups d')"
  then obtain m where m: "m \<in> set (group_members d)" "mGroupID m = gID g" "mRole m = ''admin''"
    using assms(1,2) by (auto simp: groups_led_def)
  show "\<exists>m \<in> set (group_members d'). mGroupID m = gID g \<and> mRole m = ''admin''"
  proof (cases "of_member gid uid m")
    case False
    with m keep show ?thesis by blast
  next
    case True
    then have g: "gID g = gid" using m by (simp add: of_member_def)
    from led True m(1,3) consider "spare_group_admin gid uid d"
      | "\<exists>m \<in> set (group_members d'). mGroupID m = gid \<and> mRole m = ''admin''" by blast
    then show ?thesis
    proof cases
      case 1
      then obtain m' where "m' \<in> set (group_members d)" "mGroupID m' = gid" "mUserID m' \<noteq> uid" "mRole m' = ''admin''"
        by (auto simp: spare_group_admin_def)
      with keep [of m'] g show ?thesis by (auto simp: of_member_def)
    qed (use g in simp)
  qed
qed

lemma update_role_write:
  assumes upd: "update_member_role role gid uid ver d = (Inr row, d')"
    and spare: "members_ok d \<Longrightarrow> role \<noteq> ''admin'' \<Longrightarrow> (\<exists>m \<in> set (group_members d). of_member gid uid m \<and> mRole m = ''admin'') \<Longrightarrow>
      spare_group_admin gid uid d"
  shows "group_write d d'"
proof -
  obtain m where m: "m \<in> set (group_members d)" "of_member gid uid m"
    and row: "row = m\<lparr>mRole := role, mVersion := mVersion m + 1\<rparr>"
    and d': "d' = d\<lparr>group_members := update_where (of_member gid uid) (\<lambda>_. row) (group_members d)\<rparr>"
    using upd by (rule update_member_role_Inr)
  have "groups_led d'" if ok: "db_ok L d" and led: "groups_led d" for L
  proof (rule groups_led_step [OF led])
    show "groups d' = groups d" by (simp add: d')
    show "x \<in> set (group_members d')" if "x \<in> set (group_members d)" "\<not> of_member gid uid x" for x
      using that by (auto simp: d' set_update_where)
    have "row \<in> set (group_members d')" using m by (auto simp: d' set_update_where)
    then show "spare_group_admin gid uid d \<or> (\<exists>m \<in> set (group_members d'). mGroupID m = gid \<and> mRole m = ''admin'')"
      if "\<exists>m \<in> set (group_members d). of_member gid uid m \<and> mRole m = ''admin''"
      using that spare m row ok by (cases "role = ''admin''") (force simp: of_member_def db_ok_def)+
  qed
  then show ?thesis using update_member_role_ok [OF _ upd] d' by (auto simp: group_write_def)
qed

lemma delete_member_write:
  assumes del: "delete_member gid uid ver d = (Inr n, d')"
    and spare: "members_ok d \<Longrightarrow> (\<exists>m \<in> set (group_members d). of_member gid uid m \<and> mRole m = ''admin'') \<Longrightarrow>
      spare_group_admin gid uid d"
  shows "group_write d d'"
proof -
  have d': "d' = d\<lparr>group_members := delete_where (\<lambda>m. of_member gid uid m \<and> mVersion m = ver) (group_members d)\<rparr>"
    using del by (simp add: delete_member_def Let_def)
  have "groups_led d'" if "db_ok L d" "groups_led d" for L
    by (rule groups_led_step [OF that(2), of _ gid uid]) (use spare that(1) in \<open>auto simp: d' db_ok_def\<close>)
  then show ?thesis using delete_member_ok [OF _ del] d' by (auto simp: group_write_def)
qed

subsection \<open>Repository operations\<close>

lemma evolves_UpdateGroup [evolves_intro]:
  assumes "covers_group R"
  shows "evolves (on_tables R) (UpdateGroup L grp ver)"
proof (rule covers_group_mono [OF assms])
  have "evolves (on_tables group_write) (query (update_group_stmt L grp ver))"
    by (rule evolves_query [OF preord_group_write]) (rule update_group_write)
  then show "evolves (on_tables group_write) (UpdateGroup L grp ver)"
    unfolding UpdateGroup_def findGroup_def
    by (intro evolves_attempt evolves_call evolves_check evolves_ret evolves_fail evolves_if evolves_case_sum
        evolves_group_finds preord_intro preord_group_write)
qed

lemma evolves_CreateMembership [evolves_intro]:
  assumes "covers_group R"
  shows "evolves (on_tables R) (CreateMembership m)"
proof (rule covers_group_mono [OF assms])
  have "evolves (on_tables group_write) (query (insert_member m))"
    by (rule evolves_query [OF preord_group_write]) (rule insert_member_write)
  then show "evolves (on_tables group_write) (CreateMembership m)"
    unfolding CreateMembership_def
    by (intro evolves_call evolves_check evolves_ret preord_intro preord_group_write)
qed

lemma CreateGroupWithAdmin_Inr:
  assumes "CreateGroupWithAdmin L g uid role w = (Inr (created, m), w')"
  obtains d1 where "insert_group L g (tables w) = (Inr created, d1)"
    "insert_member (new_member (gID created) uid role (gCreatedAt created) 0) d1 = (Inr m, tables w')"
  using assms
  by (auto simp: CreateGroupWithAdmin_def createGroup_def findGroup_def scanGroup_def scanMembership_def
      split: if_splits option.splits elim!: transaction_Inr dest!: query_Inr)

lemma create_with_admin_write:
  assumes g: "insert_group L g d = (Inr created, d1)"
    and m: "insert_member (new_member (gID created) uid ''admin'' t 0) d1 = (Inr m, d')"
  shows "group_write d d'"
proof -
  note gi = g [unfolded insert_group_Inr] and mi = m [unfolded insert_member_Inr]
  have "groups_led d'" if "groups_led d"
    using that gi mi by (auto simp: groups_led_def new_member_def)
  then show ?thesis
    using insert_member_ok [OF insert_group_ok [OF _ g] m] gi mi by (auto simp: group_write_def)
qed

lemma evolves_CreateGroupWithAdmin:
  assumes "covers_group R"
  shows "evolves (on_tables R) (CreateGroupWithAdmin L g uid ''admin'')"
proof (rule covers_group_mono [OF assms])
  show "evolves (on_tables group_write) (CreateGroupWithAdmin L g uid ''admin'')"
    unfolding CreateGroupWithAdmin_def
  proof (rule evolves_call)
    show "evolves (on_tables group_write) (transaction mapGroupError
       (call (createGroup L g) id (\<lambda>created.
        call (query (insert_member (new_member (gID created) uid ''admin'' (gCreatedAt created) 0)))
          mapGroupError (\<lambda>row. check (scanMembership row) mapGroupError (\<lambda>m. ret (Some (created, m)))))))"
      by (rule evolves_transaction_commit [OF preord_group_write])
         (auto simp: createGroup_def findGroup_def scanGroup_def scanMembership_def split: if_splits
           dest!: query_Inr intro: create_with_admin_write)
  qed (intro evolves_intro preord_intro preord_group_write)+
qed

lemma lockGroupMembers_Inr: "lockGroupMembers gid w = (Inr x, w') \<Longrightarrow> tables w' = tables w"
  by (auto simp: lockGroupMembers_def advisory_lock_def dest!: query_Inr)

lemma select_member_Inr:
  "query (select_member gid uid) w = (Inr m, w') \<Longrightarrow>
    find (of_member gid uid) (group_members (tables w)) = Some m \<and> tables w' = tables w"
  by (auto simp: select_member_def split: option.splits dest!: query_Inr)

lemma ensureAnotherAdmin_Inr:
  "ensureAnotherAdmin gid uid w = (Inr x, w') \<Longrightarrow> spare_group_admin gid uid (tables w) \<and> tables w' = tables w"
  by (auto simp: ensureAnotherAdmin_def count_other_group_admins_def spare_group_admin_def filter_empty_conv
      split: if_splits dest!: query_Inr)

lemma member_row_unique:
  assumes "members_ok d" "find (of_member gid uid) (group_members d) = Some m"
    and "m' \<in> set (group_members d)" "of_member gid uid m'"
  shows "m' = m"
  using assms unique_onD [of "\<lambda>m. Some (mGroupID m, mUserID m)" "group_members d" m m' "(gid, uid)"]
  by (auto simp: members_ok_def of_member_def dest!: find_Some_iff')

text \<open>A committed role change went through the check when it takes the role from an administrator.\<close>

lemma update_role_body_commit:
  assumes "update_role_body m ver w = (Inr (Some row), w')"
  shows "update_member_role (mRole m) (mGroupID m) (mUserID m) ver (tables w) = (Inr row, tables w')"
    and "members_ok (tables w) \<Longrightarrow> mRole m \<noteq> ''admin'' \<Longrightarrow>
      (\<exists>x \<in> set (group_members (tables w)). of_member (mGroupID m) (mUserID m) x \<and> mRole x = ''admin'') \<Longrightarrow>
      spare_group_admin (mGroupID m) (mUserID m) (tables w)"
proof -
  from assms obtain w1 cur w2 w3 r w4 where l: "lockGroupMembers (mGroupID m) w = (Inr (), w1)"
    and c: "query (select_member (mGroupID m) (mUserID m)) w1 = (Inr cur, w2)"
    and e: "(if mRole cur = ''admin'' \<and> mRole m \<noteq> ''admin''
           then ensureAnotherAdmin (mGroupID m) (mUserID m) else ret ()) w2 = (Inr (), w3)"
    and q: "query (update_member_role (mRole m) (mGroupID m) (mUserID m) ver) w3 = (r, w4)"
    and rest: "(case r of Inl err \<Rightarrow> if errors_is err (Repo SqlErrNoRows) then fail (Repo ErrOptimisticLockConflict)
         else fail (mapMembershipError err)
       | Inr row \<Rightarrow> check (scanMembership row) mapMembershipError (\<lambda>updated. ret (Some updated))) w4
      = (Inr (Some row), w')"
    by (auto simp: update_role_body_def attempt_iff)
  note t1 = lockGroupMembers_Inr [OF l] and t2 = select_member_Inr [OF c]
  have t3: "tables w3 = tables w2" using e by (auto split: if_splits dest: ensureAnotherAdmin_Inr)
  from rest have "r = Inr row" "w' = w4"
    by (auto simp: scanMembership_def split: sum.splits if_splits)
  with q t1 t2 t3 show "update_member_role (mRole m) (mGroupID m) (mUserID m) ver (tables w) = (Inr row, tables w')"
    by (auto dest: query_Inr)
  assume ok: "members_ok (tables w)" and "mRole m \<noteq> ''admin''"
    and "\<exists>x \<in> set (group_members (tables w)). of_member (mGroupID m) (mUserID m) x \<and> mRole x = ''admin''"
  then have "mRole cur = ''admin''" using t1 t2 by (auto dest: member_row_unique [rotated])
  with e \<open>mRole m \<noteq> ''admin''\<close> t1 t2 show "spare_group_admin (mGroupID m) (mUserID m) (tables w)"
    by (auto dest: ensureAnotherAdmin_Inr)
qed

lemma delete_member_body_commit:
  assumes "delete_member_body gid uid ver w = (Inr (Some x), w')"
  shows "\<exists>n. delete_member gid uid ver (tables w) = (Inr n, tables w') \<and> n \<noteq> 0"
    and "members_ok (tables w) \<Longrightarrow>
      (\<exists>x \<in> set (group_members (tables w)). of_member gid uid x \<and> mRole x = ''admin'') \<Longrightarrow>
      spare_group_admin gid uid (tables w)"
proof -
  from assms obtain w1 cur w2 w3 where l: "lockGroupMembers gid w = (Inr (), w1)"
    and c: "query (select_member gid uid) w1 = (Inr cur, w2)"
    and e: "(if mRole cur = ''admin'' then ensureAnotherAdmin gid uid else ret ()) w2 = (Inr (), w3)"
    and rest: "(call (query (delete_member gid uid ver)) mapMembershipError (\<lambda>rows.
       if rows = 0 then fail (Repo ErrOptimisticLockConflict) else ret (Some ()))) w3 = (Inr (Some x), w')"
    by (auto simp: delete_member_body_def simp del: call_Inr_iff simp: call_Inr_iff [of _ id] call_Inr_iff [of _ mapMembershipError])
  then obtain n where q: "query (delete_member gid uid ver) w3 = (Inr n, w')" and n: "n \<noteq> 0"
    by (auto split: if_splits)
  note t1 = lockGroupMembers_Inr [OF l] and t2 = select_member_Inr [OF c]
  have t3: "tables w3 = tables w2" using e by (auto split: if_splits dest: ensureAnotherAdmin_Inr)
  from q t1 t2 t3 n show "\<exists>n. delete_member gid uid ver (tables w) = (Inr n, tables w') \<and> n \<noteq> 0"
    by (auto dest: query_Inr)
  assume ok: "members_ok (tables w)"
    and "\<exists>x \<in> set (group_members (tables w)). of_member gid uid x \<and> mRole x = ''admin''"
  then have "mRole cur = ''admin''" using t1 t2 by (auto dest: member_row_unique [rotated])
  with e t1 t2 show "spare_group_admin gid uid (tables w)" by (auto dest: ensureAnotherAdmin_Inr)
qed

lemma evolves_UpdateMembershipRole [evolves_intro]:
  assumes "covers_group R"
  shows "evolves (on_tables R) (UpdateMembershipRole m ver)"
proof (rule covers_group_mono [OF assms])
  have "evolves (on_tables group_write) (transaction mapMembershipError (update_role_body m ver))"
    by (rule evolves_transaction_commit [OF preord_group_write])
       (blast intro: update_role_write update_role_body_commit)
  then show "evolves (on_tables group_write) (UpdateMembershipRole m ver)"
    unfolding UpdateMembershipRole_def
    by (intro evolves_call evolves_case_option evolves_ret evolves_fail preord_intro preord_group_write)
qed

lemma evolves_DeleteMembership [evolves_intro]:
  assumes "covers_group R"
  shows "evolves (on_tables R) (DeleteMembership gid uid ver)"
proof (rule covers_group_mono [OF assms])
  have "evolves (on_tables group_write) (transaction mapMembershipError (delete_member_body gid uid ver))"
  proof (rule evolves_transaction_commit [OF preord_group_write])
    fix w x w'
    assume b: "delete_member_body gid uid ver w = (Inr (Some x), w')"
    then obtain n where "delete_member gid uid ver (tables w) = (Inr n, tables w')"
      using delete_member_body_commit(1) by blast
    then show "group_write (tables w) (tables w')"
      by (rule delete_member_write) (rule delete_member_body_commit(2) [OF b])
  qed
  then show "evolves (on_tables group_write) (DeleteMembership gid uid ver)"
    unfolding DeleteMembership_def
    by (intro evolves_call evolves_ret preord_intro preord_group_write)
qed

end
