(* ===== verification/RateLimitStore.thy ===== *)
theory RateLimitStore
  imports RateLimit SessionService
begin

text \<open>
  The shared store (\<^verbatim>\<open>store/postgres/rate_limit.go\<close>): one row of \<^verbatim>\<open>rate_limit_buckets\<close> per scope,
  action and digest of the key, counted up by a single upsert statement. Times are
  Unix milliseconds in the table and nanoseconds outside. The digest column holds 32 raw bytes;
  here it is their hexadecimal text.
\<close>

definition time_Millisecond :: int where "time_Millisecond = 1000000"

definition UnixMilli :: "int \<Rightarrow> int" where "UnixMilli ns = ns div time_Millisecond"

definition rateLimitKeyHash :: "golib \<Rightarrow> string \<Rightarrow> string" where
  "rateLimitKeyHash L key = sha256_hex L key"

definition NewRateLimitStore_scope :: "string \<Rightarrow> error + string" where
  "NewRateLimitStore_scope scope =
     (if TrimSpace scope = [] \<or> 64 < length scope then Inl (Repo ErrInvalidData) else Inr scope)"

section \<open>Statements on \<open>rate_limit_buckets\<close>\<close>

definition bucket_key :: "bucket_row \<Rightarrow> string \<times> string \<times> string" where
  "bucket_key b = (rbScope b, rbAction b, rbKeyHash b)"

definition bucket_violation :: "bucket_row \<Rightarrow> error option" where
  "bucket_violation b =
     (if \<not> varchar 64 (rbScope b) \<or> \<not> varchar 255 (rbAction b) \<or> \<not> varchar 255 (rbKeyHint b)
        then Some (PgError StringTruncation OtherConstraint)
      else if 2147483647 < rbCount b \<or> 2 ^ 63 \<le> rbExpires b
        then Some (PgError NumericOutOfRange OtherConstraint)
      else if rbScope b = [] \<or> rbAction b = [] \<or> rbCount b \<le> 0 \<or> rbExpires b \<le> rbStarted b
        then Some (PgError CheckViolation OtherConstraint)
      else None)"

text \<open>The \<^verbatim>\<open>DO UPDATE\<close> branch: an expired window restarts, a live one counts up.\<close>

definition bump_bucket :: "int \<Rightarrow> int \<Rightarrow> bucket_row \<Rightarrow> bucket_row" where
  "bump_bucket now window b =
     (if rbExpires b \<le> now then b\<lparr>rbCount := 1, rbStarted := now, rbExpires := now + window\<rparr>
      else b\<lparr>rbCount := rbCount b + 1\<rparr>)"

definition upsert_bucket :: "bucket_row \<Rightarrow> int \<Rightarrow> int \<Rightarrow> (int \<times> int) stmt" where
  "upsert_bucket new now window d =
     (case bucket_violation new of
        Some e \<Rightarrow> (Inl e, d)
      | None \<Rightarrow>
         (case find (\<lambda>b. bucket_key b = bucket_key new) (buckets d) of
            None \<Rightarrow> (Inr (rbCount new, rbStarted new), d\<lparr>buckets := buckets d @ [new]\<rparr>)
          | Some b \<Rightarrow>
              (let b' = bump_bucket now window b in
               case bucket_violation b' of
                 Some e \<Rightarrow> (Inl e, d)
               | None \<Rightarrow> (Inr (rbCount b', rbStarted b'),
                   d\<lparr>buckets := update_where (\<lambda>x. bucket_key x = bucket_key new) (\<lambda>_. b') (buckets d)\<rparr>))))"

definition select_bucket :: "string \<times> string \<times> string \<Rightarrow> int \<Rightarrow> (int \<times> int) stmt" where
  "select_bucket key now d =
     (case find (\<lambda>b. bucket_key b = key \<and> now < rbExpires b) (buckets d) of
        None \<Rightarrow> (Inl (Repo SqlErrNoRows), d) | Some b \<Rightarrow> (Inr (rbCount b, rbStarted b), d))"

definition delete_buckets :: "(bucket_row \<Rightarrow> bool) \<Rightarrow> int stmt" where
  "delete_buckets P d =
     (Inr (int (length (filter P (buckets d)))), d\<lparr>buckets := delete_where P (buckets d)\<rparr>)"

section \<open>The store\<close>

definition pg_Hit :: "golib \<Rightarrow> string \<Rightarrow> string \<Rightarrow> string \<Rightarrow> string \<Rightarrow> int \<Rightarrow> int \<Rightarrow> rate_limit_hit prog" where
  "pg_Hit L scope action key hint window now =
     (if window < time_Millisecond then fail (Repo ErrInvalidData)
      else
        (let nowMillis = UnixMilli now; windowMillis = window div time_Millisecond in
         call (query (upsert_bucket \<lparr>rbScope = scope, rbAction = action, rbKeyHash = rateLimitKeyHash L key,
             rbKeyHint = hint, rbCount = 1, rbStarted = nowMillis, rbExpires = nowMillis + windowMillis\<rparr>
             nowMillis windowMillis)) wrapOperation (\<lambda>(count, started).
         ret \<lparr>hCount = count, hStarted = started * time_Millisecond\<rparr>)))"

definition pg_Get :: "golib \<Rightarrow> string \<Rightarrow> string \<Rightarrow> string \<Rightarrow> int \<Rightarrow> rate_limit_hit prog" where
  "pg_Get L scope action key now =
     attempt (query (select_bucket (scope, action, rateLimitKeyHash L key) (UnixMilli now))) (\<lambda>r. case r of
       Inl err \<Rightarrow>
         if errors_is err (Repo SqlErrNoRows) then ret no_hit else fail (wrapOperation err)
     | Inr (count, started) \<Rightarrow> ret \<lparr>hCount = count, hStarted = started * time_Millisecond\<rparr>)"

definition pg_Clear :: "golib \<Rightarrow> string \<Rightarrow> string \<Rightarrow> string \<Rightarrow> unit prog" where
  "pg_Clear L scope action key =
     call (query (delete_buckets (\<lambda>b. bucket_key b = (scope, action, rateLimitKeyHash L key))))
       wrapOperation (\<lambda>_. ret ())"

definition pg_List :: "string \<Rightarrow> int \<Rightarrow> stored_bucket list prog" where
  "pg_List scope now =
     call (query (\<lambda>d. (Inr (filter (\<lambda>b. rbScope b = scope \<and> UnixMilli now < rbExpires b) (buckets d)), d)))
       wrapOperation (\<lambda>rows.
     ret (map (\<lambda>b. \<lparr>sbAction = rbAction b, sbKeyHint = rbKeyHint b, sbCount = rbCount b,
            sbStarted = rbStarted b * time_Millisecond\<rparr>) rows))"

definition pg_delete :: "(bucket_row \<Rightarrow> bool) \<Rightarrow> int prog" where
  "pg_delete P = call (query (delete_buckets P)) wrapOperation ret"

definition pg_ClearAction :: "string \<Rightarrow> string \<Rightarrow> int prog" where
  "pg_ClearAction scope action = pg_delete (\<lambda>b. rbScope b = scope \<and> rbAction b = action)"

definition pg_ClearAll :: "string \<Rightarrow> int prog" where
  "pg_ClearAll scope = pg_delete (\<lambda>b. rbScope b = scope)"

definition pg_DeleteExpired :: "int prog" where
  "pg_DeleteExpired = reading now_ns (\<lambda>now. pg_delete (\<lambda>b. rbExpires b \<le> UnixMilli now))"

definition PostgresRateLimitStore :: "golib \<Rightarrow> string \<Rightarrow> world rate_limit_store" where
  "PostgresRateLimitStore L scope = \<lparr>st_Hit = pg_Hit L scope, st_Get = pg_Get L scope,
     st_Clear = pg_Clear L scope, st_List = pg_List scope, st_ClearAction = pg_ClearAction scope,
     st_ClearAll = pg_ClearAll scope\<rparr>"

section \<open>Contract\<close>

definition row_window :: "bucket_row \<Rightarrow> rate_window" where
  "row_window b = \<lparr>wCount = rbCount b, wStarted = rbStarted b * time_Millisecond,
     wExpires = rbExpires b * time_Millisecond\<rparr>"

definition pg_window :: "golib \<Rightarrow> string \<Rightarrow> world \<Rightarrow> string \<Rightarrow> string \<Rightarrow> rate_window option" where
  "pg_window L scope w action key =
     map_option row_window
       (find (\<lambda>b. bucket_key b = (scope, action, rateLimitKeyHash L key)) (buckets (tables w)))"

text \<open>A time before the end of a window is a millisecond before its end, and conversely.\<close>

lemma UnixMilli_less: "UnixMilli now < e \<longleftrightarrow> now < e * time_Millisecond"
  by (auto simp: UnixMilli_def time_Millisecond_def)

lemma milli_bounds:
  "(x div time_Millisecond) * time_Millisecond \<le> x"
  "x < (x div time_Millisecond) * time_Millisecond + time_Millisecond"
proof -
  have "x = (x div time_Millisecond) * time_Millisecond + x mod time_Millisecond" by simp
  moreover have "0 \<le> x mod time_Millisecond" "x mod time_Millisecond < time_Millisecond"
    by (simp_all add: time_Millisecond_def)
  ultimately show "(x div time_Millisecond) * time_Millisecond \<le> x"
    "x < (x div time_Millisecond) * time_Millisecond + time_Millisecond" by linarith+
qed

lemma div_positive_millis:
  assumes "time_Millisecond \<le> win"
  shows "time_Millisecond \<le> (win div time_Millisecond) * time_Millisecond"
proof -
  have "1 \<le> win div time_Millisecond"
    using zdiv_mono1 [OF assms, of time_Millisecond] by (simp add: time_Millisecond_def)
  then show ?thesis by (simp add: time_Millisecond_def)
qed

lemma find_update_where_key:
  assumes "key y = i"
  shows "find (\<lambda>x. key x = j) (update_where (\<lambda>x. key x = i) (\<lambda>_. y) xs) =
    (if i = j then (if find (\<lambda>x. key x = i) xs = None then None else Some y) else find (\<lambda>x. key x = j) xs)"
  using assms by (induction xs) auto

lemma bump_bucket_key [simp]: "bucket_key (bump_bucket now win b) = bucket_key b"
  by (simp add: bump_bucket_def bucket_key_def)

lemma upsert_bucket_Inr:
  assumes "upsert_bucket new now win d = (Inr (c, st), d')"
  obtains (inserted) "find (\<lambda>b. bucket_key b = bucket_key new) (buckets d) = None"
      "d' = d\<lparr>buckets := buckets d @ [new]\<rparr>" "c = rbCount new" "st = rbStarted new" "bucket_violation new = None"
    | (bumped) b where "find (\<lambda>b. bucket_key b = bucket_key new) (buckets d) = Some b"
      "c = rbCount (bump_bucket now win b)" "st = rbStarted (bump_bucket now win b)"
      "bucket_violation (bump_bucket now win b) = None"
      "d' = d\<lparr>buckets := update_where (\<lambda>x. bucket_key x = bucket_key new) (\<lambda>_. bump_bucket now win b) (buckets d)\<rparr>"
  using assms by (auto simp: upsert_bucket_def Let_def split: option.splits)

lemma bucket_violation_None:
  "bucket_violation b = None \<Longrightarrow> 0 < rbCount b \<and> rbStarted b < rbExpires b \<and> rbCount b \<le> 2147483647"
  by (auto simp: bucket_violation_def split: if_splits)

lemma unique_on_update_key:
  assumes "unique_on (\<lambda>x. Some (key x)) xs" "key y = i"
  shows "unique_on (\<lambda>x. Some (key x)) (update_where (\<lambda>x. key x = i) (\<lambda>_. y) xs)"
  using assms by (subst unique_on_update_same) auto

lemma history_ok_buckets:
  "history_ok (d\<lparr>buckets := bs\<rparr>) \<longleftrightarrow> history_ok (d\<lparr>buckets := []\<rparr>)
     \<and> unique_on (\<lambda>b. Some (bucket_key b)) bs \<and> (\<forall>b \<in> set bs. 0 < rbCount b \<and> rbStarted b < rbExpires b)"
  by (auto simp: history_ok_def bucket_key_def)

lemma db_ok_buckets:
  assumes "db_ok L d" "unique_on (\<lambda>b. Some (bucket_key b)) bs"
    "\<forall>b \<in> set bs. 0 < rbCount b \<and> rbStarted b < rbExpires b"
  shows "db_ok L (d\<lparr>buckets := bs\<rparr>)"
proof -
  have "history_ok (d\<lparr>buckets := buckets d\<rparr>)" using assms(1) by (simp add: db_ok_def)
  then have "history_ok (d\<lparr>buckets := bs\<rparr>)" using assms(2,3) by (subst (asm) history_ok_buckets, subst history_ok_buckets) simp
  with assms(1) show ?thesis by (simp add: db_ok_def)
qed

lemma db_ok_buckets_rows:
  "db_ok L d \<Longrightarrow> unique_on (\<lambda>b. Some (bucket_key b)) (buckets d)
     \<and> (\<forall>b \<in> set (buckets d). 0 < rbCount b \<and> rbStarted b < rbExpires b)"
  by (simp add: db_ok_def history_ok_def bucket_key_def)

lemma upsert_bucket_quiet:
  assumes "upsert_bucket new now win d = (Inr p, d')"
  shows "quiet d d'"
proof -
  obtain c st where p: "p = (c, st)" by (cases p)
  have "db_ok L d'" if ok: "db_ok L d" for L
    using assms [unfolded p]
  proof (cases rule: upsert_bucket_Inr [consumes 1])
    case inserted
    have "unique_on (\<lambda>b. Some (bucket_key b)) (buckets d @ [new])"
      using db_ok_buckets_rows [OF ok] inserted(1) by (auto simp: unique_on_append find_None_iff)
    with ok inserted(2) bucket_violation_None [OF inserted(5)] db_ok_buckets_rows [OF ok]
    show ?thesis by (auto intro!: db_ok_buckets)
  next
    case (bumped b)
    have k: "bucket_key (bump_bucket now win b) = bucket_key new"
      using bumped(1) by (auto dest: find_Some_iff')
    show ?thesis unfolding bumped(5)
    proof (rule db_ok_buckets [OF ok])
      show "unique_on (\<lambda>b. Some (bucket_key b))
          (update_where (\<lambda>x. bucket_key x = bucket_key new) (\<lambda>_. bump_bucket now win b) (buckets d))"
        using db_ok_buckets_rows [OF ok] k by (intro unique_on_update_key) auto
      show "\<forall>b \<in> set (update_where (\<lambda>x. bucket_key x = bucket_key new) (\<lambda>_. bump_bucket now win b) (buckets d)).
          0 < rbCount b \<and> rbStarted b < rbExpires b"
        using db_ok_buckets_rows [OF ok] bucket_violation_None [OF bumped(4)]
        by (simp add: ball_update_where)
    qed
  qed
  moreover have "users d' = users d \<and> groups d' = groups d \<and> group_members d' = group_members d"
    using assms [unfolded p] by (rule upsert_bucket_Inr) simp_all
  ultimately show ?thesis by (simp add: quiet_def)
qed

lemma delete_buckets_quiet: "delete_buckets P d = (Inr n, d') \<Longrightarrow> quiet d d'"
  by (auto simp: delete_buckets_def quiet_def intro!: db_ok_buckets dest: db_ok_buckets_rows)

lemma pg_Hit_Inr:
  assumes "pg_Hit L scope a k h win now w = (Inr x, w')"
  obtains c st where "upsert_bucket \<lparr>rbScope = scope, rbAction = a, rbKeyHash = rateLimitKeyHash L k,
             rbKeyHint = h, rbCount = 1, rbStarted = UnixMilli now,
             rbExpires = UnixMilli now + win div time_Millisecond\<rparr>
             (UnixMilli now) (win div time_Millisecond) (tables w) = (Inr (c, st), tables w')"
    "x = \<lparr>hCount = c, hStarted = st * time_Millisecond\<rparr>" "time_Millisecond \<le> win"
  using assms by (auto simp: pg_Hit_def Let_def split: if_splits dest!: query_Inr)

lemma pg_Hit_Inl: "pg_Hit L scope a k h win now w = (Inl e, w') \<Longrightarrow> tables w' = tables w"
  by (auto simp: pg_Hit_def Let_def call_def fail_def ret_def split: if_splits prod.splits sum.splits
      dest!: query_Inl)

lemma pg_Hit_windows:
  assumes "pg_Hit L scope a k h win now w = (Inr x, w')"
  shows "if in_window now (pg_window L scope w a k)
    then (\<exists>v. pg_window L scope w a k = Some v \<and> hCount x = wCount v + 1 \<and> hStarted x = wStarted v
           \<and> pg_window L scope w' a k = Some (v\<lparr>wCount := wCount v + 1\<rparr>))
    else (\<exists>v. pg_window L scope w' a k = Some v \<and> wCount v = 1 \<and> hCount x = 1 \<and> hStarted x = wStarted v
           \<and> wStarted v \<le> now \<and> now < wExpires v \<and> wExpires v \<le> now + win)"
    and "(a, rateLimitKeyHash L k) \<noteq> (a', rateLimitKeyHash L k') \<Longrightarrow>
      pg_window L scope w' a' k' = pg_window L scope w a' k'"
proof -
  let ?new = "\<lparr>rbScope = scope, rbAction = a, rbKeyHash = rateLimitKeyHash L k,
             rbKeyHint = h, rbCount = 1, rbStarted = UnixMilli now,
             rbExpires = UnixMilli now + win div time_Millisecond\<rparr>"
  obtain c st where u: "upsert_bucket ?new (UnixMilli now) (win div time_Millisecond) (tables w) = (Inr (c, st), tables w')"
    and x: "x = \<lparr>hCount = c, hStarted = st * time_Millisecond\<rparr>" and win: "time_Millisecond \<le> win"
    using assms by (rule pg_Hit_Inr)
  have k: "bucket_key ?new = (scope, a, rateLimitKeyHash L k)" by (simp add: bucket_key_def)
  have fresh: "UnixMilli now * time_Millisecond \<le> now"
      "now < (UnixMilli now + win div time_Millisecond) * time_Millisecond"
      "(UnixMilli now + win div time_Millisecond) * time_Millisecond \<le> now + win"
    using win milli_bounds [of now] milli_bounds [of win] div_positive_millis [OF win]
    unfolding UnixMilli_def distrib_right by linarith+
  from u show "if in_window now (pg_window L scope w a k)
    then (\<exists>v. pg_window L scope w a k = Some v \<and> hCount x = wCount v + 1 \<and> hStarted x = wStarted v
           \<and> pg_window L scope w' a k = Some (v\<lparr>wCount := wCount v + 1\<rparr>))
    else (\<exists>v. pg_window L scope w' a k = Some v \<and> wCount v = 1 \<and> hCount x = 1 \<and> hStarted x = wStarted v
           \<and> wStarted v \<le> now \<and> now < wExpires v \<and> wExpires v \<le> now + win)"
  proof (cases rule: upsert_bucket_Inr [consumes 1])
    case inserted
    then have "pg_window L scope w a k = None" "pg_window L scope w' a k = Some (row_window ?new)"
      unfolding pg_window_def k by (simp_all add: find_append bucket_key_def)
    with inserted x fresh show ?thesis by (simp add: row_window_def)
  next
    case (bumped b)
    let ?b = "bump_bucket (UnixMilli now) (win div time_Millisecond) b"
    have kb: "bucket_key ?b = (scope, a, rateLimitKeyHash L k)"
      using bumped(1) k by (auto dest: find_Some_iff')
    have w: "pg_window L scope w a k = Some (row_window b)"
      using bumped(1) unfolding pg_window_def k by simp
    have w': "pg_window L scope w' a k = Some (row_window ?b)"
      using bumped(1) unfolding pg_window_def bumped(5) k
      by (simp add: find_update_where_key [where key = bucket_key, OF kb])
    have "in_window now (pg_window L scope w a k) \<longleftrightarrow> \<not> rbExpires b \<le> UnixMilli now"
      using UnixMilli_less [of now "rbExpires b"] by (simp add: w row_window_def not_le)
    with w w' x bumped(2,3) fresh show ?thesis
      by (auto simp: bump_bucket_def row_window_def)
  qed
  assume other: "(a, rateLimitKeyHash L k) \<noteq> (a', rateLimitKeyHash L k')"
  from u show "pg_window L scope w' a' k' = pg_window L scope w a' k'"
  proof (cases rule: upsert_bucket_Inr [consumes 1])
    case inserted
    then show ?thesis using other unfolding pg_window_def
      by (auto simp: find_append bucket_key_def split: option.split)
  next
    case (bumped b)
    have kb: "bucket_key (bump_bucket (UnixMilli now) (win div time_Millisecond) b) = bucket_key ?new"
      using bumped(1) by (auto dest: find_Some_iff')
    show ?thesis using other unfolding pg_window_def bumped(5)
      by (simp add: find_update_where_key [where key = bucket_key, OF kb]) (auto simp: k)
  qed
qed

interpretation pg: rate_limit_store "PostgresRateLimitStore L scope" "pg_window L scope" "\<lambda>_. True"
  "\<lambda>a k a' k'. (a :: string, rateLimitKeyHash L k) = (a', rateLimitKeyHash L k')" 0
proof
  fix w :: world and a k h win now x and w' :: world and v
  assume hit: "st_Hit (PostgresRateLimitStore L scope) a k h win now w = (Inr x, w')"
    and v: "pg_window L scope w a k = Some v" "now < wExpires v"
  from hit have "pg_Hit L scope a k h win now w = (Inr x, w')" by (simp add: PostgresRateLimitStore_def)
  from pg_Hit_windows(1) [OF this] v
  show "hCount x = wCount v + 1 \<and> hStarted x = wStarted v
      \<and> pg_window L scope w' a k = Some (v\<lparr>wCount := wCount v + 1\<rparr>)" by simp
next
  fix w :: world and a k h and win now :: int and x and w' :: world
  assume hit: "st_Hit (PostgresRateLimitStore L scope) a k h win now w = (Inr x, w')"
    and v: "\<not> in_window now (pg_window L scope w a k)"
  from hit have "pg_Hit L scope a k h win now w = (Inr x, w')" by (simp add: PostgresRateLimitStore_def)
  from pg_Hit_windows(1) [OF this] v
  show "\<exists>v. pg_window L scope w' a k = Some v \<and> wCount v = 1 \<and> hCount x = 1 \<and> hStarted x = wStarted v
      \<and> wStarted v \<le> now \<and> now < wExpires v \<and> wExpires v \<le> now + win" by simp
next
  fix w :: world and a k h win now r and w' :: world and a' k' v
  assume hit: "st_Hit (PostgresRateLimitStore L scope) a k h win now w = (r, w')"
    and other: "(a, rateLimitKeyHash L k) \<noteq> (a', rateLimitKeyHash L k')"
    and v: "pg_window L scope w a' k' = Some v"
  from hit have h': "pg_Hit L scope a k h win now w = (r, w')" by (simp add: PostgresRateLimitStore_def)
  show "pg_window L scope w' a' k' = Some v"
  proof (cases r)
    case (Inl e)
    with h' v show ?thesis by (auto simp: pg_window_def dest: pg_Hit_Inl)
  next
    case (Inr x)
    from pg_Hit_windows(2) [OF h' [unfolded Inr] other] v show ?thesis by simp
  qed
next
  fix w :: world and a k h win now e and w' :: world and a' k' v
  assume "st_Hit (PostgresRateLimitStore L scope) a k h win now w = (Inl e, w')"
    and v: "pg_window L scope w a' k' = Some v"
  then have "tables w' = tables w" by (auto simp: PostgresRateLimitStore_def dest: pg_Hit_Inl)
  with v show "pg_window L scope w' a' k' = Some v" by (simp add: pg_window_def)
next
  fix a k a' k' :: string and w :: world
  assume "(a, rateLimitKeyHash L k) = (a', rateLimitKeyHash L k')"
  then show "pg_window L scope w a' k' = pg_window L scope w a k" by (simp add: pg_window_def)
next
  fix w :: world and a k and w' :: world
  assume "st_Clear (PostgresRateLimitStore L scope) a k w = (Inr (), w')"
  then have "tables w' = (tables w)\<lparr>buckets :=
      delete_where (\<lambda>b. bucket_key b = (scope, a, rateLimitKeyHash L k)) (buckets (tables w))\<rparr>"
    by (auto simp: PostgresRateLimitStore_def pg_Clear_def delete_buckets_def dest!: query_Inr)
  then show "True \<and> pg_window L scope w' a k = None"
    by (auto simp: pg_window_def find_None_iff')
qed simp_all

section \<open>Composition\<close>

lemma evolves_upsert_bucket: "evolves (on_tables quiet) (query (upsert_bucket new now win))"
  by (intro evolves_query preord_intro) (erule upsert_bucket_quiet)

lemma evolves_delete_buckets: "evolves (on_tables quiet) (query (delete_buckets P))"
  by (intro evolves_query preord_intro) (erule delete_buckets_quiet)

lemma evolves_select_bucket [evolves_intro]: "preord R \<Longrightarrow> evolves (on_tables R) (query (select_bucket k t))"
  by (rule evolves_read_query) (auto simp: select_bucket_def split: option.splits)

lemma evolves_pg_rate_limit:
  "evolves (on_tables quiet) (pg_Hit L scope a k h win now)"
  "evolves (on_tables quiet) (pg_Clear L scope a k)"
  "evolves (on_tables quiet) (pg_delete P)"
  "evolves (on_tables quiet) (pg_Get L scope a k now)"
  "evolves (on_tables quiet) (pg_List scope now)"
  unfolding pg_Hit_def pg_Clear_def pg_delete_def pg_Get_def pg_List_def
  by (intro evolves_intro preord_intro evolves_upsert_bucket evolves_delete_buckets)+

text \<open>
  A limiter whose store writes nothing but rate-limit rows; the services take any such limiter.
\<close>

definition quiet_limiter :: "world rate_limiter \<Rightarrow> bool" where
  "quiet_limiter l \<longleftrightarrow>
     (\<forall>a k h win now. evolves (on_tables quiet) (st_Hit (rlStore l) a k h win now))
     \<and> (\<forall>a k. evolves (on_tables quiet) (st_Clear (rlStore l) a k))"

lemma quiet_limiter_postgres: "rlStore l = PostgresRateLimitStore L scope \<Longrightarrow> quiet_limiter l"
  by (simp add: quiet_limiter_def PostgresRateLimitStore_def evolves_pg_rate_limit)

lemma evolves_Allow:
  assumes "quiet_limiter l" and c: "covers_quiet R"
  shows "evolves (on_tables R) (Allow l now a k)"
proof (rule covers_quiet_mono [OF c])
  show "evolves (on_tables quiet) (Allow l now a k)"
    using assms(1) unfolding Allow_def quiet_limiter_def
    by (intro evolves_intro preord_intro) blast
qed

lemma evolves_Clear:
  assumes "quiet_limiter l" and c: "covers_quiet R"
  shows "evolves (on_tables R) (Clear l a k)"
proof (rule covers_quiet_mono [OF c])
  show "evolves (on_tables quiet) (Clear l a k)"
    using assms(1) unfolding Clear_def quiet_limiter_def
    by (intro evolves_intro preord_intro) blast
qed

section \<open>Properties\<close>

definition demo_shared_limits :: rate_limit_config where
  "demo_shared_limits = \<lparr>rcLimit = 2, rcWindow = 5000000, rcMaxKeys = 0\<rparr>"

definition demo_shared :: "world rate_limiter" where
  "demo_shared = \<lparr>rlConfig = demo_shared_limits, rlStore = PostgresRateLimitStore ascii_lib ''s''\<rparr>"

lemma demo_shared_new:
  "NewRateLimiterWithStore demo_shared_limits (PostgresRateLimitStore ascii_lib ''s'') = Inr demo_shared"
  by (simp add: NewRateLimiterWithStore_def demo_shared_limits_def demo_shared_def)

lemma demo_shared_first:
  "\<exists>d w1. Allow demo_shared 1500000 ''a'' ''k'' demo_world = (Inr d, w1)
     \<and> pg_window ascii_lib ''s'' w1 ''a'' ''k'' = Some \<lparr>wCount = 1, wStarted = 1000000, wExpires = 6000000\<rparr>"
proof -
  have "case Allow demo_shared 1500000 ''a'' ''k'' demo_world of (r, w1) \<Rightarrow>
      \<not> isl r \<and> pg_window ascii_lib ''s'' w1 ''a'' ''k'' = Some \<lparr>wCount = 1, wStarted = 1000000, wExpires = 6000000\<rparr>"
    by code_simp
  then show ?thesis by (auto split: prod.splits simp: isl_def) (metis sum.collapse)
qed

text \<open>
  C10: The budget of the shared limiter. The same bound holds for the PostgreSQL store, for every pattern of database
  failures: within a window at most \<open>Limit\<close> attempts at a key are allowed, and exactly as many as the limit permits
  when every statement succeeds, although the table keeps milliseconds and the limiter nanoseconds.
\<close>

theorem shared_window_budget:
  assumes "NewRateLimiterWithStore config (PostgresRateLimitStore L scope) = Inr l"
    and "\<not> in_window t (pg_window L scope w a k)" and "Allow l t a k w = (Inr d, w1)"
    and "pg_window L scope w1 a k = Some v" and "list_all (\<lambda>u. u < wExpires v) ts"
  shows "fst (attempts l a k (t # ts) w) \<le> rcLimit config
    \<and> (answered l a k (t # ts) w \<longrightarrow>
         fst (attempts l a k (t # ts) w) = min (int (length (t # ts))) (rcLimit config))
    \<and> t < wExpires v \<and> wExpires v \<le> t + rcWindow config"
proof -
  from assms(1) have l: "rlStore l = PostgresRateLimitStore L scope" "rlConfig l = config"
    "0 < rcWindow (rlConfig l)" "0 < rcLimit (rlConfig l)"
    by (auto simp: NewRateLimiterWithStore_def split: if_splits)
  from pg.window_budget [OF l(1,3,4) TrueI assms(2-5)] show ?thesis by (simp add: l(2))
qed

theorem shared_window_budget_witness:
  "fst (attempts demo_shared ''a'' ''k'' [1500000, 2000000, 3000000] demo_world) = 2"
proof -
  from demo_shared_first obtain d w1 where a: "Allow demo_shared 1500000 ''a'' ''k'' demo_world = (Inr d, w1)"
    and w: "pg_window ascii_lib ''s'' w1 ''a'' ''k'' = Some \<lparr>wCount = 1, wStarted = 1000000, wExpires = 6000000\<rparr>"
    by blast
  have fresh: "\<not> in_window 1500000 (pg_window ascii_lib ''s'' demo_world ''a'' ''k'')"
    by (simp add: pg_window_def demo_defs)
  have "answered demo_shared ''a'' ''k'' [1500000, 2000000, 3000000] demo_world" by code_simp
  with shared_window_budget [OF demo_shared_new fresh a w, of "[2000000, 3000000]"]
  show ?thesis by (simp add: demo_shared_limits_def)
qed

section \<open>One budget per subscriber\<close>

lemma mask64_eq: "mask64 v = mask64 u \<longleftrightarrow> drop_bit 64 v = drop_bit 64 u"
proof
  assume "mask64 v = mask64 u"
  then have "drop_bit 64 (mask64 v) = drop_bit 64 (mask64 u)" by simp
  moreover have "drop_bit 64 (mask64 x) = drop_bit 64 x" for x :: "128 word"
    by (rule bit_eqI) (auto simp: mask64_def bit_simps dest: bit_imp_le_length)
  ultimately show "drop_bit 64 v = drop_bit 64 u" by simp
qed (simp add: mask64_def)

text \<open>
  Two IPv6 origins share a key exactly when they agree on the upper 64 bits, given that the text of an
  address determines it; an IPv4-mapped origin has the key of its IPv4 address.
\<close>

lemma origin_key_prefix:
  assumes "ParseAddr L o1 = Some (Addr6 v [])" "drop_bit 32 v \<noteq> 0xFFFF"
    and "ParseAddr L o2 = Some (Addr6 u [])" "drop_bit 32 u \<noteq> 0xFFFF" and "inj (addr_String L)"
  shows "originRateLimitKey L o1 = originRateLimitKey L o2 \<longleftrightarrow> drop_bit 64 v = drop_bit 64 u"
  using assms by (simp add: originRateLimitKey_def addr_zone_def unmap_def mask64_eq inj_eq)

lemma origin_key_mapped:
  assumes "ParseAddr L o1 = Some (Addr6 v [])" "drop_bit 32 v = 0xFFFF"
    and "ParseAddr L o2 = Some (Addr4 (ucast v))"
  shows "originRateLimitKey L o1 = originRateLimitKey L o2"
  using assms by (simp add: originRateLimitKey_def addr_zone_def unmap_def)

end
