(* ===== verification/GroupService.thy ===== *)
theory GroupService
  imports GroupStore RateLimitStore
begin

text \<open>
  The group use cases (\<^verbatim>\<open>internal/service/group.go\<close>, \<^verbatim>\<open>group_join.go\<close>): who may create, see, rename,
  join and leave a group and change its members, with the administrator checks and the audit record of a site
  administrator's intervention.
\<close>

definition maxGroupNameLength :: nat where "maxGroupNameLength = 64"
definition GroupRoleAdmin :: string where "GroupRoleAdmin = ''admin''"
definition GroupRoleMember :: string where "GroupRoleMember = ''member''"
definition groupInviteCodeLength :: nat where "groupInviteCodeLength = 12"
definition groupInviteAlphabet :: string where "groupInviteAlphabet = ''ABCDEFGHJKMNPQRSTUVWXYZ23456789''"
definition groupInviteCollisionTries :: nat where "groupInviteCollisionTries = 5"

text \<open>\<^verbatim>\<open>GroupService\<close>: the repositories are those of the database; the auditor may be absent.\<close>

record group_service =
  gsAuditor :: auditor

section \<open>Helpers\<close>

definition normalizeGroupName :: "golib \<Rightarrow> string \<Rightarrow> error + string" where
  "normalizeGroupName L raw =
     (let trimmed = TrimSpace raw in
      if trimmed = [] \<or> maxGroupNameLength < RuneCountInString trimmed then Inl (Grp ErrInvalidGroupName)
      else if list_ex (\<lambda>c. c < 0x20 \<or> c = 0x7F) (runes trimmed) then Inl (Grp ErrInvalidGroupName)
      else Inr (ToLower L trimmed))"

definition newGroupInviteCode :: "string prog" where
  "newGroupInviteCode =
     call (rand_code groupInviteAlphabet groupInviteCodeLength) (\<lambda>_. Wrap (Grp ErrGroupInviteGeneration)) ret"

definition validateCreatedGroup :: "group \<Rightarrow> membership \<Rightarrow> int \<Rightarrow> error + unit" where
  "validateCreatedGroup g membership userID =
     (if gID g \<le> 0 \<or> gVersion g < 0 \<or> length (gInviteCode g) \<noteq> groupInviteCodeLength
        then Inl (Grp ErrInvalidGroup)
      else if mGroupID membership \<noteq> gID g \<or> mUserID membership \<noteq> userID \<or> mRole membership \<noteq> GroupRoleAdmin
        then Inl (Grp ErrInvalidGroup)
      else Inr ())"

definition actorIsGlobalAdmin :: "int \<Rightarrow> bool prog" where
  "actorIsGlobalAdmin userID = call (FindUserByID userID) Wrap (\<lambda>user. ret (uIsAdmin user \<and> \<not> uIsGuest user))"

definition requireAdmin :: "int \<Rightarrow> int \<Rightarrow> bool prog" where
  "requireAdmin userID groupID =
     attempt (FindMembership groupID userID) (\<lambda>r.
       let siteAdmin =
         call (actorIsGlobalAdmin userID) id (\<lambda>administrator.
           if \<not> administrator then fail (Grp ErrNotGroupAdmin) else ret True) in
       case r of
         Inl err \<Rightarrow> if \<not> errors_is err (Grp ErrMembershipNotFound) then fail (Wrap err) else siteAdmin
       | Inr membership \<Rightarrow> if mRole membership = GroupRoleAdmin then ret False else siteAdmin)"

definition recordSiteAdminAction :: "group_service \<Rightarrow> int \<Rightarrow> int \<Rightarrow> string \<Rightarrow> string \<Rightarrow> unit prog" where
  "recordSiteAdminAction s actorUserID groupID action detail =
     (case gsAuditor s of
        None \<Rightarrow> ret ()
      | Some _ \<Rightarrow>
          attempt (FindUserByID actorUserID) (\<lambda>r.
            audit_ignoring (gsAuditor s) \<lparr>arActorUserID = actorUserID,
              arActorEmail = (case r of Inr actor \<Rightarrow> (case uEmail actor of Some e \<Rightarrow> e | None \<Rightarrow> []) | Inl _ \<Rightarrow> []),
              arAction = action, arTargetType = ''group'', arTargetID = FormatInt groupID,
              arDetail = detail, arIP = []\<rparr>))"

section \<open>Use cases\<close>

text \<open>The retry loop of \<^verbatim>\<open>Create\<close>; the counter is the number of attempts left.\<close>

fun create_group_tries :: "golib \<Rightarrow> int \<Rightarrow> string \<Rightarrow> string \<Rightarrow> nat \<Rightarrow> error \<Rightarrow> group_summary prog" where
  "create_group_tries L userID name normalized 0 lastErr = fail (Wrap lastErr)"
| "create_group_tries L userID name normalized (Suc n) lastErr =
     call newGroupInviteCode id (\<lambda>code.
     attempt (CreateGroupWithAdmin L \<lparr>gID = 0, gName = TrimSpace name, gNameNorm = normalized,
         gInviteCode = code, gCreatedBy = Some userID, gCreatedAt = 0, gVersion = 0\<rparr> userID GroupRoleAdmin) (\<lambda>r.
     case r of
       Inr (created, membership) \<Rightarrow>
         check (validateCreatedGroup created membership userID) id (\<lambda>_.
         ret \<lparr>suGroup = created, suMemberCount = 1, suRole = GroupRoleAdmin\<rparr>)
     | Inl err \<Rightarrow>
         if \<not> errors_is err (Grp ErrGroupInviteTaken) then fail (Wrap err)
         else create_group_tries L userID name normalized n err))"

definition group_Create :: "golib \<Rightarrow> int \<Rightarrow> string \<Rightarrow> group_summary prog" where
  "group_Create L userID name =
     (if userID \<le> 0 then fail (Account ErrInvalidUserID)
      else
        check (normalizeGroupName L name) id (\<lambda>normalized.
        call (FindUserByID userID) Wrap (\<lambda>creator.
        if uID creator \<noteq> userID \<or> uIsGuest creator then fail (Grp ErrInvalidGroup)
        else create_group_tries L userID name normalized groupInviteCollisionTries AnonymousError)))"

definition group_List :: "int \<Rightarrow> group_summary list prog" where
  "group_List userID =
     (if userID \<le> 0 then fail (Account ErrInvalidUserID)
      else
        call (actorIsGlobalAdmin userID) id (\<lambda>administrator.
        call (if administrator then ListAllGroupsForUser userID else ListGroupsForUser userID) Wrap (\<lambda>summaries.
        ret (map (\<lambda>s. if suMemberCount s < 1 then s\<lparr>suMemberCount := 1\<rparr> else s) summaries))))"

record group_detail =
  gdGroup :: group
  gdMemberCount :: int
  gdViewerRole :: string
  gdIsMember :: bool
  gdIsAdmin :: bool
  gdInviteCode :: string
  gdMembers :: "group_member list"

definition Detail :: "golib \<Rightarrow> int \<Rightarrow> int \<Rightarrow> group_detail prog" where
  "Detail L userID groupID =
     (if userID \<le> 0 \<or> groupID \<le> 0 then fail (Grp ErrInvalidGroup)
      else
        attempt (FindMembership groupID userID) (\<lambda>r.
        if (case r of Inl e \<Rightarrow> \<not> errors_is e (Grp ErrMembershipNotFound) | Inr _ \<Rightarrow> False)
        then (case r of Inl e \<Rightarrow> fail (Wrap e) | Inr _ \<Rightarrow> fail AnonymousError)
        else
          let isMember = (\<not> isl r); viewerRole = (case r of Inr m \<Rightarrow> mRole m | Inl _ \<Rightarrow> []) in
          call (actorIsGlobalAdmin userID) id (\<lambda>administrator.
          if \<not> isMember \<and> \<not> administrator then fail (Grp ErrGroupNotFound)
          else
            call (FindGroupByID groupID) Wrap (\<lambda>grp.
            call (CountMembers groupID) Wrap (\<lambda>count.
            let isAdmin = (administrator \<or> viewerRole = GroupRoleAdmin) in
            call (ListMembers L groupID) Wrap (\<lambda>members.
            ret \<lparr>gdGroup = grp, gdMemberCount = count, gdViewerRole = viewerRole, gdIsMember = isMember,
              gdIsAdmin = isAdmin, gdInviteCode = (if isAdmin then gInviteCode grp else []),
              gdMembers = (if isAdmin then members
                 else map (\<lambda>m. if gmUserID m \<noteq> userID then m\<lparr>gmEmail := None\<rparr> else m) members)\<rparr>))))))"

definition Rename :: "golib \<Rightarrow> group_service \<Rightarrow> int \<Rightarrow> int \<Rightarrow> int \<Rightarrow> string \<Rightarrow> group prog" where
  "Rename L s userID groupID expectedVersion name =
     (if userID \<le> 0 \<or> groupID \<le> 0 then fail (Grp ErrInvalidGroup)
      else if expectedVersion < 0 then fail (Grp ErrInvalidGroup)
      else
        check (normalizeGroupName L name) id (\<lambda>normalized.
        call (requireAdmin userID groupID) id (\<lambda>asSiteAdmin.
        call (FindGroupByID groupID) Wrap (\<lambda>grp.
        let grp = grp\<lparr>gName := TrimSpace name, gNameNorm := normalized\<rparr> in
        call (UpdateGroup L grp expectedVersion)
          (\<lambda>err. if errors_is err (Repo ErrOptimisticLockConflict) \<or> errors_is err (Grp ErrGroupNotFound)
             then err else Wrap err) (\<lambda>updated.
        call (if asSiteAdmin
              then recordSiteAdminAction s userID groupID ''admin.group.renamed'' (''name: '' @ gName updated)
              else ret ()) id (\<lambda>_. ret updated))))))"

fun rotate_tries :: "golib \<Rightarrow> group_service \<Rightarrow> int \<Rightarrow> int \<Rightarrow> bool \<Rightarrow> group \<Rightarrow> nat \<Rightarrow> error \<Rightarrow> string prog" where
  "rotate_tries L s userID groupID asSiteAdmin grp 0 lastErr = fail (Wrap lastErr)"
| "rotate_tries L s userID groupID asSiteAdmin grp (Suc n) lastErr =
     call newGroupInviteCode id (\<lambda>code.
     let grp = grp\<lparr>gInviteCode := code\<rparr> in
     attempt (UpdateGroup L grp (gVersion grp)) (\<lambda>r. case r of
       Inr updated \<Rightarrow>
         call (if asSiteAdmin then recordSiteAdminAction s userID groupID ''admin.group.invite_rotated'' []
               else ret ()) id (\<lambda>_. ret (gInviteCode updated))
     | Inl err \<Rightarrow>
         if errors_is err (Grp ErrGroupInviteTaken) then rotate_tries L s userID groupID asSiteAdmin grp n err
         else if errors_is err (Repo ErrOptimisticLockConflict) \<or> errors_is err (Grp ErrGroupNotFound)
           then fail err
         else fail (Wrap err)))"

definition RotateInvite :: "golib \<Rightarrow> group_service \<Rightarrow> int \<Rightarrow> int \<Rightarrow> string prog" where
  "RotateInvite L s userID groupID =
     (if userID \<le> 0 \<or> groupID \<le> 0 then fail (Grp ErrInvalidGroup)
      else
        call (requireAdmin userID groupID) id (\<lambda>asSiteAdmin.
        call (FindGroupByID groupID) Wrap (\<lambda>grp.
        rotate_tries L s userID groupID asSiteAdmin grp groupInviteCollisionTries AnonymousError)))"

definition group_Join :: "golib \<Rightarrow> int \<Rightarrow> string \<Rightarrow> membership prog" where
  "group_Join L userID code =
     (if userID \<le> 0 then fail (Account ErrInvalidUserID)
      else
        let normalized = ToUpper L (TrimSpace code) in
        if normalized = [] then fail (Grp ErrGroupInviteNotFound)
        else
          call (FindGroupByInviteCode normalized)
            (\<lambda>err. if errors_is err (Grp ErrGroupNotFound) then Grp ErrGroupInviteNotFound else Wrap err) (\<lambda>grp.
          attempt (FindMembership (gID grp) userID) (\<lambda>r. case r of
            Inr existing \<Rightarrow> ret existing
          | Inl err \<Rightarrow>
              if \<not> errors_is err (Grp ErrMembershipNotFound) then fail (Wrap err)
              else reading unix_now (\<lambda>now.
                attempt (CreateMembership (new_member (gID grp) userID GroupRoleMember now 0)) (\<lambda>q. case q of
                  Inr created \<Rightarrow> ret created
                | Inl err \<Rightarrow>
                    if errors_is err (Grp ErrMembershipExists) then
                      attempt (FindMembership (gID grp) userID) (\<lambda>p. case p of
                        Inr existing \<Rightarrow> ret existing | Inl _ \<Rightarrow> fail (Wrap err))
                    else fail (Wrap err))))))"

definition member_write_error :: "error \<Rightarrow> error" where
  "member_write_error err =
     (if errors_is err (Grp ErrLastGroupAdmin) \<or> errors_is err (Repo ErrOptimisticLockConflict)
         \<or> errors_is err (Grp ErrMembershipNotFound)
      then err else Wrap err)"

definition missing_member_error :: "error \<Rightarrow> error" where
  "missing_member_error err =
     (if errors_is err (Grp ErrMembershipNotFound) then Grp ErrMembershipNotFound else Wrap err)"

definition ChangeRole :: "group_service \<Rightarrow> int \<Rightarrow> int \<Rightarrow> int \<Rightarrow> int \<Rightarrow> string \<Rightarrow> membership prog" where
  "ChangeRole s actorUserID groupID targetUserID expectedVersion role =
     (if actorUserID \<le> 0 \<or> groupID \<le> 0 \<or> targetUserID \<le> 0 \<or> expectedVersion < 0
        then fail (Grp ErrInvalidGroup)
      else if role \<noteq> GroupRoleAdmin \<and> role \<noteq> GroupRoleMember then fail (Grp ErrInvalidGroup)
      else
        call (requireAdmin actorUserID groupID) id (\<lambda>asSiteAdmin.
        call (FindMembership groupID targetUserID) missing_member_error (\<lambda>target.
        if mRole target = role then ret target
        else
          call (UpdateMembershipRole (target\<lparr>mRole := role\<rparr>) expectedVersion) member_write_error (\<lambda>_.
          call (FindMembership groupID targetUserID) Wrap (\<lambda>updated.
          call (if asSiteAdmin
                then recordSiteAdminAction s actorUserID groupID ''admin.group.member_role_changed''
                  (''member '' @ FormatInt targetUserID @ '': '' @ role)
                else ret ()) id (\<lambda>_. ret updated))))))"

definition RemoveMember :: "group_service \<Rightarrow> int \<Rightarrow> int \<Rightarrow> int \<Rightarrow> int \<Rightarrow> unit prog" where
  "RemoveMember s actorUserID groupID targetUserID expectedVersion =
     (if actorUserID \<le> 0 \<or> groupID \<le> 0 \<or> targetUserID \<le> 0 \<or> expectedVersion < 0
        then fail (Grp ErrInvalidGroup)
      else if actorUserID = targetUserID then fail (Grp ErrInvalidGroup)
      else
        call (requireAdmin actorUserID groupID) id (\<lambda>asSiteAdmin.
        call (FindMembership groupID targetUserID) missing_member_error (\<lambda>_.
        call (DeleteMembership groupID targetUserID expectedVersion) member_write_error (\<lambda>_.
        if asSiteAdmin
        then recordSiteAdminAction s actorUserID groupID ''admin.group.member_removed''
          (''member '' @ FormatInt targetUserID)
        else ret ()))))"

definition Leave :: "int \<Rightarrow> int \<Rightarrow> unit prog" where
  "Leave userID groupID =
     (if userID \<le> 0 \<or> groupID \<le> 0 then fail (Grp ErrInvalidGroup)
      else
        call (FindMembership groupID userID) missing_member_error (\<lambda>membership.
        call (DeleteMembership groupID userID (mVersion membership)) member_write_error ret))"

text \<open>\<^verbatim>\<open>RateLimitedGroupJoiner.Join\<close>.\<close>

definition RateLimited_Join :: "golib \<Rightarrow> world rate_limiter \<Rightarrow> int \<Rightarrow> string \<Rightarrow> membership prog" where
  "RateLimited_Join L limiter userID code =
     reading now_ns (\<lambda>now.
     call (Allow limiter now ''group.invite.join'' (FormatInt userID)) Wrap (\<lambda>decision.
     if \<not> dAllowed decision then fail (RateLimitError (dRetryAfter decision))
     else group_Join L userID code))"

section \<open>Composition\<close>

lemma evolves_newGroupInviteCode [evolves_intro]: "preord R \<Longrightarrow> evolves (on_tables R) newGroupInviteCode"
  unfolding newGroupInviteCode_def by (intro evolves_intro preord_intro)

lemma evolves_group_guards [evolves_intro]:
  "preord R \<Longrightarrow> evolves (on_tables R) (actorIsGlobalAdmin uid)"
  "preord R \<Longrightarrow> evolves (on_tables R) (requireAdmin uid gid)"
  unfolding actorIsGlobalAdmin_def requireAdmin_def Let_def
  by (intro evolves_intro preord_intro; assumption)+

lemma evolves_group_views [evolves_intro]:
  "preord R \<Longrightarrow> evolves (on_tables R) (group_List uid)"
  "preord R \<Longrightarrow> evolves (on_tables R) (Detail L uid gid)"
  unfolding group_List_def Detail_def
  by (intro evolves_intro preord_intro; assumption)+

lemma evolves_recordSiteAdminAction [evolves_intro]:
  assumes "quiet_auditor (gsAuditor s)" and c: "covers_quiet R"
  shows "evolves (on_tables R) (recordSiteAdminAction s uid gid a d)"
  unfolding recordSiteAdminAction_def
  by (intro evolves_intro preord_intro covers_quiet_preord [OF c] evolves_audit_ignoring assms)

text \<open>The rules for a relation that covers group writes, collected for the use cases.\<close>

lemma evolves_create_tries:
  assumes c: "covers_group R"
  shows "evolves (on_tables R) (create_group_tries L uid name norm n e)"
proof (induction n arbitrary: e)
  case 0
  show ?case unfolding create_group_tries.simps by (intro evolves_intro preord_intro covers_group_preord [OF c])
next
  case (Suc n)
  show ?case unfolding create_group_tries.simps GroupRoleAdmin_def
    by (intro evolves_intro preord_intro covers_group_preord [OF c] c evolves_CreateGroupWithAdmin Suc)
qed

lemma evolves_rotate_tries:
  assumes c: "covers_group R" and a: "quiet_auditor (gsAuditor s)"
  shows "evolves (on_tables R) (rotate_tries L s uid gid b g n e)"
proof (induction n arbitrary: g e)
  case 0
  show ?case unfolding rotate_tries.simps by (intro evolves_intro preord_intro covers_group_preord [OF c])
next
  case (Suc n)
  show ?case unfolding rotate_tries.simps
    by (intro evolves_intro preord_intro covers_group_preord [OF c] covers_group_quiet [OF c] c a Suc)
qed

lemma evolves_group_writes:
  assumes c: "covers_group R" and a: "quiet_auditor (gsAuditor s)"
  shows "evolves (on_tables R) (group_Create L uid name)"
    "evolves (on_tables R) (Rename L s uid gid ver name)"
    "evolves (on_tables R) (RotateInvite L s uid gid)"
    "evolves (on_tables R) (group_Join L uid code)"
    "evolves (on_tables R) (ChangeRole s uid gid tid ver role)"
    "evolves (on_tables R) (RemoveMember s uid gid tid ver)"
    "evolves (on_tables R) (Leave uid gid)"
  unfolding group_Create_def Rename_def RotateInvite_def group_Join_def ChangeRole_def RemoveMember_def Leave_def
  by (intro evolves_intro preord_intro covers_group_preord [OF c] covers_group_quiet [OF c] c a
      evolves_create_tries evolves_rotate_tries)+

lemma evolves_RateLimited_Join:
  assumes c: "covers_group R" and l: "quiet_limiter l"
  shows "evolves (on_tables R) (RateLimited_Join L l uid code)"
  unfolding RateLimited_Join_def
  by (intro evolves_intro preord_intro covers_group_preord [OF c] evolves_Allow [OF l] covers_group_quiet [OF c]
      evolves_group_writes(4) [OF c, of "\<lparr>gsAuditor = None\<rparr>"]) simp

section \<open>Who may act\<close>

lemma FindMembership_Inr:
  "FindMembership gid uid w = (Inr m, w') \<Longrightarrow>
    find (of_member gid uid) (group_members (tables w)) = Some m \<and> tables w' = tables w"
  by (auto simp: FindMembership_def scanMembership_def split: if_splits dest!: select_member_Inr)

lemma actorIsGlobalAdmin_Inr:
  "actorIsGlobalAdmin uid w = (Inr b, w') \<Longrightarrow>
    tables w' = tables w \<and> (\<exists>u. find (\<lambda>v. uID v = uid) (users (tables w)) = Some u \<and> b = site_admin u)"
  by (auto simp: actorIsGlobalAdmin_def dest!: FindUserByID_Inr)

definition manages :: "int \<Rightarrow> int \<Rightarrow> db \<Rightarrow> bool" where
  "manages uid gid d \<longleftrightarrow>
     (\<exists>m \<in> set (group_members d). of_member gid uid m \<and> mRole m = ''admin'')
     \<or> (\<exists>u \<in> set (users d). uID u = uid \<and> site_admin u)"

lemma requireAdmin_tables: "requireAdmin uid gid w = (r, w') \<Longrightarrow> tables w' = tables w"
  by (rule evolves_eqD [OF evolves_group_guards(2) [OF preord_eq]])

lemma requireAdmin_Inr:
  assumes "requireAdmin uid gid w = (Inr b, w')"
  shows "manages uid gid (tables w)"
proof -
  from assms obtain r w1 where f: "FindMembership gid uid w = (r, w1)"
    and rest: "(\<exists>m. r = Inr m \<and> mRole m = ''admin'') \<or>
      (\<exists>w2. actorIsGlobalAdmin uid w1 = (Inr True, w2))"
    by (auto simp: requireAdmin_def Let_def attempt_case_iff GroupRoleAdmin_def split: if_splits)
  have t: "tables w1 = tables w" using evolves_eqD [OF evolves_group_finds(6) [OF preord_eq] f] .
  from rest show ?thesis
  proof
    assume "\<exists>m. r = Inr m \<and> mRole m = ''admin''"
    with f show ?thesis by (auto simp: manages_def dest!: FindMembership_Inr find_Some_iff')
  next
    assume "\<exists>w2. actorIsGlobalAdmin uid w1 = (Inr True, w2)"
    with t show ?thesis by (auto simp: manages_def dest!: actorIsGlobalAdmin_Inr find_Some_iff')
  qed
qed

lemma refused_requireAdmin:
  assumes "\<not> manages uid gid (tables w)"
  shows "refused (call (requireAdmin uid gid) h k) w"
proof -
  obtain q w1 where q: "requireAdmin uid gid w = (q, w1)" by (cases "requireAdmin uid gid w")
  then obtain e where "q = Inl e" using assms requireAdmin_Inr by (cases q) blast+
  with q requireAdmin_tables [OF q] show ?thesis by (simp add: refused_def call_def)
qed

section \<open>Properties\<close>

text \<open>
  C7: Only a group administrator or a site administrator may manage a group. For anyone else renaming, rotating the
  invite, changing a role and removing a member are all refused with an error and leave the database as it was, for
  every input and every failure of the database.
\<close>

theorem group_management_guarded:
  assumes "\<not> manages uid gid (tables w)"
  shows "refused (Rename L s uid gid ver name) w \<and> refused (RotateInvite L s uid gid) w
    \<and> refused (ChangeRole s uid gid tid ver role) w \<and> refused (RemoveMember s uid gid tid ver) w"
  unfolding Rename_def RotateInvite_def ChangeRole_def RemoveMember_def
  by (intro conjI refused_if refused_fail refused_check refused_requireAdmin assms)

definition demo_group :: group where
  "demo_group = \<lparr>gID = 1, gName = ''Team'', gNameNorm = ''team'', gInviteCode = ''AAAA'', gCreatedBy = Some 1,
     gCreatedAt = 5, gVersion = 0\<rparr>"

definition demo_groups :: world where
  "demo_groups = demo_world\<lparr>tables := demo_db\<lparr>groups := [demo_group], groups_seq := 1,
     group_members := [\<lparr>mID = 1, mGroupID = 1, mUserID = 2, mRole = ''admin'', mCreatedAt = 5, mVersion = 0\<rparr>],
     group_members_seq := 1\<rparr>\<rparr>"

lemma demo_groups_ok: "db_ok ascii_lib (tables demo_groups)"
  by (simp add: db_ok_defs demo_defs demo_groups_def demo_group_def users_checks_def btrim_def pg_lower_ascii_lib)

theorem group_management_guarded_witness:
  "refused (RemoveMember \<lparr>gsAuditor = None\<rparr> 3 1 2 0) demo_groups"
proof -
  have "\<not> manages 3 1 (tables demo_groups)"
    by (simp add: manages_def demo_groups_def of_member_def demo_defs)
  from group_management_guarded [OF this] show ?thesis by blast
qed

lemma FindGroupByInviteCode_Inr:
  "FindGroupByInviteCode code w = (Inr g, w') \<Longrightarrow>
    find (\<lambda>g. gInviteCode g = code) (groups (tables w)) = Some g \<and> tables w' = tables w"
  by (auto simp: FindGroupByInviteCode_def findGroup_def select_group_def scanGroup_def split: if_splits option.splits
      dest!: query_Inr)

lemma CreateMembership_Inr:
  "CreateMembership m w = (Inr row, w') \<Longrightarrow> insert_member m (tables w) = (Inr row, tables w')"
  by (auto simp: CreateMembership_def scanMembership_def split: if_splits dest!: query_Inr)

lemma CreateMembership_Inl: "CreateMembership m w = (Inl e, w') \<Longrightarrow> tables w' = tables w \<or> (\<exists>row. insert_member m (tables w) = (Inr row, tables w'))"
  by (auto simp: CreateMembership_def call_def check_def ret_def split: prod.splits sum.splits
      dest!: query_Inr query_Inl)

text \<open>
  C8: Joining by invite. When a join succeeds, the caller is a member of the group that owns the code; an account that
  already belonged to it gets its membership back unchanged, and a new one is an ordinary member; no other membership,
  no group and no account changes.
\<close>

theorem join_grants_membership:
  assumes join: "group_Join L uid code w = (Inr m, w')" and ok: "db_ok L' (tables w)"
  shows "(\<exists>g \<in> set (groups (tables w)). gInviteCode g = ToUpper L (TrimSpace code) \<and> mGroupID m = gID g)
    \<and> mUserID m = uid \<and> m \<in> set (group_members (tables w'))
    \<and> (if m \<in> set (group_members (tables w)) then group_members (tables w') = group_members (tables w)
        else mRole m = ''member'' \<and> group_members (tables w') = group_members (tables w) @ [m])
    \<and> groups (tables w') = groups (tables w) \<and> users (tables w') = users (tables w)"
proof -
  let ?code = "ToUpper L (TrimSpace code)"
  from join obtain g w1 r w2 where
    f: "FindGroupByInviteCode ?code w = (Inr g, w1)" and q: "FindMembership (gID g) uid w1 = (r, w2)"
    and rest: "(\<exists>x. r = Inr x \<and> m = x \<and> w' = w2) \<or>
      (\<exists>s w3. CreateMembership (new_member (gID g) uid ''member'' (unix_now w2) 0) w2 = (s, w3) \<and>
         ((s = Inr m \<and> w' = w3) \<or> (isl s \<and> FindMembership (gID g) uid w3 = (Inr m, w'))))"
    by (auto simp: group_Join_def Let_def attempt_case_iff GroupRoleMember_def split: if_splits)
  note t1 = FindGroupByInviteCode_Inr [OF f]
  have t2: "tables w2 = tables w1" using evolves_eqD [OF evolves_group_finds(6) [OF preord_eq] q] .
  have g: "g \<in> set (groups (tables w))" "gInviteCode g = ?code" using t1 by (auto dest: find_Some_iff')
  have found: "mGroupID m = gID g \<and> mUserID m = uid \<and> m \<in> set (group_members d)"
    if "find (of_member (gID g) uid) (group_members d) = Some m" for d
    using that by (auto simp: of_member_def dest!: find_Some_iff')
  from rest show ?thesis
  proof (elim disjE exE conjE)
    fix x assume "r = Inr x" "m = x" "w' = w2"
    with q t1 t2 found [of "tables w1"] g show ?thesis by (auto dest!: FindMembership_Inr)
  next
    fix s w3
    assume c: "CreateMembership (new_member (gID g) uid ''member'' (unix_now w2) 0) w2 = (s, w3)" "s = Inr m" "w' = w3"
    then have i: "insert_member (new_member (gID g) uid ''member'' (unix_now w2) 0) (tables w) = (Inr m, tables w')"
      using t1 t2 by (auto dest: CreateMembership_Inr)
    then have "m \<notin> set (group_members (tables w))"
      by (auto simp: insert_member_Inr member_violation_None)
    with i g show ?thesis by (auto simp: insert_member_Inr new_member_def)
  next
    fix s w3
    assume c: "CreateMembership (new_member (gID g) uid ''member'' (unix_now w2) 0) w2 = (s, w3)" "isl s"
      and f2: "FindMembership (gID g) uid w3 = (Inr m, w')"
    from f2 have m: "find (of_member (gID g) uid) (group_members (tables w3)) = Some m" "tables w' = tables w3"
      by (auto dest: FindMembership_Inr)
    from c consider "tables w3 = tables w" | row where
      "insert_member (new_member (gID g) uid ''member'' (unix_now w2) 0) (tables w) = (Inr row, tables w3)"
      using t1 t2 CreateMembership_Inl by (cases s) fastforce+
    then show ?thesis
    proof cases
      case 1
      with m found [OF m(1)] g show ?thesis by auto
    next
      case (2 row)
      then have "find (of_member (gID g) uid) (group_members (tables w)) = None"
        by (auto simp: insert_member_Inr member_violation_None new_member_def of_member_def find_None_iff)
      with 2 m have "m = row"
        by (auto simp: insert_member_Inr find_append of_member_def new_member_def split: if_splits)
      moreover have "row \<notin> set (group_members (tables w))"
        using 2 by (auto simp: insert_member_Inr member_violation_None)
      ultimately show ?thesis using 2 m g by (auto simp: insert_member_Inr new_member_def)
    qed
  qed
qed

theorem join_grants_membership_witness:
  "\<exists>m w'. group_Join ascii_lib 3 '' aaaa'' demo_groups = (Inr m, w') \<and> mUserID m = 3 \<and> mRole m = ''member''"
proof -
  have "\<not> isl (fst (group_Join ascii_lib 3 '' aaaa'' demo_groups))" by code_simp
  then obtain m w' where j: "group_Join ascii_lib 3 '' aaaa'' demo_groups = (Inr m, w')"
    by (cases "group_Join ascii_lib 3 '' aaaa'' demo_groups") (auto simp: isl_def, metis sum.collapse)
  have "m \<notin> set (group_members (tables demo_groups))"
  proof
    assume "m \<in> set (group_members (tables demo_groups))"
    with join_grants_membership [OF j demo_groups_ok] show False by (auto simp: demo_groups_def)
  qed
  with join_grants_membership [OF j demo_groups_ok] j show ?thesis by auto
qed

subsection \<open>Rotating the invite\<close>

lemma findGroup_Inr: "findGroup q w = (Inr g, w') \<Longrightarrow> q (tables w) = (Inr g, tables w')"
  by (auto simp: findGroup_def scanGroup_def split: if_splits dest!: query_Inr)

lemma FindGroupByID_Inr:
  "FindGroupByID gid w = (Inr g, w') \<Longrightarrow>
    find (\<lambda>g. gID g = gid) (groups (tables w)) = Some g \<and> tables w' = tables w"
  by (auto simp: FindGroupByID_def select_group_def split: if_splits option.splits dest!: findGroup_Inr)

lemma findGroup_taken:
  "findGroup q w = (Inl e, w') \<Longrightarrow> errors_is e (Grp ErrGroupInviteTaken) \<Longrightarrow> tables w' = tables w"
  by (auto simp: findGroup_def call_def check_def ret_def scanGroup_def split: prod.splits sum.splits if_splits
      dest!: query_Inl)

lemma classifyMissingGroupWrite_Inl:
  "classifyMissingGroupWrite gid w = (r, w') \<Longrightarrow> isl r \<and> tables w' = tables w"
  by (auto simp: classifyMissingGroupWrite_def call_def fail_def split: if_splits prod.splits sum.splits
      dest!: query_Inl query_Inr)

lemma UpdateGroup_Inr:
  "UpdateGroup L grp ver w = (Inr row, w') \<Longrightarrow> update_group_stmt L grp ver (tables w) = (Inr row, tables w')"
proof -
  assume "UpdateGroup L grp ver w = (Inr row, w')"
  then have "findGroup (update_group_stmt L grp ver) w = (Inr row, w')"
    by (auto simp: UpdateGroup_def attempt_case_iff split: if_splits dest!: classifyMissingGroupWrite_Inl)
  then show ?thesis by (rule findGroup_Inr)
qed

lemma mapGroupError_not_taken:
  "is_fault e \<Longrightarrow> \<not> errors_is (mapGroupError e) (Grp ErrGroupInviteTaken)"
  by (auto simp: is_fault_def mapGroupError_def ClassifyError_def)

lemma UpdateGroup_taken:
  assumes "UpdateGroup L grp ver w = (Inl e, w')" "errors_is e (Grp ErrGroupInviteTaken)"
  shows "tables w' = tables w"
proof -
  from assms(1) consider "findGroup (update_group_stmt L grp ver) w = (Inl e, w')"
    | w1 where "classifyMissingGroupWrite (gID grp) w1 = (Inl e :: error + group, w')"
    by (auto simp: UpdateGroup_def attempt_case_iff split: if_splits)
  then show ?thesis
  proof cases
    case 1
    then show ?thesis using assms(2) by (rule findGroup_taken)
  next
    case 2
    then have "\<not> errors_is e (Grp ErrGroupInviteTaken)"
      by (auto simp: classifyMissingGroupWrite_def call_def fail_def mapGroupError_not_taken
          split: if_splits prod.splits sum.splits dest!: query_Inl)
    with assms(2) show ?thesis by contradiction
  qed
qed

lemma newGroupInviteCode_Inr:
  "newGroupInviteCode w = (Inr code, w') \<Longrightarrow>
    length code = groupInviteCodeLength \<and> set code \<subseteq> set groupInviteAlphabet \<and> tables w' = tables w"
  by (auto simp: newGroupInviteCode_def dest!: rand_code_Inr)

lemma recordSiteAdminAction_groups:
  assumes "quiet_auditor (gsAuditor s)" "(if b then recordSiteAdminAction s uid gid a d else ret ()) w = (r, w')"
  shows "quiet (tables w) (tables w')"
proof -
  have "evolves (on_tables quiet) (if b then recordSiteAdminAction s uid gid a d else ret ())"
    by (intro evolves_intro preord_intro assms)
  from evolvesD [OF this assms(2)] show ?thesis by (simp add: on_tables_def)
qed

lemma rotate_tries_Inr:
  assumes "quiet_auditor (gsAuditor s)"
  shows "rotate_tries L s uid gid b grp n e w = (Inr code, w') \<Longrightarrow>
    \<exists>row d1. update_group_stmt L (grp\<lparr>gInviteCode := code\<rparr>) (gVersion grp) (tables w) = (Inr row, d1)
      \<and> groups (tables w') = groups d1 \<and> length code = groupInviteCodeLength
      \<and> set code \<subseteq> set groupInviteAlphabet"
proof (induction n arbitrary: grp e w)
  case (Suc n)
  from Suc.prems obtain c w1 r w2 where c: "newGroupInviteCode w = (Inr c, w1)"
    and u: "UpdateGroup L (grp\<lparr>gInviteCode := c\<rparr>) (gVersion grp) w1 = (r, w2)"
    and rest: "(\<exists>updated w3. r = Inr updated \<and> code = gInviteCode updated
          \<and> (if b then recordSiteAdminAction s uid gid ''admin.group.invite_rotated'' [] else ret ()) w2 = (Inr (), w3) \<and> w' = w3)
       \<or> (\<exists>err. r = Inl err \<and> errors_is err (Grp ErrGroupInviteTaken)
          \<and> rotate_tries L s uid gid b (grp\<lparr>gInviteCode := c\<rparr>) n err w2 = (Inr code, w'))"
    by (auto simp: Let_def attempt_case_iff split: if_splits)
  note nc = newGroupInviteCode_Inr [OF c]
  from rest show ?case
  proof (elim disjE exE conjE)
    fix updated w3
    assume r: "r = Inr updated" and code: "code = gInviteCode updated" and w': "w' = w3"
      and rec: "(if b then recordSiteAdminAction s uid gid ''admin.group.invite_rotated'' [] else ret ()) w2 = (Inr (), w3)"
    have up: "update_group_stmt L (grp\<lparr>gInviteCode := c\<rparr>) (gVersion grp) (tables w) = (Inr updated, tables w2)"
      using UpdateGroup_Inr [OF u [unfolded r]] nc by simp
    then have "gInviteCode updated = c" by (rule update_group_Inr) simp
    moreover have "groups (tables w') = groups (tables w2)"
      using recordSiteAdminAction_groups [OF assms rec] w' by (simp add: quiet_def)
    ultimately show ?thesis using up code nc by auto
  next
    fix err
    assume r: "r = Inl err" and t: "errors_is err (Grp ErrGroupInviteTaken)"
      and next_try: "rotate_tries L s uid gid b (grp\<lparr>gInviteCode := c\<rparr>) n err w2 = (Inr code, w')"
    have "tables w2 = tables w" using UpdateGroup_taken [OF u [unfolded r] t] nc by simp
    with Suc.IH [OF next_try] show ?thesis by simp
  qed
qed simp

text \<open>
  Rotating the invite replaces it at once. After a successful rotation the group carries the returned code, 12
  characters of the invite alphabet, at the next revision; the previous code, unless drawn again, belongs to no group,
  so it can no longer be redeemed.
\<close>

theorem rotate_invalidates_old_code:
  assumes rot: "RotateInvite L s uid gid w = (Inr code, w')" and ok: "db_ok L' (tables w)"
    and aud: "quiet_auditor (gsAuditor s)" and g: "g \<in> set (groups (tables w))" "gID g = gid"
  shows "(\<exists>g' \<in> set (groups (tables w')). gID g' = gid \<and> gInviteCode g' = code \<and> gVersion g' = gVersion g + 1)
    \<and> length code = 12 \<and> set code \<subseteq> set groupInviteAlphabet
    \<and> (code \<noteq> gInviteCode g \<longrightarrow> (\<forall>h \<in> set (groups (tables w')). gInviteCode h \<noteq> gInviteCode g))"
proof -
  from rot obtain b w1 g0 w2 where r: "requireAdmin uid gid w = (Inr b, w1)"
    and f: "FindGroupByID gid w1 = (Inr g0, w2)"
    and t: "rotate_tries L s uid gid b g0 groupInviteCollisionTries AnonymousError w2 = (Inr code, w')"
    by (auto simp: RotateInvite_def split: if_splits)
  have t1: "tables w1 = tables w" using requireAdmin_tables [OF r] .
  note f' = FindGroupByID_Inr [OF f]
  have uniq: "unique_on (\<lambda>g. Some (gID g)) (groups (tables w))" "unique_on (\<lambda>g. Some (gInviteCode g)) (groups (tables w))"
    using ok by (simp_all add: db_ok_def groups_ok_def)
  have "find (\<lambda>h. Some (gID h) = Some gid) (groups (tables w)) = Some g"
    by (rule find_unique [OF uniq(1) g(1)]) (simp add: g)
  then have g0: "g0 = g" using f' t1 by simp
  from rotate_tries_Inr [OF aud t] obtain row d1 where
    u: "update_group_stmt L (g\<lparr>gInviteCode := code\<rparr>) (gVersion g) (tables w) = (Inr row, d1)"
    and d1: "groups (tables w') = groups d1" and c: "length code = groupInviteCodeLength" "set code \<subseteq> set groupInviteAlphabet"
    using f' t1 g0 by auto
  from u obtain h where h: "h \<in> set (groups (tables w))" "gID h = gID g" "gVersion h = gVersion g"
    and row: "gInviteCode row = code" "gID row = gID h" "gVersion row = gVersion h + 1"
    and gs: "groups d1 = update_where (\<lambda>h. gID h = gID g) (\<lambda>_. row) (groups (tables w))"
    by (rule update_group_Inr) simp
  have "row \<in> set (groups (tables w'))" using d1 gs g by (auto simp: set_update_where)
  moreover have "\<forall>x \<in> set (groups (tables w')). gInviteCode x \<noteq> gInviteCode g" if "code \<noteq> gInviteCode g"
    unfolding d1 gs ball_update_where
    using that row unique_onD [OF uniq(2) _ g(1), of _ "gInviteCode g"] by auto
  ultimately show ?thesis using row h g c by (auto simp: groupInviteCodeLength_def)
qed

theorem rotate_invalidates_old_code_witness:
  "\<exists>code w'. RotateInvite ascii_lib \<lparr>gsAuditor = Some Record\<rparr> 2 1 demo_groups = (Inr code, w') \<and> length code = 12
     \<and> code \<noteq> ''AAAA''"
proof -
  have "\<not> isl (fst (RotateInvite ascii_lib \<lparr>gsAuditor = Some Record\<rparr> 2 1 demo_groups))" by code_simp
  then obtain code w' where r: "RotateInvite ascii_lib \<lparr>gsAuditor = Some Record\<rparr> 2 1 demo_groups = (Inr code, w')"
    by (cases "RotateInvite ascii_lib \<lparr>gsAuditor = Some Record\<rparr> 2 1 demo_groups") (auto simp: isl_def, metis sum.collapse)
  have "length code = 12"
    using rotate_invalidates_old_code [OF r demo_groups_ok, of demo_group]
    by (simp add: demo_groups_def demo_group_def)
  with r show ?thesis by auto
qed

subsection \<open>What a member sees\<close>

lemma CountMembers_tables: "CountMembers gid w = (r, w') \<Longrightarrow> tables w' = tables w"
  by (rule evolves_eqD [OF evolves_group_finds(8) [OF preord_eq]])

text \<open>
  C9: Group details stay private. Someone who neither administers the group nor the site sees the details only as a
  member, without the invite code in the invite field and without the other members' email addresses; a
  non-member is refused.
\<close>

theorem Detail_private:
  assumes "\<not> manages uid gid (tables w)"
  shows "case Detail L uid gid w of
      (Inr d, w') \<Rightarrow> gdIsMember d \<and> \<not> gdIsAdmin d \<and> gdInviteCode d = []
        \<and> list_all (\<lambda>m. gmUserID m = uid \<or> gmEmail m = None) (gdMembers d)
        \<and> (\<exists>m \<in> set (group_members (tables w)). of_member gid uid m) \<and> tables w' = tables w
    | (Inl e, w') \<Rightarrow> tables w' = tables w"
proof -
  obtain r w' where det: "Detail L uid gid w = (r, w')" by (cases "Detail L uid gid w")
  have t: "tables w' = tables w" by (rule evolves_eqD [OF evolves_group_views(2) [OF preord_eq] det])
  show ?thesis
  proof (cases r)
    case (Inr d)
    obtain q w1 where f: "FindMembership gid uid w = (q, w1)" by (cases "FindMembership gid uid w")
    have t1: "tables w1 = tables w" using evolves_eqD [OF evolves_group_finds(6) [OF preord_eq] f] .
    obtain b w2 where a: "actorIsGlobalAdmin uid w1 = (Inr b, w2)" and m: "\<not> isl q \<or> b"
      using det Inr f by (cases q) (auto simp: Detail_def attempt_def Let_def split: if_splits)
    have "\<not> b" using assms actorIsGlobalAdmin_Inr [OF a] t1
      by (auto simp: manages_def dest!: find_Some_iff')
    with m obtain x where x: "q = Inr x" by (cases q) auto
    have x': "x \<in> set (group_members (tables w))" "of_member gid uid x"
      using FindMembership_Inr [OF f [unfolded x]] by (auto dest: find_Some_iff')
    with assms have "mRole x \<noteq> ''admin''" by (auto simp: manages_def)
    then obtain members where d: "gdIsMember d" "\<not> gdIsAdmin d" "gdInviteCode d = []"
        "gdMembers d = map (\<lambda>m. if gmUserID m \<noteq> uid then m\<lparr>gmEmail := None\<rparr> else m) members"
      using det Inr f a x \<open>\<not> b\<close> by (auto simp: Detail_def attempt_def Let_def GroupRoleAdmin_def split: if_splits)
    with d x x' det Inr t show ?thesis by (auto simp: list_all_iff)
  qed (use det t in simp)
qed

theorem Detail_private_witness:
  "case Detail ascii_lib 3 1 demo_groups of (Inr d, w') \<Rightarrow> False | (Inl e, w') \<Rightarrow> tables w' = tables demo_groups"
proof -
  have "\<not> manages 3 1 (tables demo_groups)" "\<not> (\<exists>m \<in> set (group_members (tables demo_groups)). of_member 1 3 m)"
    by (simp_all add: manages_def demo_groups_def of_member_def demo_defs)
  with Detail_private [of 3 1 demo_groups ascii_lib] show ?thesis
    by (auto split: prod.splits sum.splits)
qed

subsection \<open>Creating a group\<close>

lemma CreateGroupWithAdmin_Inl:
  "CreateGroupWithAdmin L g uid role w = (Inl e, w') \<Longrightarrow> tables w' = tables w"
  by (auto simp: CreateGroupWithAdmin_def call_def ret_def fail_def transaction_def
      split: prod.splits sum.splits option.splits dest!: db_faultD)

lemma create_group_tries_Inr:
  "create_group_tries L uid name norm n e w = (Inr su, w') \<Longrightarrow>
    \<exists>code m d1. insert_group L \<lparr>gID = 0, gName = TrimSpace name, gNameNorm = norm, gInviteCode = code,
        gCreatedBy = Some uid, gCreatedAt = 0, gVersion = 0\<rparr> (tables w) = (Inr (suGroup su), d1)
      \<and> insert_member (new_member (gID (suGroup su)) uid ''admin'' (gCreatedAt (suGroup su)) 0) d1 = (Inr m, tables w')
      \<and> length code = groupInviteCodeLength \<and> set code \<subseteq> set groupInviteAlphabet"
proof (induction n arbitrary: e w)
  case (Suc n)
  from Suc.prems obtain code w1 where c: "newGroupInviteCode w = (Inr code, w1)"
    and rest: "(\<exists>m. CreateGroupWithAdmin L \<lparr>gID = 0, gName = TrimSpace name, gNameNorm = norm, gInviteCode = code,
          gCreatedBy = Some uid, gCreatedAt = 0, gVersion = 0\<rparr> uid ''admin'' w1 = (Inr (suGroup su, m), w'))
      \<or> (\<exists>e' w2. CreateGroupWithAdmin L \<lparr>gID = 0, gName = TrimSpace name, gNameNorm = norm, gInviteCode = code,
          gCreatedBy = Some uid, gCreatedAt = 0, gVersion = 0\<rparr> uid ''admin'' w1 = (Inl e', w2)
          \<and> create_group_tries L uid name norm n e' w2 = (Inr su, w'))"
    by (auto simp: attempt_case_iff GroupRoleAdmin_def split: if_splits)
  note nc = newGroupInviteCode_Inr [OF c]
  from rest show ?case
  proof (elim disjE exE conjE)
    fix m
    assume "CreateGroupWithAdmin L \<lparr>gID = 0, gName = TrimSpace name, gNameNorm = norm, gInviteCode = code,
          gCreatedBy = Some uid, gCreatedAt = 0, gVersion = 0\<rparr> uid ''admin'' w1 = (Inr (suGroup su, m), w')"
    then obtain d1 where "insert_group L \<lparr>gID = 0, gName = TrimSpace name, gNameNorm = norm, gInviteCode = code,
          gCreatedBy = Some uid, gCreatedAt = 0, gVersion = 0\<rparr> (tables w1) = (Inr (suGroup su), d1)"
      "insert_member (new_member (gID (suGroup su)) uid ''admin'' (gCreatedAt (suGroup su)) 0) d1 = (Inr m, tables w')"
      by (rule CreateGroupWithAdmin_Inr)
    with nc show ?thesis by auto
  next
    fix e' w2
    assume f: "CreateGroupWithAdmin L \<lparr>gID = 0, gName = TrimSpace name, gNameNorm = norm, gInviteCode = code,
          gCreatedBy = Some uid, gCreatedAt = 0, gVersion = 0\<rparr> uid ''admin'' w1 = (Inl e', w2)"
      and t: "create_group_tries L uid name norm n e' w2 = (Inr su, w')"
    have "tables w2 = tables w" using CreateGroupWithAdmin_Inl [OF f] nc by simp
    with Suc.IH [OF t] show ?thesis by simp
  qed
qed simp

text \<open>
  Creating a group. A successful creation was asked for by a registered account, stores exactly one new group under a
  fresh identifier with a fresh 12-character invite code, and makes the creator its only member, as administrator. The
  stored creation time is zero, whatever the clock says.
\<close>

theorem group_Create_founds:
  assumes create: "group_Create L uid name w = (Inr su, w')" and ok: "db_ok L' (tables w)"
  shows "\<exists>m. groups (tables w') = groups (tables w) @ [suGroup su]
    \<and> group_members (tables w') = group_members (tables w) @ [m]
    \<and> filter (\<lambda>x. mGroupID x = gID (suGroup su)) (group_members (tables w')) = [m]
    \<and> mUserID m = uid \<and> mRole m = ''admin'' \<and> users (tables w') = users (tables w)
    \<and> gID (suGroup su) \<notin> group_ids (tables w) \<and> gInviteCode (suGroup su) \<notin> gInviteCode ` set (groups (tables w))
    \<and> length (gInviteCode (suGroup su)) = 12
    \<and> (\<exists>u \<in> set (users (tables w)). uID u = uid \<and> \<not> uIsGuest u)
    \<and> gCreatedAt (suGroup su) = 0 \<and> mCreatedAt m = 0"
proof -
  from create obtain norm u w1 where f: "FindUserByID uid w = (Inr u, w1)" and u: "uID u = uid" "\<not> uIsGuest u"
    and t: "create_group_tries L uid name norm groupInviteCollisionTries AnonymousError w1 = (Inr su, w')"
    by (auto simp: group_Create_def split: if_splits)
  note f' = FindUserByID_Inr [OF f]
  obtain code m d1 where g: "insert_group L \<lparr>gID = 0, gName = TrimSpace name, gNameNorm = norm, gInviteCode = code,
        gCreatedBy = Some uid, gCreatedAt = 0, gVersion = 0\<rparr> (tables w) = (Inr (suGroup su), d1)"
    and m: "insert_member (new_member (gID (suGroup su)) uid ''admin'' (gCreatedAt (suGroup su)) 0) d1 = (Inr m, tables w')"
    and c: "length code = groupInviteCodeLength"
    using create_group_tries_Inr [OF t] f' by auto
  note gi = g [unfolded insert_group_Inr] and mi = m [unfolded insert_member_Inr]
  have row: "gID (suGroup su) = groups_seq (tables w) + 1" "gInviteCode (suGroup su) = code" "gCreatedAt (suGroup su) = 0"
    using gi by simp_all
  have m': "mUserID m = uid" "mRole m = ''admin''" "mGroupID m = gID (suGroup su)" "mCreatedAt m = 0"
    using mi row(3) by (simp_all add: new_member_def)
  have tw: "groups (tables w') = groups (tables w) @ [suGroup su]" "users (tables w') = users (tables w)"
    "group_members (tables w') = group_members (tables w) @ [m]"
    using gi mi by simp_all
  have gv: "group_violation L (suGroup su) (groups (tables w)) (tables w) = None" using gi by blast
  have gr: "groups_ok (tables w)" "members_ok (tables w)" using ok by (simp_all add: db_ok_def)
  have fresh: "gID (suGroup su) \<notin> group_ids (tables w)" using gr(1) row(1) by (auto simp: groups_ok_def)
  have "mGroupID x \<noteq> gID (suGroup su)" if "x \<in> set (group_members (tables w))" for x
    using gr(2) fresh that by (metis members_ok_def)
  then have "filter (\<lambda>x. mGroupID x = gID (suGroup su)) (group_members (tables w)) = []"
    by (simp add: filter_empty_conv)
  moreover have "gInviteCode (suGroup su) \<notin> gInviteCode ` set (groups (tables w))"
    using group_violation_None [OF gv] by auto
  moreover have "u \<in> set (users (tables w))" using f' by (auto dest: find_Some_iff')
  ultimately show ?thesis
    using tw m' row fresh c u by (intro exI [of _ m]) (auto simp: groupInviteCodeLength_def)
qed

theorem group_Create_founds_witness:
  "\<exists>su w'. group_Create ascii_lib 2 '' My team '' demo_groups = (Inr su, w') \<and> gCreatedAt (suGroup su) = 0
     \<and> length (groups (tables w')) = 2"
proof -
  have "\<not> isl (fst (group_Create ascii_lib 2 '' My team '' demo_groups))" by code_simp
  then obtain su w' where r: "group_Create ascii_lib 2 '' My team '' demo_groups = (Inr su, w')"
    by (cases "group_Create ascii_lib 2 '' My team '' demo_groups") (auto simp: isl_def, metis sum.collapse)
  from group_Create_founds [OF r demo_groups_ok] r show ?thesis by (auto simp: demo_groups_def)
qed

end
