(* ===== verification/SignIn.thy ===== *)
theory SignIn
  imports GroupService
begin

text \<open>
  Password sign-in (\<^verbatim>\<open>internal/service/signin.go\<close>), its budgets and its history
  (\<^verbatim>\<open>RateLimitedSignInService\<close> of \<^verbatim>\<open>rate_limit.go\<close>, \<^verbatim>\<open>login_attempt.go\<close>,
  \<^verbatim>\<open>store/postgres/login_attempts.go\<close>), and sign-up (\<^verbatim>\<open>signup.go\<close>).
\<close>

section \<open>Sign-in history\<close>

definition MaxAdminLoginAttempts :: int where "MaxAdminLoginAttempts = 50"

definition LoginOutcomeSuccess :: string where "LoginOutcomeSuccess = ''success''"
definition LoginOutcomeInvalidCredentials :: string where "LoginOutcomeInvalidCredentials = ''invalid_credentials''"
definition LoginOutcomeUnconfirmed :: string where "LoginOutcomeUnconfirmed = ''unconfirmed''"
definition LoginOutcomeRateLimited :: string where "LoginOutcomeRateLimited = ''rate_limited''"
definition LoginOutcomeError :: string where "LoginOutcomeError = ''error''"

lemmas login_outcomes = LoginOutcomeSuccess_def LoginOutcomeInvalidCredentials_def LoginOutcomeUnconfirmed_def
  LoginOutcomeRateLimited_def LoginOutcomeError_def

definition attempt_violation :: "login_attempt \<Rightarrow> db \<Rightarrow> error option" where
  "attempt_violation a d =
     (if \<not> varchar 255 (laEmail a) \<or> \<not> opt_varchar 64 (laIP a) \<or> \<not> varchar 32 (laOutcome a)
        then Some (PgError StringTruncation OtherConstraint)
      else if (case laUserID a of None \<Rightarrow> False | Some u \<Rightarrow> u \<notin> user_ids d)
        then Some (PgError ForeignKeyViolation OtherConstraint)
      else None)"

definition insert_login_attempt :: "login_attempt \<Rightarrow> unit stmt" where
  "insert_login_attempt a d =
     (case attempt_violation a d of
        Some e \<Rightarrow> (Inl e, d)
      | None \<Rightarrow> (Inr (), d\<lparr>login_attempts := login_attempts d @ [a\<lparr>laID := login_attempts_seq d + 1\<rparr>],
          login_attempts_seq := login_attempts_seq d + 1\<rparr>))"

definition store_RecordLoginAttempt :: "login_attempt \<Rightarrow> unit prog" where
  "store_RecordLoginAttempt a =
     (if laEmail a = [] \<or> laOutcome a = [] then fail (Repo ErrInvalidData)
      else reading unix_now (\<lambda>now.
        call (query (insert_login_attempt (if laCreatedAt a \<le> 0 then a\<lparr>laCreatedAt := now\<rparr> else a)))
          wrapOperation ret))"

definition scanLoginAttempt :: "login_attempt \<Rightarrow> error + login_attempt" where
  "scanLoginAttempt a =
     (if laID a \<le> 0 \<or> laEmail a = [] \<or> laOutcome a = [] then Inl (Repo ErrInvalidData) else Inr a)"

definition newer_attempt :: "login_attempt \<Rightarrow> login_attempt \<Rightarrow> bool" where
  "newer_attempt a b \<longleftrightarrow> laCreatedAt b < laCreatedAt a \<or> (laCreatedAt a = laCreatedAt b \<and> laID b < laID a)"

definition select_attempts :: "(login_attempt \<Rightarrow> bool) \<Rightarrow> int \<Rightarrow> login_attempt list stmt" where
  "select_attempts P limit d = (Inr (take (nat limit) (order_by newer_attempt (filter P (login_attempts d)))), d)"

definition clamp_limit :: "int \<Rightarrow> int" where
  "clamp_limit limit = (if limit \<le> 0 \<or> MaxAdminLoginAttempts < limit then MaxAdminLoginAttempts else limit)"

definition ListLoginAttemptsForUser :: "int \<Rightarrow> int \<Rightarrow> login_attempt list prog" where
  "ListLoginAttemptsForUser userID limit =
     (if userID \<le> 0 then fail (Account ErrInvalidUserID)
      else call (query (select_attempts (\<lambda>a. laUserID a = Some userID) (clamp_limit limit))) wrapOperation (\<lambda>rows.
        check (scan_all scanLoginAttempt rows) id ret))"

definition ListLoginAttemptsForEmail :: "string \<Rightarrow> int \<Rightarrow> login_attempt list prog" where
  "ListLoginAttemptsForEmail email limit =
     (if email = [] then fail (Repo ErrInvalidData)
      else call (query (select_attempts (\<lambda>a. laEmail a = email) (clamp_limit limit))) wrapOperation (\<lambda>rows.
        check (scan_all scanLoginAttempt rows) id ret))"

text \<open>\<^verbatim>\<open>LoginAttemptRecorder\<close> as held by the services, and the best-effort \<^verbatim>\<open>RecordLoginAttempt\<close>.\<close>

type_synonym attempt_recorder = "(login_attempt \<Rightarrow> unit prog) option"

definition RecordLoginAttempt :: "attempt_recorder \<Rightarrow> login_attempt \<Rightarrow> unit prog" where
  "RecordLoginAttempt recorder a =
     (case recorder of
        None \<Rightarrow> ret ()
      | Some f \<Rightarrow>
          if laOutcome a = [] \<or> laCreatedAt a \<le> 0 then ret () else attempt (f a) (\<lambda>_. ret ()))"

section \<open>Sign-in\<close>

record signin_input =
  inIdentifier :: string
  inPassword :: string

record signin_result =
  srUser :: user
  srSession :: session

text \<open>
  \<^verbatim>\<open>SignInService\<close>: the password verifier (\<^verbatim>\<open>PasswordHasher.Verify\<close>), the session service, the
  failed-attempt state it clears, and the confirmation policy.
\<close>

record signin_service =
  siVerify :: "string \<Rightarrow> string \<Rightarrow> error + bool"
  siSessions :: session_service
  siAttempts :: "string \<Rightarrow> unit prog"
  siConfirmationRequired :: bool

definition normalizeSignInIdentifier :: "golib \<Rightarrow> string \<Rightarrow> error + (string \<times> bool)" where
  "normalizeSignInIdentifier L raw =
     (let trimmed = TrimSpace raw in
      if CHR ''@'' \<in> set trimmed
      then (case NormalizeEmail L trimmed of
          Inl _ \<Rightarrow> Inl (Auth ErrInvalidCredentials)
        | Inr identifier \<Rightarrow> if identifier = [] then Inl (Auth ErrInvalidCredentials) else Inr (identifier, True))
      else (case NormalizeUsername L trimmed of
          Inl _ \<Rightarrow> Inl (Auth ErrInvalidCredentials)
        | Inr identifier \<Rightarrow> if identifier = [] then Inl (Auth ErrInvalidCredentials) else Inr (identifier, False)))"

definition findUser :: "golib \<Rightarrow> string \<Rightarrow> bool \<Rightarrow> user prog" where
  "findUser L identifier isEmail =
     (if isEmail then FindUserByEmail L identifier else FindUserByUsername L identifier)"

definition signin_SignIn :: "golib \<Rightarrow> signin_service \<Rightarrow> signin_input \<Rightarrow> signin_result prog" where
  "signin_SignIn L s input =
     check (normalizeSignInIdentifier L (inIdentifier input)) (\<lambda>_. Auth ErrInvalidCredentials)
       (\<lambda>(identifier, isEmail).
     call (findUser L identifier isEmail)
       (\<lambda>err. if errors_is err (Account ErrUserNotFound) then Auth ErrInvalidCredentials else Wrap err) (\<lambda>user.
     if uID user \<le> 0 \<or> uIsGuest user \<or> uPasswordHash user = None then fail (Auth ErrInvalidCredentials)
     else if siVerify s (inPassword input) (the (uPasswordHash user)) \<noteq> Inr True
       then fail (Auth ErrInvalidCredentials)
     else if siConfirmationRequired s \<and> uEmailVerifiedAt user = None then fail (Auth ErrEmailUnconfirmed)
     else
       call (siAttempts s identifier) Wrap (\<lambda>_.
       call (Create L (siSessions s) (uID user)) Wrap (\<lambda>session.
       ret \<lparr>srUser = user\<lparr>uPasswordHash := None\<rparr>, srSession = session\<rparr>))))"

section \<open>Budgets around sign-in\<close>

definition signInIdentifierAction :: string where "signInIdentifierAction = ''signin.identifier''"
definition signInOriginAction :: string where "signInOriginAction = ''signin.origin''"

record limited_signin =
  lsSignIn :: signin_service
  lsLimiter :: "world rate_limiter"
  lsRecorder :: attempt_recorder

definition normalizedAttemptEmail :: "golib \<Rightarrow> string \<Rightarrow> string" where
  "normalizedAttemptEmail L raw =
     (case normalizeSignInIdentifier L raw of
        Inr (identifier, _) \<Rightarrow> identifier | Inl _ \<Rightarrow> ToLower L (TrimSpace raw))"

definition loginOutcomeForError :: "error \<Rightarrow> string" where
  "loginOutcomeForError err =
     (if errors_is err (Auth ErrEmailUnconfirmed) then LoginOutcomeUnconfirmed
      else if errors_is err (Auth ErrRateLimited) then LoginOutcomeRateLimited
      else if errors_is err (Auth ErrInvalidCredentials) then LoginOutcomeInvalidCredentials
      else LoginOutcomeError)"

definition recordAttempt :: "golib \<Rightarrow> limited_signin \<Rightarrow> signin_input \<Rightarrow> string \<Rightarrow> string \<Rightarrow> int \<Rightarrow> unit prog" where
  "recordAttempt L s input origin outcome userID =
     (case lsRecorder s of
        None \<Rightarrow> ret ()
      | Some _ \<Rightarrow>
          let email = normalizedAttemptEmail L (inIdentifier input) in
          if email = [] then ret ()
          else reading unix_now (\<lambda>now.
            RecordLoginAttempt (lsRecorder s) \<lparr>laID = 0, laEmail = email,
              laUserID = (if 0 < userID then Some userID else None),
              laIP = optionalString (TrimSpace origin), laOutcome = outcome, laCreatedAt = now\<rparr>))"

definition limited_SignIn :: "golib \<Rightarrow> limited_signin \<Rightarrow> signin_input \<Rightarrow> string \<Rightarrow> signin_result prog" where
  "limited_SignIn L s input origin =
     reading now_ns (\<lambda>now.
     call (Allow (lsLimiter s) now signInOriginAction (originRateLimitKey L origin)) id (\<lambda>originDecision.
     if \<not> dAllowed originDecision then
       call (recordAttempt L s input origin LoginOutcomeRateLimited 0) id (\<lambda>_.
       fail (RateLimitError (dRetryAfter originDecision)))
     else (case normalizeSignInIdentifier L (inIdentifier input) of
         Inl _ \<Rightarrow>
           attempt (signin_SignIn L (lsSignIn s) input) (\<lambda>r. case r of
             Inl err \<Rightarrow>
               call (recordAttempt L s input origin (loginOutcomeForError err) 0) id (\<lambda>_. fail err)
           | Inr result \<Rightarrow> ret \<lparr>srUser = zero_user, srSession = \<lparr>sID = [], sUserID = 0, sCreatedAt = 0,
               sExpiresAt = 0, sRevokedAt = None, sSSOSessionID = [], sSSOIDToken = []\<rparr>\<rparr>)
       | Inr (identifier, _) \<Rightarrow>
           reading now_ns (\<lambda>now.
           call (Allow (lsLimiter s) now signInIdentifierAction identifier) id (\<lambda>identifierDecision.
           if \<not> dAllowed identifierDecision then
             call (recordAttempt L s input origin LoginOutcomeRateLimited 0) id (\<lambda>_.
             fail (RateLimitError (dRetryAfter identifierDecision)))
           else
             attempt (signin_SignIn L (lsSignIn s) input) (\<lambda>r. case r of
               Inl err \<Rightarrow>
                 call (recordAttempt L s input origin (loginOutcomeForError err) 0) id (\<lambda>_. fail err)
             | Inr result \<Rightarrow>
                 call (Clear (lsLimiter s) signInOriginAction (originRateLimitKey L origin)) Wrap (\<lambda>_.
                 call (Clear (lsLimiter s) signInIdentifierAction identifier) Wrap (\<lambda>_.
                 call (recordAttempt L s input origin LoginOutcomeSuccess (uID (srUser result))) id (\<lambda>_.
                 ret result)))))))))"

section \<open>Sign-up\<close>

record signup_input =
  suEmail :: string
  suPassword :: string
  suUsername :: string
  suDisplayName :: string
  suOrigin :: string

record signup_result =
  upUser :: user
  upSession :: "session option"
  upConfirmationRequired :: bool

text \<open>\<^verbatim>\<open>SignUpService\<close>; hashing draws a salt, so it is a computation. A missing session is \<open>None\<close>.\<close>

record signup_service =
  suHash :: "string \<Rightarrow> string prog"
  suSessions :: session_service
  suConfirmationRequired :: bool

definition rejectDuplicate :: "user prog \<Rightarrow> error \<Rightarrow> unit prog" where
  "rejectDuplicate lookup dup =
     attempt lookup (\<lambda>r. case r of
       Inl err \<Rightarrow> if \<not> errors_is err (Account ErrUserNotFound) then fail (Wrap err) else ret ()
     | Inr user \<Rightarrow> if 0 < uID user then fail dup else ret ())"

definition rejectDuplicateEmail :: "golib \<Rightarrow> string \<Rightarrow> unit prog" where
  "rejectDuplicateEmail L email = rejectDuplicate (FindUserByEmail L email) (Account ErrDuplicateEmail)"

definition rejectDuplicateUsername :: "golib \<Rightarrow> string \<Rightarrow> unit prog" where
  "rejectDuplicateUsername L username =
     rejectDuplicate (FindUserByUsername L username) (Account ErrDuplicateUsername)"

definition SignUp :: "golib \<Rightarrow> signup_service \<Rightarrow> signup_input \<Rightarrow> signup_result prog" where
  "SignUp L s input =
     check (ValidatePassword (suPassword input)) Wrap (\<lambda>_.
     check (NormalizeEmail L (suEmail input)) (\<lambda>err. Join [Account ErrInvalidSignupInput, err]) (\<lambda>email.
     if email = [] then fail (Join [Account ErrInvalidSignupInput, Account ErrInvalidEmail])
     else
       check (NormalizeUsername L (suUsername input)) (\<lambda>err. Join [Account ErrInvalidSignupInput, err]) (\<lambda>username.
       check (normalizeDisplayName (suDisplayName input)) id (\<lambda>displayName.
       call (rejectDuplicateEmail L email) id (\<lambda>_.
       call (if username \<noteq> [] then rejectDuplicateUsername L username else ret ()) id (\<lambda>_.
       call (suHash s (suPassword input)) Wrap (\<lambda>passwordHash.
       reading unix_now (\<lambda>createdAt.
       call (CreateUser L (zero_user\<lparr>uEmail := Some email, uPasswordHash := Some passwordHash,
           uTheme := ''light'', uLocale := ''en'', uCreatedAt := createdAt,
           uUsername := optionalString username, uDisplayName := optionalString displayName\<rparr>)) Wrap (\<lambda>created.
       if uID created \<le> 0 then fail (Account ErrInvalidCreatedUser)
       else
         let created = created\<lparr>uPasswordHash := None\<rparr> in
         if suConfirmationRequired s
         then ret \<lparr>upUser = created, upSession = None, upConfirmationRequired = True\<rparr>
         else call (Create L (suSessions s) (uID created)) Wrap (\<lambda>session.
           ret \<lparr>upUser = created, upSession = Some session, upConfirmationRequired = False\<rparr>))))))))))"

definition limited_SignUp :: "golib \<Rightarrow> signup_service \<Rightarrow> world rate_limiter \<Rightarrow> signup_input \<Rightarrow> signup_result prog" where
  "limited_SignUp L s limiter input =
     reading now_ns (\<lambda>now.
     call (Allow limiter now ''signup.origin'' (originRateLimitKey L (suOrigin input))) id (\<lambda>decision.
     if \<not> dAllowed decision then fail (RateLimitError (dRetryAfter decision))
     else SignUp L s input))"

section \<open>Composition\<close>

lemma insert_login_attempt_quiet: "insert_login_attempt a d = (Inr x, d') \<Longrightarrow> quiet d d'"
  by (auto simp: insert_login_attempt_def attempt_violation_def quiet_def db_ok_def history_ok_def
      split: option.splits if_splits)

lemma evolves_insert_login_attempt: "evolves (on_tables quiet) (query (insert_login_attempt a))"
  by (intro evolves_query preord_intro) (erule insert_login_attempt_quiet)

lemma evolves_store_RecordLoginAttempt: "evolves (on_tables quiet) (store_RecordLoginAttempt a)"
  unfolding store_RecordLoginAttempt_def
  by (intro evolves_intro preord_intro evolves_insert_login_attempt)

definition quiet_recorder :: "attempt_recorder \<Rightarrow> bool" where
  "quiet_recorder r \<longleftrightarrow> (\<forall>f a. r = Some f \<longrightarrow> evolves (on_tables quiet) (f a))"

lemma quiet_recorder_store [simp]: "quiet_recorder (Some store_RecordLoginAttempt)" "quiet_recorder None"
  by (simp_all add: quiet_recorder_def evolves_store_RecordLoginAttempt)

lemma evolves_RecordLoginAttempt:
  assumes "quiet_recorder r"
  shows "evolves (on_tables quiet) (RecordLoginAttempt r a)"
proof (cases r)
  case None
  then show ?thesis unfolding RecordLoginAttempt_def None option.case by (intro evolves_intro preord_intro)
next
  case (Some f)
  with assms have f: "evolves (on_tables quiet) (f a)" by (simp add: quiet_recorder_def)
  show ?thesis unfolding RecordLoginAttempt_def Some option.case by (intro evolves_intro preord_intro f)
qed

lemma evolves_recordAttempt:
  assumes "quiet_recorder (lsRecorder s)" and c: "covers_quiet R"
  shows "evolves (on_tables R) (recordAttempt L s input origin outcome uid)"
proof (rule covers_quiet_mono [OF c])
  show "evolves (on_tables quiet) (recordAttempt L s input origin outcome uid)"
    unfolding recordAttempt_def
    by (intro evolves_intro preord_intro evolves_RecordLoginAttempt [OF assms(1)])
qed

lemma evolves_findUser [evolves_intro]: "preord R \<Longrightarrow> evolves (on_tables R) (findUser L i b)"
  unfolding findUser_def by (intro evolves_intro preord_intro)

lemma evolves_signin_SignIn:
  assumes c: "covers_quiet R" and a: "\<And>i. evolves (on_tables R) (siAttempts s i)"
  shows "evolves (on_tables R) (signin_SignIn L s input)"
  unfolding signin_SignIn_def
  by (intro evolves_intro preord_intro covers_quiet_preord [OF c] c a)

lemma evolves_limited_SignIn:
  assumes c: "covers_quiet R" and a: "\<And>i. evolves (on_tables R) (siAttempts (lsSignIn s) i)"
    and l: "quiet_limiter (lsLimiter s)" and r: "quiet_recorder (lsRecorder s)"
  shows "evolves (on_tables R) (limited_SignIn L s input origin)"
  unfolding limited_SignIn_def
  by (intro evolves_intro preord_intro covers_quiet_preord [OF c] c evolves_signin_SignIn a
      evolves_Allow [OF l c] evolves_Clear [OF l c] evolves_recordAttempt [OF r c])

lemma evolves_rejectDuplicate [evolves_intro]:
  "preord R \<Longrightarrow> evolves (on_tables R) m \<Longrightarrow> evolves (on_tables R) (rejectDuplicate m dup)"
  unfolding rejectDuplicate_def
  by (intro evolves_attempt evolves_case_sum evolves_if evolves_ret evolves_fail preord_intro)

lemma evolves_rejectDuplicates [evolves_intro]:
  "preord R \<Longrightarrow> evolves (on_tables R) (rejectDuplicateEmail L e)"
  "preord R \<Longrightarrow> evolves (on_tables R) (rejectDuplicateUsername L u)"
  unfolding rejectDuplicateEmail_def rejectDuplicateUsername_def
  by (intro evolves_rejectDuplicate evolves_FindUserByEmail evolves_FindUserByUsername; assumption)+

lemma evolves_SignUp:
  assumes c: "covers_quiet R" and u: "\<And>u. evolves (on_tables R) (CreateUser L u)"
    and h: "\<And>p. evolves (on_tables R) (suHash s p)"
  shows "evolves (on_tables R) (SignUp L s input)"
  unfolding SignUp_def
  by (intro evolves_intro preord_intro covers_quiet_preord [OF c] c u h)

lemma evolves_limited_SignUp:
  assumes c: "covers_quiet R" and u: "\<And>u. evolves (on_tables R) (CreateUser L u)"
    and h: "\<And>p. evolves (on_tables R) (suHash s p)" and l: "quiet_limiter l"
  shows "evolves (on_tables R) (limited_SignUp L s l input)"
  unfolding limited_SignUp_def
  by (intro evolves_intro preord_intro covers_quiet_preord [OF c] evolves_Allow [OF l c] evolves_SignUp c u h)

section \<open>Who can sign in\<close>

text \<open>The stored account an identifier names, and an account the submitted password opens.\<close>

definition names_account :: "golib \<Rightarrow> string \<Rightarrow> bool \<Rightarrow> user \<Rightarrow> bool" where
  "names_account L identifier isEmail u \<longleftrightarrow>
     (if isEmail then (\<exists>n. NormalizeEmail L identifier = Inr n \<and> uEmail u = Some n)
      else (\<exists>n. NormalizeUsername L identifier = Inr n \<and> uUsername u = Some n))"

definition opens :: "signin_service \<Rightarrow> string \<Rightarrow> user \<Rightarrow> bool" where
  "opens s password u \<longleftrightarrow> \<not> uIsGuest u \<and> (\<exists>h. uPasswordHash u = Some h \<and> siVerify s password h = Inr True)"

lemma findUser_Inr:
  assumes "findUser L i e w = (Inr u, w')"
  shows "u \<in> set (users (tables w)) \<and> names_account L i e u \<and> 0 < uID u \<and> tables w' = tables w
    \<and> unix_now w' = unix_now w"
  using assms
  by (auto simp: findUser_def FindUserByEmail_def FindUserByUsername_def names_account_def
      split: if_splits sum.splits dest!: find_user_Inr find_Some_iff')

lemma findUser_run:
  assumes "faults w = []" "users_ok L (tables w)"
  shows "findUser L i e w = (Inl (Account ErrUserNotFound), w) \<or>
    (\<exists>u. findUser L i e w = (Inr u, w) \<and> u \<in> set (users (tables w)) \<and> names_account L i e u)"
  using find_user_run [OF assms]
  by (auto simp: findUser_def FindUserByEmail_def FindUserByUsername_def names_account_def fail_def
      split: sum.split option.split dest!: find_Some_iff')

section \<open>Properties\<close>

text \<open>
  C4: Sign-in is sound. A sign-in that succeeds was made with the identifier of a stored registered account and a
  password its hash accepts, with a confirmed email address where confirmation is required; the returned account
  carries no password hash, and exactly one session is added, for that account.
\<close>

theorem SignIn_sound:
  assumes run: "signin_SignIn L s input w = (Inr res, w')"
    and att: "\<And>i. evolves (on_tables (=)) (siAttempts s i)"
  shows "\<exists>u i e. normalizeSignInIdentifier L (inIdentifier input) = Inr (i, e)
    \<and> u \<in> set (users (tables w)) \<and> names_account L i e u \<and> opens s (inPassword input) u
    \<and> (siConfirmationRequired s \<longrightarrow> uEmailVerifiedAt u \<noteq> None)
    \<and> srUser res = u\<lparr>uPasswordHash := None\<rparr> \<and> sUserID (srSession res) = uID u
    \<and> tables w' = (tables w)\<lparr>sessions := sessions (tables w) @ [session_row_of L (srSession res)]\<rparr>"
proof -
  from run obtain i e u w1 w2 ses where
    n: "normalizeSignInIdentifier L (inIdentifier input) = Inr (i, e)"
    and f: "findUser L i e w = (Inr u, w1)"
    and ok: "\<not> uIsGuest u" "uPasswordHash u \<noteq> None" "siVerify s (inPassword input) (the (uPasswordHash u)) = Inr True"
      "\<not> (siConfirmationRequired s \<and> uEmailVerifiedAt u = None)"
    and a: "siAttempts s i w1 = (Inr (), w2)" and c: "Create L (siSessions s) (uID u) w2 = (Inr ses, w')"
    and res: "res = \<lparr>srUser = u\<lparr>uPasswordHash := None\<rparr>, srSession = ses\<rparr>"
    by (auto simp: signin_SignIn_def split: if_splits prod.splits)
  note f' = findUser_Inr [OF f]
  have t2: "tables w2 = tables w1" by (rule evolves_eqD [OF att a])
  note c' = session_create_Inr [OF c [unfolded Create_def]]
  show ?thesis using n f' ok res t2 c'(1,10) by (intro exI [of _ u] exI [of _ i] exI [of _ e]) (auto simp: opens_def)
qed

text \<open>The example verifier accepts a password whose stored hash is the password itself.\<close>

definition demo_signin :: signin_service where
  "demo_signin = \<lparr>siVerify = (\<lambda>p h. Inr (p = h)), siSessions = demo_sessions, siAttempts = (\<lambda>_. ret ()),
     siConfirmationRequired = False\<rparr>"

lemma demo_signin_attempts: "evolves (on_tables (=)) (siAttempts demo_signin i)"
  unfolding demo_signin_def by (simp add: evolves_ret preord_on_tables preord_eq)

theorem SignIn_sound_witness:
  "\<exists>res w'. signin_SignIn ascii_lib demo_signin \<lparr>inIdentifier = '' B@x'', inPassword = ''h2''\<rparr> demo_world = (Inr res, w')
     \<and> uPasswordHash (srUser res) = None"
proof -
  let ?run = "signin_SignIn ascii_lib demo_signin \<lparr>inIdentifier = '' B@x'', inPassword = ''h2''\<rparr> demo_world"
  have "\<not> isl (fst ?run)" by code_simp
  then obtain res w' where r: "?run = (Inr res, w')"
    by (cases ?run) (auto simp: isl_def, metis sum.collapse)
  from SignIn_sound [OF r demo_signin_attempts] r show ?thesis by auto
qed

text \<open>
  C5: Sign-in failures are uniform. Whatever the reason (an identifier no account can have, an unknown account, a guest, an
  account without a password, or a wrong password), sign-in answers with the same error and changes nothing, so the answer
  does not tell which accounts exist.
\<close>

theorem SignIn_uniform_failure:
  assumes "faults w = []" and "db_ok L (tables w)"
    and "\<And>u i e. normalizeSignInIdentifier L (inIdentifier input) = Inr (i, e) \<Longrightarrow> u \<in> set (users (tables w)) \<Longrightarrow>
      names_account L i e u \<Longrightarrow> \<not> opens s (inPassword input) u"
  shows "signin_SignIn L s input w = (Inl (Auth ErrInvalidCredentials), w)"
proof (cases "normalizeSignInIdentifier L (inIdentifier input)")
  case (Inl err)
  then show ?thesis by (simp add: signin_SignIn_def check_def)
next
  case (Inr p)
  obtain i e where p: "p = (i, e)" by (cases p)
  have uok: "users_ok L (tables w)" using assms(2) by (simp add: db_ok_def)
  from findUser_run [OF assms(1) uok, of i e] show ?thesis
  proof (elim disjE exE conjE)
    assume "findUser L i e w = (Inl (Account ErrUserNotFound), w)"
    with Inr p show ?thesis by (simp add: signin_SignIn_def check_def call_def)
  next
    fix u
    assume u: "findUser L i e w = (Inr u, w)" "u \<in> set (users (tables w))" "names_account L i e u"
    with assms(3) Inr p have "\<not> opens s (inPassword input) u" by blast
    with u(1) Inr p show ?thesis
      by (auto simp: signin_SignIn_def check_def call_def fail_def opens_def)
  qed
qed

theorem SignIn_uniform_failure_witness:
  "signin_SignIn ascii_lib demo_signin \<lparr>inIdentifier = ''guest-1'', inPassword = ''x''\<rparr> demo_world
     = (Inl (Auth ErrInvalidCredentials), demo_world)"
proof (rule SignIn_uniform_failure)
  show "db_ok ascii_lib (tables demo_world)" by (simp add: demo_db_ok)
  show "\<not> opens demo_signin (inPassword \<lparr>inIdentifier = ''guest-1'', inPassword = ''x''\<rparr>) u"
    if "u \<in> set (users (tables demo_world))" for u
    using that by (auto simp: demo_defs opens_def demo_signin_def)
qed simp

subsection \<open>Budgets\<close>

lemma same_preord: "preord (same f :: db \<Rightarrow> db \<Rightarrow> bool)" by (rule preord_same)

lemma evolves_Hit_sessions: "evolves (on_tables (same sessions)) (pg_Hit L scope a k h win now)"
proof -
  have "evolves (on_tables (same sessions)) (query (upsert_bucket new t m))" for new t m
    by (rule evolves_query [OF same_preord])
       (auto simp: same_def upsert_bucket_def Let_def split: option.splits)
  then show ?thesis unfolding pg_Hit_def
    by (intro evolves_if evolves_Let evolves_call evolves_fail evolves_case_prod evolves_ret preord_intro)
qed

lemma evolves_insert_attempt_frame:
  "evolves (on_tables (same sessions)) (query (insert_login_attempt a))"
  "evolves (on_tables (same buckets)) (query (insert_login_attempt a))"
  by (rule evolves_query [OF same_preord], auto simp: same_def insert_login_attempt_def split: option.splits)+

definition stored_history :: "attempt_recorder \<Rightarrow> bool" where
  "stored_history r \<longleftrightarrow> r = None \<or> r = Some store_RecordLoginAttempt"

lemma evolves_recordAttempt_frame:
  assumes r: "stored_history (lsRecorder s)" and p: "preord R"
    and q: "\<And>a. evolves (on_tables R) (query (insert_login_attempt a))"
  shows "evolves (on_tables R) (recordAttempt L s input origin outcome uid)"
proof -
  have st: "evolves (on_tables R) (store_RecordLoginAttempt a)" for a
    unfolding store_RecordLoginAttempt_def
    by (intro evolves_if evolves_fail evolves_reading evolves_call evolves_ret preord_intro p q)
  have "evolves (on_tables R) (RecordLoginAttempt (lsRecorder s) a)" for a
  proof (cases "lsRecorder s")
    case None
    show ?thesis unfolding RecordLoginAttempt_def None option.case by (intro evolves_intro preord_intro p)
  next
    case (Some f)
    with r have f: "f = store_RecordLoginAttempt" by (simp add: stored_history_def)
    show ?thesis unfolding RecordLoginAttempt_def Some option.case f by (intro evolves_intro preord_intro p st)
  qed
  then show ?thesis unfolding recordAttempt_def
    by (intro evolves_case_option evolves_ret evolves_Let evolves_if evolves_reading preord_intro p)
qed

text \<open>
  C6: A locked-out origin cannot sign in. While the shared limiter has a live window for the origin at its limit, a sign-in
  from there fails, whatever the credentials, and creates no session.
\<close>

theorem SignIn_origin_lockout:
  assumes st: "rlStore (lsLimiter s) = PostgresRateLimitStore L scope" and rec: "stored_history (lsRecorder s)"
    and win: "pg_window L scope w signInOriginAction (originRateLimitKey L origin) = Some v" "now_ns w < wExpires v"
      "rcLimit (rlConfig (lsLimiter s)) \<le> wCount v"
    and run: "limited_SignIn L s input origin w = (r, w')"
  shows "isl r \<and> sessions (tables w') = sessions (tables w)"
proof -
  let ?k = "originRateLimitKey L origin"
  obtain q w1 where a: "Allow (lsLimiter s) (now_ns w) signInOriginAction ?k w = (q, w1)"
    by (cases "Allow (lsLimiter s) (now_ns w) signInOriginAction ?k w")
  have "evolves (on_tables (same sessions)) (Allow (lsLimiter s) (now_ns w) signInOriginAction ?k)"
    unfolding Allow_def st by (simp add: PostgresRateLimitStore_def)
      (intro evolves_check evolves_call evolves_if evolves_ret preord_intro evolves_Hit_sessions)
  from evolvesD [OF this a] have s1: "sessions (tables w1) = sessions (tables w)" by (simp add: on_tables_def same_def)
  show ?thesis
  proof (cases q)
    case (Inl e)
    with run a s1 show ?thesis by (auto simp: limited_SignIn_def call_def)
  next
    case (Inr d)
    have "\<not> dAllowed d"
      using pg.Allow_live(1) [OF st TrueI win(1,2) a [unfolded Inr]] win(3) by simp
    with run a Inr have rest: "call (recordAttempt L s input origin LoginOutcomeRateLimited 0) id
        (\<lambda>_. fail (RateLimitError (dRetryAfter d))) w1 = (r, w')"
      by (simp add: limited_SignIn_def call_def)
    have "evolves (on_tables (same sessions)) (recordAttempt L s input origin LoginOutcomeRateLimited 0)"
      by (rule evolves_recordAttempt_frame [OF rec same_preord evolves_insert_attempt_frame(1)])
    then have "evolves (on_tables (same sessions)) (call (recordAttempt L s input origin LoginOutcomeRateLimited 0) id
        (\<lambda>_. fail (RateLimitError (dRetryAfter d)) :: signin_result prog))"
      by (intro evolves_call evolves_fail preord_intro)
    from evolvesD [OF this rest] s1 rest show ?thesis
      by (auto simp: on_tables_def same_def call_def fail_def split: prod.splits sum.splits)
  qed
qed

lemma pg_window_gone:
  "pg_window L scope w a k = None \<longleftrightarrow>
     (\<forall>b \<in> set (buckets (tables w)). bucket_key b \<noteq> (scope, a, rateLimitKeyHash L k))"
  by (simp add: pg_window_def find_None_iff')

lemma Clear_Inr:
  assumes "rlStore l = PostgresRateLimitStore L scope" "Clear l a k w = (Inr (), w')"
  shows "buckets (tables w') = delete_where (\<lambda>b. bucket_key b = (scope, a, rateLimitKeyHash L k)) (buckets (tables w))"
  using assms by (auto simp: Clear_def PostgresRateLimitStore_def pg_Clear_def delete_buckets_def dest!: query_Inr)
    (drule sym, simp)

text \<open>
  A successful sign-in resets both budgets: afterwards there is no window for the origin nor for the identifier, so
  earlier failures no longer count against them.
\<close>

theorem SignIn_clears_budgets:
  assumes st: "rlStore (lsLimiter s) = PostgresRateLimitStore L scope" and rec: "stored_history (lsRecorder s)"
    and n: "normalizeSignInIdentifier L (inIdentifier input) = Inr (i, e)"
    and run: "limited_SignIn L s input origin w = (Inr res, w')"
  shows "pg_window L scope w' signInOriginAction (originRateLimitKey L origin) = None
    \<and> pg_window L scope w' signInIdentifierAction i = None"
proof -
  from run n obtain w1 w2 w3 x where
    c1: "Clear (lsLimiter s) signInOriginAction (originRateLimitKey L origin) w1 = (Inr (), w2)"
    and c2: "Clear (lsLimiter s) signInIdentifierAction i w2 = (Inr (), w3)"
    and r: "recordAttempt L s input origin LoginOutcomeSuccess x w3 = (Inr (), w')"
    by (auto simp: limited_SignIn_def attempt_case_iff split: if_splits)
  have "evolves (on_tables (same buckets)) (recordAttempt L s input origin LoginOutcomeSuccess x)"
    by (rule evolves_recordAttempt_frame [OF rec same_preord evolves_insert_attempt_frame(2)])
  from evolvesD [OF this r] have "buckets (tables w') = buckets (tables w3)" by (simp add: on_tables_def same_def)
  with Clear_Inr [OF st c1] Clear_Inr [OF st c2] show ?thesis by (simp add: pg_window_gone)
qed

text \<open>The examples of the budgets use a library with a short digest and two attempts per window.\<close>

definition brief_lib :: golib where
  "brief_lib = ascii_lib\<lparr>sha256_hex := take 4\<rparr>"

definition demo_limited :: limited_signin where
  "demo_limited = \<lparr>lsSignIn = demo_signin,
     lsLimiter = \<lparr>rlConfig = demo_shared_limits, rlStore = PostgresRateLimitStore brief_lib ''s''\<rparr>,
     lsRecorder = Some store_RecordLoginAttempt\<rparr>"

definition demo_locked_world :: world where
  "demo_locked_world = demo_world\<lparr>tables := demo_db\<lparr>buckets := [\<lparr>rbScope = ''s'', rbAction = signInOriginAction,
     rbKeyHash = ''o'', rbKeyHint = ''o'', rbCount = 2, rbStarted = 999999, rbExpires = 1000004\<rparr>]\<rparr>\<rparr>"

theorem SignIn_origin_lockout_witness:
  "isl (fst (limited_SignIn brief_lib demo_limited \<lparr>inIdentifier = ''b@x'', inPassword = ''h2''\<rparr> ''o'' demo_locked_world))"
proof -
  let ?run = "limited_SignIn brief_lib demo_limited \<lparr>inIdentifier = ''b@x'', inPassword = ''h2''\<rparr> ''o'' demo_locked_world"
  obtain r w' where r: "?run = (r, w')" by (cases ?run)
  have v: "case pg_window brief_lib ''s'' demo_locked_world signInOriginAction (originRateLimitKey brief_lib ''o'') of
    Some v \<Rightarrow> now_ns demo_locked_world < wExpires v \<and> 2 \<le> wCount v | None \<Rightarrow> False"
    by code_simp
  show ?thesis using SignIn_origin_lockout [OF _ _ _ _ _ r] v r
    by (auto simp: demo_limited_def demo_shared_limits_def stored_history_def split: option.splits)
qed

theorem SignIn_clears_budgets_witness:
  "\<exists>res w'. limited_SignIn brief_lib demo_limited \<lparr>inIdentifier = ''b@x'', inPassword = ''h2''\<rparr> ''o'' demo_world = (Inr res, w')
     \<and> pg_window brief_lib ''s'' w' signInIdentifierAction ''b@x'' = None"
proof -
  let ?run = "limited_SignIn brief_lib demo_limited \<lparr>inIdentifier = ''b@x'', inPassword = ''h2''\<rparr> ''o'' demo_world"
  have "\<not> isl (fst ?run)" by code_simp
  then obtain res w' where r: "?run = (Inr res, w')"
    by (cases ?run) (auto simp: isl_def, metis sum.collapse)
  have n: "normalizeSignInIdentifier brief_lib ''b@x'' = Inr (''b@x'', True)" by code_simp
  have "pg_window brief_lib ''s'' w' signInIdentifierAction ''b@x'' = None"
    using SignIn_clears_budgets [OF _ _ _ r, of "''s''" "''b@x''" True] n
    by (simp add: demo_limited_def stored_history_def)
  with r show ?thesis by blast
qed

end
