(* ===== verification/TokenStore.thy ===== *)
theory TokenStore
  imports SessionStore
begin

text \<open>
  Storage of single-use links (\<^verbatim>\<open>store/postgres/tokens.go\<close>): confirmation and password-reset tokens are
  kept as digests, consumed by one atomic update, and never redeemable again. What every store of this
  kind promises is the locale \<open>single_use\<close>; both repositories are interpretations of it.
\<close>

text \<open>\<^verbatim>\<open>EmailConfirmationToken\<close> and \<^verbatim>\<open>PasswordResetToken\<close> have the same fields.\<close>

record link_token =
  ltUserID :: int
  ltToken :: string
  ltCreatedAt :: int
  ltExpiresAt :: int
  ltConsumedAt :: "int option"

definition tokenDigest :: "golib \<Rightarrow> string \<Rightarrow> string" where
  "tokenDigest L value = sessionDigest L value"

definition mapTokenError :: "error \<Rightarrow> error \<Rightarrow> error" where
  "mapTokenError notFound err =
     (if errors_is err (Repo ContextCanceled) then Repo ContextCanceled
      else if errors_is err (Repo ContextDeadlineExceeded) then Repo ContextDeadlineExceeded
      else if errors_is err (Repo SqlErrNoRows) \<or> errors_is err (Repo ErrNotFound) then notFound
      else ClassifyError err)"

section \<open>Statements\<close>

text \<open>The two tables have the same columns and constraints; a statement works on the rows of one of them.\<close>

definition token_violation :: "token_row \<Rightarrow> int set \<Rightarrow> token_row list \<Rightarrow> error option" where
  "token_violation row ids ts =
     (if \<not> varchar 64 (tToken row) then Some (PgError StringTruncation OtherConstraint)
      else if tExpiresAt row \<le> tCreatedAt row then Some (PgError CheckViolation OtherConstraint)
      else if tToken row \<in> tToken ` set ts then Some (PgError UniqueViolation OtherConstraint)
      else if tUserID row \<notin> ids then Some (PgError ForeignKeyViolation OtherConstraint)
      else None)"

definition token_row_of :: "golib \<Rightarrow> link_token \<Rightarrow> int \<Rightarrow> token_row" where
  "token_row_of L t i = \<lparr>tID = i, tUserID = ltUserID t, tToken = tokenDigest L (ltToken t),
     tCreatedAt = ltCreatedAt t, tExpiresAt = ltExpiresAt t, tConsumedAt = ltConsumedAt t\<rparr>"

definition redeemable :: "string \<Rightarrow> int \<Rightarrow> token_row \<Rightarrow> bool" where
  "redeemable digest now r \<longleftrightarrow> tToken r = digest \<and> tConsumedAt r = None \<and> now < tExpiresAt r"

definition spend :: "string \<Rightarrow> int \<Rightarrow> token_row list \<Rightarrow> token_row list" where
  "spend digest now ts = update_where (redeemable digest now) (\<lambda>r. r\<lparr>tConsumedAt := Some now\<rparr>) ts"

definition insert_email_token :: "golib \<Rightarrow> link_token \<Rightarrow> unit stmt" where
  "insert_email_token L t d =
     (let row = token_row_of L t (email_tokens_seq d + 1) in
      case token_violation row (user_ids d) (email_tokens d) of
        Some e \<Rightarrow> (Inl e, d)
      | None \<Rightarrow> (Inr (), d\<lparr>email_tokens := email_tokens d @ [row], email_tokens_seq := email_tokens_seq d + 1\<rparr>))"

definition insert_reset_token :: "golib \<Rightarrow> link_token \<Rightarrow> unit stmt" where
  "insert_reset_token L t d =
     (let row = token_row_of L t (reset_tokens_seq d + 1) in
      case token_violation row (user_ids d) (reset_tokens d) of
        Some e \<Rightarrow> (Inl e, d)
      | None \<Rightarrow> (Inr (), d\<lparr>reset_tokens := reset_tokens d @ [row], reset_tokens_seq := reset_tokens_seq d + 1\<rparr>))"

definition consume_email_token :: "string \<Rightarrow> int \<Rightarrow> token_row stmt" where
  "consume_email_token digest now d =
     (case find (redeemable digest now) (email_tokens d) of
        None \<Rightarrow> (Inl (Repo SqlErrNoRows), d)
      | Some r \<Rightarrow> (Inr (r\<lparr>tConsumedAt := None\<rparr>), d\<lparr>email_tokens := spend digest now (email_tokens d)\<rparr>))"

definition consume_reset_token :: "string \<Rightarrow> int \<Rightarrow> token_row stmt" where
  "consume_reset_token digest now d =
     (case find (redeemable digest now) (reset_tokens d) of
        None \<Rightarrow> (Inl (Repo SqlErrNoRows), d)
      | Some r \<Rightarrow> (Inr (r\<lparr>tConsumedAt := None\<rparr>), d\<lparr>reset_tokens := spend digest now (reset_tokens d)\<rparr>))"

text \<open>\<^verbatim>\<open>ORDER BY expires_at DESC, id DESC LIMIT 1\<close>.\<close>

definition later_token :: "token_row \<Rightarrow> token_row \<Rightarrow> bool" where
  "later_token a b \<longleftrightarrow> tExpiresAt b < tExpiresAt a \<or> (tExpiresAt a = tExpiresAt b \<and> tID b < tID a)"

definition select_active_email_token :: "int \<Rightarrow> int \<Rightarrow> token_row stmt" where
  "select_active_email_token userID now d =
     (case order_by later_token (filter (\<lambda>r. tUserID r = userID \<and> tConsumedAt r = None \<and> now < tExpiresAt r)
             (email_tokens d)) of
        [] \<Rightarrow> (Inl (Repo SqlErrNoRows), d) | r # _ \<Rightarrow> (Inr r, d))"

section \<open>Repository operations\<close>

definition scanToken :: "token_row \<Rightarrow> error + link_token" where
  "scanToken r =
     (if tUserID r \<le> 0 \<or> tToken r = [] \<or> 64 < length (tToken r) \<or> tExpiresAt r \<le> tCreatedAt r
      then Inl (Repo ErrInvalidData)
      else Inr \<lparr>ltUserID = tUserID r, ltToken = tToken r, ltCreatedAt = tCreatedAt r,
        ltExpiresAt = tExpiresAt r, ltConsumedAt = tConsumedAt r\<rparr>)"

definition CreateEmailConfirmationToken :: "golib \<Rightarrow> link_token \<Rightarrow> unit prog" where
  "CreateEmailConfirmationToken L t =
     call (query (insert_email_token L t)) (mapTokenError (Tok ErrEmailConfirmationTokenNotFound)) ret"

definition ConsumeEmailConfirmationToken :: "golib \<Rightarrow> string \<Rightarrow> int \<Rightarrow> link_token prog" where
  "ConsumeEmailConfirmationToken L token now =
     call (query (consume_email_token (tokenDigest L token) now))
       (mapTokenError (Tok ErrEmailConfirmationTokenNotFound)) (\<lambda>row.
     check (scanToken row) (mapTokenError (Tok ErrEmailConfirmationTokenNotFound)) (\<lambda>consumed.
     ret (consumed\<lparr>ltToken := token\<rparr>)))"

definition FindActiveEmailConfirmationToken :: "int \<Rightarrow> int \<Rightarrow> link_token prog" where
  "FindActiveEmailConfirmationToken userID now =
     (if userID \<le> 0 then fail (Tok ErrEmailConfirmationTokenNotFound)
      else
        call (query (select_active_email_token userID now))
          (mapTokenError (Tok ErrEmailConfirmationTokenNotFound)) (\<lambda>row.
        check (scanToken row) (mapTokenError (Tok ErrEmailConfirmationTokenNotFound)) ret))"

definition CreatePasswordResetToken :: "golib \<Rightarrow> link_token \<Rightarrow> unit prog" where
  "CreatePasswordResetToken L t =
     call (query (insert_reset_token L t)) (mapTokenError (Tok ErrPasswordResetTokenNotFound)) ret"

definition ConsumePasswordResetToken :: "golib \<Rightarrow> string \<Rightarrow> int \<Rightarrow> link_token prog" where
  "ConsumePasswordResetToken L token now =
     call (query (consume_reset_token (tokenDigest L token) now))
       (mapTokenError (Tok ErrPasswordResetTokenNotFound)) (\<lambda>row.
     check (scanToken row) (mapTokenError (Tok ErrPasswordResetTokenNotFound)) (\<lambda>consumed.
     ret (consumed\<lparr>ltToken := token\<rparr>)))"

section \<open>Integrity\<close>

lemma token_violation_None:
  "token_violation row ids ts = None \<Longrightarrow>
     tCreatedAt row < tExpiresAt row \<and> (\<forall>t \<in> set ts. tToken t \<noteq> tToken row) \<and> tUserID row \<in> ids"
  by (auto simp: token_violation_def image_iff split: if_splits)

lemma tokens_ok_append:
  "tokens_ok ids ts \<Longrightarrow> token_violation row ids ts = None \<Longrightarrow> tokens_ok ids (ts @ [row])"
  by (drule token_violation_None) (auto simp: tokens_ok_def unique_on_append)

lemma tokens_ok_spend: "tokens_ok ids ts \<Longrightarrow> tokens_ok ids (spend digest now ts)"
  by (auto simp: tokens_ok_def spend_def unique_on_update_same ball_update_where)

lemma token_writes_quiet:
  "insert_email_token L t d = (Inr x, d') \<Longrightarrow> quiet d d'"
  "insert_reset_token L t d = (Inr x, d') \<Longrightarrow> quiet d d'"
  "consume_email_token dg now d = (Inr r, d') \<Longrightarrow> quiet d d'"
  "consume_reset_token dg now d = (Inr r, d') \<Longrightarrow> quiet d d'"
  by (auto simp: insert_email_token_def insert_reset_token_def consume_email_token_def consume_reset_token_def
      quiet_def db_ok_def Let_def tokens_ok_append tokens_ok_spend split: option.splits)

lemma evolves_token_writes:
  "evolves (on_tables quiet) (query (insert_email_token L t))"
  "evolves (on_tables quiet) (query (insert_reset_token L t))"
  "evolves (on_tables quiet) (query (consume_email_token dg now))"
  "evolves (on_tables quiet) (query (consume_reset_token dg now))"
  by (intro evolves_query preord_intro; erule token_writes_quiet)+

lemma evolves_CreateEmailConfirmationToken [evolves_intro]:
  "covers_quiet R \<Longrightarrow> evolves (on_tables R) (CreateEmailConfirmationToken L t)"
  by (erule covers_quiet_mono, unfold CreateEmailConfirmationToken_def)
     (intro evolves_call evolves_token_writes evolves_ret preord_intro)

lemma evolves_ConsumeEmailConfirmationToken [evolves_intro]:
  "covers_quiet R \<Longrightarrow> evolves (on_tables R) (ConsumeEmailConfirmationToken L t now)"
  by (erule covers_quiet_mono, unfold ConsumeEmailConfirmationToken_def)
     (intro evolves_call evolves_token_writes evolves_check evolves_ret preord_intro)

lemma evolves_CreatePasswordResetToken [evolves_intro]:
  "covers_quiet R \<Longrightarrow> evolves (on_tables R) (CreatePasswordResetToken L t)"
  by (erule covers_quiet_mono, unfold CreatePasswordResetToken_def)
     (intro evolves_call evolves_token_writes evolves_ret preord_intro)

lemma evolves_ConsumePasswordResetToken [evolves_intro]:
  "covers_quiet R \<Longrightarrow> evolves (on_tables R) (ConsumePasswordResetToken L t now)"
  by (erule covers_quiet_mono, unfold ConsumePasswordResetToken_def)
     (intro evolves_call evolves_token_writes evolves_check evolves_ret preord_intro)

lemma evolves_FindActiveEmailConfirmationToken [evolves_intro]:
  assumes p: "preord R"
  shows "evolves (on_tables R) (FindActiveEmailConfirmationToken uid now)"
proof -
  have "evolves (on_tables R) (query (select_active_email_token uid now))"
    by (rule evolves_read_query [OF p]) (auto simp: select_active_email_token_def split: list.splits)
  then show ?thesis unfolding FindActiveEmailConfirmationToken_def
    by (intro evolves_if evolves_fail evolves_call evolves_check evolves_ret preord_intro p)
qed

section \<open>Single use\<close>

text \<open>A history of redemption attempts, each at a moment of its own; the credentials that were accepted.\<close>

fun redemptions :: "(string \<Rightarrow> int \<Rightarrow> 'a prog) \<Rightarrow> (string \<times> int) list \<Rightarrow> world \<Rightarrow> string list" where
  "redemptions consume [] w = []"
| "redemptions consume ((c, now) # rs) w =
     (case consume c now w of
        (Inl _, w') \<Rightarrow> redemptions consume rs w'
      | (Inr _, w') \<Rightarrow> c # redemptions consume rs w')"

text \<open>
  The contract of a store of single-use credentials: \<open>live d c now\<close> says that the credential is redeemable. A
  redemption needs a live credential, leaves it dead for good, and brings nothing back to life; a refused
  redemption brings nothing to life either.
\<close>

locale single_use =
  fixes consume :: "string \<Rightarrow> int \<Rightarrow> 'a prog"
    and live :: "db \<Rightarrow> string \<Rightarrow> int \<Rightarrow> bool"
  assumes consume_needs_live: "consume c now w = (Inr x, w') \<Longrightarrow> live (tables w) c now"
    and consume_spends: "consume c now w = (Inr x, w') \<Longrightarrow> now' \<ge> now \<Longrightarrow> \<not> live (tables w') c now'"
    and consume_revives_nothing:
      "consume c now w = (r, w') \<Longrightarrow> live (tables w') c' now' \<Longrightarrow> live (tables w) c' now'"
    and expiry: "live d c now' \<Longrightarrow> now \<le> now' \<Longrightarrow> live d c now"
begin

lemma dead_stays_dead:
  assumes "\<not> live (tables w) c t" and "\<forall>(c', now) \<in> set rs. t \<le> now"
  shows "c \<notin> set (redemptions consume rs w)"
  using assms
proof (induction rs arbitrary: w)
  case (Cons r rs)
  obtain c' now where r: "r = (c', now)" by (cases r)
  obtain s w' where run: "consume c' now w = (s, w')" by (cases "consume c' now w")
  have dead: "\<not> live (tables w') c t"
    using consume_revives_nothing [OF run] Cons.prems(1) by blast
  have ih: "c \<notin> set (redemptions consume rs w')" by (rule Cons.IH [OF dead]) (use Cons.prems(2) in simp)
  show ?case
  proof (cases s)
    case (Inr x)
    have "t \<le> now" using Cons.prems(2) r by simp
    with consume_needs_live [OF run [unfolded Inr]] expiry Cons.prems(1) have "c' \<noteq> c" by blast
    with ih run r Inr show ?thesis by simp
  qed (use ih run r in simp)
qed simp

text \<open>However a history of attempts goes, no credential is accepted twice.\<close>

lemma accepted_once:
  assumes "sorted (map snd rs)"
  shows "distinct (redemptions consume rs w)"
  using assms
proof (induction rs arbitrary: w)
  case (Cons r rs)
  obtain c now where r: "r = (c, now)" by (cases r)
  obtain s w' where run: "consume c now w = (s, w')" by (cases "consume c now w")
  have ih: "distinct (redemptions consume rs w')" using Cons by simp
  show ?case
  proof (cases s)
    case (Inr x)
    have "\<not> live (tables w') c now" using consume_spends [OF run [unfolded Inr]] by blast
    moreover have "\<forall>(c', now') \<in> set rs. now \<le> now'" using Cons.prems r by force
    ultimately have "c \<notin> set (redemptions consume rs w')" by (rule dead_stays_dead)
    with ih run r Inr show ?thesis by simp
  qed (use ih run r in simp)
qed simp

end

definition holds_token :: "golib \<Rightarrow> token_row list \<Rightarrow> string \<Rightarrow> int \<Rightarrow> bool" where
  "holds_token L ts c now \<longleftrightarrow> (\<exists>t \<in> set ts. redeemable (tokenDigest L c) now t)"

lemma holds_token_spend:
  "now \<le> now' \<Longrightarrow> \<not> holds_token L (spend (tokenDigest L c) now ts) c now'"
  "holds_token L (spend dg now ts) c' now' \<Longrightarrow> holds_token L ts c' now'"
  by (auto simp: holds_token_def spend_def redeemable_def set_update_where split: if_splits)

lemma holds_token_expiry: "holds_token L ts c now' \<Longrightarrow> now \<le> now' \<Longrightarrow> holds_token L ts c now"
  by (auto simp: holds_token_def redeemable_def)

text \<open>What a consuming update did, whether or not the returned row then passes the scan.\<close>

lemma consume_statement:
  assumes "query (consume_email_token dg now) w = (s, w')"
  shows "(\<exists>r. s = Inr (r\<lparr>tConsumedAt := None\<rparr>) \<and> find (redeemable dg now) (email_tokens (tables w)) = Some r
      \<and> tables w' = (tables w)\<lparr>email_tokens := spend dg now (email_tokens (tables w))\<rparr>)
    \<or> (isl s \<and> tables w' = tables w)"
  using assms by (rule query_cases) (auto simp: consume_email_token_def split: option.splits)

lemma consume_reset_statement:
  assumes "query (consume_reset_token dg now) w = (s, w')"
  shows "(\<exists>r. s = Inr (r\<lparr>tConsumedAt := None\<rparr>) \<and> find (redeemable dg now) (reset_tokens (tables w)) = Some r
      \<and> tables w' = (tables w)\<lparr>reset_tokens := spend dg now (reset_tokens (tables w))\<rparr>)
    \<or> (isl s \<and> tables w' = tables w)"
  using assms by (rule query_cases) (auto simp: consume_reset_token_def split: option.splits)

lemma ConsumeEmail_cases:
  assumes "ConsumeEmailConfirmationToken L c now w = (s, w')"
  obtains (spent) r where "find (redeemable (tokenDigest L c) now) (email_tokens (tables w)) = Some r"
      "tables w' = (tables w)\<lparr>email_tokens := spend (tokenDigest L c) now (email_tokens (tables w))\<rparr>"
      "\<And>x. s = Inr x \<Longrightarrow> x = \<lparr>ltUserID = tUserID r, ltToken = c, ltCreatedAt = tCreatedAt r,
         ltExpiresAt = tExpiresAt r, ltConsumedAt = None\<rparr> \<and> 0 < tUserID r"
    | (kept) "isl s" "tables w' = tables w"
proof -
  obtain q w1 where q: "query (consume_email_token (tokenDigest L c) now) w = (q, w1)"
    by (cases "query (consume_email_token (tokenDigest L c) now) w")
  from consume_statement [OF q] show thesis
  proof (elim disjE exE conjE)
    fix r
    assume "q = Inr (r\<lparr>tConsumedAt := None\<rparr>)" "find (redeemable (tokenDigest L c) now) (email_tokens (tables w)) = Some r"
      "tables w1 = (tables w)\<lparr>email_tokens := spend (tokenDigest L c) now (email_tokens (tables w))\<rparr>"
    with assms q show thesis
      by (intro spent [of r])
         (auto simp: ConsumeEmailConfirmationToken_def call_def check_def ret_def scanToken_def split: sum.splits if_splits)
  next
    assume "isl q" "tables w1 = tables w"
    with assms q show thesis
      by (intro kept) (auto simp: ConsumeEmailConfirmationToken_def call_def split: sum.splits)
  qed
qed

lemma ConsumeReset_cases:
  assumes "ConsumePasswordResetToken L c now w = (s, w')"
  obtains (spent) r where "find (redeemable (tokenDigest L c) now) (reset_tokens (tables w)) = Some r"
      "tables w' = (tables w)\<lparr>reset_tokens := spend (tokenDigest L c) now (reset_tokens (tables w))\<rparr>"
      "\<And>x. s = Inr x \<Longrightarrow> x = \<lparr>ltUserID = tUserID r, ltToken = c, ltCreatedAt = tCreatedAt r,
         ltExpiresAt = tExpiresAt r, ltConsumedAt = None\<rparr> \<and> 0 < tUserID r"
    | (kept) "isl s" "tables w' = tables w"
proof -
  obtain q w1 where q: "query (consume_reset_token (tokenDigest L c) now) w = (q, w1)"
    by (cases "query (consume_reset_token (tokenDigest L c) now) w")
  from consume_reset_statement [OF q] show thesis
  proof (elim disjE exE conjE)
    fix r
    assume "q = Inr (r\<lparr>tConsumedAt := None\<rparr>)" "find (redeemable (tokenDigest L c) now) (reset_tokens (tables w)) = Some r"
      "tables w1 = (tables w)\<lparr>reset_tokens := spend (tokenDigest L c) now (reset_tokens (tables w))\<rparr>"
    with assms q show thesis
      by (intro spent [of r])
         (auto simp: ConsumePasswordResetToken_def call_def check_def ret_def scanToken_def split: sum.splits if_splits)
  next
    assume "isl q" "tables w1 = tables w"
    with assms q show thesis
      by (intro kept) (auto simp: ConsumePasswordResetToken_def call_def split: sum.splits)
  qed
qed

lemma find_redeemable: "find (redeemable (tokenDigest L c) now) ts = Some r \<Longrightarrow> holds_token L ts c now"
  by (auto simp: holds_token_def dest: find_Some_iff')

interpretation email_links: single_use "ConsumeEmailConfirmationToken L" "\<lambda>d. holds_token L (email_tokens d)"
proof
  fix c now w x w' now'
  assume run: "ConsumeEmailConfirmationToken L c now w = (Inr x, w')"
  then show "holds_token L (email_tokens (tables w)) c now"
    by (rule ConsumeEmail_cases) (auto intro: find_redeemable)
  show "\<not> holds_token L (email_tokens (tables w')) c now'" if "now' \<ge> now"
    using run by (rule ConsumeEmail_cases) (auto simp: holds_token_spend(1) that)
next
  fix c now w r w' c' now'
  assume "ConsumeEmailConfirmationToken L c now w = (r, w')" "holds_token L (email_tokens (tables w')) c' now'"
  then show "holds_token L (email_tokens (tables w)) c' now'"
    by (elim ConsumeEmail_cases) (auto dest: holds_token_spend(2))
qed (rule holds_token_expiry)

interpretation reset_links: single_use "ConsumePasswordResetToken L" "\<lambda>d. holds_token L (reset_tokens d)"
proof
  fix c now w x w' now'
  assume run: "ConsumePasswordResetToken L c now w = (Inr x, w')"
  then show "holds_token L (reset_tokens (tables w)) c now"
    by (rule ConsumeReset_cases) (auto intro: find_redeemable)
  show "\<not> holds_token L (reset_tokens (tables w')) c now'" if "now' \<ge> now"
    using run by (rule ConsumeReset_cases) (auto simp: holds_token_spend(1) that)
next
  fix c now w r w' c' now'
  assume "ConsumePasswordResetToken L c now w = (r, w')" "holds_token L (reset_tokens (tables w')) c' now'"
  then show "holds_token L (reset_tokens (tables w)) c' now'"
    by (elim ConsumeReset_cases) (auto dest: holds_token_spend(2))
qed (rule holds_token_expiry)

section \<open>Properties\<close>

text \<open>
  C12: Confirmation and reset links are single-use. In any history of redemption attempts in the order of the clock, with any
  pattern of database failures in between, no confirmation link and no reset link is accepted twice.
\<close>

theorem links_single_use:
  assumes "sorted (map snd rs)"
  shows "distinct (redemptions (ConsumeEmailConfirmationToken L) rs w)
    \<and> distinct (redemptions (ConsumePasswordResetToken L) rs w)"
  using assms by (simp add: email_links.accepted_once reset_links.accepted_once)

definition demo_links :: world where
  "demo_links = demo_world\<lparr>tables := demo_db\<lparr>
     email_tokens := [\<lparr>tID = 1, tUserID = 2, tToken = tokenDigest ascii_lib ''c'', tCreatedAt = 0, tExpiresAt = 2000,
       tConsumedAt = None\<rparr>],
     reset_tokens := [\<lparr>tID = 1, tUserID = 2, tToken = tokenDigest ascii_lib ''p'', tCreatedAt = 0, tExpiresAt = 2000,
       tConsumedAt = None\<rparr>]\<rparr>\<rparr>"

theorem links_single_use_witness:
  "redemptions (ConsumeEmailConfirmationToken ascii_lib) [(''c'', 1000), (''c'', 1001)] demo_links = [''c'']"
proof -
  let ?rs = "[(''c'', 1000), (''c'', 1001)] :: (string \<times> int) list"
  have "redemptions (ConsumeEmailConfirmationToken ascii_lib) [(''c'', 1000)] demo_links = [''c'']" by code_simp
  then obtain x w' where c: "ConsumeEmailConfirmationToken ascii_lib ''c'' 1000 demo_links = (Inr x, w')"
    by (auto split: prod.splits sum.splits)
  have "distinct (redemptions (ConsumeEmailConfirmationToken ascii_lib) ?rs demo_links)"
    using links_single_use [of ?rs ascii_lib demo_links] by simp
  then show ?thesis by (auto simp: c split: prod.splits sum.splits)
qed

end
