(* ===== verification/GoText.thy ===== *)
theory GoText
  imports GoStrings
begin

text \<open>
  Text formats of the standard library the services read and write: \<^verbatim>\<open>strings.Split\<close>,
  \<^verbatim>\<open>strconv.ParseUint\<close> and \<^verbatim>\<open>strconv.ParseInt\<close> in base ten, and unpadded standard base64
  (\<^verbatim>\<open>base64.RawStdEncoding\<close>), each with the law that reading undoes writing.
\<close>

section \<open>Splitting\<close>

text \<open>\<^verbatim>\<open>strings.Split\<close> with a one-byte separator.\<close>

fun split_on :: "char \<Rightarrow> string \<Rightarrow> string list" where
  "split_on c [] = [[]]"
| "split_on c (x # xs) =
     (if x = c then [] # split_on c xs
      else (case split_on c xs of [] \<Rightarrow> [[x]] | y # ys \<Rightarrow> (x # y) # ys))"

lemma split_on_none: "c \<notin> set s \<Longrightarrow> split_on c s = [s]"
  by (induction s) auto

lemma split_on_first: "c \<notin> set s \<Longrightarrow> split_on c (s @ c # t) = s # split_on c t"
  by (induction s) auto

lemma split_on_nonempty: "split_on c s \<noteq> []"
  by (induction s) (auto split: list.splits)

text \<open>\<^verbatim>\<open>strings.HasPrefix\<close> with \<^verbatim>\<open>strings.TrimPrefix\<close>.\<close>

definition cut_prefix :: "string \<Rightarrow> string \<Rightarrow> string option" where
  "cut_prefix p s = (if take (length p) s = p then Some (drop (length p) s) else None)"

lemma cut_prefix_append [simp]: "cut_prefix p (p @ s) = Some s"
  by (simp add: cut_prefix_def)

lemma cut_prefix_Some: "cut_prefix p s = Some t \<longleftrightarrow> s = p @ t"
  by (auto simp: cut_prefix_def) (metis append_take_drop_id)

section \<open>Decimal numbers\<close>

definition is_digit :: "char \<Rightarrow> bool" where
  "is_digit c \<longleftrightarrow> c \<in> set ''0123456789''"

definition digit_value :: "char \<Rightarrow> nat" where
  "digit_value c = of_char c - 48"

definition decimal_value :: "string \<Rightarrow> nat" where
  "decimal_value s = foldl (\<lambda>v c. v * 10 + digit_value c) 0 s"

text \<open>
  \<^verbatim>\<open>strconv.ParseUint(s, 10, bits)\<close>: digits only, and a value past the width is a range error.
  \<^verbatim>\<open>strconv.ParseInt(s, 10, 64)\<close> additionally takes a sign.
\<close>

definition ParseUint :: "nat \<Rightarrow> string \<Rightarrow> nat option" where
  "ParseUint bits s =
     (if s = [] \<or> \<not> list_all is_digit s then None
      else if decimal_value s < 2 ^ bits then Some (decimal_value s) else None)"

definition ParseInt64 :: "string \<Rightarrow> int option" where
  "ParseInt64 s =
     (case s of
        [] \<Rightarrow> None
      | c # r \<Rightarrow>
          if c = CHR ''-'' then
            (case ParseUint 64 r of Some n \<Rightarrow> if n \<le> 2 ^ 63 then Some (- int n) else None | None \<Rightarrow> None)
          else
            (case ParseUint 64 (if c = CHR ''+'' then r else s) of
               Some n \<Rightarrow> if n < 2 ^ 63 then Some (int n) else None | None \<Rightarrow> None))"

lemma decimal_digit:
  assumes "n < 10"
  shows "is_digit (char_of (48 + n))" "digit_value (char_of (48 + n)) = n"
proof -
  from assms have "n = 0 \<or> n = 1 \<or> n = 2 \<or> n = 3 \<or> n = 4 \<or> n = 5 \<or> n = 6 \<or> n = 7 \<or> n = 8 \<or> n = 9"
    by auto
  then show "is_digit (char_of (48 + n))" "digit_value (char_of (48 + n)) = n"
    by (elim disjE; simp add: is_digit_def digit_value_def char_of_def bit_simps)+
qed

lemma format_nat_digits: "format_nat n \<noteq> [] \<and> list_all is_digit (format_nat n)"
proof (induction n rule: format_nat.induct)
  case (1 n)
  show ?case
  proof (cases "n < 10")
    case True
    then show ?thesis by (simp add: format_nat.simps [of n] decimal_digit)
  next
    case False
    with 1 have "list_all is_digit (format_nat (n div 10))" by simp
    with False show ?thesis by (simp add: format_nat.simps [of n] decimal_digit)
  qed
qed

lemma decimal_value_snoc: "decimal_value (s @ [c]) = decimal_value s * 10 + digit_value c"
  by (simp add: decimal_value_def)

lemma decimal_value_format: "decimal_value (format_nat n) = n"
proof (induction n rule: format_nat.induct)
  case (1 n)
  show ?case
  proof (cases "n < 10")
    case True
    then show ?thesis by (simp add: format_nat.simps [of n] decimal_value_def decimal_digit)
  next
    case False
    with 1 have "decimal_value (format_nat (n div 10)) = n div 10" by simp
    with False show ?thesis by (simp add: format_nat.simps [of n] decimal_value_snoc decimal_digit)
  qed
qed

lemma ParseUint_format: "n < 2 ^ bits \<Longrightarrow> ParseUint bits (format_nat n) = Some n"
  using format_nat_digits [of n] by (simp add: ParseUint_def decimal_value_format)

lemma ParseUint_bound: "ParseUint bits s = Some n \<Longrightarrow> n < 2 ^ bits"
  by (auto simp: ParseUint_def split: if_splits)

lemma digits_of_format: "c \<in> set (format_nat n) \<Longrightarrow> c \<in> set ''0123456789''"
  using format_nat_digits [of n] unfolding list_all_iff is_digit_def by blast

section \<open>Base64\<close>

definition base64_alphabet :: string where
  "base64_alphabet = ''ABCDEFGHIJKLMNOPQRSTUVWXYZabcdefghijklmnopqrstuvwxyz0123456789+/''"

fun base64_sextets :: "nat list \<Rightarrow> nat list" where
  "base64_sextets [] = []"
| "base64_sextets [a] = [a div 4, a mod 4 * 16]"
| "base64_sextets [a, b] = [a div 4, a mod 4 * 16 + b div 16, b mod 16 * 4]"
| "base64_sextets (a # b # c # r) =
     a div 4 # (a mod 4 * 16 + b div 16) # (b mod 16 * 4 + c div 64) # c mod 64 # base64_sextets r"

definition base64_encode :: "nat list \<Rightarrow> string" where
  "base64_encode bs = map (\<lambda>i. base64_alphabet ! i) (base64_sextets bs)"

text \<open>
  Decoding skips line ends wherever they are, takes no padding, and does not look at the unused
  bits of the last character, as the non-strict decoder of the library.
\<close>

definition base64_index :: "char \<Rightarrow> nat option" where
  "base64_index c = find (\<lambda>i. base64_alphabet ! i = c) [0..<64]"

fun base64_bytes :: "nat list \<Rightarrow> nat list option" where
  "base64_bytes [] = Some []"
| "base64_bytes [x] = None"
| "base64_bytes [x, y] = Some [x * 4 + y div 16]"
| "base64_bytes [x, y, z] = Some [x * 4 + y div 16, y mod 16 * 16 + z div 4]"
| "base64_bytes (x # y # z # u # r) =
     (case base64_bytes r of
        None \<Rightarrow> None
      | Some bs \<Rightarrow> Some ((x * 4 + y div 16) # (y mod 16 * 16 + z div 4) # (z mod 4 * 64 + u) # bs))"

fun map_all :: "('a \<Rightarrow> 'b option) \<Rightarrow> 'a list \<Rightarrow> 'b list option" where
  "map_all f [] = Some []"
| "map_all f (x # xs) =
     (case f x of None \<Rightarrow> None
      | Some y \<Rightarrow> (case map_all f xs of None \<Rightarrow> None | Some ys \<Rightarrow> Some (y # ys)))"

definition base64_decode :: "string \<Rightarrow> nat list option" where
  "base64_decode s =
     (case map_all base64_index (filter (\<lambda>c. c \<noteq> CHR 0x0A \<and> c \<noteq> CHR 0x0D) s) of
        None \<Rightarrow> None | Some xs \<Rightarrow> base64_bytes xs)"

lemma base64_alphabet_distinct: "distinct base64_alphabet" "length base64_alphabet = 64"
  by code_simp+

lemma base64_index_nth: "i < 64 \<Longrightarrow> base64_index (base64_alphabet ! i) = Some i"
proof -
  assume i: "i < 64"
  have "find (\<lambda>j. base64_alphabet ! j = base64_alphabet ! i) [0..<64] = Some i"
    unfolding find_Some_iff
    using i base64_alphabet_distinct
    by (intro exI [of _ i]) (auto simp: nth_eq_iff_index_eq)
  then show ?thesis by (simp add: base64_index_def)
qed

lemma base64_alphabet_plain:
  "c \<in> set base64_alphabet \<Longrightarrow> graphic c \<and> c \<noteq> CHR ''$'' \<and> c \<noteq> CHR 0x0A \<and> c \<noteq> CHR 0x0D"
proof -
  have "list_all (\<lambda>c. graphic c \<and> c \<noteq> CHR ''$'' \<and> c \<noteq> CHR 0x0A \<and> c \<noteq> CHR 0x0D) base64_alphabet" by code_simp
  then show "c \<in> set base64_alphabet \<Longrightarrow> graphic c \<and> c \<noteq> CHR ''$'' \<and> c \<noteq> CHR 0x0A \<and> c \<noteq> CHR 0x0D"
    by (simp add: list_all_iff)
qed

text \<open>Two halves put together and taken apart again.\<close>

lemma glue:
  fixes x q m :: nat
  assumes "q < m"
  shows "(x * m + q) div m = x" "(x * m + q) mod m = q"
  using assms by simp_all

lemma byte_parts:
  fixes b :: nat
  assumes "b < 256"
  shows "b div 4 < 64" "b div 16 < 16" "b div 64 < 4" "b mod 4 < 4" "b mod 16 < 16" "b mod 64 < 64"
  using assms by (simp_all add: less_mult_imp_div_less)

lemma glue_lt: "x < n \<Longrightarrow> q < m \<Longrightarrow> x * m + q < n * (m :: nat)"
  by (metis Suc_leI add.commute less_le_trans mult_Suc mult_le_mono1 nat_add_left_cancel_less)

lemma base64_sextets_lt: "\<forall>b \<in> set bs. b < 256 \<Longrightarrow> \<forall>x \<in> set (base64_sextets bs). x < 64"
proof (induction bs rule: base64_sextets.induct)
  case (2 a)
  then show ?case using byte_parts [of a] by simp
next
  case (3 a b)
  then show ?case
    using byte_parts [of a] byte_parts [of b] glue_lt [of "a mod 4" 4 "b div 16" 16] by simp
next
  case (4 a b c r)
  then show ?case
    using byte_parts [of a] byte_parts [of b] byte_parts [of c] glue_lt [of "a mod 4" 4 "b div 16" 16]
      glue_lt [of "b mod 16" 16 "c div 64" 4] by simp
qed simp

lemma base64_bytes_sextets: "\<forall>b \<in> set bs. b < 256 \<Longrightarrow> base64_bytes (base64_sextets bs) = Some bs"
proof (induction bs rule: base64_sextets.induct)
  case (3 a b)
  then show ?case using byte_parts [of b] by (simp add: glue)
next
  case (4 a b c r)
  then show ?case using byte_parts [of b] byte_parts [of c] by (simp add: glue)
qed simp_all

lemma map_all_nth:
  "\<forall>x \<in> set xs. x < 64 \<Longrightarrow> map_all base64_index (map (\<lambda>i. base64_alphabet ! i) xs) = Some xs"
  by (induction xs) (auto simp: base64_index_nth)

lemma base64_encode_chars: "\<forall>b \<in> set bs. b < 256 \<Longrightarrow> set (base64_encode bs) \<subseteq> set base64_alphabet"
  using base64_sextets_lt [of bs] base64_alphabet_distinct by (auto simp: base64_encode_def)

lemma base64_roundtrip: "\<forall>b \<in> set bs. b < 256 \<Longrightarrow> base64_decode (base64_encode bs) = Some bs"
proof -
  assume b: "\<forall>b \<in> set bs. b < 256"
  have "\<forall>c \<in> set (base64_encode bs). c \<noteq> CHR 0x0A \<and> c \<noteq> CHR 0x0D"
    using base64_encode_chars [OF b] base64_alphabet_plain by blast
  then have "filter (\<lambda>c. c \<noteq> CHR 0x0A \<and> c \<noteq> CHR 0x0D) (base64_encode bs) = base64_encode bs"
    by (simp add: filter_id_conv)
  then show ?thesis
    using b map_all_nth [OF base64_sextets_lt [OF b]]
    by (simp add: base64_decode_def base64_encode_def base64_bytes_sextets)
qed

lemma length_base64_sextets: "length (base64_sextets bs) = (4 * length bs + 2) div 3"
  by (induction bs rule: base64_sextets.induct) (auto simp: algebra_simps)

lemma length_base64_encode: "length (base64_encode bs) = (4 * length bs + 2) div 3"
  by (simp add: base64_encode_def length_base64_sextets)

lemma split_on_length: "p \<in> set (split_on c s) \<Longrightarrow> length p \<le> length s"
  by (induction s arbitrary: p) (auto split: list.splits if_splits, fastforce+)

lemma base64_bytes_length: "base64_bytes xs = Some bs \<Longrightarrow> length bs \<le> length xs"
  by (induction xs arbitrary: bs rule: base64_bytes.induct) (auto split: option.splits)

lemma map_all_length: "map_all f xs = Some ys \<Longrightarrow> length ys = length xs"
  by (induction xs arbitrary: ys) (auto split: option.splits)

lemma base64_decode_length: "base64_decode s = Some bs \<Longrightarrow> length bs \<le> length s"
proof -
  assume "base64_decode s = Some bs"
  then obtain xs where x: "map_all base64_index (filter (\<lambda>c. c \<noteq> CHR 0x0A \<and> c \<noteq> CHR 0x0D) s) = Some xs"
    and b: "base64_bytes xs = Some bs"
    by (auto simp: base64_decode_def split: option.splits)
  have "length bs \<le> length xs" by (rule base64_bytes_length [OF b])
  also have "\<dots> \<le> length s" using map_all_length [OF x] by simp
  finally show ?thesis .
qed

section \<open>URLs\<close>

text \<open>
  The parts of \<^verbatim>\<open>url.URL\<close> the link builders use, its escaping and \<^verbatim>\<open>String\<close> for a URL with a scheme and
  without user information. Escaped bytes are written with upper-case hexadecimal digits.
\<close>

record url =
  urlScheme :: string
  urlUser :: bool
  urlHost :: string
  urlPath :: string
  urlRawQuery :: string
  urlFragment :: string

definition url_unreserved :: "char \<Rightarrow> bool" where
  "url_unreserved c \<longleftrightarrow>
     c \<in> set ''ABCDEFGHIJKLMNOPQRSTUVWXYZabcdefghijklmnopqrstuvwxyz0123456789-_.~''"

definition url_escape_byte :: "char \<Rightarrow> string" where
  "url_escape_byte c = CHR ''%'' # map (\<lambda>i. ''0123456789ABCDEF'' ! i) [of_char c div 16, of_char c mod 16]"

definition url_escape :: "string \<Rightarrow> string \<Rightarrow> string" where
  "url_escape keep s = concat (map (\<lambda>c. if url_unreserved c \<or> c \<in> set keep then [c] else url_escape_byte c) s)"

definition QueryEscape :: "string \<Rightarrow> string" where
  "QueryEscape s = concat (map (\<lambda>c. if url_unreserved c then [c] else if c = CHR '' '' then ''+'' else url_escape_byte c) s)"

definition url_host_keeps :: string where
  "url_host_keeps = ''!$&()*+,;=:[]<>'' @ [CHR 0x22, CHR 0x27]"

definition url_String :: "url \<Rightarrow> string" where
  "url_String u =
     urlScheme u @ ''://'' @ url_escape url_host_keeps (urlHost u)
     @ (if urlPath u \<noteq> [] \<and> hd (urlPath u) \<noteq> CHR ''/'' \<and> urlHost u \<noteq> [] then ''/'' else [])
     @ url_escape ''$&+,/:;=@'' (urlPath u)
     @ (if urlRawQuery u \<noteq> [] then CHR ''?'' # urlRawQuery u else [])
     @ (if urlFragment u \<noteq> [] then CHR ''#'' # urlFragment u else [])"

definition TrimRightSlash :: "string \<Rightarrow> string" where
  "TrimRightSlash s = rev (dropWhile (\<lambda>c. c = CHR ''/'') (rev s))"

text \<open>The link with a path appended to the base and one query parameter \<^verbatim>\<open>token\<close>.\<close>

definition token_link :: "url \<Rightarrow> string \<Rightarrow> string \<Rightarrow> string" where
  "token_link base path token =
     url_String (base\<lparr>urlPath := TrimRightSlash (urlPath base) @ path, urlRawQuery := ''token='' @ QueryEscape token\<rparr>)"

end
