(* ===== verification/PasswordHash.thy ===== *)
theory PasswordHash
  imports GoText Database
begin

text \<open>
  Password hashing (\<^verbatim>\<open>internal/service/password_hash.go\<close>): the Argon2id parameters and their
  limits, the encoded form \<^verbatim>\<open>$argon2id$v=..$m=..,t=..,p=..$salt$key\<close>, hashing with a fresh salt and
  verification against a stored hash. The key derivation is the third-party \<^verbatim>\<open>argon2\<close> package, a
  parameter. The channel that caps concurrent derivations delays callers and changes no result.
\<close>

definition maxPasswordHashMemory :: "32 word" where "maxPasswordHashMemory = 2 ^ 30"
definition maxPasswordHashTime :: "32 word" where "maxPasswordHashTime = 10"
definition maxPasswordHashBytes :: "32 word" where "maxPasswordHashBytes = 2 ^ 20"

record password_hash_config =
  phMemory :: "32 word"
  phTime :: "32 word"
  phThreads :: "8 word"
  phSaltLength :: "32 word"
  phKeyLength :: "32 word"

definition DefaultPasswordHashConfig :: password_hash_config where
  "DefaultPasswordHashConfig =
     \<lparr>phMemory = 64 * 1024, phTime = 3, phThreads = 4, phSaltLength = 16, phKeyLength = 32\<rparr>"

definition zero_hash_config :: password_hash_config where
  "zero_hash_config = \<lparr>phMemory = 0, phTime = 0, phThreads = 0, phSaltLength = 0, phKeyLength = 0\<rparr>"

text \<open>
  The \<^verbatim>\<open>argon2\<close> package: \<^verbatim>\<open>Version\<close> and \<^verbatim>\<open>IDKey(password, salt, time, memory, threads, keyLen)\<close>. It
  documents that the key has the length asked for; a key is bytes, and the version an \<^verbatim>\<open>int\<close> constant.
\<close>

record argon2 =
  Version :: nat
  IDKey :: "string \<Rightarrow> nat list \<Rightarrow> 32 word \<Rightarrow> 32 word \<Rightarrow> 8 word \<Rightarrow> 32 word \<Rightarrow> nat list"

definition argon2_ok :: "argon2 \<Rightarrow> bool" where
  "argon2_ok A \<longleftrightarrow> Version A < 2 ^ 32 \<and>
     (\<forall>p s t m c k. length (IDKey A p s t m c k) = unat k \<and> (\<forall>b \<in> set (IDKey A p s t m c k). b < 256))"

definition validatePasswordHashConfig :: "password_hash_config \<Rightarrow> error + unit" where
  "validatePasswordHashConfig config =
     (if phMemory config = 0 \<or> maxPasswordHashMemory < phMemory config \<or> phTime config = 0
          \<or> maxPasswordHashTime < phTime config \<or> phThreads config = 0
      then Inl (Auth ErrInvalidPasswordHashConfig)
      else let minimumMemory = ucast (phThreads config) * 8 in
        if phMemory config < minimumMemory \<or> phSaltLength config < 8
          \<or> maxPasswordHashBytes < phSaltLength config \<or> phKeyLength config = 0
          \<or> maxPasswordHashBytes < phKeyLength config
        then Inl (Auth ErrInvalidPasswordHashConfig)
        else Inr ())"

definition normalizePasswordHashConfig :: "password_hash_config \<Rightarrow> error + password_hash_config" where
  "normalizePasswordHashConfig config =
     (let config = (if config = zero_hash_config then DefaultPasswordHashConfig else config) in
      case validatePasswordHashConfig config of Inl err \<Rightarrow> Inl err | Inr _ \<Rightarrow> Inr config)"

definition NewPasswordHasher :: "password_hash_config \<Rightarrow> error + password_hash_config" where
  "NewPasswordHasher config = normalizePasswordHashConfig config"

definition derive :: "argon2 \<Rightarrow> string \<Rightarrow> nat list \<Rightarrow> password_hash_config \<Rightarrow> nat list" where
  "derive A password salt config =
     IDKey A password salt (phTime config) (phMemory config) (phThreads config) (phKeyLength config)"

definition encodePasswordHash :: "argon2 \<Rightarrow> password_hash_config \<Rightarrow> nat list \<Rightarrow> nat list \<Rightarrow> string" where
  "encodePasswordHash A config salt key =
     ''$argon2id$v='' @ format_nat (Version A) @ ''$m='' @ format_nat (unat (phMemory config))
     @ '',t='' @ format_nat (unat (phTime config)) @ '',p='' @ format_nat (unat (phThreads config))
     @ ''$'' @ base64_encode salt @ ''$'' @ base64_encode key"

definition Hash :: "argon2 \<Rightarrow> password_hash_config \<Rightarrow> string \<Rightarrow> string prog" where
  "Hash A h password =
     check (normalizePasswordHashConfig h) id (\<lambda>config.
     check (ValidatePassword password) Wrap (\<lambda>_.
     call (rand_read (unat (phSaltLength config))) Wrap (\<lambda>salt.
     ret (encodePasswordHash A config salt (derive A password salt config)))))"

record parsed_password_hash =
  ppConfig :: password_hash_config
  ppSalt :: "nat list"
  ppKey :: "nat list"

definition parsePasswordHashParameter :: "string \<Rightarrow> string \<Rightarrow> nat option" where
  "parsePasswordHashParameter raw name =
     (case cut_prefix (name @ ''='') raw of None \<Rightarrow> None | Some digits \<Rightarrow> ParseUint 32 digits)"

text \<open>The one error of the parser is \<^verbatim>\<open>ErrInvalidPasswordHash\<close>, so a failed parse is \<open>None\<close>.\<close>

fun parse_hash_cost :: "string list \<Rightarrow> (nat \<times> nat \<times> nat) option" where
  "parse_hash_cost [m, t, p] =
     (case parsePasswordHashParameter m ''m'' of
        None \<Rightarrow> None
      | Some memory \<Rightarrow> (case parsePasswordHashParameter t ''t'' of
            None \<Rightarrow> None
          | Some timeCost \<Rightarrow> (case parsePasswordHashParameter p ''p'' of
                None \<Rightarrow> None
              | Some threads \<Rightarrow> if 255 < threads then None else Some (memory, timeCost, threads))))"
| "parse_hash_cost _ = None"

fun parse_hash_parts :: "argon2 \<Rightarrow> string list \<Rightarrow> parsed_password_hash option" where
  "parse_hash_parts A [p0, p1, p2, p3, p4, p5] =
     (if p0 \<noteq> [] \<or> p1 \<noteq> ''argon2id'' \<or> parsePasswordHashParameter p2 ''v'' \<noteq> Some (Version A) then None
      else (case parse_hash_cost (split_on (CHR '','') p3) of
          None \<Rightarrow> None
        | Some (memory, timeCost, threads) \<Rightarrow>
            (case base64_decode p4 of
               None \<Rightarrow> None
             | Some salt \<Rightarrow> (case base64_decode p5 of
                   None \<Rightarrow> None
                 | Some key \<Rightarrow>
                     let config = \<lparr>phMemory = of_nat memory, phTime = of_nat timeCost,
                           phThreads = of_nat threads, phSaltLength = of_nat (length salt),
                           phKeyLength = of_nat (length key)\<rparr> in
                     case validatePasswordHashConfig config of
                       Inl _ \<Rightarrow> None
                     | Inr _ \<Rightarrow> Some \<lparr>ppConfig = config, ppSalt = salt, ppKey = key\<rparr>))))"
| "parse_hash_parts A _ = None"

definition parsePasswordHash :: "argon2 \<Rightarrow> string \<Rightarrow> error + parsed_password_hash" where
  "parsePasswordHash A encoded =
     (case parse_hash_parts A (split_on (CHR ''$'') encoded) of
        None \<Rightarrow> Inl (Auth ErrInvalidPasswordHash) | Some parsed \<Rightarrow> Inr parsed)"

definition Verify :: "argon2 \<Rightarrow> string \<Rightarrow> string \<Rightarrow> error + bool" where
  "Verify A password encodedHash =
     (case parsePasswordHash A encodedHash of
        Inl err \<Rightarrow> Inl err
      | Inr parsed \<Rightarrow> Inr (derive A password (ppSalt parsed) (ppConfig parsed) = ppKey parsed))"

section \<open>Encoding and parsing\<close>

definition valid_config :: "password_hash_config \<Rightarrow> bool" where
  "valid_config c \<longleftrightarrow> validatePasswordHashConfig c = Inr ()"

lemma unat_widths: "unat (x :: 32 word) < 4294967296" "unat (y :: 8 word) < 256"
  using unsigned_less [of x, where ?'a = nat] unsigned_less [of y, where ?'a = nat] by simp_all

lemma valid_config_iff:
  "valid_config c \<longleftrightarrow>
     0 < unat (phMemory c) \<and> unat (phMemory c) \<le> 2 ^ 30 \<and> 0 < unat (phTime c) \<and> unat (phTime c) \<le> 10
     \<and> 0 < unat (phThreads c) \<and> 8 * unat (phThreads c) \<le> unat (phMemory c)
     \<and> 8 \<le> unat (phSaltLength c) \<and> unat (phSaltLength c) \<le> 2 ^ 20
     \<and> 0 < unat (phKeyLength c) \<and> unat (phKeyLength c) \<le> 2 ^ 20"
proof -
  have t: "unat (ucast (phThreads c) * 8 :: 32 word) = 8 * unat (phThreads c)"
    using unat_widths(2) [of "phThreads c"]
    by (simp add: unat_word_ariths unsigned_ucast_eq take_bit_nat_eq_self)
  show ?thesis
    unfolding valid_config_def validatePasswordHashConfig_def Let_def maxPasswordHashMemory_def
      maxPasswordHashTime_def maxPasswordHashBytes_def
    by (auto simp: word_less_nat_alt t unat_gt_0 unat_eq_0 not_less split: if_splits)
qed

lemma valid_config_default: "valid_config DefaultPasswordHashConfig"
  by (simp add: valid_config_iff DefaultPasswordHashConfig_def)

lemma normalize_config_Inr:
  "normalizePasswordHashConfig h = Inr c \<longleftrightarrow>
     valid_config c \<and> c = (if h = zero_hash_config then DefaultPasswordHashConfig else h)"
  by (auto simp: normalizePasswordHashConfig_def valid_config_def Let_def split: sum.splits)

lemma parse_hash_parameter: "n < 2 ^ 32 \<Longrightarrow> parsePasswordHashParameter (name @ ''='' @ format_nat n) name = Some n"
  unfolding parsePasswordHashParameter_def append_assoc [symmetric] cut_prefix_append
  by (simp add: ParseUint_format)

lemma format_nat_plain: "CHR ''$'' \<notin> set (format_nat n)" "CHR '','' \<notin> set (format_nat n)"
  by (auto dest!: digits_of_format)

lemma parse_encode:
  assumes A: "argon2_ok A" and c: "valid_config c"
    and s: "\<forall>b \<in> set salt. b < 256" "length salt = unat (phSaltLength c)"
    and k: "\<forall>b \<in> set key. b < 256" "length key = unat (phKeyLength c)"
  shows "parsePasswordHash A (encodePasswordHash A c salt key)
    = Inr \<lparr>ppConfig = c, ppSalt = salt, ppKey = key\<rparr>"
proof -
  let ?m = "format_nat (unat (phMemory c))" and ?t = "format_nat (unat (phTime c))"
    and ?p = "format_nat (unat (phThreads c))"
  have plain: "CHR ''$'' \<notin> set (base64_encode salt)" "CHR ''$'' \<notin> set (base64_encode key)"
    using base64_encode_chars [OF s(1)] base64_encode_chars [OF k(1)] base64_alphabet_plain by blast+
  have enc: "encodePasswordHash A c salt key = [] @ CHR ''$'' # ''argon2id'' @ CHR ''$'' # (''v='' @ format_nat (Version A))
      @ CHR ''$'' # (''m='' @ ?m @ '',t='' @ ?t @ '',p='' @ ?p) @ CHR ''$'' # base64_encode salt @ CHR ''$'' # base64_encode key"
    by (simp add: encodePasswordHash_def)
  have parts: "split_on (CHR ''$'') (encodePasswordHash A c salt key) = [[], ''argon2id'', ''v='' @ format_nat (Version A),
      ''m='' @ ?m @ '',t='' @ ?t @ '',p='' @ ?p, base64_encode salt, base64_encode key]"
    unfolding enc using plain format_nat_plain
    by (subst split_on_first, simp)+ (simp add: split_on_none)
  have cost: "split_on (CHR '','') (''m='' @ ?m @ '',t='' @ ?t @ '',p='' @ ?p)
      = [''m='' @ ?m, ''t='' @ ?t, ''p='' @ ?p]"
    using format_nat_plain
      split_on_first [of "CHR '',''" "''m='' @ ?m" "''t='' @ ?t @ '',p='' @ ?p"]
      split_on_first [of "CHR '',''" "''t='' @ ?t" "''p='' @ ?p"]
    by (simp add: split_on_none)
  have num: "parsePasswordHashParameter (''v='' @ format_nat (Version A)) ''v'' = Some (Version A)"
    "parsePasswordHashParameter (''m='' @ ?m) ''m'' = Some (unat (phMemory c))"
    "parsePasswordHashParameter (''t='' @ ?t) ''t'' = Some (unat (phTime c))"
    "parsePasswordHashParameter (''p='' @ ?p) ''p'' = Some (unat (phThreads c))"
    using parse_hash_parameter [of "Version A" "''v''"] parse_hash_parameter [of "unat (phMemory c)" "''m''"]
      parse_hash_parameter [of "unat (phTime c)" "''t''"] parse_hash_parameter [of "unat (phThreads c)" "''p''"]
      A unat_widths(1) [of "phMemory c"] unat_widths(1) [of "phTime c"] unat_widths(2) [of "phThreads c"]
    by (simp_all add: argon2_ok_def)
  have threads: "\<not> 255 < unat (phThreads c)" using unat_widths(2) [of "phThreads c"] by simp
  have config: "\<lparr>phMemory = of_nat (unat (phMemory c)), phTime = of_nat (unat (phTime c)),
      phThreads = of_nat (unat (phThreads c)), phSaltLength = of_nat (length salt), phKeyLength = of_nat (length key)\<rparr> = c"
    using s(2) k(2) by simp
  show ?thesis
    using c threads unfolding parsePasswordHash_def parts parse_hash_parts.simps cost parse_hash_cost.simps num
      base64_roundtrip [OF s(1)] base64_roundtrip [OF k(1)] option.case prod.case
    by (simp add: config [simplified] valid_config_def Let_def)
qed

lemma parse_hash_parts_Some:
  assumes "parse_hash_parts A ps = Some p"
  obtains p0 p1 p2 p3 p4 p5 salt key where "ps = [p0, p1, p2, p3, p4, p5]"
    "base64_decode p4 = Some salt" "base64_decode p5 = Some key"
    "ppSalt p = salt" "ppKey p = key" "valid_config (ppConfig p)"
    "phSaltLength (ppConfig p) = of_nat (length salt)" "phKeyLength (ppConfig p) = of_nat (length key)"
  using assms
  by (cases "(A, ps)" rule: parse_hash_parts.cases)
     (auto simp: Let_def valid_config_def split: if_splits option.splits prod.splits sum.splits)

lemma Hash_Inr:
  assumes "Hash A h p w = (Inr enc, w')"
  obtains c salt where "valid_config c" "normalizePasswordHashConfig h = Inr c"
    "length salt = unat (phSaltLength c)" "set salt \<subseteq> set (entropy w)"
    "enc = encodePasswordHash A c salt (derive A p salt c)" "ValidatePassword p = Inr ()"
    "tables w' = tables w" "faults w' = faults w" "now_ns w' = now_ns w"
proof -
  from assms obtain c salt where n: "normalizePasswordHashConfig h = Inr c" "ValidatePassword p = Inr ()"
    and r: "rand_read (unat (phSaltLength c)) w = (Inr salt, w')"
    and e: "enc = encodePasswordHash A c salt (derive A p salt c)"
    by (auto simp: Hash_def)
  moreover have "set salt \<subseteq> set (entropy w)"
    using r by (auto simp: rand_read_def split: if_splits dest: in_set_takeD)
  ultimately show thesis
    using that [of c salt, OF _ n(1) _ _ e n(2)] rand_read_Inr [OF r] normalize_config_Inr [of h c] by metis
qed

lemma Hash_succeeds:
  assumes "normalizePasswordHashConfig h = Inr c" "ValidatePassword p = Inr ()"
    and "unat (phSaltLength c) \<le> length (entropy w)"
  obtains enc w' where "Hash A h p w = (Inr enc, w')"
  using assms by (simp add: Hash_def check_def call_def rand_read_def ret_def)

lemma evolves_Hash [evolves_intro]: "preord R \<Longrightarrow> evolves (on_tables R) (Hash A h p)"
  unfolding Hash_def by (intro evolves_intro preord_intro)

section \<open>Properties\<close>

text \<open>
  C11: Hash then verify. A hash made by any hasher verifies the password it was made from, under every other hasher too,
  since the stored parameters decide; another password is accepted only if it derives the same key from the stored salt.
  Nothing but the random source is used.
\<close>

theorem Hash_Verify:
  assumes A: "argon2_ok A" and bytes: "\<forall>b \<in> set (entropy w). b < 256"
    and run: "Hash A h p w = (Inr enc, w')"
  shows "Verify A p enc = Inr True \<and> tables w' = tables w
    \<and> (\<exists>c salt. normalizePasswordHashConfig h = Inr c \<and> length salt = unat (phSaltLength c)
        \<and> (\<forall>q. Verify A q enc = Inr (derive A q salt c = derive A p salt c)))"
proof -
  from run obtain c salt where c: "valid_config c" "normalizePasswordHashConfig h = Inr c"
    and s: "length salt = unat (phSaltLength c)" "set salt \<subseteq> set (entropy w)"
    and e: "enc = encodePasswordHash A c salt (derive A p salt c)" and t: "tables w' = tables w"
    by (rule Hash_Inr)
  have "parsePasswordHash A enc = Inr \<lparr>ppConfig = c, ppSalt = salt, ppKey = derive A p salt c\<rparr>"
    unfolding e using A s bytes by (intro parse_encode c) (auto simp: argon2_ok_def derive_def)
  then have "Verify A q enc = Inr (derive A q salt c = derive A p salt c)" for q
    by (simp add: Verify_def)
  with c s t show ?thesis by auto
qed

text \<open>The example derivation repeats the length of the password.\<close>

definition demo_argon2 :: argon2 where
  "demo_argon2 = \<lparr>Version = 19, IDKey = (\<lambda>p s t m c k. replicate (unat k) (length p mod 256))\<rparr>"

definition demo_hash_config :: password_hash_config where
  "demo_hash_config = \<lparr>phMemory = 64, phTime = 1, phThreads = 1, phSaltLength = 8, phKeyLength = 2\<rparr>"

lemma demo_argon2_ok: "argon2_ok demo_argon2"
  by (simp add: argon2_ok_def demo_argon2_def)

lemma demo_hash_config_valid: "normalizePasswordHashConfig demo_hash_config = Inr demo_hash_config"
  by (simp add: normalize_config_Inr valid_config_iff demo_hash_config_def zero_hash_config_def)

lemma demo_password_valid: "ValidatePassword ''password'' = Inr ()"
proof -
  have "is_ascii ''password''" by code_simp
  then show ?thesis
    by (simp add: ValidatePassword_def RuneCountInString_ascii ValidString_ascii MinimumPasswordLength_def
        MaximumPasswordLength_def)
qed

theorem Hash_Verify_witness:
  "\<exists>enc w'. Hash demo_argon2 demo_hash_config ''password'' demo_world = (Inr enc, w')
     \<and> Verify demo_argon2 ''password'' enc = Inr True \<and> Verify demo_argon2 ''pass'' enc = Inr False"
proof -
  obtain enc w' where r: "Hash demo_argon2 demo_hash_config ''password'' demo_world = (Inr enc, w')"
    by (rule Hash_succeeds [OF demo_hash_config_valid demo_password_valid, of demo_world demo_argon2])
       (simp add: demo_hash_config_def)
  have "\<forall>b \<in> set (entropy demo_world). b < 256" by simp
  then show ?thesis
    using Hash_Verify [OF demo_argon2_ok _ r] r demo_hash_config_valid
    by (auto simp: derive_def demo_argon2_def demo_hash_config_def)
qed

text \<open>
  A stored hash cannot make verification unbounded. Whatever text is stored, the derivation runs only with at most ten passes, at most
  one tebibyte of memory and eight kibibytes per thread at least, a salt of at least eight bytes and a key
  of the length that is compared; anything else is refused with \<open>ErrInvalidPasswordHash\<close>. In particular an empty key is
  never accepted.
\<close>

theorem parse_bounds:
  assumes "length encoded < 2 ^ 32"
  shows "parsePasswordHash A encoded = Inl (Auth ErrInvalidPasswordHash) \<or>
    (\<exists>c salt key. parsePasswordHash A encoded = Inr \<lparr>ppConfig = c, ppSalt = salt, ppKey = key\<rparr>
       \<and> 1 \<le> unat (phTime c) \<and> unat (phTime c) \<le> 10 \<and> unat (phMemory c) \<le> 2 ^ 30
       \<and> 1 \<le> unat (phThreads c) \<and> 8 * unat (phThreads c) \<le> unat (phMemory c)
       \<and> 8 \<le> length salt \<and> length salt \<le> 2 ^ 20 \<and> 1 \<le> length key \<and> length key \<le> 2 ^ 20
       \<and> unat (phKeyLength c) = length key)"
proof (cases "parsePasswordHash A encoded")
  case (Inl e)
  then show ?thesis by (simp add: parsePasswordHash_def split: option.splits)
next
  case (Inr p)
  then have "parse_hash_parts A (split_on (CHR ''$'') encoded) = Some p"
    by (simp add: parsePasswordHash_def split: option.splits)
  then obtain p0 p1 p2 p3 p4 p5 salt key where
    parts: "split_on (CHR ''$'') encoded = [p0, p1, p2, p3, p4, p5]"
    and d: "base64_decode p4 = Some salt" "base64_decode p5 = Some key"
    and p: "ppSalt p = salt" "ppKey p = key" "valid_config (ppConfig p)"
      "phSaltLength (ppConfig p) = of_nat (length salt)" "phKeyLength (ppConfig p) = of_nat (length key)"
    by (rule parse_hash_parts_Some)
  have "length p4 \<le> length encoded" "length p5 \<le> length encoded"
    using split_on_length [of _ "CHR ''$''" encoded] unfolding parts by simp_all
  with d assms have "length salt < 2 ^ 32" "length key < 2 ^ 32"
    by (auto dest!: base64_decode_length)
  then have "unat (phSaltLength (ppConfig p)) = length salt" "unat (phKeyLength (ppConfig p)) = length key"
    using p(4,5) by (simp_all add: unat_of_nat)
  then have "p = \<lparr>ppConfig = ppConfig p, ppSalt = salt, ppKey = key\<rparr>"
    "unat (phSaltLength (ppConfig p)) = length salt" "unat (phKeyLength (ppConfig p)) = length key"
    using p by (cases p; simp)+
  with p(3) Inr show ?thesis unfolding valid_config_iff by (metis One_nat_def Suc_leI)
qed

theorem parse_bounds_witness:
  "parsePasswordHash demo_argon2 ''x'' = Inl (Auth ErrInvalidPasswordHash)"
proof -
  have "split_on (CHR ''$'') ''x'' = [''x'']" by simp
  then have "\<not> (\<exists>p. parsePasswordHash demo_argon2 ''x'' = Inr p)" by (simp add: parsePasswordHash_def)
  then show ?thesis using parse_bounds [of "''x''" demo_argon2] by auto
qed

text \<open>
  Hashes with the default parameters can always be stored. The encoded form is 97 graphic ASCII characters (with a two-digit
  version), so it fits the 255 characters of \<open>users.password_hash\<close>, whatever the password and the salt.
\<close>

theorem default_hash_storable:
  assumes "argon2_ok A" "Version A = 19" "\<forall>b \<in> set (entropy w). b < 256"
    and "Hash A zero_hash_config p w = (Inr enc, w')"
  shows "length enc = 97 \<and> opt_varchar 255 (Some enc) \<and> (\<forall>x \<in> set enc. graphic x)"
proof -
  from assms(4) obtain c salt where n: "normalizePasswordHashConfig zero_hash_config = Inr c"
    and s: "length salt = unat (phSaltLength c)" "set salt \<subseteq> set (entropy w)"
    and e: "enc = encodePasswordHash A c salt (derive A p salt c)"
    by (rule Hash_Inr)
  have c: "c = DefaultPasswordHashConfig" using n by (simp add: normalize_config_Inr)
  have key: "length (derive A p salt c) = 32" "\<forall>b \<in> set (derive A p salt c). b < 256"
    using assms(1) by (simp_all add: argon2_ok_def derive_def c DefaultPasswordHashConfig_def)
  have "format_nat 19 = ''19''" "format_nat 65536 = ''65536''" "format_nat 3 = ''3''" "format_nat 4 = ''4''"
    by (simp_all add: format_nat.simps char_of_def bit_simps)
  then have e': "enc = ''$argon2id$v=19$m=65536,t=3,p=4$'' @ base64_encode salt @ ''$'' @ base64_encode (derive A p salt c)"
    by (simp add: e encodePasswordHash_def c DefaultPasswordHashConfig_def assms(2))
  have l: "length enc = 97"
    using s key by (simp add: e' length_base64_encode c DefaultPasswordHashConfig_def)
  have "\<forall>x \<in> set ''$argon2id$v=19$m=65536,t=3,p=4$''. graphic x" by code_simp
  then have g: "\<forall>x \<in> set enc. graphic x"
    using base64_encode_chars [of salt] base64_encode_chars [OF key(2)] base64_alphabet_plain s assms(3)
    unfolding e' by auto
  have "RuneCountInString enc \<le> 255" using RuneCountInString_le_length [of enc] l by simp
  with l g show ?thesis by (simp add: opt_varchar_def varchar_def)
qed

theorem default_hash_storable_witness:
  "\<exists>enc w'. Hash demo_argon2 zero_hash_config ''password'' demo_world = (Inr enc, w') \<and> opt_varchar 255 (Some enc)"
proof -
  have n: "normalizePasswordHashConfig zero_hash_config = Inr DefaultPasswordHashConfig"
    by (simp add: normalize_config_Inr valid_config_default)
  obtain enc w' where r: "Hash demo_argon2 zero_hash_config ''password'' demo_world = (Inr enc, w')"
    by (rule Hash_succeeds [OF n demo_password_valid, of demo_world demo_argon2])
       (simp add: DefaultPasswordHashConfig_def)
  then show ?thesis
    using default_hash_storable [OF demo_argon2_ok _ _ r] by (auto simp: demo_argon2_def)
qed

end
