(* ===== verification/Recovery.thy ===== *)
theory Recovery
  imports TokenStore PasswordHash RateLimitStore
begin

text \<open>
  Account recovery by mail (\<^verbatim>\<open>internal/service/confirmation.go\<close>, \<^verbatim>\<open>resend.go\<close>, \<^verbatim>\<open>password_reset.go\<close>,
  \<^verbatim>\<open>password_reset_consume.go\<close>): issuing a link, redeeming it, and the public requests that must not
  tell whether an account exists.
\<close>

definition confirmationTokenBytes :: nat where "confirmationTokenBytes = 32"
definition maxConfirmationTokenLength :: nat where "maxConfirmationTokenLength = confirmationTokenBytes * 2"
definition confirmationPath :: string where "confirmationPath = ''/confirm-email''"
definition passwordResetTokenBytes :: nat where "passwordResetTokenBytes = 32"
definition maxPasswordResetTokenLength :: nat where "maxPasswordResetTokenLength = passwordResetTokenBytes * 2"
definition passwordResetPath :: string where "passwordResetPath = ''/reset-password''"
definition passwordResetRequestAction :: string where "passwordResetRequestAction = ''password-reset.request''"
definition confirmationResendAction :: string where "confirmationResendAction = ''email-confirmation.resend''"

lemmas recovery_limits = confirmationTokenBytes_def maxConfirmationTokenLength_def passwordResetTokenBytes_def
  maxPasswordResetTokenLength_def

text \<open>\<^verbatim>\<open>EmailConfirmationService\<close>, \<^verbatim>\<open>PasswordResetService\<close> and \<^verbatim>\<open>PasswordResetConsumer\<close>; lifetimes in nanoseconds.\<close>

record confirmation_service =
  ecPublicURL :: url
  ecLifetime :: int

record reset_service =
  prLimiter :: "world rate_limiter"
  prPublicURL :: url
  prLifetime :: int

record reset_consumer =
  pcHash :: "string \<Rightarrow> string prog"
  pcSessions :: session_service

definition usable_public_url :: "url \<Rightarrow> bool" where
  "usable_public_url u \<longleftrightarrow> (urlScheme u = ''http'' \<or> urlScheme u = ''https'') \<and> urlHost u \<noteq> [] \<and> \<not> urlUser u
     \<and> urlRawQuery u = [] \<and> urlFragment u = []"

definition NewEmailConfirmationService :: "url \<Rightarrow> int \<Rightarrow> error + confirmation_service" where
  "NewEmailConfirmationService publicURL lifetime =
     (if \<not> usable_public_url publicURL \<or> lifetime < time_Second then Inl (Tok ErrInvalidConfirmationConfig)
      else Inr \<lparr>ecPublicURL = publicURL, ecLifetime = lifetime\<rparr>)"

definition NewPasswordResetService :: "world rate_limiter \<Rightarrow> url \<Rightarrow> int \<Rightarrow> error + reset_service" where
  "NewPasswordResetService limiter publicURL lifetime =
     (if \<not> usable_public_url publicURL \<or> lifetime < time_Second then Inl (Tok ErrInvalidPasswordResetConfig)
      else Inr \<lparr>prLimiter = limiter, prPublicURL = publicURL, prLifetime = lifetime\<rparr>)"

section \<open>Email confirmation\<close>

definition newConfirmationToken :: "string prog" where
  "newConfirmationToken =
     call (rand_read confirmationTokenBytes) (\<lambda>_. Wrap (Tok ErrConfirmationTokenGeneration)) (\<lambda>value.
     let token = hex_encode value in
     if length token \<noteq> maxConfirmationTokenLength then fail (Tok ErrConfirmationTokenGeneration) else ret token)"

definition normalizeConfirmationToken :: "string \<Rightarrow> error + string" where
  "normalizeConfirmationToken raw =
     (if length raw \<noteq> maxConfirmationTokenLength then Inl (Tok ErrInvalidConfirmationToken)
      else if \<not> hex_decodable raw then Inl (Tok ErrInvalidConfirmationToken)
      else Inr raw)"

definition confirmationLink :: "confirmation_service \<Rightarrow> string \<Rightarrow> string" where
  "confirmationLink s token = token_link (ecPublicURL s) confirmationPath token"

definition confirmation_mail :: "confirmation_service \<Rightarrow> string \<Rightarrow> string \<Rightarrow> mail" where
  "confirmation_mail s email token = \<lparr>mailTo = email, mailSubject = ''Confirm your email address'',
     mailTextBody = ''Open this link to confirm your email address:'' @ [CHR 0x0A, CHR 0x0A] @ confirmationLink s token
       @ [CHR 0x0A, CHR 0x0A] @ ''This link can be used once.''\<rparr>"

definition Issue :: "golib \<Rightarrow> confirmation_service \<Rightarrow> int \<Rightarrow> unit prog" where
  "Issue L s userID =
     (if userID \<le> 0 then fail (Tok ErrInvalidConfirmationUser)
      else
        call (FindUserByID userID) Wrap (\<lambda>user.
        if uID user \<noteq> userID \<or> uIsGuest user \<or> uEmail user = None then fail (Tok ErrInvalidConfirmationUser)
        else (case NormalizeEmail L (the (uEmail user)) of
            Inl _ \<Rightarrow> fail (Tok ErrInvalidConfirmationUser)
          | Inr email \<Rightarrow>
              if email = [] then fail (Tok ErrInvalidConfirmationUser)
              else reading unix_now (\<lambda>createdAt.
                let expiresAt = wrap64 (createdAt + ecLifetime s div time_Second) in
                if expiresAt \<le> createdAt then fail (Tok ErrInvalidConfirmationConfig)
                else
                  call newConfirmationToken id (\<lambda>token.
                  call (CreateEmailConfirmationToken L \<lparr>ltUserID = userID, ltToken = token, ltCreatedAt = createdAt,
                      ltExpiresAt = expiresAt, ltConsumedAt = None\<rparr>) Wrap (\<lambda>_.
                  call (send_mail (confirmation_mail s email token)) Wrap (\<lambda>_. ret ())))))))"

definition Confirm :: "golib \<Rightarrow> string \<Rightarrow> unit prog" where
  "Confirm L rawToken =
     check (normalizeConfirmationToken rawToken) id (\<lambda>token.
     reading unix_now (\<lambda>now.
     call (ConsumeEmailConfirmationToken L token now)
       (\<lambda>err. if errors_is err (Tok ErrEmailConfirmationTokenNotFound) then Tok ErrInvalidConfirmationToken
              else Wrap err) (\<lambda>confirmation.
     if ltUserID confirmation \<le> 0 \<or> ltExpiresAt confirmation \<le> now \<or> ltConsumedAt confirmation \<noteq> None
         \<or> length (ltToken confirmation) \<noteq> maxConfirmationTokenLength \<or> ltToken confirmation \<noteq> token
     then fail (Tok ErrInvalidConfirmationToken)
     else
       call (FindUserByID (ltUserID confirmation))
         (\<lambda>err. if errors_is err (Account ErrUserNotFound) then Tok ErrInvalidConfirmationToken else Wrap err) (\<lambda>user.
       if uID user \<noteq> ltUserID confirmation \<or> uIsGuest user \<or> uEmail user = None
       then fail (Tok ErrInvalidConfirmationToken)
       else
         call (UpdateUser L (user\<lparr>uEmailVerifiedAt := Some now\<rparr>) (uVersion user))
           (\<lambda>err. if errors_is err (Account ErrUserNotFound) then Tok ErrInvalidConfirmationToken else Wrap err) (\<lambda>updated.
         if uID updated \<noteq> ltUserID confirmation then fail (Tok ErrInvalidConfirmationToken) else ret ())))))"

definition Resend :: "golib \<Rightarrow> confirmation_service \<Rightarrow> world rate_limiter \<Rightarrow> string \<Rightarrow> unit prog" where
  "Resend L s limiter rawEmail =
     (case NormalizeEmail L rawEmail of
        Inl _ \<Rightarrow> ret ()
      | Inr email \<Rightarrow>
          if email = [] then ret ()
          else reading now_ns (\<lambda>now.
            call (Allow limiter now confirmationResendAction email) Wrap (\<lambda>decision.
            if \<not> dAllowed decision then fail (RateLimitError (dRetryAfter decision))
            else attempt (FindUserByEmail L email) (\<lambda>r. case r of
                Inl err \<Rightarrow> if errors_is err (Account ErrUserNotFound) then ret () else fail (Wrap err)
              | Inr user \<Rightarrow>
                  if uID user \<le> 0 \<or> uIsGuest user \<or> uEmail user = None \<or> uEmailVerifiedAt user \<noteq> None then ret ()
                  else Issue L s (uID user)))))"

section \<open>Password reset\<close>

definition newPasswordResetToken :: "string prog" where
  "newPasswordResetToken =
     call (rand_read passwordResetTokenBytes) (\<lambda>_. Wrap (Tok ErrPasswordResetTokenGeneration)) (\<lambda>value.
     let token = hex_encode value in
     if length token \<noteq> maxPasswordResetTokenLength then fail (Tok ErrPasswordResetTokenGeneration) else ret token)"

definition normalizePasswordResetToken :: "string \<Rightarrow> error + string" where
  "normalizePasswordResetToken raw =
     (if length raw \<noteq> maxPasswordResetTokenLength then Inl (Tok ErrInvalidPasswordResetToken)
      else if \<not> hex_decodable raw then Inl (Tok ErrInvalidPasswordResetToken)
      else Inr raw)"

definition resetLink :: "reset_service \<Rightarrow> string \<Rightarrow> string" where
  "resetLink s token = token_link (prPublicURL s) passwordResetPath token"

definition reset_mail :: "reset_service \<Rightarrow> string \<Rightarrow> string \<Rightarrow> mail" where
  "reset_mail s email token = \<lparr>mailTo = email, mailSubject = ''Reset your password'',
     mailTextBody = ''Open this link to reset your password:'' @ [CHR 0x0A, CHR 0x0A] @ resetLink s token
       @ [CHR 0x0A, CHR 0x0A] @ ''This link can be used once.''\<rparr>"

definition Request :: "golib \<Rightarrow> reset_service \<Rightarrow> string \<Rightarrow> unit prog" where
  "Request L s rawEmail =
     (case NormalizeEmail L rawEmail of
        Inl _ \<Rightarrow> ret ()
      | Inr email \<Rightarrow>
          if email = [] then ret ()
          else reading now_ns (\<lambda>now.
            call (Allow (prLimiter s) now passwordResetRequestAction email) Wrap (\<lambda>decision.
            if \<not> dAllowed decision then fail (RateLimitError (dRetryAfter decision))
            else attempt (FindUserByEmail L email) (\<lambda>r. case r of
                Inl err \<Rightarrow> if errors_is err (Account ErrUserNotFound) then ret () else fail (Wrap err)
              | Inr user \<Rightarrow>
                  if uID user \<le> 0 \<or> uIsGuest user \<or> uEmail user = None \<or> uPasswordHash user = None then ret ()
                  else (case NormalizeEmail L (the (uEmail user)) of
                      Inl _ \<Rightarrow> ret ()
                    | Inr accountEmail \<Rightarrow>
                        if accountEmail = [] then ret ()
                        else reading unix_now (\<lambda>createdAt.
                          let expiresAt = wrap64 (createdAt + prLifetime s div time_Second) in
                          if expiresAt \<le> createdAt then fail (Tok ErrInvalidPasswordResetConfig)
                          else
                            call newPasswordResetToken id (\<lambda>token.
                            call (CreatePasswordResetToken L \<lparr>ltUserID = uID user, ltToken = token,
                                ltCreatedAt = createdAt, ltExpiresAt = expiresAt, ltConsumedAt = None\<rparr>) Wrap (\<lambda>_.
                            call (send_mail (reset_mail s accountEmail token)) Wrap (\<lambda>_. ret ())))))))))"

definition Redeem :: "golib \<Rightarrow> reset_consumer \<Rightarrow> string \<Rightarrow> string \<Rightarrow> unit prog" where
  "Redeem L s rawToken newPassword =
     check (ValidatePassword newPassword) id (\<lambda>_.
     check (normalizePasswordResetToken rawToken) id (\<lambda>token.
     reading unix_now (\<lambda>now.
     call (ConsumePasswordResetToken L token now)
       (\<lambda>err. if errors_is err (Tok ErrPasswordResetTokenNotFound) then Tok ErrInvalidPasswordResetToken
              else Wrap err) (\<lambda>reset.
     if ltUserID reset \<le> 0 \<or> ltExpiresAt reset \<le> now \<or> ltConsumedAt reset \<noteq> None
         \<or> length (ltToken reset) \<noteq> maxPasswordResetTokenLength \<or> ltToken reset \<noteq> token
     then fail (Tok ErrInvalidPasswordResetToken)
     else
       call (FindUserByID (ltUserID reset))
         (\<lambda>err. if errors_is err (Account ErrUserNotFound) then Tok ErrInvalidPasswordResetToken else Wrap err) (\<lambda>user.
       if uID user \<noteq> ltUserID reset \<or> uIsGuest user \<or> uEmail user = None
       then fail (Tok ErrInvalidPasswordResetToken)
       else
         call (pcHash s newPassword) Wrap (\<lambda>passwordHash.
         call (UpdateUser L (user\<lparr>uPasswordHash := Some passwordHash\<rparr>) (uVersion user))
           (\<lambda>err. if errors_is err (Account ErrUserNotFound) then Tok ErrInvalidPasswordResetToken else Wrap err) (\<lambda>updated.
         if uID updated \<noteq> ltUserID reset then fail (Tok ErrInvalidPasswordResetToken)
         else
           call (RevokeUser (pcSessions s) (ltUserID reset)) Wrap (\<lambda>_. ret ()))))))))"

section \<open>Composition\<close>

lemma evolves_new_tokens [evolves_intro]:
  "preord R \<Longrightarrow> evolves (on_tables R) newConfirmationToken"
  "preord R \<Longrightarrow> evolves (on_tables R) newPasswordResetToken"
  unfolding newConfirmationToken_def newPasswordResetToken_def by (intro evolves_intro preord_intro; assumption)+

lemma evolves_Issue [evolves_intro]:
  assumes c: "covers_quiet R"
  shows "evolves (on_tables R) (Issue L s uid)"
  unfolding Issue_def by (intro evolves_intro preord_intro covers_quiet_preord [OF c] c)

lemma evolves_Resend:
  assumes c: "covers_quiet R" and l: "quiet_limiter l"
  shows "evolves (on_tables R) (Resend L s l raw)"
  unfolding Resend_def
  by (intro evolves_intro preord_intro covers_quiet_preord [OF c] c evolves_Allow [OF l c])

lemma evolves_Request:
  assumes c: "covers_quiet R" and l: "quiet_limiter (prLimiter s)"
  shows "evolves (on_tables R) (Request L s raw)"
  unfolding Request_def
  by (intro evolves_intro preord_intro covers_quiet_preord [OF c] c evolves_Allow [OF l c])

lemma evolves_Confirm:
  assumes c: "covers_quiet R" and u: "\<And>u v. evolves (on_tables R) (UpdateUser L u v)"
  shows "evolves (on_tables R) (Confirm L raw)"
  unfolding Confirm_def by (intro evolves_intro preord_intro covers_quiet_preord [OF c] c u)

lemma evolves_Redeem:
  assumes c: "covers_quiet R" and u: "\<And>u v. evolves (on_tables R) (UpdateUser L u v)"
    and h: "\<And>p. evolves (on_tables R) (pcHash s p)"
    and sso: "\<And>f uid. ssSSO (pcSessions s) = Some f \<Longrightarrow> evolves (on_tables R) (f uid)"
  shows "evolves (on_tables R) (Redeem L s raw pw)"
  unfolding Redeem_def by (intro evolves_intro preord_intro covers_quiet_preord [OF c] c u h sso)

section \<open>Properties\<close>

text \<open>Ending sessions through the single sign-on provider touches its own table only.\<close>

definition sso_only :: "db \<Rightarrow> db \<Rightarrow> bool" where
  "sso_only d d' \<longleftrightarrow> d' = d\<lparr>sso_logins := sso_logins d'\<rparr>"

definition sso_revoker_ok :: "session_service \<Rightarrow> bool" where
  "sso_revoker_ok s \<longleftrightarrow> (\<forall>f uid. ssSSO s = Some f \<longrightarrow> evolves (on_tables sso_only) (f uid))"

lemma RevokeUser_Inr:
  assumes run: "RevokeUser s uid w = (Inr (), w')" and sso: "sso_revoker_ok s"
  obtains ls where "tables w' = (tables w)\<lparr>sessions := update_where (\<lambda>r. rUserID r = uid)
    (coalesce_revoked (unix_now w)) (sessions (tables w)), sso_logins := ls\<rparr>"
proof -
  from run obtain v where v: "RevokeUserSessions uid w = (Inr (), v)"
    and rest: "(case ssSSO s of None \<Rightarrow> ret () | Some revoker \<Rightarrow> call (revoker uid) Wrap (\<lambda>_. ret ())) v = (Inr (), w')"
    by (auto simp: RevokeUser_def split: if_splits)
  have t: "tables v = snd (revoke_sessions_where (\<lambda>s. rUserID s = uid) (unix_now w) (tables w))"
    using RevokeUserSessions_Inr [OF v] by simp
  have "sso_only (tables v) (tables w')"
  proof (cases "ssSSO s")
    case None
    then show ?thesis using rest by (simp add: sso_only_def)
  next
    case (Some f)
    with sso have "evolves (on_tables sso_only) (f uid)" by (simp add: sso_revoker_ok_def)
    moreover from Some rest obtain v' where "f uid v = (Inr (), v')" "w' = v'" by auto
    ultimately show ?thesis by (auto dest: evolvesD simp: on_tables_def)
  qed
  then show thesis
    using that [of "sso_logins (tables w')"] by (simp add: sso_only_def t revoke_sessions_where_def)
qed

lemma ended_by_revocation:
  "d' = d\<lparr>sessions := update_where (\<lambda>r. rUserID r = uid) (coalesce_revoked t) (sessions d), sso_logins := ls\<rparr> \<Longrightarrow>
    sessions_ended uid d'"
  by (simp add: sessions_ended_def ball_update_where)

text \<open>
  C13: A reset link replaces the password and ends every session. A redemption that succeeds was made with a live reset link of a
  registered account with an address; afterwards that account carries the hash of the new password, at the next
  revision and otherwise unchanged, all other accounts are as before, every session of the account is
  ended, and the link is spent.
\<close>

theorem Redeem_replaces_password:
  assumes run: "Redeem L s raw pw w = (Inr (), w')" and ok: "users_ok L (tables w)"
    and hash: "\<And>p. evolves (on_tables (=)) (pcHash s p)"
    and sso: "sso_revoker_ok (pcSessions s)"
  shows "\<exists>r u h wa wb. r \<in> set (reset_tokens (tables w)) \<and> redeemable (tokenDigest L raw) (unix_now w) r
    \<and> u \<in> set (users (tables w)) \<and> uID u = tUserID r \<and> \<not> uIsGuest u \<and> uEmail u \<noteq> None
    \<and> ValidatePassword pw = Inr () \<and> pcHash s pw wa = (Inr h, wb)
    \<and> users (tables w') = update_where (\<lambda>v. uID v = uID u)
        (\<lambda>_. u\<lparr>uPasswordHash := Some h, uVersion := uVersion u + 1\<rparr>) (users (tables w))
    \<and> sessions_ended (uID u) (tables w')
    \<and> \<not> holds_token L (reset_tokens (tables w')) raw (unix_now w)"
proof -
  from run obtain reset user h upd w1 w2 w3 w4 where pw: "ValidatePassword pw = Inr ()"
    and c: "ConsumePasswordResetToken L raw (unix_now w) w = (Inr reset, w1)"
    and f: "FindUserByID (ltUserID reset) w1 = (Inr user, w2)"
    and user: "uID user = ltUserID reset" "\<not> uIsGuest user" "uEmail user \<noteq> None"
    and h: "pcHash s pw w2 = (Inr h, w3)"
    and u: "UpdateUser L (user\<lparr>uPasswordHash := Some h\<rparr>) (uVersion user) w3 = (Inr upd, w4)"
    and r: "RevokeUser (pcSessions s) (ltUserID reset) w4 = (Inr (), w')"
    by (auto simp: Redeem_def normalizePasswordResetToken_def split: if_splits)
  from c obtain row where row: "find (redeemable (tokenDigest L raw) (unix_now w)) (reset_tokens (tables w)) = Some row"
    and t1: "tables w1 = (tables w)\<lparr>reset_tokens := spend (tokenDigest L raw) (unix_now w) (reset_tokens (tables w))\<rparr>"
    and reset: "ltUserID reset = tUserID row"
    by (rule ConsumeReset_cases) auto
  have t3: "tables w3 = tables w1"
    using FindUserByID_Inr [OF f] evolves_eqD [OF hash h] by simp
  have user_in: "user \<in> set (users (tables w))"
    using FindUserByID_Inr [OF f] t1 by (auto dest: find_Some_iff')
  from u obtain old where "old \<in> set (users (tables w3))" "uID old = uID user"
    "upd = set_user_columns (user\<lparr>uPasswordHash := Some h\<rparr>) old"
    and t4: "tables w4 = (tables w3)\<lparr>users := update_where (\<lambda>v. uID v = uID user) (\<lambda>_. upd) (users (tables w3))\<rparr>"
    by (rule UpdateUser_Inr) auto
  then have "upd = user\<lparr>uPasswordHash := Some h, uVersion := uVersion user + 1\<rparr>"
    using write_back [OF ok user_in, of old "\<lambda>u. u\<lparr>uPasswordHash := Some h\<rparr>"] t3 t1 by (cases user) simp
  moreover from r sso obtain ls where rv: "tables w' = (tables w4)\<lparr>sessions := update_where
      (\<lambda>r. rUserID r = ltUserID reset) (coalesce_revoked (unix_now w4)) (sessions (tables w4)), sso_logins := ls\<rparr>"
    by (rule RevokeUser_Inr)
  moreover note ended_by_revocation [OF rv]
  moreover have "\<not> holds_token L (reset_tokens (tables w1)) raw (unix_now w)"
    unfolding t1 by (simp add: holds_token_spend(1))
  ultimately show ?thesis
    using find_Some_iff' [OF row] user_in user reset pw h t1 t3 t4
    by (intro exI [of _ row] exI [of _ user] exI [of _ h] exI [of _ w2] exI [of _ w3]) auto
qed

text \<open>
  Unusable links fail uniformly. When the database answers, a link that is malformed, unknown, expired or already used gets
  the same refusal, for confirmation and for reset, and nothing changes: the password is not hashed and no random byte is drawn.
\<close>

theorem links_refused_uniformly:
  assumes "faults w = []" and "ValidatePassword pw = Inr ()"
    and "\<not> holds_token L (email_tokens (tables w)) raw (unix_now w)"
    and "\<not> holds_token L (reset_tokens (tables w)) raw (unix_now w)"
  shows "Confirm L raw w = (Inl (Tok ErrInvalidConfirmationToken), w)
    \<and> Redeem L s raw pw w = (Inl (Tok ErrInvalidPasswordResetToken), w)"
proof -
  have "find (redeemable (tokenDigest L raw) (unix_now w)) (email_tokens (tables w)) = None"
    "find (redeemable (tokenDigest L raw) (unix_now w)) (reset_tokens (tables w)) = None"
    using assms(3,4) by (auto simp: holds_token_def find_None_iff')
  then show ?thesis using assms(1,2)
    by (simp add: Confirm_def Redeem_def normalizeConfirmationToken_def normalizePasswordResetToken_def check_def call_def
        ConsumeEmailConfirmationToken_def ConsumePasswordResetToken_def consume_email_token_def consume_reset_token_def
        mapTokenError_def)
qed

lemma newPasswordResetToken_run:
  "passwordResetTokenBytes \<le> length (entropy w) \<Longrightarrow> newPasswordResetToken w =
    (Inr (hex_encode (take passwordResetTokenBytes (entropy w))), w\<lparr>entropy := drop passwordResetTokenBytes (entropy w)\<rparr>)"
  by (simp add: newPasswordResetToken_def call_def rand_read_def ret_def Let_def recovery_limits)


section \<open>Worked examples\<close>

definition demo_limit_config :: rate_limit_config where
  "demo_limit_config = \<lparr>rcLimit = 2, rcWindow = 5000000, rcMaxKeys = 0\<rparr>"

definition demo_reset :: reset_service where
  "demo_reset = \<lparr>prLimiter = \<lparr>rlConfig = demo_limit_config, rlStore = PostgresRateLimitStore ascii_lib ''s''\<rparr>,
     prPublicURL = \<lparr>urlScheme = ''https'', urlUser = False, urlHost = ''h'', urlPath = [], urlRawQuery = [], urlFragment = []\<rparr>,
     prLifetime = 3600000000000\<rparr>"

definition demo_consumer :: reset_consumer where
  "demo_consumer = \<lparr>pcHash = (\<lambda>p. ret ''h9''), pcSessions = \<lparr>ssLifetime = 3600000000000, ssSSO = None\<rparr>\<rparr>"

definition demo_reset_token :: string where
  "demo_reset_token = replicate 64 (CHR ''a'')"

definition demo_reset_world :: world where
  "demo_reset_world = demo_world\<lparr>tables := demo_db\<lparr>reset_tokens := [\<lparr>tID = 1, tUserID = 2,
     tToken = tokenDigest ascii_lib demo_reset_token, tCreatedAt = 0, tExpiresAt = 2000, tConsumedAt = None\<rparr>]\<rparr>\<rparr>"

theorem Redeem_replaces_password_witness:
  "\<exists>w'. Redeem ascii_lib demo_consumer demo_reset_token ''password'' demo_reset_world = (Inr (), w')
     \<and> sessions_ended 2 (tables w')"
proof -
  let ?run = "Redeem ascii_lib demo_consumer demo_reset_token ''password'' demo_reset_world"
  have "fst ?run = Inr ()" by code_simp
  then obtain w' where r: "?run = (Inr (), w')" by (cases ?run) simp
  have ok: "users_ok ascii_lib (tables demo_reset_world)"
    using demo_db_ok by (simp add: demo_reset_world_def db_ok_def)
  have h: "evolves (on_tables (=)) (pcHash demo_consumer p)" for p
    by (simp add: demo_consumer_def evolves_ret preord_on_tables preord_eq)
  have "sso_revoker_ok (pcSessions demo_consumer)" by (simp add: sso_revoker_ok_def demo_consumer_def)
  from Redeem_replaces_password [OF r ok h this] obtain row where
    "row \<in> set (reset_tokens (tables demo_reset_world))" "sessions_ended (tUserID row) (tables w')"
    by (force simp: demo_consumer_def)
  with r show ?thesis by (auto simp: demo_reset_world_def)
qed

theorem links_refused_uniformly_witness:
  "Confirm ascii_lib ''x'' demo_world = (Inl (Tok ErrInvalidConfirmationToken), demo_world)
    \<and> Redeem ascii_lib demo_consumer ''x'' ''password'' demo_world = (Inl (Tok ErrInvalidPasswordResetToken), demo_world)"
  by (rule links_refused_uniformly) (simp_all add: demo_password_valid holds_token_def demo_defs)


end
