(* ===== verification/Guests.thy ===== *)
theory Guests
  imports SignIn Recovery
begin

text \<open>
  Guest accounts: creation with a session (\<^verbatim>\<open>internal/service/guest.go\<close>), transfer codes
  (\<^verbatim>\<open>guest_claim.go\<close>, \<^verbatim>\<open>guest_redeem.go\<close>), conversion to a registered account (\<^verbatim>\<open>guest_upgrade.go\<close>), budgets
  and cleanup (\<^verbatim>\<open>guest_rate_limit.go\<close>), and their storage (\<^verbatim>\<open>store/postgres/guest.go\<close>).
\<close>

section \<open>Storage of transfer codes\<close>

definition mapGuestClaimError :: "error \<Rightarrow> error" where
  "mapGuestClaimError err =
     (if errors_is err (Repo ContextCanceled) then Repo ContextCanceled
      else if errors_is err (Repo ContextDeadlineExceeded) then Repo ContextDeadlineExceeded
      else if errors_is err (Gst ErrGuestClaimCodeNotFound) \<or> errors_is err (Repo SqlErrNoRows)
        then Gst ErrGuestClaimCodeNotFound
      else (case as_pg_error err of Some (UniqueViolation, _) \<Rightarrow> Repo ErrConflict | _ \<Rightarrow> ClassifyError err))"

text \<open>A missing row becomes \<^verbatim>\<open>ErrGuestClaimCodeNotFound\<close> in the scan already, which the mapping keeps.\<close>

definition scanGuestClaimCode :: "claim_code \<Rightarrow> error + claim_code" where
  "scanGuestClaimCode c =
     (if ccUserID c \<le> 0 \<or> ccCode c = [] \<or> 64 < length (ccCode c) then Inl (Repo ErrInvalidData) else Inr c)"

definition claim_violation :: "claim_code \<Rightarrow> db \<Rightarrow> error option" where
  "claim_violation c d =
     (if \<not> varchar 64 (ccCode c) then Some (PgError StringTruncation OtherConstraint)
      else if ccCode c \<in> ccCode ` set (claim_codes d)
          \<or> ccRevokedAt c = None \<and> (\<exists>x \<in> set (claim_codes d). ccUserID x = ccUserID c \<and> ccRevokedAt x = None)
        then Some (PgError UniqueViolation OtherConstraint)
      else if ccUserID c \<notin> user_ids d then Some (PgError ForeignKeyViolation OtherConstraint)
      else None)"

definition insert_claim_code :: "claim_code \<Rightarrow> claim_code stmt" where
  "insert_claim_code c d =
     (let row = c\<lparr>ccID := claim_codes_seq d + 1\<rparr> in
      case claim_violation row d of
        Some e \<Rightarrow> (Inl e, d)
      | None \<Rightarrow> (Inr row, d\<lparr>claim_codes := claim_codes d @ [row], claim_codes_seq := claim_codes_seq d + 1\<rparr>))"

definition select_active_claim :: "int \<Rightarrow> claim_code stmt" where
  "select_active_claim userID d =
     (case order_by (\<lambda>a b. ccID b < ccID a) (filter (\<lambda>c. ccUserID c = userID \<and> ccRevokedAt c = None) (claim_codes d)) of
        [] \<Rightarrow> (Inl (Repo SqlErrNoRows), d) | c # _ \<Rightarrow> (Inr c, d))"

definition select_claim_by_code :: "string \<Rightarrow> claim_code stmt" where
  "select_claim_by_code code d =
     (case find (\<lambda>c. ccCode c = code \<and> ccRevokedAt c = None) (claim_codes d) of
        None \<Rightarrow> (Inl (Repo SqlErrNoRows), d) | Some c \<Rightarrow> (Inr c, d))"

definition update_claims :: "(claim_code \<Rightarrow> bool) \<Rightarrow> (claim_code \<Rightarrow> claim_code) \<Rightarrow> int stmt" where
  "update_claims P f d =
     (Inr (int (length (filter P (claim_codes d)))), d\<lparr>claim_codes := update_where P f (claim_codes d)\<rparr>)"

definition touch_claim :: "int \<Rightarrow> claim_code \<Rightarrow> claim_code" where
  "touch_claim t c = c\<lparr>ccLastUsedAt := Some (max (case ccLastUsedAt c of None \<Rightarrow> t | Some l \<Rightarrow> l) t)\<rparr>"

definition FindActiveGuestClaimCode :: "int \<Rightarrow> claim_code prog" where
  "FindActiveGuestClaimCode userID =
     (if userID \<le> 0 then fail (Gst ErrGuestClaimCodeNotFound)
      else call (query (select_active_claim userID)) mapGuestClaimError (\<lambda>row.
        check (scanGuestClaimCode row) mapGuestClaimError ret))"

definition CreateGuestClaimCode :: "claim_code \<Rightarrow> claim_code prog" where
  "CreateGuestClaimCode c =
     (if ccUserID c \<le> 0 \<or> ccCode c = [] \<or> 64 < length (ccCode c) then fail (Repo ErrInvalidData)
      else call (query (insert_claim_code c)) mapGuestClaimError (\<lambda>row.
        check (scanGuestClaimCode row) mapGuestClaimError ret))"

definition FindGuestClaimCodeByCode :: "string \<Rightarrow> claim_code prog" where
  "FindGuestClaimCodeByCode code =
     (if code = [] then fail (Gst ErrGuestClaimCodeNotFound)
      else call (query (select_claim_by_code code)) mapGuestClaimError (\<lambda>row.
        check (scanGuestClaimCode row) mapGuestClaimError ret))"

definition MarkGuestClaimCodeUsed :: "string \<Rightarrow> int \<Rightarrow> unit prog" where
  "MarkGuestClaimCodeUsed code usedAt =
     (if code = [] then fail (Gst ErrGuestClaimCodeNotFound)
      else call (query (update_claims (\<lambda>c. ccCode c = code \<and> ccRevokedAt c = None) (touch_claim usedAt)))
        mapGuestClaimError (\<lambda>rows.
        if rows = 0 then fail (Gst ErrGuestClaimCodeNotFound) else ret ()))"

definition RevokeGuestClaimCode :: "int \<Rightarrow> int \<Rightarrow> unit prog" where
  "RevokeGuestClaimCode userID revokedAt =
     (if userID \<le> 0 then ret ()
      else call (query (update_claims (\<lambda>c. ccUserID c = userID \<and> ccRevokedAt c = None)
          (\<lambda>c. c\<lparr>ccRevokedAt := Some revokedAt\<rparr>))) mapGuestClaimError (\<lambda>_. ret ()))"

subsection \<open>Deleting abandoned guests\<close>

definition abandoned :: "int \<Rightarrow> user \<Rightarrow> bool" where
  "abandoned cutoff u \<longleftrightarrow> uIsGuest u \<and> uCreatedAt u < cutoff"

definition select_abandoned :: "int \<Rightarrow> int list stmt" where
  "select_abandoned cutoff d = (Inr (map uID (filter (abandoned cutoff) (users d))), d)"

definition has_membership :: "int \<Rightarrow> bool stmt" where
  "has_membership userID d = (Inr (\<exists>m \<in> set (group_members d). mUserID m = userID), d)"

definition delete_user_row :: "int \<Rightarrow> int stmt" where
  "delete_user_row userID d =
     (Inr (int (length (filter (\<lambda>u. uID u = userID) (users d)))), delete_user_cascade userID d)"

fun delete_candidates :: "int list \<Rightarrow> int prog" where
  "delete_candidates [] = ret 0"
| "delete_candidates (userID # us) =
     call (query (has_membership userID)) mapGuestClaimError (\<lambda>hasMembership.
     if hasMembership then delete_candidates us
     else
       call (query (delete_user_row userID)) mapGuestClaimError (\<lambda>affected.
       call (delete_candidates us) id (\<lambda>deleted. ret (affected + deleted))))"

definition DeleteEmptyAbandonedGuests :: "int \<Rightarrow> int prog" where
  "DeleteEmptyAbandonedGuests cutoff =
     call (transaction mapGuestClaimError
       (call (query (select_abandoned cutoff)) mapGuestClaimError (\<lambda>candidates.
        call (delete_candidates candidates) id (\<lambda>deleted. ret (Some deleted))))) id (\<lambda>r.
     case r of Some deleted \<Rightarrow> ret deleted | None \<Rightarrow> ret 0)"

section \<open>Creation\<close>

definition guestUsernameBytes :: nat where "guestUsernameBytes = 8"

record guest_session_result =
  gsUser :: user
  gsSession :: session

definition createWithTheme :: "golib \<Rightarrow> string \<Rightarrow> string \<Rightarrow> user prog" where
  "createWithTheme L username theme =
     check (normalizeTheme L theme) id (\<lambda>theme.
     check (if username \<noteq> [] then NormalizeUsername L username else Inr [])
       (\<lambda>err. Join [Gst ErrInvalidGuestCreation, err]) (\<lambda>username.
     reading unix_now (\<lambda>now.
     call (CreateUser L (zero_user\<lparr>uIsGuest := True, uTheme := theme, uLocale := ''en'', uCreatedAt := now,
         uUsername := optionalString username\<rparr>)) Wrap (\<lambda>created.
     if uID created \<le> 0 \<or> \<not> uIsGuest created \<or> uEmail created \<noteq> None \<or> uPasswordHash created \<noteq> None
         \<or> uEmailVerifiedAt created \<noteq> None
     then fail (Gst ErrInvalidCreatedGuest)
     else ret (created\<lparr>uPasswordHash := None\<rparr>)))))"

definition guest_Create :: "golib \<Rightarrow> user prog" where
  "guest_Create L = createWithTheme L [] ''light''"

definition newGuestUsername :: "string prog" where
  "newGuestUsername =
     call (rand_read guestUsernameBytes) (\<lambda>_. Wrap (Gst ErrGuestUsernameGeneration)) (\<lambda>value.
     ret (''guest-'' @ hex_encode value))"

definition CreateWithTheme :: "golib \<Rightarrow> session_service \<Rightarrow> string \<Rightarrow> guest_session_result prog" where
  "CreateWithTheme L svc theme =
     call newGuestUsername id (\<lambda>username.
     call (createWithTheme L username theme) id (\<lambda>user.
     call (Create L svc (uID user)) Wrap (\<lambda>session.
     ret \<lparr>gsUser = user, gsSession = session\<rparr>)))"

definition guest_session_Create :: "golib \<Rightarrow> session_service \<Rightarrow> guest_session_result prog" where
  "guest_session_Create L svc = CreateWithTheme L svc ''light''"

section \<open>Transfer codes\<close>

definition guestClaimCodeLength :: nat where "guestClaimCodeLength = 10"
definition guestClaimAlphabet :: string where "guestClaimAlphabet = ''ABCDEFGHJKMNPQRSTUVWXYZ23456789''"

definition containsGuestClaimCharacter :: "char \<Rightarrow> bool" where
  "containsGuestClaimCharacter target \<longleftrightarrow> target \<in> set guestClaimAlphabet"

text \<open>
  The loops test the byte at the start of every rune; the alphabet is ASCII, so a code passes exactly if every
  byte is in it.
\<close>

definition validateGuestClaimCode :: "claim_code \<Rightarrow> int \<Rightarrow> error + unit" where
  "validateGuestClaimCode c userID =
     (if ccUserID c \<noteq> userID \<or> length (ccCode c) \<noteq> guestClaimCodeLength \<or> ccCreatedAt c \<le> 0 \<or> ccRevokedAt c \<noteq> None
        then Inl (Gst ErrInvalidGuestClaimCode)
      else if \<not> list_all containsGuestClaimCharacter (ccCode c) then Inl (Gst ErrInvalidGuestClaimCode)
      else Inr ())"

definition normalizeGuestClaimCode :: "golib \<Rightarrow> string \<Rightarrow> error + string" where
  "normalizeGuestClaimCode L raw =
     (let code = ToUpper L (TrimSpace raw) in
      if length code \<noteq> guestClaimCodeLength then Inl (Gst ErrInvalidGuestClaimCode)
      else if \<not> list_all containsGuestClaimCharacter code then Inl (Gst ErrInvalidGuestClaimCode)
      else Inr code)"

definition newGuestClaimCode :: "string prog" where
  "newGuestClaimCode =
     call (rand_code guestClaimAlphabet guestClaimCodeLength) (\<lambda>_. Wrap (Gst ErrGuestClaimCodeGeneration)) ret"

text \<open>The mutex of the service serialises its callers; operations of the model are serial anyway.\<close>

definition claim_Issue :: "int \<Rightarrow> claim_code prog" where
  "claim_Issue userID =
     (if userID \<le> 0 then fail (Account ErrInvalidUserID)
      else
        call (FindUserByID userID) Wrap (\<lambda>user.
        if uID user \<noteq> userID \<or> \<not> uIsGuest user then fail (Gst ErrNotGuest)
        else attempt (FindActiveGuestClaimCode userID) (\<lambda>r. case r of
            Inr active \<Rightarrow> check (validateGuestClaimCode active userID) id (\<lambda>_. ret active)
          | Inl err \<Rightarrow>
              if \<not> errors_is err (Gst ErrGuestClaimCodeNotFound) then fail (Wrap err)
              else
                call newGuestClaimCode id (\<lambda>code.
                reading unix_now (\<lambda>now.
                attempt (CreateGuestClaimCode \<lparr>ccID = 0, ccUserID = userID, ccCode = code, ccCreatedAt = now,
                    ccLastUsedAt = None, ccRevokedAt = None\<rparr>) (\<lambda>r. case r of
                  Inl err \<Rightarrow>
                    attempt (FindActiveGuestClaimCode userID) (\<lambda>r. case r of
                      Inr active \<Rightarrow> check (validateGuestClaimCode active userID) id (\<lambda>_. ret active)
                    | Inl _ \<Rightarrow> fail (Wrap err))
                | Inr created \<Rightarrow> check (validateGuestClaimCode created userID) id (\<lambda>_. ret created)))))))"

definition claim_Redeem :: "golib \<Rightarrow> session_service \<Rightarrow> string \<Rightarrow> guest_session_result prog" where
  "claim_Redeem L svc rawCode =
     check (normalizeGuestClaimCode L rawCode) id (\<lambda>code.
     call (FindGuestClaimCodeByCode code)
       (\<lambda>err. if errors_is err (Gst ErrGuestClaimCodeNotFound) then Gst ErrInvalidGuestClaimCode else Wrap err) (\<lambda>claim.
     if ccCode claim \<noteq> code \<or> ccUserID claim \<le> 0 \<or> ccRevokedAt claim \<noteq> None then fail (Gst ErrInvalidGuestClaimCode)
     else
       call (FindUserByID (ccUserID claim))
         (\<lambda>err. if errors_is err (Account ErrUserNotFound) then Gst ErrInvalidGuestClaimCode else Wrap err) (\<lambda>user.
       if uID user \<noteq> ccUserID claim \<or> \<not> uIsGuest user \<or> uEmail user \<noteq> None \<or> uPasswordHash user \<noteq> None
       then fail (Gst ErrInvalidGuestClaimCode)
       else
         call (Create L svc (uID user)) Wrap (\<lambda>session.
         reading unix_now (\<lambda>now.
         attempt (MarkGuestClaimCodeUsed code now) (\<lambda>r. case r of
           Inl err \<Rightarrow>
             attempt (Revoke L (sID session)) (\<lambda>r. case r of
               Inl revokeErr \<Rightarrow> fail (Join [Wrap err, Wrap revokeErr])
             | Inr _ \<Rightarrow> fail (Wrap err))
         | Inr _ \<Rightarrow> ret \<lparr>gsUser = user, gsSession = session\<rparr>))))))"

section \<open>Conversion to a registered account\<close>

record guest_upgrade_input =
  guEmail :: string
  guPassword :: string

record guest_upgrade_service =
  guHash :: "string \<Rightarrow> string prog"
  guSessions :: session_service

definition upgrade_rejectDuplicateEmail :: "golib \<Rightarrow> string \<Rightarrow> unit prog" where
  "upgrade_rejectDuplicateEmail L email = rejectDuplicate (FindUserByEmail L email) (Account ErrDuplicateEmail)"

definition Upgrade :: "golib \<Rightarrow> guest_upgrade_service \<Rightarrow> int \<Rightarrow> guest_upgrade_input \<Rightarrow> guest_session_result prog" where
  "Upgrade L s userID input =
     (if userID \<le> 0 then fail (Account ErrInvalidUserID)
      else (case NormalizeEmail L (guEmail input) of
          Inl _ \<Rightarrow> fail (Join [Gst ErrInvalidGuestUpgrade, Account ErrInvalidEmail])
        | Inr email \<Rightarrow>
            if email = [] then fail (Join [Gst ErrInvalidGuestUpgrade, Account ErrInvalidEmail])
            else
              check (ValidatePassword (guPassword input)) Wrap (\<lambda>_.
              call (FindUserByID userID) Wrap (\<lambda>user.
              if uID user \<noteq> userID \<or> \<not> uIsGuest user then fail (Gst ErrGuestUpgradeRequiresGuest)
              else
                call (upgrade_rejectDuplicateEmail L email) id (\<lambda>_.
                call (guHash s (guPassword input)) Wrap (\<lambda>passwordHash.
                reading unix_now (\<lambda>now.
                call (RevokeGuestClaimCode userID now) Wrap (\<lambda>_.
                call (UpdateUser L (user\<lparr>uEmail := Some email, uPasswordHash := Some passwordHash, uIsGuest := False,
                    uEmailVerifiedAt := None\<rparr>) (uVersion user)) Wrap (\<lambda>updated.
                if uID updated \<noteq> userID \<or> uIsGuest updated \<or> uEmail updated = None \<or> uPasswordHash updated = None
                then fail (Gst ErrInvalidUpgradedUser)
                else
                  call (RevokeUser (guSessions s) userID) Wrap (\<lambda>_.
                  call (Create L (guSessions s) userID) Wrap (\<lambda>session.
                  ret \<lparr>gsUser = updated\<lparr>uPasswordHash := None\<rparr>, gsSession = session\<rparr>)))))))))))"

section \<open>Budgets and cleanup\<close>

definition guestCreationAction :: string where "guestCreationAction = ''guest.create''"
definition guestRedemptionAction :: string where "guestRedemptionAction = ''guest.redeem''"

definition limited_guest_Create ::
  "golib \<Rightarrow> session_service \<Rightarrow> world rate_limiter \<Rightarrow> string \<Rightarrow> string \<Rightarrow> guest_session_result prog" where
  "limited_guest_Create L svc limiter origin theme =
     reading now_ns (\<lambda>now.
     call (Allow limiter now guestCreationAction (originRateLimitKey L origin)) id (\<lambda>decision.
     if \<not> dAllowed decision then fail (RateLimitError (dRetryAfter decision))
     else CreateWithTheme L svc theme))"

definition limited_guest_Redeem ::
  "golib \<Rightarrow> session_service \<Rightarrow> world rate_limiter \<Rightarrow> string \<Rightarrow> string \<Rightarrow> guest_session_result prog" where
  "limited_guest_Redeem L svc limiter origin code =
     reading now_ns (\<lambda>now.
     call (Allow limiter now guestRedemptionAction (originRateLimitKey L origin)) id (\<lambda>decision.
     if \<not> dAllowed decision then fail (RateLimitError (dRetryAfter decision))
     else claim_Redeem L svc code))"

text \<open>\<^verbatim>\<open>GuestCleanupService\<close> is its retention in nanoseconds.\<close>

definition NewGuestCleanupService :: "int \<Rightarrow> error + int" where
  "NewGuestCleanupService retention = (if retention \<le> 0 then Inl AnonymousError else Inr retention)"

definition Cleanup :: "int \<Rightarrow> int prog" where
  "Cleanup retention =
     (if retention \<le> 0 then fail AnonymousError
      else reading now_ns (\<lambda>now.
        let cutoff = (now - retention) div time_Second in
        if cutoff \<le> 0 then fail AnonymousError
        else call (DeleteEmptyAbandonedGuests cutoff) Wrap ret))"

section \<open>Integrity\<close>

lemma claim_violation_None:
  "claim_violation c d = None \<Longrightarrow> (\<forall>x \<in> set (claim_codes d). ccCode x \<noteq> ccCode c) \<and> ccUserID c \<in> user_ids d
     \<and> (ccRevokedAt c = None \<longrightarrow> (\<forall>x \<in> set (claim_codes d). ccUserID x = ccUserID c \<longrightarrow> ccRevokedAt x \<noteq> None))"
  by (auto simp: claim_violation_def image_iff split: if_splits)

lemma insert_claim_quiet: "insert_claim_code c d = (Inr row, d') \<Longrightarrow> quiet d d'"
  by (auto simp: insert_claim_code_def Let_def quiet_def db_ok_def claims_ok_def unique_on_append
      split: option.splits dest!: claim_violation_None) fastforce

lemma unique_on_weaken:
  assumes "unique_on key xs" "\<And>x. key (g x) = None \<or> key (g x) = key x"
  shows "unique_on key (map g xs)"
  using assms(1)
proof (induction xs)
  case (Cons x xs)
  have "key (g x) = None \<or> (\<forall>y \<in> set xs. key (g y) \<noteq> key (g x))"
  proof (cases "key (g x)")
    case (Some k)
    with assms(2) [of x] Cons.prems have "key (g x) = key x" "\<forall>y \<in> set xs. key y \<noteq> key x" by auto
    moreover have "key (g y) = None \<or> key (g y) = key y" for y by (rule assms(2))
    ultimately show ?thesis using Some by (metis option.distinct(1))
  qed simp
  with Cons show ?case by simp
qed simp

lemma unique_on_retire:
  assumes "unique_on (\<lambda>c. if ccRevokedAt c = None then Some (ccUserID c) else None) cs"
    and "\<And>c. ccUserID (f c) = ccUserID c" "\<And>c. ccRevokedAt (f c) = None \<Longrightarrow> ccRevokedAt c = None"
  shows "unique_on (\<lambda>c. if ccRevokedAt c = None then Some (ccUserID c) else None) (update_where P f cs)"
  unfolding update_where_def using assms(2,3) by (intro unique_on_weaken [OF assms(1)]) auto

lemma update_claims_quiet:
  assumes "update_claims P f d = (r, d')" "\<And>c. ccUserID (f c) = ccUserID c" "\<And>c. ccCode (f c) = ccCode c"
    "\<And>c. ccRevokedAt (f c) = None \<Longrightarrow> ccRevokedAt c = None"
  shows "quiet d d'"
proof -
  have d': "d' = d\<lparr>claim_codes := update_where P f (claim_codes d)\<rparr>" using assms(1) by (simp add: update_claims_def)
  have "claims_ok d'" if "claims_ok d"
  proof -
    have "unique_on (\<lambda>c. Some (ccCode c)) (claim_codes d')"
      using that assms(3) by (simp add: claims_ok_def d' unique_on_update_same)
    moreover have "unique_on (\<lambda>c. if ccRevokedAt c = None then Some (ccUserID c) else None) (claim_codes d')"
      using that unfolding d' by (simp add: claims_ok_def) (rule unique_on_retire, simp_all add: assms)
    moreover have "\<forall>c \<in> set (claim_codes d'). ccUserID c \<in> user_ids d'"
      using that assms(2) by (simp add: claims_ok_def d' ball_update_where)
    ultimately show ?thesis by (simp add: claims_ok_def)
  qed
  then show ?thesis by (simp add: quiet_def db_ok_def d')
qed

lemma touch_claim_simps [simp]:
  "ccUserID (touch_claim t c) = ccUserID c" "ccCode (touch_claim t c) = ccCode c"
  "ccRevokedAt (touch_claim t c) = ccRevokedAt c" "ccCreatedAt (touch_claim t c) = ccCreatedAt c"
  by (simp_all add: touch_claim_def)

lemma evolves_claim_statements:
  "evolves (on_tables quiet) (query (insert_claim_code c))"
  "evolves (on_tables quiet) (query (update_claims P (touch_claim t)))"
  "evolves (on_tables quiet) (query (update_claims P (\<lambda>c. c\<lparr>ccRevokedAt := Some t\<rparr>)))"
  by (intro evolves_query preord_intro; erule insert_claim_quiet update_claims_quiet; simp)+

lemma evolves_claim_reads [evolves_intro]:
  "preord R \<Longrightarrow> evolves (on_tables R) (query (select_active_claim uid))"
  "preord R \<Longrightarrow> evolves (on_tables R) (query (select_claim_by_code code))"
  "preord R \<Longrightarrow> evolves (on_tables R) (query (has_membership uid))"
  "preord R \<Longrightarrow> evolves (on_tables R) (query (select_abandoned t))"
  by (rule evolves_read_query, assumption,
      auto simp: select_active_claim_def select_claim_by_code_def has_membership_def select_abandoned_def
        split: list.splits option.splits)+

lemma evolves_claim_finds [evolves_intro]:
  "preord R \<Longrightarrow> evolves (on_tables R) (FindActiveGuestClaimCode uid)"
  "preord R \<Longrightarrow> evolves (on_tables R) (FindGuestClaimCodeByCode code)"
  unfolding FindActiveGuestClaimCode_def FindGuestClaimCodeByCode_def by (intro evolves_intro preord_intro; assumption)+

lemma evolves_CreateGuestClaimCode [evolves_intro]:
  "covers_quiet R \<Longrightarrow> evolves (on_tables R) (CreateGuestClaimCode c)"
  by (erule covers_quiet_mono, unfold CreateGuestClaimCode_def)
     (intro evolves_if evolves_fail evolves_ret evolves_call evolves_check evolves_claim_statements preord_intro)

lemma evolves_MarkGuestClaimCodeUsed [evolves_intro]:
  "covers_quiet R \<Longrightarrow> evolves (on_tables R) (MarkGuestClaimCodeUsed code t)"
  by (erule covers_quiet_mono, unfold MarkGuestClaimCodeUsed_def)
     (intro evolves_if evolves_fail evolves_ret evolves_call evolves_claim_statements preord_intro)

lemma evolves_RevokeGuestClaimCode [evolves_intro]:
  "covers_quiet R \<Longrightarrow> evolves (on_tables R) (RevokeGuestClaimCode uid t)"
  by (erule covers_quiet_mono, unfold RevokeGuestClaimCode_def)
     (intro evolves_if evolves_ret evolves_call evolves_claim_statements preord_intro)

lemma evolves_guest_random [evolves_intro]:
  "preord R \<Longrightarrow> evolves (on_tables R) newGuestUsername"
  "preord R \<Longrightarrow> evolves (on_tables R) newGuestClaimCode"
  unfolding newGuestUsername_def newGuestClaimCode_def by (intro evolves_intro preord_intro; assumption)+

lemma evolves_claim_Issue:
  assumes c: "covers_quiet R"
  shows "evolves (on_tables R) (claim_Issue uid)"
  unfolding claim_Issue_def by (intro evolves_intro preord_intro covers_quiet_preord [OF c] c)

lemma evolves_claim_Redeem [evolves_intro]:
  assumes c: "covers_quiet R"
  shows "evolves (on_tables R) (claim_Redeem L s code)"
  unfolding claim_Redeem_def by (intro evolves_intro preord_intro covers_quiet_preord [OF c] c)

lemma evolves_createWithTheme:
  assumes c: "covers_quiet R" and u: "\<And>u. evolves (on_tables R) (CreateUser L u)"
  shows "evolves (on_tables R) (createWithTheme L n t)"
  unfolding createWithTheme_def by (intro evolves_intro preord_intro covers_quiet_preord [OF c] c u)

lemma evolves_CreateWithTheme:
  assumes c: "covers_quiet R" and u: "\<And>u. evolves (on_tables R) (CreateUser L u)"
  shows "evolves (on_tables R) (CreateWithTheme L s t)"
  unfolding CreateWithTheme_def
  by (intro evolves_intro preord_intro covers_quiet_preord [OF c] c evolves_createWithTheme u)

lemma evolves_limited_guests:
  assumes c: "covers_quiet R" and l: "quiet_limiter l"
  shows "(\<And>u. evolves (on_tables R) (CreateUser L u)) \<Longrightarrow> evolves (on_tables R) (limited_guest_Create L s l origin theme)"
    and "evolves (on_tables R) (limited_guest_Redeem L s l origin code)"
  unfolding limited_guest_Create_def limited_guest_Redeem_def
  by (intro evolves_intro preord_intro covers_quiet_preord [OF c] c evolves_CreateWithTheme evolves_Allow [OF l c]; assumption)+

lemma evolves_Upgrade:
  assumes c: "covers_quiet R" and u: "\<And>u v. evolves (on_tables R) (UpdateUser L u v)"
    and h: "\<And>p. evolves (on_tables R) (guHash s p)"
    and sso: "\<And>f uid. ssSSO (guSessions s) = Some f \<Longrightarrow> evolves (on_tables R) (f uid)"
  shows "evolves (on_tables R) (Upgrade L s uid input)"
  unfolding Upgrade_def upgrade_rejectDuplicateEmail_def
  by (intro evolves_intro preord_intro covers_quiet_preord [OF c] c u h sso)

subsection \<open>Cleanup\<close>

abbreviation in_group :: "db \<Rightarrow> int \<Rightarrow> bool" where
  "in_group d uid \<equiv> \<exists>m \<in> set (group_members d). mUserID m = uid"

lemma delete_candidates_Inr:
  assumes "delete_candidates us w = (Inr n, w')"
  shows "users (tables w') = filter (\<lambda>u. uID u \<notin> set us \<or> in_group (tables w) (uID u)) (users (tables w))
    \<and> group_members (tables w') = group_members (tables w)
    \<and> sessions (tables w') = filter (\<lambda>s. rUserID s \<notin> set us \<or> in_group (tables w) (rUserID s)) (sessions (tables w))
    \<and> n = int (length (users (tables w))) - int (length (users (tables w')))
    \<and> map gID (groups (tables w')) = map gID (groups (tables w))"
  using assms
proof (induction us arbitrary: w n)
  case (Cons u us)
  from Cons.prems obtain b w1 where q: "query (has_membership u) w = (Inr b, w1)"
    and rest: "(if b then delete_candidates us else call (query (delete_user_row u)) mapGuestClaimError (\<lambda>affected.
       call (delete_candidates us) id (\<lambda>deleted. ret (affected + deleted)))) w1 = (Inr n, w')"
    by auto
  have b: "b = in_group (tables w) u" and t1: "tables w1 = tables w"
    using query_Inr [OF q] by (auto simp: has_membership_def)
  show ?case
  proof (cases b)
    case True
    with rest have "delete_candidates us w1 = (Inr n, w')" by simp
    from Cons.IH [OF this] b True show ?thesis by (auto simp: t1 intro!: filter_cong)
  next
    case False
    with rest obtain a m w2 where d: "query (delete_user_row u) w1 = (Inr a, w2)"
      and r: "delete_candidates us w2 = (Inr m, w')" and n: "n = a + m"
      by auto
    have t2: "tables w2 = delete_user_cascade u (tables w)"
      and a: "a = int (length (filter (\<lambda>v. uID v = u) (users (tables w))))"
      using query_Inr [OF d] by (auto simp: delete_user_row_def t1)
    have m: "group_members (tables w2) = group_members (tables w)"
      unfolding t2 using False b by (auto intro: delete_where_id)
    have "int (length (users (tables w2))) = int (length (users (tables w))) - a"
      unfolding t2 a using sum_length_filter_compl [of "\<lambda>v. uID v = u" "users (tables w)"]
      by (simp add: delete_where_def)
    with Cons.IH [OF r] n m False b show ?thesis
      by (auto simp: t2 delete_user_cascade_def delete_where_def comp_def conj_commute intro!: filter_cong)
  qed
qed simp

lemma DeleteEmptyAbandonedGuests_Inr:
  assumes "DeleteEmptyAbandonedGuests cutoff w = (Inr n, w')"
  obtains w1 w2 where "tables w1 = tables w" "tables w' = tables w2"
    "delete_candidates (map uID (filter (abandoned cutoff) (users (tables w)))) w1 = (Inr n, w2)"
proof -
  let ?body = "call (query (select_abandoned cutoff)) mapGuestClaimError (\<lambda>candidates.
        call (delete_candidates candidates) id (\<lambda>deleted. ret (Some deleted)))"
  from assms obtain r v where t: "transaction mapGuestClaimError ?body w = (Inr r, v)"
    and c: "(case r of Some deleted \<Rightarrow> ret deleted | None \<Rightarrow> ret 0) v = (Inr n, w')"
    by (auto simp: DeleteEmptyAbandonedGuests_def)
  from t obtain w2 where b: "?body (w\<lparr>faults := tl (faults w)\<rparr>) = (Inr r, w2)"
    and k: "r \<noteq> None \<Longrightarrow> tables v = tables w2"
    by (rule transaction_Inr) blast
  from b obtain cs w1 x where q: "query (select_abandoned cutoff) (w\<lparr>faults := tl (faults w)\<rparr>) = (Inr cs, w1)"
    and d: "delete_candidates cs w1 = (Inr x, w2)" and r: "r = Some x"
    by auto
  have "tables w1 = tables w" "cs = map uID (filter (abandoned cutoff) (users (tables w)))"
    using query_Inr [OF q] by (auto simp: select_abandoned_def)
  with that d r k c show thesis by auto
qed

section \<open>Properties\<close>

text \<open>A guest that cleanup may remove: older than the cutoff and in no group.\<close>

definition removable :: "int \<Rightarrow> db \<Rightarrow> user \<Rightarrow> bool" where
  "removable cutoff d u \<longleftrightarrow> uIsGuest u \<and> uCreatedAt u < cutoff \<and> \<not> in_group d (uID u)"

lemma delete_abandoned_Inr:
  assumes d: "delete_candidates (map uID (filter (abandoned cutoff) (users (tables w)))) w = (Inr n, w')"
    and ok: "unique_on (\<lambda>u. Some (uID u)) (users (tables w))"
  shows "users (tables w') = filter (\<lambda>u. \<not> removable cutoff (tables w) u) (users (tables w))"
    and "n = int (length (filter (removable cutoff (tables w)) (users (tables w))))"
    and "sessions (tables w') = filter (\<lambda>s. \<not> (\<exists>u \<in> set (users (tables w)). uID u = rUserID s \<and> removable cutoff (tables w) u))
      (sessions (tables w))"
proof -
  let ?gone = "removable cutoff (tables w)"
  have same: "u = v" if "u \<in> set (users (tables w))" "v \<in> set (users (tables w))" "uID u = uID v" for u v
    using ok that unique_onD [of "\<lambda>u. Some (uID u)" "users (tables w)" u v "uID v"] by simp
  have g: "uID u \<notin> uID ` {v \<in> set (users (tables w)). abandoned cutoff v} \<or> in_group (tables w) (uID u) \<longleftrightarrow> \<not> ?gone u"
    if u: "u \<in> set (users (tables w))" for u
  proof -
    have "uID u \<in> uID ` {v \<in> set (users (tables w)). abandoned cutoff v} \<longleftrightarrow> abandoned cutoff u"
      using u same [OF u] by (auto simp: image_iff)
    then show ?thesis by (auto simp: removable_def abandoned_def)
  qed
  show u: "users (tables w') = filter (\<lambda>u. \<not> ?gone u) (users (tables w))"
    using delete_candidates_Inr [OF d] g by (auto intro!: filter_cong)
  show "n = int (length (filter ?gone (users (tables w))))"
    using delete_candidates_Inr [OF d] u sum_length_filter_compl [of ?gone "users (tables w)"] by simp
  have "rUserID r \<notin> uID ` {v \<in> set (users (tables w)). abandoned cutoff v} \<or> in_group (tables w) (rUserID r)
      \<longleftrightarrow> \<not> (\<exists>u \<in> set (users (tables w)). uID u = rUserID r \<and> ?gone u)" for r
    unfolding removable_def abandoned_def image_iff by (safe; force)
  then have "filter (\<lambda>s. rUserID s \<notin> uID ` {v \<in> set (users (tables w)). abandoned cutoff v} \<or> in_group (tables w) (rUserID s))
        (sessions (tables w))
      = filter (\<lambda>s. \<not> (\<exists>u \<in> set (users (tables w)). uID u = rUserID s \<and> ?gone u)) (sessions (tables w))"
    by (intro filter_cong refl)
  moreover have "sessions (tables w') = filter (\<lambda>s. rUserID s \<notin> uID ` {v \<in> set (users (tables w)). abandoned cutoff v}
      \<or> in_group (tables w) (rUserID s)) (sessions (tables w))"
    using delete_candidates_Inr [OF d] by simp
  ultimately show "sessions (tables w') = filter (\<lambda>s. \<not> (\<exists>u \<in> set (users (tables w)). uID u = rUserID s \<and> ?gone u)) (sessions (tables w))"
    by (rule trans [rotated])
qed

text \<open>
  C15: Cleanup removes exactly the abandoned guests that own nothing. A successful cleanup deletes the guests older than the retention
  that are in no group, together with their sessions, and reports their number; every other account and session, every
  membership and every group stays.
\<close>

theorem Cleanup_removes_empty_guests:
  assumes run: "Cleanup retention w = (Inr n, w')" and ok: "users_ok L (tables w)"
    and cutoff: "cutoff = (now_ns w - retention) div time_Second"
  shows "users (tables w') = filter (\<lambda>u. \<not> removable cutoff (tables w) u) (users (tables w))
    \<and> n = int (length (filter (removable cutoff (tables w)) (users (tables w))))
    \<and> sessions (tables w') = filter (\<lambda>s. \<not> (\<exists>u \<in> set (users (tables w)). uID u = rUserID s \<and> removable cutoff (tables w) u))
        (sessions (tables w))
    \<and> group_members (tables w') = group_members (tables w) \<and> map gID (groups (tables w')) = map gID (groups (tables w))"
proof -
  from run have "DeleteEmptyAbandonedGuests cutoff w = (Inr n, w')"
    by (auto simp: Cleanup_def Let_def cutoff split: if_splits)
  then obtain w1 w2 where t: "tables w1 = tables w" "tables w' = tables w2"
    and d: "delete_candidates (map uID (filter (abandoned cutoff) (users (tables w)))) w1 = (Inr n, w2)"
    by (rule DeleteEmptyAbandonedGuests_Inr)
  show ?thesis
    using delete_abandoned_Inr [OF d [folded t]] delete_candidates_Inr [OF d] ok
    unfolding t users_ok_def by simp
qed

text \<open>An old guest without groups, and one who is in a group.\<close>

definition demo_old_guests :: world where
  "demo_old_guests = demo_world\<lparr>tables := demo_db\<lparr>users := [demo_admin, demo_guest\<lparr>uCreatedAt := 5\<rparr>,
     demo_guest\<lparr>uID := 4, uCreatedAt := 5, uUsername := None\<rparr>], users_seq := 4,
     group_members := [\<lparr>mID = 1, mGroupID = 1, mUserID = 4, mRole = ''member'', mCreatedAt = 0, mVersion = 0\<rparr>]\<rparr>\<rparr>"

theorem Cleanup_removes_empty_guests_witness:
  "\<exists>w'. Cleanup 900000000000 demo_old_guests = (Inr 1, w') \<and> map uID (users (tables w')) = [1, 4]"
proof -
  have "\<not> isl (fst (Cleanup 900000000000 demo_old_guests))" by code_simp
  then obtain n w' where r: "Cleanup 900000000000 demo_old_guests = (Inr n, w')"
    by (cases "Cleanup 900000000000 demo_old_guests") (auto simp: isl_def, metis sum.collapse)
  have ok: "users_ok ascii_lib (tables demo_old_guests)"
    by (simp add: demo_old_guests_def users_ok_def demo_defs users_checks_def btrim_def pg_lower_ascii_lib)
  show ?thesis using Cleanup_removes_empty_guests [OF r ok refl] r
    by (auto simp: demo_old_guests_def demo_defs time_Second_def removable_def)
qed

lemma FindActive_Inr:
  assumes "FindActiveGuestClaimCode uid w = (Inr c, w')"
  shows "c \<in> set (claim_codes (tables w)) \<and> ccUserID c = uid \<and> ccRevokedAt c = None \<and> tables w' = tables w"
proof -
  from assms obtain row w1 where q: "query (select_active_claim uid) w = (Inr row, w1)" and c: "row = c" "w1 = w'"
    by (auto simp: FindActiveGuestClaimCode_def scanGuestClaimCode_def split: if_splits)
  let ?l = "order_by (\<lambda>a b. ccID b < ccID a) (filter (\<lambda>c. ccUserID c = uid \<and> ccRevokedAt c = None) (claim_codes (tables w)))"
  show ?thesis
  proof (cases ?l)
    case Nil
    then show ?thesis using query_Inr [OF q] by (simp add: select_active_claim_def)
  next
    case (Cons x xs)
    then have "row = x" "tables w1 = tables w" using query_Inr [OF q] by (simp_all add: select_active_claim_def)
    moreover have "x \<in> set ?l" unfolding Cons by simp
    ultimately show ?thesis using c by simp
  qed
qed

lemma FindActive_run:
  assumes "faults w = []" "claims_ok (tables w)" "c \<in> set (claim_codes (tables w))" "ccRevokedAt c = None"
    "0 < ccUserID c" "ccCode c \<noteq> []" "length (ccCode c) \<le> 64"
  shows "FindActiveGuestClaimCode (ccUserID c) w = (Inr c, w)"
proof -
  let ?f = "filter (\<lambda>x. ccUserID x = ccUserID c \<and> ccRevokedAt x = None) (claim_codes (tables w))"
  let ?l = "order_by (\<lambda>a b. ccID b < ccID a) ?f"
  have u: "unique_on (\<lambda>c. if ccRevokedAt c = None then Some (ccUserID c) else None) (claim_codes (tables w))"
    using assms(2) by (simp add: claims_ok_def)
  have only: "x = c" if "x \<in> set ?l" for x
    using that by (intro unique_onD [OF u _ assms(3), of x "ccUserID c"]) (simp_all add: assms(4))
  obtain r where "?l = c # r"
  proof (cases ?l)
    case Nil
    moreover have "c \<in> set ?l" using assms by simp
    ultimately show ?thesis by simp
  next
    case (Cons x xs)
    then have "x \<in> set ?l" by (metis list.set_intros(1))
    then have "x = c" by (rule only)
    with Cons that show ?thesis by blast
  qed
  then have "select_active_claim (ccUserID c) (tables w) = (Inr c, tables w)" by (simp add: select_active_claim_def)
  then have "query (select_active_claim (ccUserID c)) w = (Inr c, w\<lparr>tables := tables w\<rparr>)"
    by (rule query_ok [OF assms(1)])
  then show ?thesis using assms
    by (simp add: FindActiveGuestClaimCode_def call_def check_def ret_def scanGuestClaimCode_def)
qed

lemma CreateGuestClaimCode_Inr:
  assumes "CreateGuestClaimCode c w = (Inr r, w')"
  shows "r \<in> set (claim_codes (tables w')) \<and> ccCode r = ccCode c \<and> ccUserID r = ccUserID c
    \<and> ccRevokedAt r = ccRevokedAt c \<and> users (tables w') = users (tables w)"
proof -
  from assms obtain row w1 where q: "query (insert_claim_code c) w = (Inr row, w1)" and c: "row = r" "w1 = w'"
    by (auto simp: CreateGuestClaimCode_def scanGuestClaimCode_def split: if_splits)
  have "insert_claim_code c (tables w) = (Inr r, tables w')" using query_Inr [OF q] c by simp
  then have "r = c\<lparr>ccID := claim_codes_seq (tables w) + 1\<rparr>"
    "tables w' = (tables w)\<lparr>claim_codes := claim_codes (tables w) @ [r], claim_codes_seq := claim_codes_seq (tables w) + 1\<rparr>"
    by (auto simp: insert_claim_code_def Let_def split: option.splits)
  then show ?thesis by simp
qed

text \<open>
  Issuing a transfer code is idempotent. Whoever asks gets the guest's one active code: ten characters of the
  alphabet, stored and not revoked; asking again, when the database answers, returns the same code and changes nothing.
\<close>

theorem claim_Issue_idempotent:
  assumes run: "claim_Issue uid w = (Inr c, w')" and ok: "db_ok L (tables w)" and up: "faults w' = []"
  shows "claim_Issue uid w' = (Inr c, w') \<and> c \<in> set (claim_codes (tables w')) \<and> ccUserID c = uid
    \<and> ccRevokedAt c = None \<and> length (ccCode c) = 10 \<and> set (ccCode c) \<subseteq> set guestClaimAlphabet"
proof -
  from run obtain user w1 where uid: "0 < uid" and f: "FindUserByID uid w = (Inr user, w1)"
    and user: "uID user = uid" "uIsGuest user" and v: "validateGuestClaimCode c uid = Inr ()"
    and c: "c \<in> set (claim_codes (tables w')) \<and> ccUserID c = uid \<and> ccRevokedAt c = None"
    by (auto simp: claim_Issue_def attempt_case_iff split: if_splits
        dest: FindActive_Inr CreateGuestClaimCode_Inr)
  have "evolves (on_tables quiet) (claim_Issue uid)" by (intro evolves_claim_Issue preord_intro)
  from evolvesD [OF this run] have q: "quiet (tables w) (tables w')" by (simp add: on_tables_def)
  with ok have ok': "db_ok L (tables w')" "users (tables w') = users (tables w)" by (simp_all add: quiet_def)
  have code: "length (ccCode c) = 10" "set (ccCode c) \<subseteq> set guestClaimAlphabet"
    using v by (auto simp: validateGuestClaimCode_def guestClaimCodeLength_def list_all_iff
        containsGuestClaimCharacter_def split: if_splits)
  have find: "find (\<lambda>v. uID v = uid) (users (tables w')) = Some user"
    using FindUserByID_Inr [OF f] ok' by simp
  have "FindUserByID uid w' = (Inr user, w')"
    using uid find find_user_run [OF up, of L "\<lambda>v. uID v = uid"] ok' by (simp add: FindUserByID_def db_ok_def)
  moreover have "FindActiveGuestClaimCode uid w' = (Inr c, w')"
    using FindActive_run [OF up, of c] c ok' uid code by (cases "ccCode c") (auto simp: db_ok_def)
  ultimately have "claim_Issue uid w' = (Inr c, w')"
    using uid user v by (simp add: claim_Issue_def call_def attempt_def check_def ret_def)
  with c code show ?thesis by simp
qed

theorem claim_Issue_idempotent_witness:
  "\<exists>c w'. claim_Issue 3 demo_world = (Inr c, w') \<and> claim_Issue 3 w' = (Inr c, w') \<and> length (ccCode c) = 10"
proof -
  let ?run = "claim_Issue 3 demo_world"
  have "\<not> isl (fst ?run)" "faults (snd ?run) = []" by code_simp+
  then obtain c w' where r: "?run = (Inr c, w')" "faults w' = []"
    by (cases ?run) (auto simp: isl_def, metis sum.collapse)
  from claim_Issue_idempotent [OF r(1) _ r(2), of ascii_lib] demo_db_ok r show ?thesis by auto
qed

lemma RevokeGuestClaimCode_Inr:
  "RevokeGuestClaimCode uid t w = (Inr (), w') \<Longrightarrow> 0 < uid \<Longrightarrow>
    tables w' = (tables w)\<lparr>claim_codes := update_where (\<lambda>c. ccUserID c = uid \<and> ccRevokedAt c = None)
      (\<lambda>c. c\<lparr>ccRevokedAt := Some t\<rparr>) (claim_codes (tables w))\<rparr>"
  by (auto simp: RevokeGuestClaimCode_def update_claims_def dest!: query_Inr)


definition demo_upgrade :: guest_upgrade_service where
  "demo_upgrade = \<lparr>guHash = (\<lambda>p. ret ''h9''), guSessions = demo_sessions\<rparr>"


end
