(* ===== verification/Settings.thy ===== *)
theory Settings
  imports Recovery
begin

text \<open>
  Settings an account changes for itself (\<^verbatim>\<open>internal/service/settings.go\<close>, \<^verbatim>\<open>theme.go\<close>,
  \<^verbatim>\<open>password_settings.go\<close> and the language list of \<^verbatim>\<open>internal/locale\<close>): profile names, language, theme and
  password. Every change reads the account, edits it and writes it back at the revision read.
\<close>

section \<open>Profile\<close>

record profile_input =
  piUsername :: string
  piDisplayName :: string

definition publicUser :: "user \<Rightarrow> user" where
  "publicUser user = user\<lparr>uPasswordHash := None\<rparr>"

definition optionalNormalized :: "string \<Rightarrow> string option" where
  "optionalNormalized value = (if value = [] then None else Some value)"

definition sameOptionalString :: "string option \<Rightarrow> string \<Rightarrow> bool" where
  "sameOptionalString current value = (case current of None \<Rightarrow> value = [] | Some c \<Rightarrow> c = value)"

definition applyProfileFields :: "user \<Rightarrow> string \<Rightarrow> string \<Rightarrow> user" where
  "applyProfileFields user username displayName =
     user\<lparr>uUsername := optionalNormalized username, uDisplayName := optionalNormalized displayName\<rparr>"

definition profile_rejectDuplicateUsername :: "golib \<Rightarrow> int \<Rightarrow> string \<Rightarrow> unit prog" where
  "profile_rejectDuplicateUsername L userID username =
     attempt (FindUserByUsername L username) (\<lambda>r. case r of
       Inl err \<Rightarrow> if errors_is err (Account ErrUserNotFound) then ret () else fail (Wrap err)
     | Inr existing \<Rightarrow>
         if 0 < uID existing \<and> uID existing \<noteq> userID then fail (Account ErrUsernameUnavailable) else ret ())"

text \<open>How the settings services translate a refused write.\<close>

definition settings_write_error :: "error \<Rightarrow> error" where
  "settings_write_error err =
     (if errors_is err (Account ErrUserNotFound) then Repo ErrRecordNotFound
      else if errors_is err (Repo ErrOptimisticLockConflict) then Repo ErrOptimisticLockConflict
      else Wrap err)"

definition profile_Update :: "golib \<Rightarrow> int \<Rightarrow> profile_input \<Rightarrow> user prog" where
  "profile_Update L userID input =
     (if userID \<le> 0 then fail (Account ErrInvalidUserID)
      else
        check (NormalizeUsername L (piUsername input)) Wrap (\<lambda>username.
        check (normalizeDisplayName (piDisplayName input)) id (\<lambda>displayName.
        call (FindUserByID userID) Wrap (\<lambda>user.
        if uID user \<noteq> userID then fail (Account ErrUserNotFound)
        else
          call (if username \<noteq> [] \<and> \<not> sameOptionalString (uUsername user) username
                then profile_rejectDuplicateUsername L userID username else ret ()) id (\<lambda>_.
          call (UpdateUser L (applyProfileFields user username displayName) (uVersion user)) settings_write_error
            (\<lambda>updated. ret (publicUser updated)))))))"

section \<open>Language and theme\<close>

definition English :: string where "English = ''en''"
definition Hungarian :: string where "Hungarian = ''hu''"

definition Supported :: "string \<Rightarrow> bool" where
  "Supported code \<longleftrightarrow> code = English \<or> code = Hungarian"

definition validLocale :: "string \<Rightarrow> bool" where
  "validLocale code = Supported code"

definition locale_Update :: "golib \<Rightarrow> int \<Rightarrow> string \<Rightarrow> user prog" where
  "locale_Update L userID rawLocale =
     (if userID \<le> 0 then fail (Account ErrInvalidUserID)
      else
        let code = ToLower L (TrimSpace rawLocale) in
        if \<not> validLocale code then fail (Account ErrInvalidLocale)
        else
          call (FindUserByID userID) Wrap (\<lambda>user.
          if uID user \<noteq> userID then fail (Account ErrUserNotFound)
          else if uLocale user = code then ret (publicUser user)
          else
            call (UpdateUser L (user\<lparr>uLocale := code\<rparr>) (uVersion user)) settings_write_error
              (\<lambda>updated. ret (publicUser updated))))"

definition UpdateTheme :: "golib \<Rightarrow> int \<Rightarrow> string \<Rightarrow> unit prog" where
  "UpdateTheme L userID raw =
     (if userID \<le> 0 then fail (Account ErrInvalidUserID)
      else
        check (normalizeTheme L raw) id (\<lambda>theme.
        call (FindUserByID userID) Wrap (\<lambda>user.
        if uTheme user = theme then ret ()
        else call (UpdateUser L (user\<lparr>uTheme := theme\<rparr>) (uVersion user)) Wrap (\<lambda>_. ret ()))))"

section \<open>Password\<close>

definition RecentSignInWindow :: int where "RecentSignInWindow = 10 * 60 * time_Second"

record password_input =
  pwCurrent :: string
  pwNew :: string
  pwSessionID :: string

record password_result =
  pwUser :: user
  pwSession :: "session option"

record password_service =
  pwHash :: "string \<Rightarrow> string prog"
  pwVerify :: "string \<Rightarrow> string \<Rightarrow> error + bool"
  pwSessions :: session_service

text \<open>
  \<^verbatim>\<open>ctx.Err()\<close>: the request's context has ended when the next database call would find it ended.
\<close>

definition context_err :: "unit prog" where
  "context_err w =
     (case faults w of
        Some Canceled # _ \<Rightarrow> (Inl (Repo ContextCanceled), w)
      | Some DeadlineExceeded # _ \<Rightarrow> (Inl (Repo ContextDeadlineExceeded), w)
      | _ \<Rightarrow> (Inr (), w))"

definition verifyCurrent :: "golib \<Rightarrow> password_service \<Rightarrow> user \<Rightarrow> password_input \<Rightarrow> unit prog" where
  "verifyCurrent L s user input =
     call context_err id (\<lambda>_.
     case uPasswordHash user of
       None \<Rightarrow>
         call (Lookup L (pwSessionID input)) (\<lambda>_. Auth ErrRecentSignInRequired) (\<lambda>session.
         reading now_ns (\<lambda>now.
         if sUserID session \<noteq> uID user \<or> RecentSignInWindow < now - sCreatedAt session * time_Second
         then fail (Auth ErrRecentSignInRequired) else ret ()))
     | Some stored \<Rightarrow>
         if pwCurrent input = [] then fail (Auth ErrCurrentPasswordRequired)
         else if pwVerify s (pwCurrent input) stored \<noteq> Inr True then fail (Auth ErrCurrentPasswordMismatch)
         else ret ())"

definition matchesCurrent :: "password_service \<Rightarrow> user \<Rightarrow> string \<Rightarrow> bool" where
  "matchesCurrent s user newPassword =
     (case uPasswordHash user of None \<Rightarrow> False | Some stored \<Rightarrow> pwVerify s newPassword stored = Inr True)"

definition password_Update :: "golib \<Rightarrow> password_service \<Rightarrow> int \<Rightarrow> password_input \<Rightarrow> password_result prog" where
  "password_Update L s userID input =
     (if userID \<le> 0 then fail (Account ErrInvalidUserID)
      else
        check (ValidatePassword (pwNew input)) Wrap (\<lambda>_.
        call (FindUserByID userID) Wrap (\<lambda>user.
        if uID user \<noteq> userID then fail (Account ErrUserNotFound)
        else
          call (verifyCurrent L s user input) id (\<lambda>_.
          if matchesCurrent s user (pwNew input) then ret \<lparr>pwUser = publicUser user, pwSession = None\<rparr>
          else
            call (pwHash s (pwNew input)) Wrap (\<lambda>passwordHash.
            call (UpdateUser L (user\<lparr>uPasswordHash := Some passwordHash\<rparr>) (uVersion user)) settings_write_error (\<lambda>updated.
            call (RevokeUser (pwSessions s) userID) Wrap (\<lambda>_.
            call (Create L (pwSessions s) userID) Wrap (\<lambda>session.
            ret \<lparr>pwUser = publicUser updated, pwSession = Some session\<rparr>))))))))"

section \<open>Composition\<close>

lemma context_err_Inr [simp]: "context_err w = (Inr x, w') \<Longrightarrow> w' = w"
  by (auto simp: context_err_def split: list.splits option.splits db_fault.splits)

lemma evolves_context_err [evolves_intro]: "preord R \<Longrightarrow> evolves (on_tables R) context_err"
  by (simp add: evolves_def on_tables_def context_err_def preord_refl split: list.split option.split db_fault.split)

lemma evolves_settings_reads [evolves_intro]:
  "preord R \<Longrightarrow> evolves (on_tables R) (profile_rejectDuplicateUsername L uid name)"
  "preord R \<Longrightarrow> evolves (on_tables R) (verifyCurrent L s u i)"
  unfolding profile_rejectDuplicateUsername_def verifyCurrent_def by (intro evolves_intro preord_intro; assumption)+

lemma evolves_settings:
  assumes c: "covers_quiet R" and u: "\<And>u v. evolves (on_tables R) (UpdateUser L u v)"
  shows "evolves (on_tables R) (profile_Update L uid p)" "evolves (on_tables R) (locale_Update L uid l)"
    "evolves (on_tables R) (UpdateTheme L uid t)"
  unfolding profile_Update_def locale_Update_def UpdateTheme_def
  by (intro evolves_intro preord_intro covers_quiet_preord [OF c] c u)+

lemma evolves_password_Update:
  assumes c: "covers_quiet R" and u: "\<And>u v. evolves (on_tables R) (UpdateUser L u v)"
    and h: "\<And>p. evolves (on_tables R) (pwHash s p)"
    and sso: "\<And>f uid. ssSSO (pwSessions s) = Some f \<Longrightarrow> evolves (on_tables R) (f uid)"
  shows "evolves (on_tables R) (password_Update L s uid i)"
  unfolding password_Update_def by (intro evolves_intro preord_intro covers_quiet_preord [OF c] c u h sso)

section \<open>Properties\<close>

lemma FindUserByID_clock: "FindUserByID uid w = (Inr u, w') \<Longrightarrow> now_ns w' = now_ns w"
  by (auto simp: FindUserByID_def find_user_def split: if_splits dest!: query_Inr_world)

lemma Lookup_clock: "Lookup L c w = (Inr s, w') \<Longrightarrow> now_ns w' = now_ns w"
  by (auto simp: Lookup_def FindSession_def split: if_splits dest!: query_Inr_world)

text \<open>An account read and written back with edits, the pattern of every setting.\<close>

lemma read_edit_write:
  assumes find: "FindUserByID uid w = (Inr user, w1)" and same: "tables w2 = tables w1"
    and upd: "UpdateUser L (f user) (uVersion user) w2 = (Inr new, w3)"
    and ok: "users_ok L (tables w)" and frame: "uID (f user) = uID user" "uCreatedAt (f user) = uCreatedAt user"
  shows "user \<in> set (users (tables w)) \<and> uID user = uid \<and> new = (f user)\<lparr>uVersion := uVersion user + 1\<rparr>
    \<and> tables w3 = (tables w)\<lparr>users := update_where (\<lambda>v. uID v = uid) (\<lambda>_. new) (users (tables w))\<rparr>"
proof -
  have t: "tables w2 = tables w" and u: "user \<in> set (users (tables w))" "uID user = uid"
    using FindUserByID_Inr [OF find] same by (auto dest: find_Some_iff')
  from upd obtain row where row: "row \<in> set (users (tables w))" "uID row = uID user"
    and new: "new = set_user_columns (f user) row"
    and t3: "tables w3 = (tables w)\<lparr>users := update_where (\<lambda>v. uID v = uid) (\<lambda>_. new) (users (tables w))\<rparr>"
    by (rule UpdateUser_Inr) (auto simp: t frame u)
  have "new = (f user)\<lparr>uVersion := uVersion user + 1\<rparr>"
    unfolding new using write_back [OF ok u(1) row, of f] frame by (cases "f user") simp
  with u t3 show ?thesis by blast
qed

lemma profile_rejectDuplicate_tables:
  "(if b then profile_rejectDuplicateUsername L uid name else ret ()) w = (Inr x, w') \<Longrightarrow> tables w' = tables w"
proof (rule evolves_eqD)
  show "evolves (on_tables (=)) (if b then profile_rejectDuplicateUsername L uid name else ret ())"
    by (intro evolves_intro preord_intro)
qed

text \<open>
  Settings change their own fields only. A profile, language or theme update that succeeds rewrites the caller's row
  alone, with the normalised new values and the next revision, or leaves the tables alone when the stored value is
  already the requested one; nothing else in the database changes and no password hash is returned.
\<close>

theorem settings_change_own_fields:
  assumes ok: "users_ok L (tables w)"
  shows "(profile_Update L uid p w = (Inr res, w') \<longrightarrow> (\<exists>u name disp. u \<in> set (users (tables w)) \<and> uID u = uid
        \<and> NormalizeUsername L (piUsername p) = Inr name \<and> normalizeDisplayName (piDisplayName p) = Inr disp
        \<and> tables w' = (tables w)\<lparr>users := update_where (\<lambda>v. uID v = uid)
            (\<lambda>_. u\<lparr>uUsername := optionalNormalized name, uDisplayName := optionalNormalized disp,
               uVersion := uVersion u + 1\<rparr>) (users (tables w))\<rparr> \<and> uPasswordHash res = None))
    \<and> (locale_Update L uid loc w = (Inr res, w') \<longrightarrow> (\<exists>u code. u \<in> set (users (tables w)) \<and> uID u = uid
        \<and> code = ToLower L (TrimSpace loc) \<and> code \<in> {''en'', ''hu''} \<and> uPasswordHash res = None
        \<and> tables w' = (if uLocale u = code then tables w else (tables w)\<lparr>users := update_where (\<lambda>v. uID v = uid)
            (\<lambda>_. u\<lparr>uLocale := code, uVersion := uVersion u + 1\<rparr>) (users (tables w))\<rparr>)))
    \<and> (UpdateTheme L uid th w = (Inr (), w') \<longrightarrow> (\<exists>u theme. u \<in> set (users (tables w)) \<and> uID u = uid
        \<and> normalizeTheme L th = Inr theme
        \<and> tables w' = (if uTheme u = theme then tables w else (tables w)\<lparr>users := update_where (\<lambda>v. uID v = uid)
            (\<lambda>_. u\<lparr>uTheme := theme, uVersion := uVersion u + 1\<rparr>) (users (tables w))\<rparr>)))"
proof (intro conjI impI)
  assume "profile_Update L uid p w = (Inr res, w')"
  then obtain name disp user w1 w2 upd where n: "NormalizeUsername L (piUsername p) = Inr name"
    and d: "normalizeDisplayName (piDisplayName p) = Inr disp" and f: "FindUserByID uid w = (Inr user, w1)"
    and r: "(if name \<noteq> [] \<and> \<not> sameOptionalString (uUsername user) name
                then profile_rejectDuplicateUsername L uid name else ret ()) w1 = (Inr (), w2)"
    and u: "UpdateUser L (applyProfileFields user name disp) (uVersion user) w2 = (Inr upd, w')"
    and res: "res = publicUser upd"
    by (auto simp: profile_Update_def split: if_splits)
  from read_edit_write [OF f profile_rejectDuplicate_tables [OF r], of L "\<lambda>u. applyProfileFields u name disp" upd w'] u ok
  have "user \<in> set (users (tables w)) \<and> uID user = uid
    \<and> tables w' = (tables w)\<lparr>users := update_where (\<lambda>v. uID v = uid) (\<lambda>_. user\<lparr>uUsername := optionalNormalized name,
        uDisplayName := optionalNormalized disp, uVersion := uVersion user + 1\<rparr>) (users (tables w))\<rparr>"
    by (simp add: applyProfileFields_def)
  with n d res show "\<exists>u name disp. u \<in> set (users (tables w)) \<and> uID u = uid
        \<and> NormalizeUsername L (piUsername p) = Inr name \<and> normalizeDisplayName (piDisplayName p) = Inr disp
        \<and> tables w' = (tables w)\<lparr>users := update_where (\<lambda>v. uID v = uid)
            (\<lambda>_. u\<lparr>uUsername := optionalNormalized name, uDisplayName := optionalNormalized disp,
               uVersion := uVersion u + 1\<rparr>) (users (tables w))\<rparr> \<and> uPasswordHash res = None"
    by (intro exI [of _ user] exI [of _ name] exI [of _ disp]) (simp add: publicUser_def)
next
  let ?code = "ToLower L (TrimSpace loc)"
  assume "locale_Update L uid loc w = (Inr res, w')"
  then obtain user w1 where code: "?code \<in> {''en'', ''hu''}" and f: "FindUserByID uid w = (Inr user, w1)"
    and rest: "uLocale user = ?code \<and> res = publicUser user \<and> w' = w1 \<or>
      uLocale user \<noteq> ?code \<and> (\<exists>upd. UpdateUser L (user\<lparr>uLocale := ?code\<rparr>) (uVersion user) w1 = (Inr upd, w')
         \<and> res = publicUser upd)"
    by (auto simp: locale_Update_def Let_def validLocale_def Supported_def English_def Hungarian_def split: if_splits)
  show "\<exists>u code. u \<in> set (users (tables w)) \<and> uID u = uid \<and> code = ?code \<and> code \<in> {''en'', ''hu''}
        \<and> uPasswordHash res = None
        \<and> tables w' = (if uLocale u = code then tables w else (tables w)\<lparr>users := update_where (\<lambda>v. uID v = uid)
            (\<lambda>_. u\<lparr>uLocale := code, uVersion := uVersion u + 1\<rparr>) (users (tables w))\<rparr>)"
    using rest code FindUserByID_Inr [OF f]
      read_edit_write [OF f refl, of L "\<lambda>u. u\<lparr>uLocale := ?code\<rparr>" _ w'] ok
    by (intro exI [of _ user] exI [of _ ?code]) (auto simp: publicUser_def dest: find_Some_iff')
next
  assume "UpdateTheme L uid th w = (Inr (), w')"
  then obtain theme user w1 where t: "normalizeTheme L th = Inr theme" and f: "FindUserByID uid w = (Inr user, w1)"
    and rest: "uTheme user = theme \<and> w' = w1 \<or>
      uTheme user \<noteq> theme \<and> (\<exists>upd. UpdateUser L (user\<lparr>uTheme := theme\<rparr>) (uVersion user) w1 = (Inr upd, w'))"
    by (auto simp: UpdateTheme_def split: if_splits)
  show "\<exists>u theme. u \<in> set (users (tables w)) \<and> uID u = uid \<and> normalizeTheme L th = Inr theme
        \<and> tables w' = (if uTheme u = theme then tables w else (tables w)\<lparr>users := update_where (\<lambda>v. uID v = uid)
            (\<lambda>_. u\<lparr>uTheme := theme, uVersion := uVersion u + 1\<rparr>) (users (tables w))\<rparr>)"
    using rest t FindUserByID_Inr [OF f]
      read_edit_write [OF f refl, of L "\<lambda>u. u\<lparr>uTheme := theme\<rparr>" _ w'] ok
    by (intro exI [of _ user] exI [of _ theme]) (auto dest: find_Some_iff')
qed

text \<open>The proof of possession a password change asks for.\<close>

definition may_set_password :: "golib \<Rightarrow> password_service \<Rightarrow> password_input \<Rightarrow> world \<Rightarrow> user \<Rightarrow> bool" where
  "may_set_password L s input w u \<longleftrightarrow>
     (case uPasswordHash u of
        Some stored \<Rightarrow> pwVerify s (pwCurrent input) stored = Inr True
      | None \<Rightarrow> (\<exists>r \<in> set (sessions (tables w)). rID r = sessionDigest L (pwSessionID input) \<and> rUserID r = uID u
          \<and> rRevokedAt r = None \<and> now_ns w - rCreatedAt r * time_Second \<le> RecentSignInWindow))"

lemma verifyCurrent_Inr:
  assumes "verifyCurrent L s u i w = (Inr (), w')"
  shows "may_set_password L s i w u \<and> tables w' = tables w"
proof (cases "uPasswordHash u")
  case None
  with assms obtain ses where l: "Lookup L (pwSessionID i) w = (Inr ses, w')" and "sUserID ses = uID u"
    and "\<not> RecentSignInWindow < now_ns w' - sCreatedAt ses * time_Second"
    by (auto simp: verifyCurrent_def split: if_splits dest!: context_err_Inr)
  with None show ?thesis
    by (elim Lookup_Inr) (auto simp: may_set_password_def Lookup_clock [OF l])
next
  case (Some stored)
  with assms show ?thesis
    by (auto simp: verifyCurrent_def may_set_password_def split: if_splits dest!: context_err_Inr)
qed

text \<open>
  C17: Changing the password needs proof of possession and ends every other session. A change that succeeds was asked for
  with the current password, or, by an account that has none, from its own session of the last ten minutes; either the
  password was already the requested one and nothing changed, or the account now carries the hash of the new password
  at the next revision, all its earlier sessions are ended, and only the session returned is open.
\<close>

theorem password_Update_safe:
  assumes run: "password_Update L s uid input w = (Inr res, w')" and ok: "users_ok L (tables w)"
    and hash: "\<And>p. evolves (on_tables (=)) (pwHash s p)" and sso: "sso_revoker_ok (pwSessions s)"
  shows "\<exists>u \<in> set (users (tables w)). uID u = uid \<and> may_set_password L s input w u
    \<and> ValidatePassword (pwNew input) = Inr () \<and> uPasswordHash (pwUser res) = None
    \<and> (case pwSession res of
         None \<Rightarrow> matchesCurrent s u (pwNew input) \<and> tables w' = tables w
       | Some new \<Rightarrow> \<exists>h wa wb. pwHash s (pwNew input) wa = (Inr h, wb)
           \<and> users (tables w') = update_where (\<lambda>v. uID v = uid)
               (\<lambda>_. u\<lparr>uPasswordHash := Some h, uVersion := uVersion u + 1\<rparr>) (users (tables w))
           \<and> (\<forall>r \<in> set (sessions (tables w')). rUserID r = uid \<longrightarrow>
                rRevokedAt r \<noteq> None \<or> rID r = sessionDigest L (sID new)))"
proof -
  from run obtain user w1 w2 where pw: "ValidatePassword (pwNew input) = Inr ()"
    and f: "FindUserByID uid w = (Inr user, w1)" and id: "uID user = uid"
    and v: "verifyCurrent L s user input w1 = (Inr (), w2)"
    and rest: "(if matchesCurrent s user (pwNew input) then ret \<lparr>pwUser = publicUser user, pwSession = None\<rparr>
          else
            call (pwHash s (pwNew input)) Wrap (\<lambda>passwordHash.
            call (UpdateUser L (user\<lparr>uPasswordHash := Some passwordHash\<rparr>) (uVersion user)) settings_write_error (\<lambda>updated.
            call (RevokeUser (pwSessions s) uid) Wrap (\<lambda>_.
            call (Create L (pwSessions s) uid) Wrap (\<lambda>session.
            ret \<lparr>pwUser = publicUser updated, pwSession = Some session\<rparr>))))) w2 = (Inr res, w')"
    by (auto simp: password_Update_def split: if_splits)
  have t1: "tables w1 = tables w" and user: "user \<in> set (users (tables w))"
    using FindUserByID_Inr [OF f] by (auto dest: find_Some_iff')
  have t2: "tables w2 = tables w" using verifyCurrent_Inr [OF v] t1 by simp
  have "may_set_password L s input w1 user" using verifyCurrent_Inr [OF v] by simp
  then have may: "may_set_password L s input w user"
    unfolding may_set_password_def t1 FindUserByID_clock [OF f] .
  show ?thesis
  proof (cases "matchesCurrent s user (pwNew input)")
    case True
    with rest have "res = \<lparr>pwUser = publicUser user, pwSession = None\<rparr>" "w' = w2" by simp_all
    with True user id may pw t2 show ?thesis
      by (intro bexI [of _ user]) (simp_all add: publicUser_def)
  next
    case False
    with rest obtain h upd ses w3 w4 w5 where h: "pwHash s (pwNew input) w2 = (Inr h, w3)"
      and u: "UpdateUser L (user\<lparr>uPasswordHash := Some h\<rparr>) (uVersion user) w3 = (Inr upd, w4)"
      and r: "RevokeUser (pwSessions s) uid w4 = (Inr (), w5)"
      and c: "Create L (pwSessions s) uid w5 = (Inr ses, w')"
      and res: "res = \<lparr>pwUser = publicUser upd, pwSession = Some ses\<rparr>"
      by auto
    have "tables w3 = tables w1" using evolves_eqD [OF hash h] t1 t2 by simp
    from read_edit_write [OF f this, of L "\<lambda>u. u\<lparr>uPasswordHash := Some h\<rparr>" upd w4] u ok
    have upd: "users (tables w4) = update_where (\<lambda>v. uID v = uid)
        (\<lambda>_. user\<lparr>uPasswordHash := Some h, uVersion := uVersion user + 1\<rparr>) (users (tables w))" by simp
    from r sso obtain ls where rv: "tables w5 = (tables w4)\<lparr>sessions := update_where (\<lambda>r. rUserID r = uid)
        (coalesce_revoked (unix_now w4)) (sessions (tables w4)), sso_logins := ls\<rparr>" by (rule RevokeUser_Inr)
    have t': "tables w' = (tables w5)\<lparr>sessions := sessions (tables w5) @ [session_row_of L ses]\<rparr>"
      using c unfolding Create_def by (rule session_create_Inr(10))
    have users: "users (tables w') = update_where (\<lambda>v. uID v = uid)
        (\<lambda>_. user\<lparr>uPasswordHash := Some h, uVersion := uVersion user + 1\<rparr>) (users (tables w))"
      using upd by (simp add: t' rv)
    from ended_by_revocation [OF rv] have ended: "\<forall>r \<in> set (sessions (tables w')). rUserID r = uid \<longrightarrow>
        rRevokedAt r \<noteq> None \<or> rID r = sessionDigest L (sID ses)"
      by (simp add: t' sessions_ended_def session_row_of_def)
    from h users ended have "\<exists>h wa wb. pwHash s (pwNew input) wa = (Inr h, wb)
           \<and> users (tables w') = update_where (\<lambda>v. uID v = uid)
               (\<lambda>_. user\<lparr>uPasswordHash := Some h, uVersion := uVersion user + 1\<rparr>) (users (tables w))
           \<and> (\<forall>r \<in> set (sessions (tables w')). rUserID r = uid \<longrightarrow>
                rRevokedAt r \<noteq> None \<or> rID r = sessionDigest L (sID ses))" by blast
    moreover have "uPasswordHash (pwUser res) = None" "pwSession res = Some ses" by (simp_all add: res publicUser_def)
    ultimately show ?thesis
      by (intro bexI [OF _ user] conjI id may pw) (simp_all only: option.case)
  qed
qed

section \<open>Worked examples\<close>

definition demo_passwords :: password_service where
  "demo_passwords = \<lparr>pwHash = (\<lambda>p. ret ''h9''), pwVerify = (\<lambda>p h. Inr (p = ''current'' \<and> h = ''h2'')),
     pwSessions = \<lparr>ssLifetime = 3600000000000, ssSSO = None\<rparr>\<rparr>"

theorem settings_change_own_fields_witness:
  "\<exists>res w'. profile_Update ascii_lib 2 \<lparr>piUsername = [], piDisplayName = ''Bob''\<rparr> demo_world = (Inr res, w')
     \<and> map uDisplayName (users (tables w')) = [None, Some ''Bob'', None]"
proof -
  let ?run = "profile_Update ascii_lib 2 \<lparr>piUsername = [], piDisplayName = ''Bob''\<rparr> demo_world"
  have "\<not> isl (fst ?run)" by code_simp
  then obtain res w' where r: "?run = (Inr res, w')"
    by (cases ?run) (auto simp: isl_def, metis sum.collapse)
  have ok: "users_ok ascii_lib (tables demo_world)" using demo_db_ok by (simp add: db_ok_def)
  from settings_change_own_fields [OF ok, THEN conjunct1, rule_format, OF r] obtain u name disp where
    "u \<in> set (users (tables demo_world))" "uID u = 2" and d: "normalizeDisplayName ''Bob'' = Inr disp"
    and t: "tables w' = (tables demo_world)\<lparr>users := update_where (\<lambda>v. uID v = 2)
            (\<lambda>_. u\<lparr>uUsername := optionalNormalized name, uDisplayName := optionalNormalized disp,
               uVersion := uVersion u + 1\<rparr>) (users (tables demo_world))\<rparr>" by auto
  have "normalizeDisplayName ''Bob'' = Inr ''Bob''" by code_simp
  with d have "disp = ''Bob''" by simp
  with r t show ?thesis by (simp add: demo_defs optionalNormalized_def)
qed

theorem password_Update_safe_witness:
  "\<exists>res w'. password_Update ascii_lib demo_passwords 2 \<lparr>pwCurrent = ''current'', pwNew = ''password'', pwSessionID = []\<rparr>
       demo_world = (Inr res, w') \<and> uPasswordHash (pwUser res) = None"
proof -
  let ?i = "\<lparr>pwCurrent = ''current'', pwNew = ''password'', pwSessionID = []\<rparr>"
  let ?run = "password_Update ascii_lib demo_passwords 2 ?i demo_world"
  have "\<not> isl (fst ?run)" by code_simp
  then obtain res w' where r: "?run = (Inr res, w')"
    by (cases ?run) (auto simp: isl_def, metis sum.collapse)
  have ok: "users_ok ascii_lib (tables demo_world)" using demo_db_ok by (simp add: db_ok_def)
  have h: "evolves (on_tables (=)) (pwHash demo_passwords p)" for p
    by (simp add: demo_passwords_def evolves_ret preord_on_tables preord_eq)
  have "sso_revoker_ok (pwSessions demo_passwords)" by (simp add: sso_revoker_ok_def demo_passwords_def)
  from password_Update_safe [OF r ok h this] r show ?thesis by auto
qed

end
