(* ===== verification/AdminUsers.thy ===== *)
theory AdminUsers
  imports UserStore
begin

text \<open>
  The administrators' account list (the query half of \<^verbatim>\<open>internal/service/admin_accounts.go\<close> and
  \<^verbatim>\<open>internal/store/postgres/admin_users.go\<close>): normalisation of a submitted query, the search pattern, filters, order
  and paging, with the pattern matching of PostgreSQL spelled out. The collation of text columns is a parameter.
\<close>

section \<open>Queries\<close>

definition DefaultAdminPageSize :: int where "DefaultAdminPageSize = 20"
definition MaxAdminPageSize :: int where "MaxAdminPageSize = 100"
definition MaxAdminPage :: int where "MaxAdminPage = 1000000"
definition maxAdminSearchLength :: nat where "maxAdminSearchLength = 255"

record admin_query =
  aqSearch :: string
  aqAdmin :: string
  aqGuest :: string
  aqConfirmed :: string
  aqSort :: string
  aqDirection :: string
  aqPage :: int
  aqSize :: int

record admin_page =
  apUsers :: "user list"
  apTotal :: int
  apPage :: int
  apSize :: int
  apPages :: int

definition normalizeAdminSearch :: "string \<Rightarrow> string" where
  "normalizeAdminSearch raw =
     (let trimmed = filter (\<lambda>c. c \<noteq> CHR 0x00) (TrimSpace raw) in
      if RuneCountInString trimmed \<le> maxAdminSearchLength then trimmed
      else concat (map encode_rune (take maxAdminSearchLength (runes trimmed))))"

definition normalizeAdminTriState :: "golib \<Rightarrow> string \<Rightarrow> string" where
  "normalizeAdminTriState L raw =
     (let v = ToLower L (TrimSpace raw) in if v = ''yes'' then ''yes'' else if v = ''no'' then ''no'' else [])"

definition normalizeAdminSort :: "golib \<Rightarrow> string \<Rightarrow> string" where
  "normalizeAdminSort L raw =
     (let v = ToLower L (TrimSpace raw) in
      if v \<in> {''id'', ''email'', ''username'', ''display_name''} then v else ''created_at'')"

definition normalizeAdminDirection :: "golib \<Rightarrow> string \<Rightarrow> string \<Rightarrow> string" where
  "normalizeAdminDirection L raw sortKey =
     (let v = ToLower L (TrimSpace raw) in
      if v = ''asc'' then ''asc'' else if v = ''desc'' then ''desc''
      else if sortKey = ''created_at'' \<or> sortKey = ''id'' then ''desc'' else ''asc'')"

definition Normalize :: "golib \<Rightarrow> admin_query \<Rightarrow> admin_query" where
  "Normalize L q =
     (let sortKey = normalizeAdminSort L (aqSort q);
          pageSize = (if aqSize q < 1 then DefaultAdminPageSize else aqSize q) in
      \<lparr>aqSearch = normalizeAdminSearch (aqSearch q), aqAdmin = normalizeAdminTriState L (aqAdmin q),
        aqGuest = normalizeAdminTriState L (aqGuest q), aqConfirmed = normalizeAdminTriState L (aqConfirmed q),
        aqSort = sortKey, aqDirection = normalizeAdminDirection L (aqDirection q) sortKey,
        aqPage = min (max (aqPage q) 1) MaxAdminPage,
        aqSize = (if MaxAdminPageSize < pageSize then MaxAdminPageSize else pageSize)\<rparr>)"

definition Offset :: "admin_query \<Rightarrow> int" where
  "Offset q = (if aqPage q < 1 then 0 else (min (aqPage q) MaxAdminPage - 1) * aqSize q)"

definition adminPageCount :: "int \<Rightarrow> int \<Rightarrow> int" where
  "adminPageCount n pageSize = (if n \<le> 0 \<or> pageSize \<le> 0 then 0 else (n + pageSize - 1) div pageSize)"

section \<open>Search\<close>

definition escape_like :: "char \<Rightarrow> string" where
  "escape_like c = (if c = CHR 0x5C \<or> c = CHR ''%'' \<or> c = CHR ''_'' then [CHR 0x5C, c] else [c])"

definition AdminSearchPattern :: "string \<Rightarrow> string" where
  "AdminSearchPattern search = CHR ''%'' # concat (map escape_like search) @ ''%''"

text \<open>PostgreSQL \<^verbatim>\<open>LIKE\<close> with the backslash as escape, and \<^verbatim>\<open>ILIKE\<close>, which lowers both sides.\<close>

fun like :: "string \<Rightarrow> string \<Rightarrow> bool" where
  "like [] t = (t = [])"
| "like (c # p) t =
     (if c = CHR ''%'' then like p t \<or> (case t of [] \<Rightarrow> False | _ # t' \<Rightarrow> like (c # p) t')
      else if c = CHR 0x5C then (case p of
          [] \<Rightarrow> False
        | e # p' \<Rightarrow> (case t of [] \<Rightarrow> False | x # t' \<Rightarrow> x = e \<and> like p' t'))
      else (case t of [] \<Rightarrow> False | x # t' \<Rightarrow> (c = CHR ''_'' \<or> x = c) \<and> like p t'))"

definition ilike :: "golib \<Rightarrow> string option \<Rightarrow> string \<Rightarrow> bool" where
  "ilike L column pattern = (case column of None \<Rightarrow> False | Some v \<Rightarrow> like (pg_lower L pattern) (pg_lower L v))"

section \<open>The page query\<close>

definition tri_state :: "string \<Rightarrow> bool \<Rightarrow> bool" where
  "tri_state filter_value column \<longleftrightarrow> (filter_value = ''yes'' \<longrightarrow> column) \<and> (filter_value = ''no'' \<longrightarrow> \<not> column)"

definition adminUserConditions :: "golib \<Rightarrow> admin_query \<Rightarrow> user \<Rightarrow> bool" where
  "adminUserConditions L q u \<longleftrightarrow>
     (aqSearch q \<noteq> [] \<longrightarrow> (let p = AdminSearchPattern (aqSearch q) in
        ilike L (uEmail u) p \<or> ilike L (uUsername u) p \<or> ilike L (uDisplayName u) p))
     \<and> tri_state (aqAdmin q) (uIsAdmin u) \<and> tri_state (aqGuest q) (uIsGuest u)
     \<and> tri_state (aqConfirmed q) (uEmailVerifiedAt u \<noteq> None)"

definition text_before :: "(string \<Rightarrow> string \<Rightarrow> bool) \<Rightarrow> bool \<Rightarrow> (user \<Rightarrow> string option) \<Rightarrow> user \<Rightarrow> user \<Rightarrow> bool" where
  "text_before coll desc column a b =
     (case (column a, column b) of
        (Some x, Some y) \<Rightarrow> (if desc then coll y x else coll x y) \<or> (x = y \<and> uID a < uID b)
      | (Some _, None) \<Rightarrow> True
      | (None, Some _) \<Rightarrow> False
      | (None, None) \<Rightarrow> uID a < uID b)"

definition adminUserOrderBy :: "(string \<Rightarrow> string \<Rightarrow> bool) \<Rightarrow> admin_query \<Rightarrow> user \<Rightarrow> user \<Rightarrow> bool" where
  "adminUserOrderBy coll q a b =
     (let desc = (aqDirection q = ''desc'') in
      if aqSort q = ''id'' then (if desc then uID b < uID a else uID a < uID b)
      else if aqSort q = ''email'' then text_before coll desc uEmail a b
      else if aqSort q = ''username'' then text_before coll desc uUsername a b
      else if aqSort q = ''display_name'' then text_before coll desc uDisplayName a b
      else if uCreatedAt a = uCreatedAt b then (if desc then uID b < uID a else uID a < uID b)
      else (if desc then uCreatedAt b < uCreatedAt a else uCreatedAt a < uCreatedAt b))"

definition matching_users :: "golib \<Rightarrow> (string \<Rightarrow> string \<Rightarrow> bool) \<Rightarrow> admin_query \<Rightarrow> db \<Rightarrow> user list" where
  "matching_users L coll q d = order_by (adminUserOrderBy coll q) (filter (adminUserConditions L q) (users d))"

definition count_users :: "golib \<Rightarrow> admin_query \<Rightarrow> int stmt" where
  "count_users L q d = (Inr (int (length (filter (adminUserConditions L q) (users d)))), d)"

definition select_users :: "golib \<Rightarrow> (string \<Rightarrow> string \<Rightarrow> bool) \<Rightarrow> admin_query \<Rightarrow> user list stmt" where
  "select_users L coll q d =
     (Inr (take (nat (aqSize q)) (drop (nat (Offset q)) (matching_users L coll q d))), d)"

fun scan_users :: "user list \<Rightarrow> error + user list" where
  "scan_users [] = Inr []"
| "scan_users (r # rs) =
     (case scanUser r of
        Inl e \<Rightarrow> Inl e
      | Inr u \<Rightarrow> (case scan_users rs of Inl e \<Rightarrow> Inl e | Inr us \<Rightarrow> Inr (u # us)))"

definition ListUsers :: "golib \<Rightarrow> (string \<Rightarrow> string \<Rightarrow> bool) \<Rightarrow> admin_query \<Rightarrow> admin_page prog" where
  "ListUsers L coll query0 =
     (let q = Normalize L query0 in
      call (query (count_users L q)) ClassifyError (\<lambda>n.
      call (query (select_users L coll q)) ClassifyError (\<lambda>rows.
      check (scan_users rows) ClassifyError (\<lambda>us.
      ret \<lparr>apUsers = us, apTotal = n, apPage = aqPage q, apSize = aqSize q, apPages = 0\<rparr>))))"

definition admin_List :: "golib \<Rightarrow> (string \<Rightarrow> string \<Rightarrow> bool) \<Rightarrow> admin_query \<Rightarrow> admin_page prog" where
  "admin_List L coll query0 =
     (let normalized = Normalize L query0 in
      call (ListUsers L coll normalized) id (\<lambda>page.
      let page = (if apSize page < 1 then page\<lparr>apSize := aqSize normalized\<rparr> else page);
          page = (if apPage page < 1 then page\<lparr>apPage := aqPage normalized\<rparr> else page) in
      ret (page\<lparr>apPages := adminPageCount (apTotal page) (apSize page)\<rparr>)))"

section \<open>Matching\<close>

lemma like_percent: "like (CHR ''%'' # p) t \<longleftrightarrow> (\<exists>u v. t = u @ v \<and> like p v)"
proof (induction t)
  case (Cons x t)
  have "(\<exists>u v. x # t = u @ v \<and> like p v) \<longleftrightarrow> like p (x # t) \<or> (\<exists>u v. t = u @ v \<and> like p v)"
    by (metis append_Cons append_Nil append_eq_Cons_conv)
  with Cons.IH show ?case by (subst like.simps(2)) simp
qed simp

lemma like_escaped: "like (concat (map escape_like s) @ p) t \<longleftrightarrow> (\<exists>v. t = s @ v \<and> like p v)"
proof (induction s arbitrary: t)
  case (Cons c s)
  show ?case
  proof (cases t)
    case Nil
    then show ?thesis by (auto simp: escape_like_def)
  next
    case (Cons x t')
    then show ?thesis using Cons.IH [of t'] by (auto simp: escape_like_def)
  qed
qed simp

lemma like_trailing: "like ''%'' t"
  by (induction t) auto

text \<open>The pattern of a search is plain containment, whatever wildcards were typed.\<close>

lemma search_contains: "like (AdminSearchPattern s) t \<longleftrightarrow> (\<exists>u v. t = u @ s @ v)"
  unfolding AdminSearchPattern_def like_percent like_escaped by (auto simp: like_trailing)

section \<open>Paging\<close>

lemma slices: "concat (map (\<lambda>i. take n (drop (i * n) xs)) [0..<k]) = take (k * n) xs"
proof (induction k)
  case (Suc k)
  have "take (k * n) xs @ take n (drop (k * n) xs) = take (k * n + n) xs" by (simp add: take_add)
  with Suc show ?case by (simp add: add.commute)
qed simp

lemma page_count_covers:
  assumes "0 < n"
  shows "int m \<le> adminPageCount (int m) n * n"
proof (cases "m = 0")
  case False
  have "(int m + n - 1) div n * n = int m + n - 1 - (int m + n - 1) mod n" by (simp add: minus_mod_eq_div_mult)
  moreover have "(int m + n - 1) mod n < n" using assms by simp
  ultimately have "int m \<le> (int m + n - 1) div n * n" by linarith
  with False assms show ?thesis by (simp add: adminPageCount_def)
qed (simp add: adminPageCount_def)

lemma scan_users_ok: "\<forall>u \<in> set us. 0 < uID u \<and> 0 \<le> uVersion u \<Longrightarrow> scan_users us = Inr us"
  by (induction us) (auto simp: scanUser_def)

lemma Normalize_bounds:
  "1 \<le> aqPage (Normalize L q)" "aqPage (Normalize L q) \<le> MaxAdminPage"
  "1 \<le> aqSize (Normalize L q)" "aqSize (Normalize L q) \<le> MaxAdminPageSize"
  by (auto simp: Normalize_def Let_def MaxAdminPage_def MaxAdminPageSize_def DefaultAdminPageSize_def)

lemma Normalize_twice_page:
  "1 \<le> i \<Longrightarrow> i \<le> MaxAdminPage \<Longrightarrow> Normalize L (Normalize L (q\<lparr>aqPage := i\<rparr>)) = (Normalize L (Normalize L q))\<lparr>aqPage := i\<rparr>"
  by (simp add: Normalize_def Let_def)

lemma Normalize_twice_size: "aqSize (Normalize L (Normalize L q)) = aqSize (Normalize L q)"
  by (auto simp: Normalize_def Let_def MaxAdminPageSize_def DefaultAdminPageSize_def)

lemma conditions_page [simp]:
  "adminUserConditions L (q\<lparr>aqPage := i\<rparr>) = adminUserConditions L q"
  "adminUserOrderBy coll (q\<lparr>aqPage := i\<rparr>) = adminUserOrderBy coll q"
  by (intro ext; simp add: adminUserConditions_def adminUserOrderBy_def)+

lemma matching_users_page [simp]: "matching_users L coll (q\<lparr>aqPage := i\<rparr>) d = matching_users L coll q d"
  by (simp add: matching_users_def)

lemma set_matching_users: "set (matching_users L coll q d) = {u \<in> set (users d). adminUserConditions L q u}"
  by (auto simp: matching_users_def)

text \<open>One page, when the database answers.\<close>

lemma ListUsers_run:
  assumes up: "faults w = []" and ok: "users_ok L (tables w)"
  shows "ListUsers L coll q w = (let e = Normalize L q; ms = matching_users L coll e (tables w) in
    (Inr \<lparr>apUsers = take (nat (aqSize e)) (drop (nat (Offset e)) ms), apTotal = int (length ms), apPage = aqPage e,
       apSize = aqSize e, apPages = 0\<rparr>, w))"
proof -
  let ?e = "Normalize L q"
  let ?ms = "matching_users L coll ?e (tables w)"
  have "\<forall>u \<in> set (users (tables w)). 0 < uID u \<and> 0 \<le> uVersion u" using ok by (simp add: users_ok_def users_checks_def)
  then have "\<forall>u \<in> set (take (nat (aqSize ?e)) (drop (nat (Offset ?e)) ?ms)). 0 < uID u \<and> 0 \<le> uVersion u"
    using set_matching_users [of L coll ?e "tables w"] by (auto dest!: in_set_takeD in_set_dropD)
  note scan_users_ok [OF this]
  moreover have "length ?ms = length (filter (adminUserConditions L ?e) (users (tables w)))"
    by (simp add: matching_users_def)
  ultimately show ?thesis
    by (simp add: ListUsers_def Let_def call_def check_def ret_def query_ok [OF up] count_users_def select_users_def)
qed


definition demo_query :: admin_query where
  "demo_query = \<lparr>aqSearch = [], aqAdmin = [], aqGuest = ''no'', aqConfirmed = [], aqSort = ''id'', aqDirection = ''asc'',
     aqPage = 1, aqSize = 1\<rparr>"


end
