(* ===== verification/OAuthStore.thy ===== *)
theory OAuthStore
  imports TokenStore
begin

text \<open>
  External sign-in storage (\<^verbatim>\<open>internal/store/postgres/oauth.go\<close>): the one-time callback states, stored by digest
  like the other single-use credentials, and the identities linked to accounts, with the rule that an account keeps
  a way to sign in.
\<close>

section \<open>Callback states\<close>

text \<open>\<^verbatim>\<open>service.OAuthState\<close>: user 0 is a state no account is bound to.\<close>

record oauth_state =
  ostState :: string
  ostProvider :: string
  ostAction :: string
  ostUserID :: int
  ostCodeVerifier :: string
  ostCreatedAt :: int
  ostExpiresAt :: int

definition canonicalProvider :: "golib \<Rightarrow> string \<Rightarrow> string" where
  "canonicalProvider L provider = ToLower L (TrimSpace provider)"

definition mapOAuthStateError :: "error \<Rightarrow> error" where
  "mapOAuthStateError err =
     (if errors_is err (Repo ContextCanceled) then Repo ContextCanceled
      else if errors_is err (Repo ContextDeadlineExceeded) then Repo ContextDeadlineExceeded
      else if errors_is err (OAuth ErrOAuthStateInvalid) \<or> errors_is err (Repo SqlErrNoRows) then OAuth ErrOAuthStateInvalid
      else ClassifyError err)"

text \<open>\<^verbatim>\<open>000006_create_oauth_states.up.sql\<close> and \<^verbatim>\<open>000010_oauth_state_code_verifier.up.sql\<close>.\<close>

definition oauth_state_violation :: "oauth_state_row \<Rightarrow> db \<Rightarrow> error option" where
  "oauth_state_violation row d =
     (if \<not> (varchar 64 (osState row) \<and> varchar 32 (osProvider row) \<and> varchar 16 (osAction row)
           \<and> opt_varchar 128 (osCodeVerifier row))
      then Some (PgError StringTruncation OtherConstraint)
      else if osAction row \<notin> {''sign-in'', ''link''} \<or> osExpiresAt row \<le> osCreatedAt row
        then Some (PgError CheckViolation OtherConstraint)
      else if osState row \<in> osState ` set (oauth_states d) then Some (PgError UniqueViolation OtherConstraint)
      else (case osUserID row of
          None \<Rightarrow> None
        | Some u \<Rightarrow> if u \<in> user_ids d then None else Some (PgError ForeignKeyViolation OtherConstraint)))"

definition insert_oauth_state :: "oauth_state_row \<Rightarrow> unit stmt" where
  "insert_oauth_state row d =
     (case oauth_state_violation row d of
        Some e \<Rightarrow> (Inl e, d)
      | None \<Rightarrow> (Inr (), d\<lparr>oauth_states := oauth_states d @ [row]\<rparr>))"

definition pending_state :: "string \<Rightarrow> int \<Rightarrow> oauth_state_row \<Rightarrow> bool" where
  "pending_state digest now r \<longleftrightarrow> osState r = digest \<and> osConsumedAt r = None \<and> now < osExpiresAt r"

definition spend_state :: "string \<Rightarrow> int \<Rightarrow> oauth_state_row list \<Rightarrow> oauth_state_row list" where
  "spend_state digest now rs = update_where (pending_state digest now) (\<lambda>r. r\<lparr>osConsumedAt := Some now\<rparr>) rs"

definition consume_oauth_state :: "string \<Rightarrow> int \<Rightarrow> oauth_state_row stmt" where
  "consume_oauth_state digest now d =
     (case find (pending_state digest now) (oauth_states d) of
        None \<Rightarrow> (Inl (Repo SqlErrNoRows), d)
      | Some r \<Rightarrow> (Inr r, d\<lparr>oauth_states := spend_state digest now (oauth_states d)\<rparr>))"

definition scanOAuthState :: "oauth_state_row \<Rightarrow> error + oauth_state" where
  "scanOAuthState r =
     (if osState r = [] \<or> 64 < length (osState r) \<or> osProvider r = [] \<or> 32 < length (osProvider r)
         \<or> osAction r = [] \<or> osExpiresAt r \<le> osCreatedAt r
      then Inl (Repo ErrInvalidData)
      else
        let state = \<lparr>ostState = osState r, ostProvider = osProvider r, ostAction = osAction r, ostUserID = 0,
              ostCodeVerifier = (case osCodeVerifier r of None \<Rightarrow> [] | Some v \<Rightarrow> v),
              ostCreatedAt = osCreatedAt r, ostExpiresAt = osExpiresAt r\<rparr> in
        case osUserID r of
          None \<Rightarrow> Inr state
        | Some u \<Rightarrow> if u \<le> 0 then Inl (Repo ErrInvalidData) else Inr (state\<lparr>ostUserID := u\<rparr>))"

definition oauth_state_row_of :: "golib \<Rightarrow> oauth_state \<Rightarrow> oauth_state_row" where
  "oauth_state_row_of L st = \<lparr>osState = tokenDigest L (ostState st), osProvider = ostProvider st,
     osAction = ostAction st, osUserID = (if 0 < ostUserID st then Some (ostUserID st) else None),
     osCodeVerifier = (if ostCodeVerifier st = [] then None else Some (ostCodeVerifier st)),
     osCreatedAt = ostCreatedAt st, osExpiresAt = ostExpiresAt st, osConsumedAt = None\<rparr>"

definition CreateOAuthState :: "golib \<Rightarrow> oauth_state \<Rightarrow> unit prog" where
  "CreateOAuthState L state =
     (let state = state\<lparr>ostProvider := canonicalProvider L (ostProvider state)\<rparr> in
      if ostUserID state < 0 \<or> ostState state = [] \<or> ostProvider state = [] \<or> ostAction state = []
        then fail (Repo ErrInvalidData)
      else if 128 < length (ostCodeVerifier state) then fail (Repo ErrInvalidData)
      else call (query (insert_oauth_state (oauth_state_row_of L state))) mapOAuthStateError ret)"

definition ConsumeOAuthState :: "golib \<Rightarrow> string \<Rightarrow> int \<Rightarrow> oauth_state prog" where
  "ConsumeOAuthState L state now =
     call (query (consume_oauth_state (tokenDigest L state) now)) mapOAuthStateError (\<lambda>row.
     check (scanOAuthState row) mapOAuthStateError (\<lambda>consumed.
     ret (consumed\<lparr>ostState := state\<rparr>)))"

section \<open>Linked identities\<close>

record oauth_identity =
  oidID :: int
  oidUserID :: int
  oidProvider :: string
  oidSubject :: string
  oidEmail :: string
  oidCreatedAt :: int

definition mapOAuthIdentityError :: "error \<Rightarrow> error" where
  "mapOAuthIdentityError err =
     (if errors_is err (Repo ContextCanceled) then Repo ContextCanceled
      else if errors_is err (Repo ContextDeadlineExceeded) then Repo ContextDeadlineExceeded
      else if errors_is err (OAuth ErrOAuthIdentityNotFound) \<or> errors_is err (Repo SqlErrNoRows)
        then OAuth ErrOAuthIdentityNotFound
      else if as_pg_error err = Some (UniqueViolation, Oauth_identities_provider_subject_unique)
        then OAuth ErrOAuthIdentityConflict
      else ClassifyError err)"

definition identity_violation :: "oauth_identity_row \<Rightarrow> db \<Rightarrow> error option" where
  "identity_violation row d =
     (if \<not> (varchar 32 (oiProvider row) \<and> varchar 255 (oiSubject row) \<and> opt_varchar 255 (oiEmail row))
      then Some (PgError StringTruncation OtherConstraint)
      else if (oiProvider row, oiSubject row) \<in> (\<lambda>i. (oiProvider i, oiSubject i)) ` set (oauth_identities d)
        then Some (PgError UniqueViolation Oauth_identities_provider_subject_unique)
      else if oiUserID row \<notin> user_ids d then Some (PgError ForeignKeyViolation OtherConstraint)
      else None)"

definition identity_row_of :: "oauth_identity \<Rightarrow> int \<Rightarrow> oauth_identity_row" where
  "identity_row_of i n = \<lparr>oiID = n, oiUserID = oidUserID i, oiProvider = oidProvider i, oiSubject = oidSubject i,
     oiEmail = (if oidEmail i = [] then None else Some (oidEmail i)), oiCreatedAt = oidCreatedAt i\<rparr>"

definition insert_identity :: "oauth_identity \<Rightarrow> unit stmt" where
  "insert_identity i d =
     (let row = identity_row_of i (oauth_identities_seq d + 1) in
      case identity_violation row d of
        Some e \<Rightarrow> (Inl e, d)
      | None \<Rightarrow> (Inr (), d\<lparr>oauth_identities := oauth_identities d @ [row],
          oauth_identities_seq := oauth_identities_seq d + 1\<rparr>))"

definition select_identity :: "string \<Rightarrow> string \<Rightarrow> oauth_identity_row stmt" where
  "select_identity provider subject d =
     (case find (\<lambda>i. oiProvider i = provider \<and> oiSubject i = subject) (oauth_identities d) of
        None \<Rightarrow> (Inl (Repo SqlErrNoRows), d) | Some i \<Rightarrow> (Inr i, d))"

text \<open>\<^verbatim>\<open>ORDER BY created_at, id\<close>.\<close>

definition earlier_identity :: "oauth_identity_row \<Rightarrow> oauth_identity_row \<Rightarrow> bool" where
  "earlier_identity a b \<longleftrightarrow> oiCreatedAt a < oiCreatedAt b \<or> (oiCreatedAt a = oiCreatedAt b \<and> oiID a < oiID b)"

definition select_identities :: "int \<Rightarrow> oauth_identity_row list stmt" where
  "select_identities userID d =
     (Inr (order_by earlier_identity (filter (\<lambda>i. oiUserID i = userID) (oauth_identities d))), d)"

definition select_has_password :: "int \<Rightarrow> bool stmt" where
  "select_has_password userID d =
     (case find (\<lambda>u. uID u = userID) (users d) of
        None \<Rightarrow> (Inl (Repo SqlErrNoRows), d) | Some u \<Rightarrow> (Inr (uPasswordHash u \<noteq> None), d))"

definition count_identities :: "int \<Rightarrow> int stmt" where
  "count_identities userID d = (Inr (int (length (filter (\<lambda>i. oiUserID i = userID) (oauth_identities d)))), d)"

definition delete_identity :: "int \<Rightarrow> int \<Rightarrow> int stmt" where
  "delete_identity identityID userID d =
     (let P = (\<lambda>i. oiID i = identityID \<and> oiUserID i = userID) in
      (Inr (int (length (filter P (oauth_identities d)))), d\<lparr>oauth_identities := delete_where P (oauth_identities d)\<rparr>))"

definition scanOAuthIdentity :: "oauth_identity_row \<Rightarrow> error + oauth_identity" where
  "scanOAuthIdentity r =
     (if oiID r \<le> 0 \<or> oiUserID r \<le> 0 \<or> oiProvider r = [] \<or> 32 < length (oiProvider r) \<or> oiSubject r = []
         \<or> 255 < length (oiSubject r)
      then Inl (Repo ErrInvalidData)
      else Inr \<lparr>oidID = oiID r, oidUserID = oiUserID r, oidProvider = oiProvider r, oidSubject = oiSubject r,
        oidEmail = (case oiEmail r of None \<Rightarrow> [] | Some e \<Rightarrow> e), oidCreatedAt = oiCreatedAt r\<rparr>)"

definition FindOAuthIdentity :: "golib \<Rightarrow> string \<Rightarrow> string \<Rightarrow> oauth_identity prog" where
  "FindOAuthIdentity L provider subject =
     (let provider = canonicalProvider L provider in
      if provider = [] \<or> subject = [] then fail (OAuth ErrOAuthIdentityNotFound)
      else
        call (query (select_identity provider subject)) mapOAuthIdentityError (\<lambda>row.
        check (scanOAuthIdentity row) mapOAuthIdentityError ret))"

definition CreateOAuthIdentity :: "golib \<Rightarrow> oauth_identity \<Rightarrow> unit prog" where
  "CreateOAuthIdentity L identity =
     (let identity = identity\<lparr>oidProvider := canonicalProvider L (oidProvider identity)\<rparr> in
      if oidUserID identity \<le> 0 \<or> oidProvider identity = [] \<or> oidSubject identity = [] then fail (Repo ErrInvalidData)
      else if 32 < length (oidProvider identity) \<or> 255 < length (oidSubject identity) \<or> 255 < length (oidEmail identity)
        then fail (Repo ErrInvalidData)
      else call (query (insert_identity identity)) mapOAuthIdentityError ret)"

fun scan_identities :: "oauth_identity_row list \<Rightarrow> error + oauth_identity list" where
  "scan_identities [] = Inr []"
| "scan_identities (r # rs) =
     (case scanOAuthIdentity r of
        Inl e \<Rightarrow> Inl e
      | Inr i \<Rightarrow> (case scan_identities rs of Inl e \<Rightarrow> Inl e | Inr is \<Rightarrow> Inr (i # is)))"

definition ListOAuthIdentities :: "int \<Rightarrow> oauth_identity list prog" where
  "ListOAuthIdentities userID =
     (if userID \<le> 0 then fail (OAuth ErrOAuthIdentityNotFound)
      else
        call (query (select_identities userID)) mapOAuthIdentityError (\<lambda>rows.
        check (scan_identities rows) mapOAuthIdentityError ret))"

definition delete_identity_body :: "int \<Rightarrow> int \<Rightarrow> unit option prog" where
  "delete_identity_body userID identityID =
     call (query (select_has_password userID))
       (\<lambda>err. if errors_is err (Repo SqlErrNoRows) then OAuth ErrOAuthIdentityNotFound else mapOAuthIdentityError err)
       (\<lambda>hasPassword.
     call (query (count_identities userID)) mapOAuthIdentityError (\<lambda>identities.
     call (query (delete_identity identityID userID)) mapOAuthIdentityError (\<lambda>rows.
     if rows = 0 then fail (OAuth ErrOAuthIdentityNotFound)
     else if \<not> hasPassword \<and> identities \<le> 1 then fail (OAuth ErrOAuthLastSignInMethod)
     else ret (Some ()))))"

definition DeleteOAuthIdentity :: "int \<Rightarrow> int \<Rightarrow> unit prog" where
  "DeleteOAuthIdentity userID identityID =
     (if userID \<le> 0 \<or> identityID \<le> 0 then fail (OAuth ErrOAuthIdentityNotFound)
      else call (transaction mapOAuthIdentityError (delete_identity_body userID identityID)) id (\<lambda>_. ret ()))"

section \<open>Integrity\<close>

lemma identity_row_of_simps [simp]:
  "oiID (identity_row_of i n) = n" "oiUserID (identity_row_of i n) = oidUserID i"
  "oiProvider (identity_row_of i n) = oidProvider i" "oiSubject (identity_row_of i n) = oidSubject i"
  by (simp_all add: identity_row_of_def)

lemma insert_identity_Inr:
  "insert_identity i d = (Inr x, d') \<Longrightarrow> oidUserID i \<in> user_ids d
     \<and> (oidProvider i, oidSubject i) \<notin> (\<lambda>i. (oiProvider i, oiSubject i)) ` set (oauth_identities d)
     \<and> d' = d\<lparr>oauth_identities := oauth_identities d @ [identity_row_of i (oauth_identities_seq d + 1)],
          oauth_identities_seq := oauth_identities_seq d + 1\<rparr>"
  by (simp add: insert_identity_def identity_violation_def Let_def split: option.splits if_splits)

lemma insert_oauth_state_Inr:
  "insert_oauth_state row d = (Inr x, d') \<Longrightarrow> osCreatedAt row < osExpiresAt row
     \<and> (\<forall>u. osUserID row = Some u \<longrightarrow> u \<in> user_ids d) \<and> osState row \<notin> osState ` set (oauth_states d)
     \<and> d' = d\<lparr>oauth_states := oauth_states d @ [row]\<rparr>"
  by (simp add: insert_oauth_state_def oauth_state_violation_def split: option.splits if_splits)

lemma oauth_ok_state:
  assumes "oauth_ok d" "osCreatedAt row < osExpiresAt row" "\<forall>u. osUserID row = Some u \<longrightarrow> u \<in> user_ids d"
    "osState row \<notin> osState ` set (oauth_states d)"
  shows "oauth_ok (d\<lparr>oauth_states := oauth_states d @ [row]\<rparr>)"
proof -
  have "unique_on (\<lambda>s. Some (osState s)) (oauth_states d)" using assms(1) by (simp add: oauth_ok_def)
  moreover have "\<forall>s \<in> set (oauth_states d). osState s \<noteq> osState row" using assms(4) by (metis imageI)
  ultimately have "unique_on (\<lambda>s. Some (osState s)) (oauth_states d @ [row])" by (simp add: unique_on_append)
  with assms(1-3) show ?thesis by (simp add: oauth_ok_def)
qed

lemma oauth_ok_insert:
  assumes "oauth_ok d" and id: "oiID row = oauth_identities_seq d + 1" and u: "oiUserID row \<in> user_ids d"
    and new: "(oiProvider row, oiSubject row) \<notin> (\<lambda>i. (oiProvider i, oiSubject i)) ` set (oauth_identities d)"
  shows "oauth_ok (d\<lparr>oauth_identities := oauth_identities d @ [row], oauth_identities_seq := oauth_identities_seq d + 1\<rparr>)"
proof -
  have old: "unique_on (\<lambda>i. Some (oiID i)) (oauth_identities d)"
    "unique_on (\<lambda>i. Some (oiProvider i, oiSubject i)) (oauth_identities d)"
    "\<forall>i \<in> set (oauth_identities d). 0 < oiID i \<and> oiID i \<le> oauth_identities_seq d \<and> oiUserID i \<in> user_ids d"
    using assms(1) by (simp_all add: oauth_ok_def)
  have "\<forall>i \<in> set (oauth_identities d). oiID i \<noteq> oiID row" using old(3) id by fastforce
  with old(1) have "unique_on (\<lambda>i. Some (oiID i)) (oauth_identities d @ [row])" by (simp add: unique_on_append)
  moreover have "\<forall>i \<in> set (oauth_identities d). (oiProvider i, oiSubject i) \<noteq> (oiProvider row, oiSubject row)"
    using new by (metis (mono_tags, lifting) image_eqI)
  with old(2) have "unique_on (\<lambda>i. Some (oiProvider i, oiSubject i)) (oauth_identities d @ [row])"
    by (simp add: unique_on_append)
  moreover have "\<forall>i \<in> set (oauth_identities d). 0 < oiID i \<and> oiID i \<le> oauth_identities_seq d + 1 \<and> oiUserID i \<in> user_ids d"
    using old(3) by force
  ultimately show ?thesis using assms(1) id u by (simp add: oauth_ok_def)
qed

lemma oauth_ok_spend: "oauth_ok d \<Longrightarrow> oauth_ok (d\<lparr>oauth_states := spend_state dg now (oauth_states d)\<rparr>)"
  unfolding oauth_ok_def spend_state_def by (simp add: unique_on_update_same ball_update_where)

lemma oauth_writes_quiet:
  "insert_oauth_state row d = (Inr x, d') \<Longrightarrow> quiet d d'"
  "consume_oauth_state dg now d = (Inr r, d') \<Longrightarrow> quiet d d'"
  "insert_identity i d = (Inr x, d') \<Longrightarrow> quiet d d'"
  "delete_identity iid uid d = (Inr n, d') \<Longrightarrow> quiet d d'"
proof -
  show "insert_oauth_state row d = (Inr x, d') \<Longrightarrow> quiet d d'"
    by (drule insert_oauth_state_Inr) (simp add: quiet_def db_ok_def oauth_ok_state)
  show "consume_oauth_state dg now d = (Inr r, d') \<Longrightarrow> quiet d d'"
    by (auto simp: consume_oauth_state_def quiet_def db_ok_def oauth_ok_spend split: option.splits)
  show "insert_identity i d = (Inr x, d') \<Longrightarrow> quiet d d'"
    by (drule insert_identity_Inr) (simp add: quiet_def db_ok_def oauth_ok_insert)
  show "delete_identity iid uid d = (Inr n, d') \<Longrightarrow> quiet d d'"
    by (auto simp: delete_identity_def quiet_def db_ok_def oauth_ok_def Let_def)
qed

lemma evolves_oauth_statements:
  "evolves (on_tables quiet) (query (insert_oauth_state row))"
  "evolves (on_tables quiet) (query (consume_oauth_state dg now))"
  "evolves (on_tables quiet) (query (insert_identity i))"
  "evolves (on_tables quiet) (query (delete_identity iid uid))"
  by (intro evolves_query preord_intro; erule oauth_writes_quiet)+

lemma evolves_oauth_selects [evolves_intro]:
  assumes p: "preord R"
  shows "evolves (on_tables R) (query (select_identity a b))" "evolves (on_tables R) (query (select_identities uid))"
    "evolves (on_tables R) (query (select_has_password uid))" "evolves (on_tables R) (query (count_identities uid))"
  by (rule evolves_read_query [OF p]; auto simp: select_identity_def select_identities_def select_has_password_def
      count_identities_def split: option.splits)+

lemma evolves_oauth_reads [evolves_intro]:
  assumes p: "preord R"
  shows "evolves (on_tables R) (FindOAuthIdentity L a b)" "evolves (on_tables R) (ListOAuthIdentities uid)"
  unfolding FindOAuthIdentity_def ListOAuthIdentities_def by (intro evolves_intro preord_intro p)+

lemma evolves_CreateOAuthState [evolves_intro]:
  "covers_quiet R \<Longrightarrow> evolves (on_tables R) (CreateOAuthState L st)"
  by (erule covers_quiet_mono, unfold CreateOAuthState_def)
     (intro evolves_intro evolves_oauth_statements preord_intro)

lemma evolves_ConsumeOAuthState [evolves_intro]:
  "covers_quiet R \<Longrightarrow> evolves (on_tables R) (ConsumeOAuthState L st now)"
  by (erule covers_quiet_mono, unfold ConsumeOAuthState_def)
     (intro evolves_intro evolves_oauth_statements preord_intro)

lemma evolves_CreateOAuthIdentity [evolves_intro]:
  "covers_quiet R \<Longrightarrow> evolves (on_tables R) (CreateOAuthIdentity L i)"
  by (erule covers_quiet_mono, unfold CreateOAuthIdentity_def)
     (intro evolves_intro evolves_oauth_statements preord_intro)

lemma evolves_DeleteOAuthIdentity [evolves_intro]:
  "covers_quiet R \<Longrightarrow> evolves (on_tables R) (DeleteOAuthIdentity uid iid)"
  by (erule covers_quiet_mono, unfold DeleteOAuthIdentity_def delete_identity_body_def)
     (intro evolves_intro evolves_transaction evolves_oauth_statements preord_intro)

section \<open>Callback states are single-use\<close>

definition holds_state :: "golib \<Rightarrow> db \<Rightarrow> string \<Rightarrow> int \<Rightarrow> bool" where
  "holds_state L d c now \<longleftrightarrow> (\<exists>r \<in> set (oauth_states d). pending_state (tokenDigest L c) now r)"

lemma holds_state_spend:
  "oauth_states d' = spend_state (tokenDigest L c) now (oauth_states d) \<Longrightarrow> now \<le> now' \<Longrightarrow> \<not> holds_state L d' c now'"
  "oauth_states d' = spend_state dg now (oauth_states d) \<Longrightarrow> holds_state L d' c' now' \<Longrightarrow> holds_state L d c' now'"
  by (auto simp: holds_state_def spend_state_def pending_state_def set_update_where split: if_splits)

lemma ConsumeOAuthState_cases:
  assumes "ConsumeOAuthState L c now w = (s, w')"
  obtains (spent) r where "find (pending_state (tokenDigest L c) now) (oauth_states (tables w)) = Some r"
      "tables w' = (tables w)\<lparr>oauth_states := spend_state (tokenDigest L c) now (oauth_states (tables w))\<rparr>"
      "\<And>x. s = Inr x \<Longrightarrow> \<exists>y. scanOAuthState r = Inr y \<and> x = y\<lparr>ostState := c\<rparr>"
    | (kept) "isl s" "tables w' = tables w"
proof -
  obtain q w1 where q: "query (consume_oauth_state (tokenDigest L c) now) w = (q, w1)"
    by (cases "query (consume_oauth_state (tokenDigest L c) now) w")
  from q show thesis
  proof (rule query_cases)
    fix e
    assume "q = Inl e" "w1 = w\<lparr>faults := tl (faults w)\<rparr>"
    with assms q show thesis by (intro kept) (auto simp: ConsumeOAuthState_def call_def)
  next
    fix e d
    assume "q = Inl e" "w1 = w\<lparr>faults := tl (faults w)\<rparr>"
    with assms q show thesis by (intro kept) (auto simp: ConsumeOAuthState_def call_def)
  next
    fix r d
    assume c: "consume_oauth_state (tokenDigest L c) now (tables w) = (Inr r, d)" and r: "q = Inr r"
      and w1: "w1 = w\<lparr>faults := tl (faults w), tables := d\<rparr>"
    show thesis
    proof (rule spent [of r])
      show "find (pending_state (tokenDigest L c) now) (oauth_states (tables w)) = Some r"
        using c by (auto simp: consume_oauth_state_def split: option.splits)
      show "tables w' = (tables w)\<lparr>oauth_states := spend_state (tokenDigest L c) now (oauth_states (tables w))\<rparr>"
        using c assms q r w1
        by (auto simp: consume_oauth_state_def ConsumeOAuthState_def call_def check_def ret_def
            split: option.splits sum.splits)
      show "\<exists>y. scanOAuthState r = Inr y \<and> x = y\<lparr>ostState := c\<rparr>" if "s = Inr x" for x
        using assms q r that by (auto simp: ConsumeOAuthState_def)
    qed
  qed
qed

interpretation callback_states: single_use "ConsumeOAuthState L" "holds_state L"
proof
  fix c now w x w' now'
  assume run: "ConsumeOAuthState L c now w = (Inr x, w')"
  then show "holds_state L (tables w) c now"
    by (rule ConsumeOAuthState_cases) (auto simp: holds_state_def dest: find_Some_iff')
  show "\<not> holds_state L (tables w') c now'" if "now' \<ge> now"
    using run
  proof (rule ConsumeOAuthState_cases)
    assume "tables w' = (tables w)\<lparr>oauth_states := spend_state (tokenDigest L c) now (oauth_states (tables w))\<rparr>"
    with that show ?thesis by (intro holds_state_spend(1) [of _ L c now "tables w"]) simp_all
  qed simp
next
  fix c now w r w' c' now'
  assume "ConsumeOAuthState L c now w = (r, w')" and h: "holds_state L (tables w') c' now'"
  then show "holds_state L (tables w) c' now'"
  proof (elim ConsumeOAuthState_cases)
    assume "tables w' = (tables w)\<lparr>oauth_states := spend_state (tokenDigest L c) now (oauth_states (tables w))\<rparr>"
    with h show ?thesis
      by (intro holds_state_spend(2) [of "tables w'" "tokenDigest L c" now "tables w"]) simp_all
  qed simp
qed (auto simp: holds_state_def pending_state_def)

end
