(* ===== verification/OAuthService.thy ===== *)
theory OAuthService
  imports OAuthStore SignIn GoText
begin

text \<open>
  External sign-in (\<^verbatim>\<open>internal/service/oauth.go\<close>, \<^verbatim>\<open>provider_registry.go\<close>): the registry of configured
  providers, the redirect that stores a one-time state with a code verifier, the callback that signs in or links an
  identity, and unlinking. The providers' own exchange is a parameter, and so is \<^verbatim>\<open>url.Parse\<close>.
\<close>

section \<open>Providers\<close>

definition maxOAuthProviderNameLength :: nat where "maxOAuthProviderNameLength = 32"

record oauth_profile =
  opSubject :: string
  opEmail :: string
  opEmailVerified :: bool
  opDisplayName :: string

text \<open>The transport of a provider; a registered provider without one cannot be used for sign-in.\<close>

record oauth_client =
  ocAuthorizationURL :: "string \<Rightarrow> string \<Rightarrow> string prog"
  ocExchange :: "string \<Rightarrow> string \<Rightarrow> oauth_profile prog"

record oauth_provider =
  pvName :: string
  pvClient :: "oauth_client option"

type_synonym provider_registry = "(string \<times> oauth_provider) list"

definition provider_rune_ok :: "nat \<Rightarrow> bool" where
  "provider_rune_ok character \<longleftrightarrow> 97 \<le> character \<and> character \<le> 122 \<or> 48 \<le> character \<and> character \<le> 57
     \<or> character = 45 \<or> character = 95"

definition normalizeOAuthProviderName :: "golib \<Rightarrow> string \<Rightarrow> error + string" where
  "normalizeOAuthProviderName L raw =
     (if contains_control raw then Inl (OAuth ErrInvalidOAuthProvider)
      else
        let name = ToLower L (TrimSpace raw) in
        if name = [] \<or> maxOAuthProviderNameLength < RuneCountInString name then Inl (OAuth ErrInvalidOAuthProvider)
        else if \<not> list_all provider_rune_ok (runes name) then Inl (OAuth ErrInvalidOAuthProvider)
        else Inr name)"

fun register_providers :: "golib \<Rightarrow> oauth_provider option list \<Rightarrow> provider_registry \<Rightarrow> error + provider_registry" where
  "register_providers L [] registry = Inr registry"
| "register_providers L (None # ps) registry = Inl (OAuth ErrInvalidOAuthProvider)"
| "register_providers L (Some p # ps) registry =
     (case normalizeOAuthProviderName L (pvName p) of
        Inl err \<Rightarrow> Inl err
      | Inr name \<Rightarrow>
          if map_of registry name \<noteq> None then Inl (OAuth ErrDuplicateOAuthProvider)
          else register_providers L ps (registry @ [(name, p)]))"

definition NewProviderRegistry :: "golib \<Rightarrow> oauth_provider option list \<Rightarrow> error + provider_registry" where
  "NewProviderRegistry L providers = register_providers L providers []"

definition registry_Get :: "golib \<Rightarrow> provider_registry \<Rightarrow> string \<Rightarrow> oauth_provider option" where
  "registry_Get L r name =
     (case normalizeOAuthProviderName L name of Inl _ \<Rightarrow> None | Inr canonical \<Rightarrow> map_of r canonical)"

definition registry_Names :: "provider_registry \<Rightarrow> string list" where
  "registry_Names r = order_by string_less (map fst r)"

definition registry_List :: "provider_registry \<Rightarrow> oauth_provider list" where
  "registry_List r = map (\<lambda>name. the (map_of r name)) (registry_Names r)"

section \<open>Flow secrets\<close>

definition oauthStateBytes :: nat where "oauthStateBytes = 32"
definition maxOAuthStateLength :: nat where "maxOAuthStateLength = oauthStateBytes * 2"
definition maxOAuthCodeLength :: nat where "maxOAuthCodeLength = 2048"
definition maxOAuthSubjectLength :: nat where "maxOAuthSubjectLength = 255"
definition oauthActionSignIn :: string where "oauthActionSignIn = ''sign-in''"
definition oauthActionLink :: string where "oauthActionLink = ''link''"

lemmas oauth_limits = oauthStateBytes_def maxOAuthStateLength_def maxOAuthCodeLength_def maxOAuthSubjectLength_def
  oauthActionSignIn_def oauthActionLink_def

definition canonicalProviderName :: "golib \<Rightarrow> string \<Rightarrow> string" where
  "canonicalProviderName L name = ToLower L (TrimSpace name)"

text \<open>\<^verbatim>\<open>base64.RawURLEncoding\<close>, and the digest bytes behind their hexadecimal text.\<close>

definition base64url_encode :: "nat list \<Rightarrow> string" where
  "base64url_encode bs = map (\<lambda>c. if c = CHR ''+'' then CHR ''-'' else if c = CHR ''/'' then CHR ''_'' else c)
     (base64_encode bs)"

definition hex_value :: "char \<Rightarrow> nat" where
  "hex_value c = (let n = of_char c in if 97 \<le> n then n - 87 else if 65 \<le> n then n - 55 else n - 48)"

fun hex_bytes :: "string \<Rightarrow> nat list" where
  "hex_bytes (a # b # s) = (16 * hex_value a + hex_value b) # hex_bytes s"
| "hex_bytes _ = []"

definition newOAuthState :: "string prog" where
  "newOAuthState = call (rand_read oauthStateBytes) Wrap (\<lambda>value. ret (hex_encode value))"

definition newPKCEVerifier :: "golib \<Rightarrow> (string \<times> string) prog" where
  "newPKCEVerifier L =
     call (rand_read oauthStateBytes) Wrap (\<lambda>value.
     let verifier = base64url_encode value in
     ret (verifier, base64url_encode (hex_bytes (sha256_hex L verifier))))"

definition normalizeOAuthState :: "string \<Rightarrow> error + string" where
  "normalizeOAuthState raw =
     (if length raw \<noteq> maxOAuthStateLength then Inl (OAuth ErrOAuthStateInvalid)
      else if \<not> hex_decodable raw then Inl (OAuth ErrOAuthStateInvalid)
      else Inr raw)"

definition validateOAuthProfile :: "oauth_profile \<Rightarrow> error + unit" where
  "validateOAuthProfile profile =
     (if opSubject profile = [] \<or> maxOAuthSubjectLength < length (opSubject profile)
         \<or> contains_control (opSubject profile)
      then Inl (OAuth ErrOAuthAuthenticationFailed) else Inr ())"

definition oauthFailure :: "error \<Rightarrow> error" where
  "oauthFailure _ = OAuth ErrOAuthAuthenticationFailed"

section \<open>The service\<close>

record oauth_service =
  oaProviders :: provider_registry
  oaSessions :: session_service
  oaStateLife :: int
  oaParseURL :: "string \<Rightarrow> url option"

record oauth_callback_result =
  crLinked :: bool
  crUserID :: int
  crSignIn :: "signin_result option"

definition NewOAuthSignInService ::
    "provider_registry \<Rightarrow> session_service \<Rightarrow> int \<Rightarrow> (string \<Rightarrow> url option) \<Rightarrow> error + oauth_service" where
  "NewOAuthSignInService providers session stateLifetime parse =
     (if stateLifetime < time_Second then Inl (OAuth ErrOAuthProviderUnavailable)
      else Inr \<lparr>oaProviders = providers, oaSessions = session, oaStateLife = stateLifetime, oaParseURL = parse\<rparr>)"

definition safeOAuthURL :: "(string \<Rightarrow> url option) \<Rightarrow> string \<Rightarrow> bool" where
  "safeOAuthURL parse raw =
     (case parse raw of
        None \<Rightarrow> False
      | Some u \<Rightarrow> (urlScheme u = ''https'' \<or> urlScheme u = ''http'') \<and> urlHost u \<noteq> [] \<and> \<not> urlUser u)"

definition providerClient :: "golib \<Rightarrow> oauth_service \<Rightarrow> string \<Rightarrow> (oauth_provider \<times> oauth_client) option" where
  "providerClient L s name =
     (case registry_Get L (oaProviders s) name of
        None \<Rightarrow> None
      | Some p \<Rightarrow> (case pvClient p of None \<Rightarrow> None | Some c \<Rightarrow> Some (p, c)))"

text \<open>
  \<^verbatim>\<open>Start\<close> and \<^verbatim>\<open>StartLink\<close> from the provider lookup on: the state is stored only once the provider has given a
  usable address.
\<close>

definition start_flow :: "golib \<Rightarrow> oauth_service \<Rightarrow> string \<Rightarrow> string \<Rightarrow> int \<Rightarrow> (string \<times> string) prog" where
  "start_flow L s providerName action userID =
     (case providerClient L s providerName of
        None \<Rightarrow> fail (OAuth ErrOAuthProviderUnavailable)
      | Some (provider, client) \<Rightarrow>
          call newOAuthState id (\<lambda>state.
          call (newPKCEVerifier L) id (\<lambda>(verifier, challenge).
          reading unix_now (\<lambda>createdAt.
          let expiresAt = wrap64 (createdAt + oaStateLife s div time_Second) in
          if expiresAt \<le> createdAt then fail (OAuth ErrOAuthStateInvalid)
          else
            call (ocAuthorizationURL client state challenge) oauthFailure (\<lambda>authorizationURL.
            if \<not> safeOAuthURL (oaParseURL s) authorizationURL then fail (OAuth ErrOAuthAuthenticationFailed)
            else
              call (CreateOAuthState L \<lparr>ostState = state, ostProvider = canonicalProviderName L (pvName provider),
                  ostAction = action, ostUserID = userID, ostCodeVerifier = verifier,
                  ostCreatedAt = createdAt, ostExpiresAt = expiresAt\<rparr>) oauthFailure (\<lambda>_.
              ret (authorizationURL, state)))))))"

definition Start :: "golib \<Rightarrow> oauth_service \<Rightarrow> string \<Rightarrow> (string \<times> string) prog" where
  "Start L s providerName = start_flow L s providerName oauthActionSignIn 0"

definition StartLink :: "golib \<Rightarrow> oauth_service \<Rightarrow> int \<Rightarrow> string \<Rightarrow> (string \<times> string) prog" where
  "StartLink L s userID providerName =
     (if userID \<le> 0 then fail (OAuth ErrOAuthAuthenticationFailed)
      else call (FindUserByID userID) (\<lambda>_. OAuth ErrOAuthAuthenticationFailed) (\<lambda>_.
        start_flow L s providerName oauthActionLink userID))"

definition consumeCallbackState ::
    "golib \<Rightarrow> oauth_service \<Rightarrow> string \<Rightarrow> string \<Rightarrow> (oauth_state \<times> string \<times> oauth_client \<times> int) prog" where
  "consumeCallbackState L s providerName rawState =
     check (normalizeOAuthState rawState) id (\<lambda>state.
     case providerClient L s providerName of
       None \<Rightarrow> fail (OAuth ErrOAuthProviderUnavailable)
     | Some (provider, client) \<Rightarrow>
         reading unix_now (\<lambda>now.
         call (ConsumeOAuthState L state now) (\<lambda>_. OAuth ErrOAuthStateInvalid) (\<lambda>stored.
         let canonicalName = canonicalProviderName L (pvName provider) in
         if ostProvider stored \<noteq> canonicalName \<or> ostExpiresAt stored \<le> now \<or> ostState stored = []
             \<or> ostState stored \<noteq> state
         then fail (OAuth ErrOAuthStateInvalid)
         else ret (stored, canonicalName, client, now))))"

definition exchangeOAuthProfile :: "oauth_client \<Rightarrow> string \<Rightarrow> string \<Rightarrow> oauth_profile prog" where
  "exchangeOAuthProfile provider code codeVerifier =
     (if codeVerifier = [] then fail (OAuth ErrOAuthStateInvalid)
      else
        call (ocExchange provider code codeVerifier) oauthFailure (\<lambda>profile.
        check (validateOAuthProfile profile) id (\<lambda>_. ret profile)))"

definition signInExistingIdentity :: "golib \<Rightarrow> oauth_service \<Rightarrow> oauth_identity \<Rightarrow> signin_result prog" where
  "signInExistingIdentity L s identity =
     (if oidUserID identity \<le> 0 then fail (OAuth ErrOAuthAuthenticationFailed)
      else
        call (FindUserByID (oidUserID identity)) (\<lambda>_. OAuth ErrOAuthAuthenticationFailed) (\<lambda>user.
        if uID user \<noteq> oidUserID identity then fail (OAuth ErrOAuthAuthenticationFailed)
        else
          call (Create L (oaSessions s) (uID user)) oauthFailure (\<lambda>session.
          ret \<lparr>srUser = user\<lparr>uPasswordHash := None\<rparr>, srSession = session\<rparr>)))"

definition oauth_new_account ::
    "golib \<Rightarrow> oauth_service \<Rightarrow> string \<Rightarrow> oauth_profile \<Rightarrow> int \<Rightarrow> string \<Rightarrow> signin_result prog" where
  "oauth_new_account L s providerName profile now email =
     check (normalizeDisplayName (opDisplayName profile)) oauthFailure (\<lambda>displayName.
     call (CreateUser L (zero_user\<lparr>uEmail := Some email, uDisplayName := optionalString displayName,
         uTheme := ''light'', uLocale := ''en'', uCreatedAt := now, uEmailVerifiedAt := Some now\<rparr>)) oauthFailure (\<lambda>created.
     if uID created \<le> 0 then fail (OAuth ErrOAuthAuthenticationFailed)
     else
       call (CreateOAuthIdentity L \<lparr>oidID = 0, oidUserID = uID created, oidProvider = providerName,
           oidSubject = opSubject profile, oidEmail = email, oidCreatedAt = now\<rparr>) oauthFailure (\<lambda>_.
       call (Create L (oaSessions s) (uID created)) oauthFailure (\<lambda>session.
       ret \<lparr>srUser = created\<lparr>uPasswordHash := None\<rparr>, srSession = session\<rparr>))))"

definition createOAuthAccount :: "golib \<Rightarrow> oauth_service \<Rightarrow> string \<Rightarrow> oauth_profile \<Rightarrow> int \<Rightarrow> signin_result prog" where
  "createOAuthAccount L s providerName profile now =
     (if \<not> opEmailVerified profile then fail (OAuth ErrOAuthAuthenticationFailed)
      else if opEmail profile = [] then fail (OAuth ErrOAuthAuthenticationFailed)
      else
        check (NormalizeEmail L (opEmail profile)) oauthFailure (\<lambda>email.
        if email = [] then fail (OAuth ErrOAuthAuthenticationFailed)
        else
          attempt (FindUserByEmail L email) (\<lambda>r. case r of
            Inr existing \<Rightarrow>
              if 0 < uID existing then fail (OAuth ErrOAuthEmailConflict)
              else oauth_new_account L s providerName profile now email
          | Inl err \<Rightarrow>
              if \<not> errors_is err (Account ErrUserNotFound) then fail (oauthFailure err)
              else oauth_new_account L s providerName profile now email)))"

definition signInWithProfile :: "golib \<Rightarrow> oauth_service \<Rightarrow> string \<Rightarrow> oauth_profile \<Rightarrow> int \<Rightarrow> signin_result prog" where
  "signInWithProfile L s canonicalName profile now =
     attempt (FindOAuthIdentity L canonicalName (opSubject profile)) (\<lambda>r. case r of
       Inr identity \<Rightarrow> signInExistingIdentity L s identity
     | Inl err \<Rightarrow>
         if \<not> errors_is err (OAuth ErrOAuthIdentityNotFound) then fail (oauthFailure err)
         else createOAuthAccount L s canonicalName profile now)"

text \<open>The confirmation of the account's own address at the end of a link.\<close>

definition confirm_linked_email :: "golib \<Rightarrow> int \<Rightarrow> oauth_profile \<Rightarrow> int \<Rightarrow> user \<Rightarrow> string \<Rightarrow> unit prog" where
  "confirm_linked_email L actorUserID profile now user email =
     (if \<not> opEmailVerified profile \<or> email = [] then ret ()
      else (case uEmail user of
          None \<Rightarrow> ret ()
        | Some own \<Rightarrow>
            if NormalizeEmail L own = Inr email \<and> uEmailVerifiedAt user = None
            then call (UpdateUser L (user\<lparr>uEmailVerifiedAt := Some now\<rparr>) (uVersion user)) oauthFailure (\<lambda>updated.
              if uID updated \<noteq> actorUserID then fail (OAuth ErrOAuthAuthenticationFailed) else ret ())
            else ret ()))"

definition linkProfile :: "golib \<Rightarrow> int \<Rightarrow> string \<Rightarrow> oauth_profile \<Rightarrow> int \<Rightarrow> unit prog" where
  "linkProfile L actorUserID canonicalName profile now =
     attempt (FindOAuthIdentity L canonicalName (opSubject profile)) (\<lambda>r. case r of
       Inr _ \<Rightarrow> fail (OAuth ErrOAuthIdentityConflict)
     | Inl err \<Rightarrow>
         if \<not> errors_is err (OAuth ErrOAuthIdentityNotFound) then fail (oauthFailure err)
         else
           call (FindUserByID actorUserID) (\<lambda>_. OAuth ErrOAuthAuthenticationFailed) (\<lambda>user.
           if uID user \<noteq> actorUserID then fail (OAuth ErrOAuthAuthenticationFailed)
           else
             check (if opEmail profile = [] then Inr [] else
                 (case NormalizeEmail L (opEmail profile) of
                    Inl e \<Rightarrow> Inl e | Inr email \<Rightarrow> if email = [] then Inl AnonymousError else Inr email))
               (\<lambda>_. OAuth ErrOAuthAuthenticationFailed) (\<lambda>email.
             call (CreateOAuthIdentity L \<lparr>oidID = 0, oidUserID = actorUserID, oidProvider = canonicalName,
                 oidSubject = opSubject profile, oidEmail = email, oidCreatedAt = now\<rparr>)
               (\<lambda>err. if errors_is err (OAuth ErrOAuthIdentityConflict) then OAuth ErrOAuthIdentityConflict
                      else oauthFailure err) (\<lambda>_.
             confirm_linked_email L actorUserID profile now user email))))"

definition unusable_code :: "string \<Rightarrow> bool" where
  "unusable_code code \<longleftrightarrow> TrimSpace code = [] \<or> maxOAuthCodeLength < length code"

definition Callback :: "golib \<Rightarrow> oauth_service \<Rightarrow> string \<Rightarrow> string \<Rightarrow> string \<Rightarrow> signin_result prog" where
  "Callback L s providerName code rawState =
     (if unusable_code code then fail (OAuth ErrOAuthAuthenticationFailed)
      else
        call (consumeCallbackState L s providerName rawState) id (\<lambda>(stored, canonicalName, provider, now).
        if ostAction stored \<noteq> oauthActionSignIn \<or> ostUserID stored \<noteq> 0 then fail (OAuth ErrOAuthStateInvalid)
        else
          call (exchangeOAuthProfile provider code (ostCodeVerifier stored)) id (\<lambda>profile.
          signInWithProfile L s canonicalName profile now)))"

definition CompleteCallback ::
    "golib \<Rightarrow> oauth_service \<Rightarrow> int \<Rightarrow> string \<Rightarrow> string \<Rightarrow> string \<Rightarrow> oauth_callback_result prog" where
  "CompleteCallback L s actorUserID providerName code rawState =
     (if unusable_code code then fail (OAuth ErrOAuthAuthenticationFailed)
      else
        call (consumeCallbackState L s providerName rawState) id (\<lambda>(stored, canonicalName, provider, now).
        if (if ostAction stored = oauthActionSignIn then ostUserID stored \<noteq> 0
            else if ostAction stored = oauthActionLink then ostUserID stored \<le> 0 \<or> ostUserID stored \<noteq> actorUserID
            else True)
        then fail (OAuth ErrOAuthStateInvalid)
        else
          call (exchangeOAuthProfile provider code (ostCodeVerifier stored)) id (\<lambda>profile.
          if ostAction stored = oauthActionLink
          then call (linkProfile L (ostUserID stored) canonicalName profile now) id (\<lambda>_.
            ret \<lparr>crLinked = True, crUserID = ostUserID stored, crSignIn = None\<rparr>)
          else call (signInWithProfile L s canonicalName profile now) id (\<lambda>result.
            ret \<lparr>crLinked = False, crUserID = 0, crSignIn = Some result\<rparr>))))"

definition CallbackLink :: "golib \<Rightarrow> oauth_service \<Rightarrow> int \<Rightarrow> string \<Rightarrow> string \<Rightarrow> string \<Rightarrow> unit prog" where
  "CallbackLink L s actorUserID providerName code rawState =
     (if actorUserID \<le> 0 \<or> unusable_code code then fail (OAuth ErrOAuthAuthenticationFailed)
      else
        call (consumeCallbackState L s providerName rawState) id (\<lambda>(stored, canonicalName, provider, now).
        if ostAction stored \<noteq> oauthActionLink \<or> ostUserID stored \<noteq> actorUserID then fail (OAuth ErrOAuthStateInvalid)
        else
          call (exchangeOAuthProfile provider code (ostCodeVerifier stored)) id (\<lambda>profile.
          linkProfile L actorUserID canonicalName profile now)))"

definition Unlink :: "int \<Rightarrow> int \<Rightarrow> unit prog" where
  "Unlink userID identityID =
     (if userID \<le> 0 \<or> identityID \<le> 0 then fail (OAuth ErrOAuthIdentityNotFound)
      else
        call (FindUserByID userID) (\<lambda>_. OAuth ErrOAuthIdentityNotFound) (\<lambda>user.
        call (ListOAuthIdentities userID) oauthFailure (\<lambda>identities.
        case find (\<lambda>i. oidID i = identityID \<and> oidUserID i = userID) identities of
          None \<Rightarrow> fail (OAuth ErrOAuthIdentityNotFound)
        | Some target \<Rightarrow>
            if uPasswordHash user = None \<and> length identities \<le> 1 then fail (OAuth ErrOAuthLastSignInMethod)
            else call (DeleteOAuthIdentity userID (oidID target)) oauthFailure (\<lambda>_. ret ()))))"

section \<open>Composition\<close>

lemma evolves_oauth_secrets [evolves_intro]:
  "preord R \<Longrightarrow> evolves (on_tables R) newOAuthState"
  "preord R \<Longrightarrow> evolves (on_tables R) (newPKCEVerifier L)"
  unfolding newOAuthState_def newPKCEVerifier_def Let_def by (intro evolves_intro preord_intro; assumption)+

text \<open>The providers are expected to keep away from the tables.\<close>

definition providers_external :: "provider_registry \<Rightarrow> bool" where
  "providers_external r \<longleftrightarrow> (\<forall>p c. p \<in> snd ` set r \<and> pvClient p = Some c \<longrightarrow>
     (\<forall>a b. evolves (on_tables (=)) (ocAuthorizationURL c a b)) \<and> (\<forall>a b. evolves (on_tables (=)) (ocExchange c a b)))"

lemma providerClient_external:
  assumes "providerClient L s name = Some (p, c)" and "providers_external (oaProviders s)"
  shows "evolves (on_tables (=)) (ocAuthorizationURL c a b)" "evolves (on_tables (=)) (ocExchange c a b)"
proof -
  obtain n where "map_of (oaProviders s) n = Some p" and c: "pvClient p = Some c"
    using assms(1) by (auto simp: providerClient_def registry_Get_def split: option.splits sum.splits)
  then have "p \<in> snd ` set (oaProviders s)" using map_of_SomeD image_iff by fastforce
  with assms(2) c show "evolves (on_tables (=)) (ocAuthorizationURL c a b)" "evolves (on_tables (=)) (ocExchange c a b)"
    unfolding providers_external_def by blast+
qed

lemma evolves_eq_mono: "preord R \<Longrightarrow> evolves (on_tables (=)) m \<Longrightarrow> evolves (on_tables R) m"
  by (erule evolves_mono) (auto simp: on_tables_def preord_refl)

lemma evolves_start_flow [evolves_intro]:
  assumes c: "covers_quiet R" and ext: "providers_external (oaProviders s)"
  shows "evolves (on_tables R) (start_flow L s name action uid)"
proof (cases "providerClient L s name")
  case None
  then show ?thesis unfolding start_flow_def by (simp add: evolves_fail preord_on_tables covers_quiet_preord [OF c])
next
  case (Some pc)
  obtain p cl where pc: "pc = (p, cl)" by (cases pc)
  have url: "evolves (on_tables R) (ocAuthorizationURL cl a b)" for a b
    using Some pc providerClient_external(1) [OF _ ext]
    by (auto intro: evolves_eq_mono [OF covers_quiet_preord [OF c]])
  show ?thesis unfolding start_flow_def Some pc option.case prod.case
    by (intro evolves_intro preord_intro covers_quiet_preord [OF c] c url)
qed

lemma evolves_starts:
  assumes c: "covers_quiet R" and ext: "providers_external (oaProviders s)"
  shows "evolves (on_tables R) (Start L s name)" "evolves (on_tables R) (StartLink L s uid name)"
  unfolding Start_def StartLink_def
  by (intro evolves_intro preord_intro covers_quiet_preord [OF c] evolves_start_flow [OF c ext])+

text \<open>A continuation of the consumed state only sees clients of the registry.\<close>

lemma consumeCallbackState_client:
  "consumeCallbackState L s name raw w = (Inr (st, canonical, cl, now), w') \<Longrightarrow>
    \<exists>p. providerClient L s name = Some (p, cl) \<and> canonical = canonicalProviderName L (pvName p)"
  by (auto simp: consumeCallbackState_def Let_def split: option.splits if_splits)

lemma evolves_consumeCallbackState:
  assumes c: "covers_quiet R"
  shows "evolves (on_tables R) (consumeCallbackState L s name raw)"
  unfolding consumeCallbackState_def by (intro evolves_intro preord_intro covers_quiet_preord [OF c] c)

lemma evolves_after_consume:
  assumes c: "covers_quiet R" and ext: "providers_external (oaProviders s)"
    and k: "\<And>st canonical cl now. (\<And>a b. evolves (on_tables R) (ocExchange cl a b)) \<Longrightarrow>
      evolves (on_tables R) (k (st, canonical, cl, now))"
  shows "evolves (on_tables R) (call (consumeCallbackState L s name raw) h k)"
  unfolding evolves_def
proof
  fix w
  have p: "preord (on_tables R)" by (intro preord_intro covers_quiet_preord [OF c])
  obtain r w1 where r: "consumeCallbackState L s name raw w = (r, w1)"
    by (cases "consumeCallbackState L s name raw w")
  have step: "on_tables R w w1" using evolves_consumeCallbackState [OF c] r by (rule evolvesD)
  show "on_tables R w (snd (call (consumeCallbackState L s name raw) h k w))"
  proof (cases r)
    case (Inl e)
    with r step show ?thesis by (simp add: call_def)
  next
    case (Inr x)
    obtain st canonical cl now where x: "x = (st, canonical, cl, now)" by (cases x)
    from r Inr x obtain pv where "providerClient L s name = Some (pv, cl)"
      by (auto dest: consumeCallbackState_client)
    from providerClient_external(2) [OF this ext] have "evolves (on_tables R) (ocExchange cl a b)" for a b
      by (rule evolves_eq_mono [OF covers_quiet_preord [OF c]])
    from k [OF this] have "on_tables R w1 (snd (k x w1))" by (simp add: evolves_def x)
    with r Inr show ?thesis using preord_trans [OF p step] by (simp add: call_def)
  qed
qed

lemma evolves_exchange [evolves_intro]:
  "preord R \<Longrightarrow> (\<And>a b. evolves (on_tables R) (ocExchange cl a b)) \<Longrightarrow>
    evolves (on_tables R) (exchangeOAuthProfile cl code v)"
  unfolding exchangeOAuthProfile_def by (intro evolves_intro preord_intro; assumption)

lemma evolves_signInWithProfile:
  assumes c: "covers_quiet R" and cu: "\<And>u. evolves (on_tables R) (CreateUser L u)"
  shows "evolves (on_tables R) (signInWithProfile L s name profile now)"
  unfolding signInWithProfile_def signInExistingIdentity_def createOAuthAccount_def oauth_new_account_def
  by (intro evolves_intro preord_intro covers_quiet_preord [OF c] c cu)

lemma evolves_linkProfile:
  assumes c: "covers_quiet R" and u: "\<And>u v. evolves (on_tables R) (UpdateUser L u v)"
  shows "evolves (on_tables R) (linkProfile L uid name profile now)"
  unfolding linkProfile_def confirm_linked_email_def
  by (intro evolves_intro preord_intro covers_quiet_preord [OF c] c u)

lemma evolves_callbacks:
  assumes c: "covers_quiet R" and ext: "providers_external (oaProviders s)"
    and cu: "\<And>u. evolves (on_tables R) (CreateUser L u)" and u: "\<And>u v. evolves (on_tables R) (UpdateUser L u v)"
  shows "evolves (on_tables R) (Callback L s name code raw)" "evolves (on_tables R) (CompleteCallback L s actor name code raw)"
    "evolves (on_tables R) (CallbackLink L s actor name code raw)"
  unfolding Callback_def CompleteCallback_def CallbackLink_def
  by (intro evolves_if evolves_fail preord_on_tables covers_quiet_preord [OF c] evolves_after_consume [OF c ext]
      | simp only: prod.case
      | intro evolves_intro preord_intro covers_quiet_preord [OF c] c cu u evolves_signInWithProfile evolves_linkProfile
      | assumption)+

lemma evolves_Unlink: "covers_quiet R \<Longrightarrow> evolves (on_tables R) (Unlink uid iid)"
  unfolding Unlink_def by (intro evolves_intro preord_intro covers_quiet_preord; assumption)

section \<open>Properties\<close>

lemma FindOAuthIdentity_Inr:
  assumes "FindOAuthIdentity L p sub w = (Inr i, w')"
  shows "\<exists>row \<in> set (oauth_identities (tables w)). oiProvider row = canonicalProvider L p \<and> oiSubject row = sub
    \<and> oidUserID i = oiUserID row"
  using assms
  by (auto simp: FindOAuthIdentity_def scanOAuthIdentity_def select_identity_def Let_def split: if_splits option.splits
      dest!: query_Inr find_Some_iff')

lemma FindOAuthIdentity_tables: "FindOAuthIdentity L p sub w = (r, w') \<Longrightarrow> tables w' = tables w"
  by (rule evolves_eqD [of "FindOAuthIdentity L p sub"]) (intro evolves_intro preord_intro)

lemma CreateOAuthIdentity_Inr:
  assumes "CreateOAuthIdentity L i w = (Inr (), w')"
  shows "(canonicalProvider L (oidProvider i), oidSubject i)
      \<notin> (\<lambda>i. (oiProvider i, oiSubject i)) ` set (oauth_identities (tables w))
    \<and> (\<exists>n. tables w' = (tables w)\<lparr>oauth_identities := oauth_identities (tables w) @
        [identity_row_of (i\<lparr>oidProvider := canonicalProvider L (oidProvider i)\<rparr>) n], oauth_identities_seq := n\<rparr>)"
  using assms
  by (auto simp: CreateOAuthIdentity_def Let_def split: if_splits dest!: query_Inr insert_identity_Inr)

lemma CreateUser_Inr:
  assumes "CreateUser L u w = (Inr c, w')"
  shows "uID c = users_seq (tables w) + 1 \<and> uEmail c = uEmail u \<and> user_violation L c (users (tables w)) = None
    \<and> tables w' = (tables w)\<lparr>users := users (tables w) @ [c], users_seq := users_seq (tables w) + 1\<rparr>"
proof -
  from assms obtain v row where q: "query (insert_user L v) w = (Inr row, w')" and v: "uEmail v = uEmail u"
    and c: "scanUser row = Inr c"
    by (auto simp: CreateUser_def Let_def split: if_splits)
  from c have row: "row = c" by (simp add: scanUser_def split: if_splits)
  from query_Inr [OF q] have a: "c = v\<lparr>uID := users_seq (tables w) + 1\<rparr>" and b: "user_violation L c (users (tables w)) = None"
    and t: "tables w' = (tables w)\<lparr>users := users (tables w) @ [c], users_seq := users_seq (tables w) + 1\<rparr>"
    unfolding insert_user_Inr row by blast+
  from a v have "uID c = users_seq (tables w) + 1" "uEmail c = uEmail u" by simp_all
  with b t show ?thesis by blast
qed

text \<open>The account a provider's profile signs in, and what an identity link writes.\<close>

definition profile_owner :: "golib \<Rightarrow> string \<Rightarrow> oauth_profile \<Rightarrow> db \<Rightarrow> user \<Rightarrow> bool" where
  "profile_owner L name profile d u \<longleftrightarrow>
     (\<exists>i \<in> set (oauth_identities d). oiProvider i = canonicalProvider L name \<and> oiSubject i = opSubject profile
        \<and> oiUserID i = uID u)
     \<or> uID u \<notin> user_ids d \<and> opEmailVerified profile \<and> (\<forall>v \<in> set (users d). uEmail v \<noteq> uEmail u)"

lemma signInExistingIdentity_Inr:
  assumes "signInExistingIdentity L s i w = (Inr res, w')"
  shows "uID (srUser res) = oidUserID i \<and> uPasswordHash (srUser res) = None
    \<and> sUserID (srSession res) = uID (srUser res) \<and> oauth_states (tables w') = oauth_states (tables w)"
proof -
  from assms obtain user w1 ses where "FindUserByID (oidUserID i) w = (Inr user, w1)" "uID user = oidUserID i"
    and c: "Create L (oaSessions s) (uID user) w1 = (Inr ses, w')"
    and "res = \<lparr>srUser = user\<lparr>uPasswordHash := None\<rparr>, srSession = ses\<rparr>"
    by (auto simp: signInExistingIdentity_def split: if_splits)
  with session_create_Inr(1,10) [OF c [unfolded Create_def]] FindUserByID_Inr show ?thesis by simp
qed

lemma oauth_new_account_Inr:
  assumes run: "oauth_new_account L s name profile now email w = (Inr res, w')" and ok: "users_ok L (tables w)"
  shows "uID (srUser res) \<notin> user_ids (tables w) \<and> (\<forall>v \<in> set (users (tables w)). uEmail v \<noteq> uEmail (srUser res))
    \<and> uPasswordHash (srUser res) = None \<and> sUserID (srSession res) = uID (srUser res)
    \<and> oauth_states (tables w') = oauth_states (tables w)"
proof -
  from run obtain d u0 c w1 i w2 ses where u: "CreateUser L u0 w = (Inr c, w1)" "uEmail u0 = Some email"
    and i: "CreateOAuthIdentity L i w1 = (Inr (), w2)"
    and c: "Create L (oaSessions s) (uID c) w2 = (Inr ses, w')"
    and res: "res = \<lparr>srUser = c\<lparr>uPasswordHash := None\<rparr>, srSession = ses\<rparr>"
    by (force simp: oauth_new_account_def split: if_splits)
  note cu = CreateUser_Inr [OF u(1)]
  have "\<forall>v \<in> set (users (tables w)). uID v \<le> users_seq (tables w)" using ok by (simp add: users_ok_def)
  then have "uID c \<notin> user_ids (tables w)" using cu by auto
  moreover have "\<forall>v \<in> set (users (tables w)). uEmail v \<noteq> uEmail c" using cu u(2) by (auto simp: user_violation_None)
  ultimately show ?thesis
    using session_create_Inr(1,10) [OF c [unfolded Create_def]] CreateOAuthIdentity_Inr [OF i] cu res by auto
qed

lemma signInWithProfile_Inr:
  assumes run: "signInWithProfile L s name profile now w = (Inr res, w')" and ok: "users_ok L (tables w)"
  shows "profile_owner L name profile (tables w) (srUser res) \<and> uPasswordHash (srUser res) = None
    \<and> sUserID (srSession res) = uID (srUser res) \<and> oauth_states (tables w') = oauth_states (tables w)"
proof -
  obtain r w1 where f: "FindOAuthIdentity L name (opSubject profile) w = (r, w1)"
    by (cases "FindOAuthIdentity L name (opSubject profile) w")
  note t1 = FindOAuthIdentity_tables [OF f]
  show ?thesis
  proof (cases r)
    case (Inr i)
    with run f have "signInExistingIdentity L s i w1 = (Inr res, w')" by (simp add: signInWithProfile_def attempt_iff)
    with signInExistingIdentity_Inr [OF this] FindOAuthIdentity_Inr f Inr t1 show ?thesis
      by (fastforce simp: profile_owner_def)
  next
    case (Inl e)
    with run f have "createOAuthAccount L s name profile now w1 = (Inr res, w')"
      by (auto simp: signInWithProfile_def attempt_iff split: if_splits)
    then obtain email w2 r2 where v: "opEmailVerified profile" and q: "FindUserByEmail L email w1 = (r2, w2)"
      and n: "oauth_new_account L s name profile now email w2 = (Inr res, w')"
      by (auto simp: createOAuthAccount_def attempt_case_iff split: if_splits sum.splits)
    have "tables w2 = tables w1"
      using q by (rule evolves_eqD [of "FindUserByEmail L email", rotated]) (intro evolves_intro preord_intro)
    with oauth_new_account_Inr [OF n] ok t1 v show ?thesis by (simp add: profile_owner_def)
  qed
qed

lemma confirm_linked_email_Inr:
  assumes "confirm_linked_email L actor profile now user email w = (Inr (), w')"
  shows "oauth_identities (tables w') = oauth_identities (tables w) \<and> oauth_states (tables w') = oauth_states (tables w)"
proof -
  from assms consider "w' = w" | upd u v where "UpdateUser L u v w = (Inr upd, w')"
    by (auto simp: confirm_linked_email_def split: if_splits option.splits)
  then show ?thesis
  proof cases
    case 2
    then show ?thesis by (rule UpdateUser_Inr) simp
  qed simp
qed

lemma linkProfile_Inr:
  assumes run: "linkProfile L actor name profile now w = (Inr (), w')"
  shows "(canonicalProvider L name, opSubject profile) \<notin> (\<lambda>i. (oiProvider i, oiSubject i)) ` set (oauth_identities (tables w))
    \<and> (\<exists>i. oauth_identities (tables w') = oauth_identities (tables w) @ [i] \<and> oiUserID i = actor
        \<and> oiProvider i = canonicalProvider L name \<and> oiSubject i = opSubject profile)
    \<and> oauth_states (tables w') = oauth_states (tables w)"
proof -
  from run obtain e w1 user w2 email i w3 where f: "FindOAuthIdentity L name (opSubject profile) w = (Inl e, w1)"
    and u: "FindUserByID actor w1 = (Inr user, w2)"
    and i: "i = \<lparr>oidID = 0, oidUserID = actor, oidProvider = name, oidSubject = opSubject profile, oidEmail = email,
       oidCreatedAt = now\<rparr>"
    and c: "CreateOAuthIdentity L i w2 = (Inr (), w3)"
    and e: "confirm_linked_email L actor profile now user email w3 = (Inr (), w')"
    by (auto simp: linkProfile_def attempt_case_iff split: if_splits sum.splits)
  have "tables w2 = tables w" using FindOAuthIdentity_tables [OF f] FindUserByID_Inr [OF u] by simp
  with CreateOAuthIdentity_Inr [OF c] confirm_linked_email_Inr [OF e] show ?thesis by (auto simp: i)
qed

lemma consumeCallbackState_Inr:
  assumes "consumeCallbackState L s name raw w = (Inr (st, canonical, cl, now), w')"
  obtains row p where "row \<in> set (oauth_states (tables w))" "pending_state (tokenDigest L raw) (unix_now w) row"
    "providerClient L s name = Some (p, cl)" "canonical = canonicalProviderName L (pvName p)"
    "osProvider row = canonical" "now = unix_now w" "ostAction st = osAction row"
    "ostUserID st = (case osUserID row of None \<Rightarrow> 0 | Some u \<Rightarrow> u)" "osUserID row = None \<or> 0 < ostUserID st"
    "tables w' = (tables w)\<lparr>oauth_states := spend_state (tokenDigest L raw) (unix_now w) (oauth_states (tables w))\<rparr>"
proof -
  from assms obtain p where p: "providerClient L s name = Some (p, cl)" "canonical = canonicalProviderName L (pvName p)"
    and c: "ConsumeOAuthState L raw (unix_now w) w = (Inr st, w')" and st: "ostProvider st = canonical" "now = unix_now w"
    by (auto simp: consumeCallbackState_def normalizeOAuthState_def Let_def split: option.splits if_splits)
  from c show thesis
  proof (rule ConsumeOAuthState_cases)
    fix r
    assume f: "find (pending_state (tokenDigest L raw) (unix_now w)) (oauth_states (tables w)) = Some r"
      and t: "tables w' = (tables w)\<lparr>oauth_states := spend_state (tokenDigest L raw) (unix_now w) (oauth_states (tables w))\<rparr>"
      and "\<And>x. Inr st = (Inr x :: error + oauth_state) \<Longrightarrow> \<exists>y. scanOAuthState r = Inr y \<and> x = y\<lparr>ostState := raw\<rparr>"
    then obtain y where y: "scanOAuthState r = Inr y" "st = y\<lparr>ostState := raw\<rparr>" by blast
    show thesis
      by (rule that [of r p])
         (use p st f t y find_Some_iff' [OF f] in \<open>auto simp: scanOAuthState_def Let_def split: if_splits option.splits\<close>)
  qed simp
qed

lemma exchange_Inr:
  "exchangeOAuthProfile cl code v w = (Inr profile, w') \<Longrightarrow> ocExchange cl code v w = (Inr profile, w')"
  by (auto simp: exchangeOAuthProfile_def split: if_splits)

text \<open>
  C18: A provider callback completes only the flow it belongs to. A completed callback was made with a pending state of this
  provider, which is spent afterwards. It links only when that state was started by the account now signed in, and then
  attaches a subject nobody had; otherwise it signs in, without a password hash, the account that owns the subject at
  the provider, or a new account whose verified address no account had: a reported address never selects an account.
\<close>

theorem CompleteCallback_bound:
  assumes run: "CompleteCallback L s actor name code raw w = (Inr res, w')"
    and ext: "providers_external (oaProviders s)" and ok: "users_ok L (tables w)"
  shows "\<exists>row p cl v wa wb profile. row \<in> set (oauth_states (tables w))
    \<and> pending_state (tokenDigest L raw) (unix_now w) row
    \<and> providerClient L s name = Some (p, cl) \<and> osProvider row = canonicalProviderName L (pvName p)
    \<and> ocExchange cl code v wa = (Inr profile, wb) \<and> \<not> holds_state L (tables w') raw (unix_now w)
    \<and> (if crLinked res
       then osAction row = ''link'' \<and> osUserID row = Some actor \<and> crUserID res = actor
         \<and> (canonicalProvider L (osProvider row), opSubject profile)
             \<notin> (\<lambda>i. (oiProvider i, oiSubject i)) ` set (oauth_identities (tables w))
         \<and> (\<exists>i. oauth_identities (tables w') = oauth_identities (tables w) @ [i] \<and> oiUserID i = actor
             \<and> oiProvider i = canonicalProvider L (osProvider row) \<and> oiSubject i = opSubject profile)
       else osAction row = ''sign-in'' \<and> osUserID row = None
         \<and> (\<exists>r. crSignIn res = Some r \<and> profile_owner L (osProvider row) profile (tables w) (srUser r)
             \<and> uPasswordHash (srUser r) = None \<and> sUserID (srSession r) = uID (srUser r)))"
proof -
  from run obtain st canonical cl now w1 profile w2 where
    c: "consumeCallbackState L s name raw w = (Inr (st, canonical, cl, now), w1)"
    and x: "exchangeOAuthProfile cl code (ostCodeVerifier st) w1 = (Inr profile, w2)"
    and flow: "ostAction st = oauthActionSignIn \<and> ostUserID st = 0
        \<and> (\<exists>r. signInWithProfile L s canonical profile now w2 = (Inr r, w')
           \<and> res = \<lparr>crLinked = False, crUserID = 0, crSignIn = Some r\<rparr>)
      \<or> ostAction st = oauthActionLink \<and> 0 < ostUserID st \<and> ostUserID st = actor
        \<and> linkProfile L (ostUserID st) canonical profile now w2 = (Inr (), w')
        \<and> res = \<lparr>crLinked = True, crUserID = ostUserID st, crSignIn = None\<rparr>"
    by (auto simp: CompleteCallback_def oauthActionSignIn_def oauthActionLink_def split: if_splits)
  from c obtain row p where row: "row \<in> set (oauth_states (tables w))" "pending_state (tokenDigest L raw) (unix_now w) row"
    and p: "providerClient L s name = Some (p, cl)" "canonical = canonicalProviderName L (pvName p)" "osProvider row = canonical"
    and st: "ostAction st = osAction row" "ostUserID st = (case osUserID row of None \<Rightarrow> 0 | Some u \<Rightarrow> u)"
      "osUserID row = None \<or> 0 < ostUserID st"
    and t1: "tables w1 = (tables w)\<lparr>oauth_states := spend_state (tokenDigest L raw) (unix_now w) (oauth_states (tables w))\<rparr>"
    by (rule consumeCallbackState_Inr)
  note e = exchange_Inr [OF x]
  have t2: "tables w2 = tables w1"
    using providerClient_external(2) [OF p(1) ext] e by (rule evolves_eqD)
  have spent: "oauth_states (tables w') = spend_state (tokenDigest L raw) (unix_now w) (oauth_states (tables w)) \<Longrightarrow>
      \<not> holds_state L (tables w') raw (unix_now w)"
    by (rule holds_state_spend(1) [OF _ order_refl])
  from flow show ?thesis
  proof (elim disjE conjE exE)
    fix r
    assume a: "ostAction st = oauthActionSignIn" "ostUserID st = 0"
      and si: "signInWithProfile L s canonical profile now w2 = (Inr r, w')"
      and res: "res = \<lparr>crLinked = False, crUserID = 0, crSignIn = Some r\<rparr>"
    have "osUserID row = None" using a(2) st by auto
    moreover have "users_ok L (tables w2)" using ok by (simp add: t2 t1)
    note signInWithProfile_Inr [OF si this]
    moreover from this have "\<not> holds_state L (tables w') raw (unix_now w)" by (intro spent) (simp add: t2 t1)
    ultimately show ?thesis
      using row p st a e res
      by (intro exI [of _ row] exI [of _ p] exI [of _ cl] exI [of _ "ostCodeVerifier st"] exI [of _ w1] exI [of _ w2]
          exI [of _ profile]) (simp add: oauthActionSignIn_def profile_owner_def t1 t2)
  next
    assume a: "ostAction st = oauthActionLink" "0 < ostUserID st" "ostUserID st = actor"
      and li: "linkProfile L (ostUserID st) canonical profile now w2 = (Inr (), w')"
      and res: "res = \<lparr>crLinked = True, crUserID = ostUserID st, crSignIn = None\<rparr>"
    have "osUserID row = Some actor" using a(2,3) st(2) by (auto split: option.splits)
    moreover note linkProfile_Inr [OF li]
    moreover from this have "\<not> holds_state L (tables w') raw (unix_now w)" by (intro spent) (simp add: t2 t1)
    ultimately show ?thesis
      using row p st a e res
      by (intro exI [of _ row] exI [of _ p] exI [of _ cl] exI [of _ "ostCodeVerifier st"] exI [of _ w1] exI [of _ w2]
          exI [of _ profile]) (simp add: oauthActionLink_def t1 t2)
  qed
qed

lemma another_of:
  assumes "unique_on (\<lambda>x. Some (f x)) xs" and "1 < length (filter P xs)"
  shows "\<exists>y \<in> set xs. P y \<and> f y \<noteq> k"
proof (rule ccontr)
  assume "\<not> ?thesis"
  then have "f ` set (filter P xs) \<subseteq> {k}" by auto
  then have "card (set (map f (filter P xs))) \<le> 1" using card_mono [of "{k}"] by fastforce
  moreover have "distinct (map f (filter P xs))"
    using unique_on_filter [OF assms(1)] by (simp add: unique_on_distinct)
  ultimately show False using assms(2) by (simp only: distinct_card length_map)
qed

lemma DeleteOAuthIdentity_Inr:
  assumes "DeleteOAuthIdentity uid iid w = (Inr (), w')"
  obtains i u where "i \<in> set (oauth_identities (tables w))" "oiID i = iid" "oiUserID i = uid"
    "u \<in> set (users (tables w))" "uID u = uid"
    "uPasswordHash u \<noteq> None \<or> 1 < length (filter (\<lambda>i. oiUserID i = uid) (oauth_identities (tables w)))"
    "tables w' = (tables w)\<lparr>oauth_identities :=
       delete_where (\<lambda>i. oiID i = iid \<and> oiUserID i = uid) (oauth_identities (tables w))\<rparr>"
proof -
  let ?w = "w\<lparr>faults := tl (faults w)\<rparr>"
  from assms obtain r where "transaction mapOAuthIdentityError (delete_identity_body uid iid) w = (Inr r, w')"
    by (auto simp: DeleteOAuthIdentity_def split: if_splits)
  then obtain w2 where b: "delete_identity_body uid iid ?w = (Inr r, w2)" and some: "r \<noteq> None \<Longrightarrow> tables w' = tables w2"
    by (rule transaction_Inr) blast
  from b obtain has w3 n w4 rows where p: "query (select_has_password uid) ?w = (Inr has, w3)"
    and c: "query (count_identities uid) w3 = (Inr n, w4)"
    and d: "query (delete_identity iid uid) w4 = (Inr rows, w2)" and ok: "rows \<noteq> 0" "has \<or> 1 < n" "r = Some ()"
    by (auto simp: delete_identity_body_def split: if_splits)
  from query_Inr [OF p] have p': "select_has_password uid (tables w) = (Inr has, tables w3)" by simp
  then obtain u where fu: "find (\<lambda>u. uID u = uid) (users (tables w)) = Some u"
    by (cases "find (\<lambda>u. uID u = uid) (users (tables w))") (simp_all add: select_has_password_def)
  with p' have has: "has = (uPasswordHash u \<noteq> None)" and t3: "tables w3 = tables w"
    by (simp_all add: select_has_password_def)
  note u = find_Some_iff' [OF fu] has
  from query_Inr [OF c] t3 have t4: "tables w4 = tables w"
    and n: "n = int (length (filter (\<lambda>i. oiUserID i = uid) (oauth_identities (tables w))))"
    by (auto simp: count_identities_def)
  from query_Inr [OF d] t4 have t2: "tables w2 = (tables w)\<lparr>oauth_identities :=
       delete_where (\<lambda>i. oiID i = iid \<and> oiUserID i = uid) (oauth_identities (tables w))\<rparr>"
    and "rows = int (length (filter (\<lambda>i. oiID i = iid \<and> oiUserID i = uid) (oauth_identities (tables w))))"
    by (auto simp: delete_identity_def Let_def)
  with ok(1) have "filter (\<lambda>i. oiID i = iid \<and> oiUserID i = uid) (oauth_identities (tables w)) \<noteq> []" by auto
  then obtain i where "i \<in> set (oauth_identities (tables w))" "oiID i = iid" "oiUserID i = uid"
    by (auto simp: filter_empty_conv)
  with u t2 some ok n show thesis by (intro that [of i u]) auto
qed

lemma Unlink_Inr:
  assumes run: "Unlink uid iid w = (Inr (), w')"
  shows "\<exists>w2. tables w2 = tables w \<and> DeleteOAuthIdentity uid iid w2 = (Inr (), w')"
proof -
  let ?find = "find (\<lambda>i. oidID i = iid \<and> oidUserID i = uid)"
  from run obtain user w1 ids w2 where f: "FindUserByID uid w = (Inr user, w1)"
    and l: "ListOAuthIdentities uid w1 = (Inr ids, w2)"
    and rest: "(case ?find ids of None \<Rightarrow> fail (OAuth ErrOAuthIdentityNotFound)
        | Some target \<Rightarrow>
            if uPasswordHash user = None \<and> length ids \<le> 1 then fail (OAuth ErrOAuthLastSignInMethod)
            else call (DeleteOAuthIdentity uid (oidID target)) oauthFailure (\<lambda>_. ret ())) w2 = (Inr (), w')"
    by (auto simp: Unlink_def split: if_splits)
  from rest obtain target where tg: "?find ids = Some target" by (cases "?find ids") auto
  have t: "oidID target = iid" using find_Some_iff' [OF tg] by simp
  from rest tg have d: "DeleteOAuthIdentity uid (oidID target) w2 = (Inr (), w')" by (auto split: if_splits)
  have "tables w2 = tables w1"
    using l by (rule evolves_eqD [of "ListOAuthIdentities uid", rotated]) (intro evolves_intro preord_intro)
  then have t2: "tables w2 = tables w" using FindUserByID_Inr [OF f] by simp
  show ?thesis using t2 d t by blast
qed

text \<open>
  C19: Unlinking keeps a way to sign in. An unlink that succeeds, or the repository
  operation under it, which concurrent requests reach directly, removes exactly the identity asked for, which was the
  caller's, and leaves the account with a password or with another linked identity.
\<close>

theorem Unlink_keeps_sign_in:
  assumes run: "Unlink uid iid w = (Inr (), w') \<or> DeleteOAuthIdentity uid iid w = (Inr (), w')" and ok: "oauth_ok (tables w)"
  shows "\<exists>i u. i \<in> set (oauth_identities (tables w)) \<and> oiID i = iid \<and> oiUserID i = uid
    \<and> tables w' = (tables w)\<lparr>oauth_identities := delete_where (\<lambda>i. oiID i = iid) (oauth_identities (tables w))\<rparr>
    \<and> u \<in> set (users (tables w')) \<and> uID u = uid
    \<and> (uPasswordHash u \<noteq> None \<or> (\<exists>j \<in> set (oauth_identities (tables w')). oiUserID j = uid))"
proof -
  from run obtain w2 where t2: "tables w2 = tables w" and d: "DeleteOAuthIdentity uid iid w2 = (Inr (), w')"
    using Unlink_Inr by blast
  have uniq: "unique_on (\<lambda>i. Some (oiID i)) (oauth_identities (tables w))" using ok by (simp add: oauth_ok_def)
  from d obtain i u where i: "i \<in> set (oauth_identities (tables w))" "oiID i = iid" "oiUserID i = uid"
    and u: "u \<in> set (users (tables w))" "uID u = uid"
    and keep: "uPasswordHash u \<noteq> None \<or> 1 < length (filter (\<lambda>i. oiUserID i = uid) (oauth_identities (tables w)))"
    and t': "tables w' = (tables w)\<lparr>oauth_identities :=
       delete_where (\<lambda>i. oiID i = iid \<and> oiUserID i = uid) (oauth_identities (tables w))\<rparr>"
    unfolding t2 [symmetric] by (rule DeleteOAuthIdentity_Inr) blast
  have "oiID j = iid \<and> oiUserID j = uid \<longleftrightarrow> oiID j = iid" if "j \<in> set (oauth_identities (tables w))" for j
    using unique_onD [OF uniq that i(1)] i by auto
  then have "delete_where (\<lambda>i. oiID i = iid \<and> oiUserID i = uid) (oauth_identities (tables w))
      = delete_where (\<lambda>i. oiID i = iid) (oauth_identities (tables w))"
    unfolding delete_where_def by (intro filter_cong) auto
  moreover have "uPasswordHash u \<noteq> None \<or> (\<exists>j \<in> set (oauth_identities (tables w)). oiUserID j = uid \<and> oiID j \<noteq> iid)"
    using keep another_of [OF uniq, of "\<lambda>i. oiUserID i = uid" iid] by auto
  ultimately show ?thesis
    using i u t' by (intro exI [of _ i] exI [of _ u]) auto
qed

section \<open>Worked examples\<close>

definition demo_client :: oauth_client where
  "demo_client = \<lparr>ocAuthorizationURL = (\<lambda>st ch. ret (''https://p/'' @ st)),
     ocExchange = (\<lambda>code v. ret \<lparr>opSubject = ''sub'', opEmail = ''new@x'', opEmailVerified = True, opDisplayName = []\<rparr>)\<rparr>"

definition demo_oauth :: oauth_service where
  "demo_oauth = \<lparr>oaProviders = [(''google'', \<lparr>pvName = ''google'', pvClient = Some demo_client\<rparr>)],
     oaSessions = \<lparr>ssLifetime = 3600000000000, ssSSO = None\<rparr>, oaStateLife = 600000000000, oaParseURL = (\<lambda>_. None)\<rparr>"

definition demo_oauth_world :: world where
  "demo_oauth_world = demo_world\<lparr>tables := demo_db\<lparr>
     oauth_identities := [\<lparr>oiID = 1, oiUserID = 2, oiProvider = ''google'', oiSubject = ''sub'', oiEmail = None,
       oiCreatedAt = 0\<rparr>], oauth_identities_seq := 1,
     oauth_states := [\<lparr>osState = tokenDigest ascii_lib (replicate 64 (CHR ''a'')), osProvider = ''google'',
       osAction = ''sign-in'', osUserID = None, osCodeVerifier = Some ''v'', osCreatedAt = 0, osExpiresAt = 2000,
       osConsumedAt = None\<rparr>]\<rparr>\<rparr>"

lemma demo_oauth_external: "providers_external (oaProviders demo_oauth)"
  by (simp add: providers_external_def demo_oauth_def demo_client_def evolves_ret preord_on_tables preord_eq)

theorem CompleteCallback_bound_witness:
  "\<exists>res w' r. CompleteCallback ascii_lib demo_oauth 0 ''google'' ''code'' (replicate 64 (CHR ''a'')) demo_oauth_world = (Inr res, w')
     \<and> \<not> crLinked res \<and> crSignIn res = Some r \<and> uPasswordHash (srUser r) = None"
proof -
  let ?run = "CompleteCallback ascii_lib demo_oauth 0 ''google'' ''code'' (replicate 64 (CHR ''a'')) demo_oauth_world"
  have "\<not> isl (fst ?run) \<and> \<not> crLinked (projr (fst ?run))" by code_simp
  then obtain res w' where r: "?run = (Inr res, w')" and l: "\<not> crLinked res"
    by (cases ?run) (auto simp: isl_def, metis sum.collapse projr_def sum.sel(2))
  have ok: "users_ok ascii_lib (tables demo_oauth_world)"
    using demo_db_ok by (simp add: demo_oauth_world_def db_ok_def)
  from CompleteCallback_bound [OF r demo_oauth_external ok] l r show ?thesis by auto
qed

theorem Unlink_keeps_sign_in_witness:
  "\<exists>w'. Unlink 2 1 demo_oauth_world = (Inr (), w') \<and> oauth_identities (tables w') = []"
proof -
  have "fst (Unlink 2 1 demo_oauth_world) = Inr ()" by code_simp
  then obtain w' where r: "Unlink 2 1 demo_oauth_world = (Inr (), w')" by (cases "Unlink 2 1 demo_oauth_world") simp
  have "oauth_ok (tables demo_oauth_world)"
    by (simp add: oauth_ok_def demo_oauth_world_def demo_defs)
  from Unlink_keeps_sign_in [OF disjI1 [OF r] this] r show ?thesis by (auto simp: demo_oauth_world_def)
qed

end
