(* ===== verification/AdminAccounts.thy ===== *)
theory AdminAccounts
  imports AdminUsers Settings OAuthService AuditTrail
begin

text \<open>
  What administrators do to accounts (the service half of \<^verbatim>\<open>internal/service/admin_accounts.go\<close>,
  \<^verbatim>\<open>admin_identity.go\<close>, \<^verbatim>\<open>admin_confirmation.go\<close>, \<^verbatim>\<open>admin_diagnostics.go\<close>, \<^verbatim>\<open>lockout.go\<close>,
  \<^verbatim>\<open>rate_limit_admin.go\<close>): every handler with its guards, its effect and its audit records, and the protection
  against removing oneself or the last administrator.
\<close>

section \<open>Actors and audit records\<close>

record admin_actor =
  acActorID :: int
  acOrigin :: string

text \<open>The service, with the optional \<^verbatim>\<open>SessionRevoker\<close> it may be built without.\<close>

record admin_service =
  aaHash :: "string \<Rightarrow> string prog"
  aaAuditor :: auditor
  aaSessions :: "(int \<Rightarrow> unit prog) option"

record admin_account_input =
  aiEmail :: string
  aiPassword :: string
  aiIsAdmin :: bool

record admin_update_input = admin_account_input +
  aiVersion :: int

definition adminAccountDetail :: "user \<Rightarrow> string" where
  "adminAccountDetail u =
     (case uEmail u of Some e \<Rightarrow> e | None \<Rightarrow> (case uUsername u of Some n \<Rightarrow> n | None \<Rightarrow> FormatInt (uID u)))"

definition admin_record :: "auditor \<Rightarrow> admin_actor \<Rightarrow> string \<Rightarrow> int \<Rightarrow> string \<Rightarrow> unit prog" where
  "admin_record auditor actor action targetID detail =
     (case auditor of
        None \<Rightarrow> ret ()
      | Some _ \<Rightarrow>
          attempt (FindUserByID (acActorID actor)) (\<lambda>r.
            audit_ignoring auditor \<lparr>arActorUserID = acActorID actor,
              arActorEmail = (case r of Inr u \<Rightarrow> (case uEmail u of Some e \<Rightarrow> e | None \<Rightarrow> []) | Inl _ \<Rightarrow> []),
              arAction = action, arTargetType = ''user'', arTargetID = FormatInt targetID,
              arDetail = detail, arIP = acOrigin actor\<rparr>))"

definition missing_record :: "error \<Rightarrow> error" where
  "missing_record err = (if errors_is err (Account ErrUserNotFound) then Repo ErrRecordNotFound else err)"

section \<open>Accounts\<close>

definition RevokeSessions :: "admin_service \<Rightarrow> admin_actor \<Rightarrow> int \<Rightarrow> unit prog" where
  "RevokeSessions s actor targetID =
     (case aaSessions s of
        None \<Rightarrow> fail (Adm ErrInvalidAdminQuery)
      | Some revoke \<Rightarrow>
          if acActorID actor \<le> 0 \<or> targetID \<le> 0 then fail (Adm ErrInvalidAdminQuery)
          else
            call (FindUserByID targetID) missing_record (\<lambda>target.
            call (revoke targetID) id (\<lambda>_.
            admin_record (aaAuditor s) actor ''admin.sessions.revoked'' (uID target) (adminAccountDetail target))))"

text \<open>The optional new password of an account form.\<close>

definition admin_password :: "admin_service \<Rightarrow> string \<Rightarrow> string option prog" where
  "admin_password s password =
     (if password = [] then ret None
      else
        check (ValidatePassword password) id (\<lambda>_.
        call (aaHash s password) id (\<lambda>hash. ret (Some hash))))"

definition admin_Create :: "golib \<Rightarrow> admin_service \<Rightarrow> admin_actor \<Rightarrow> admin_account_input \<Rightarrow> user prog" where
  "admin_Create L s actor input =
     (if acActorID actor \<le> 0 then fail (Adm ErrInvalidAdminQuery)
      else
        check (NormalizeEmail L (aiEmail input)) (\<lambda>_. Account ErrInvalidEmail) (\<lambda>email.
        if email = [] then fail (Account ErrInvalidEmail)
        else
          call (admin_password s (aiPassword input)) id (\<lambda>passwordHash.
          reading unix_now (\<lambda>now.
          call (CreateUser L (zero_user\<lparr>uEmail := Some email, uPasswordHash := passwordHash, uIsAdmin := aiIsAdmin input,
              uTheme := ''light'', uLocale := ''en'', uCreatedAt := now, uEmailVerifiedAt := Some now\<rparr>)) id (\<lambda>created.
          if uID created \<le> 0 then fail (Account ErrInvalidCreatedUser)
          else
            call (admin_record (aaAuditor s) actor ''admin.account.created'' (uID created) email) id (\<lambda>_.
            call (if uIsAdmin created
                  then admin_record (aaAuditor s) actor ''admin.account.admin_granted'' (uID created) email
                  else ret ()) id (\<lambda>_.
            ret (created\<lparr>uPasswordHash := None\<rparr>))))))))"

definition admin_Find :: "int \<Rightarrow> user prog" where
  "admin_Find targetID =
     (if targetID \<le> 0 then fail (Adm ErrInvalidAdminQuery)
      else call (FindUserByID targetID) missing_record (\<lambda>user. ret (publicUser user)))"

definition admin_Update :: "golib \<Rightarrow> admin_service \<Rightarrow> admin_actor \<Rightarrow> int \<Rightarrow> admin_update_input \<Rightarrow> user prog" where
  "admin_Update L s actor targetID input =
     (if acActorID actor \<le> 0 \<or> targetID \<le> 0 \<or> aiVersion input < 0 then fail (Adm ErrInvalidAdminQuery)
      else if acActorID actor = targetID \<and> \<not> aiIsAdmin input then fail (Adm ErrAdminSelfAction)
      else
        check (NormalizeEmail L (aiEmail input)) (\<lambda>_. Account ErrInvalidEmail) (\<lambda>email.
        if email = [] then fail (Account ErrInvalidEmail)
        else if aiPassword input \<noteq> [] \<and> aaSessions s = None then fail (Adm ErrInvalidAdminQuery)
        else
          call (admin_password s (aiPassword input)) id (\<lambda>passwordHash.
          call (FindUserByID targetID) missing_record (\<lambda>current.
          call (UpdateUser L (current\<lparr>uEmail := Some email, uIsAdmin := aiIsAdmin input,
              uPasswordHash := (case passwordHash of None \<Rightarrow> uPasswordHash current | Some h \<Rightarrow> Some h)\<rparr>)
              (aiVersion input)) missing_record (\<lambda>updated.
          call (case (passwordHash, aaSessions s) of (Some _, Some revoke) \<Rightarrow> revoke targetID | _ \<Rightarrow> ret ()) id (\<lambda>_.
          call (admin_record (aaAuditor s) actor ''admin.account.updated'' (uID updated) email) id (\<lambda>_.
          call (if uIsAdmin updated \<noteq> uIsAdmin current
                then admin_record (aaAuditor s) actor
                  (if uIsAdmin updated then ''admin.account.admin_granted'' else ''admin.account.admin_revoked'')
                  (uID updated) email
                else ret ()) id (\<lambda>_.
          call (if passwordHash \<noteq> None
                then admin_record (aaAuditor s) actor ''admin.account.password_reset'' (uID updated) email
                else ret ()) id (\<lambda>_.
          ret (updated\<lparr>uPasswordHash := None\<rparr>))))))))))"

definition admin_Delete :: "admin_service \<Rightarrow> admin_actor \<Rightarrow> int \<Rightarrow> int \<Rightarrow> unit prog" where
  "admin_Delete s actor targetID expectedVersion =
     (if acActorID actor \<le> 0 \<or> targetID \<le> 0 \<or> expectedVersion < 0 then fail (Adm ErrInvalidAdminQuery)
      else if acActorID actor = targetID then fail (Adm ErrAdminSelfAction)
      else
        call (FindUserByID targetID) missing_record (\<lambda>target.
        call (case aaSessions s of None \<Rightarrow> ret () | Some revoke \<Rightarrow> revoke targetID) id (\<lambda>_.
        call (DeleteUser targetID expectedVersion) missing_record (\<lambda>_.
        admin_record (aaAuditor s) actor ''admin.account.deleted'' (uID target) (adminAccountDetail target)))))"

section \<open>Identities and confirmations\<close>

definition RemoveIdentity :: "auditor \<Rightarrow> admin_actor \<Rightarrow> int \<Rightarrow> int \<Rightarrow> unit prog" where
  "RemoveIdentity auditor actor targetID identityID =
     (if acActorID actor \<le> 0 \<or> targetID \<le> 0 \<or> identityID \<le> 0 then fail (Adm ErrInvalidAdminQuery)
      else
        call (FindUserByID targetID) missing_record (\<lambda>user.
        call (Unlink targetID identityID) id (\<lambda>_.
        admin_record auditor actor ''admin.identity.removed'' targetID (adminAccountDetail user))))"

definition ConfirmEmail :: "golib \<Rightarrow> auditor \<Rightarrow> admin_actor \<Rightarrow> int \<Rightarrow> unit prog" where
  "ConfirmEmail L auditor actor targetID =
     (if acActorID actor \<le> 0 \<or> targetID \<le> 0 then fail (Adm ErrInvalidAdminQuery)
      else
        call (FindUserByID targetID) missing_record (\<lambda>user.
        if uIsGuest user \<or> uEmail user = None then fail (Adm ErrInvalidConfirmationAccount)
        else if uEmailVerifiedAt user \<noteq> None then ret ()
        else
          reading unix_now (\<lambda>verifiedAt.
          call (UpdateUser L (user\<lparr>uEmailVerifiedAt := Some verifiedAt\<rparr>) (uVersion user)) missing_record (\<lambda>updated.
          admin_record auditor actor ''admin.email.confirmed'' (uID updated) (adminAccountDetail updated)))))"

definition SendConfirmation :: "golib \<Rightarrow> confirmation_service \<Rightarrow> auditor \<Rightarrow> admin_actor \<Rightarrow> int \<Rightarrow> unit prog" where
  "SendConfirmation L c auditor actor targetID =
     (if acActorID actor \<le> 0 \<or> targetID \<le> 0 then fail (Adm ErrInvalidAdminQuery)
      else
        call (FindUserByID targetID) missing_record (\<lambda>user.
        if uIsGuest user \<or> uEmail user = None then fail (Adm ErrInvalidConfirmationAccount)
        else
          call (Issue L c targetID) Wrap (\<lambda>_.
          admin_record auditor actor ''admin.email.confirmation_sent'' (uID user) (adminAccountDetail user))))"

section \<open>Diagnostics\<close>

record admin_user_detail =
  adUser :: user
  adConfirmed :: bool
  adLinkActive :: bool
  adLinkExpiry :: int
  adSessions :: "session list"
  adAttempts :: "login_attempt list"
  adIdentities :: "oauth_identity list"

definition diagnostics_Detail :: "int \<Rightarrow> admin_user_detail prog" where
  "diagnostics_Detail userID =
     (if userID \<le> 0 then fail (Account ErrInvalidUserID)
      else
        call (FindUserByID userID) missing_record (\<lambda>user.
        call (ListActiveSessions userID) id (\<lambda>open_sessions.
        call (ListLoginAttemptsForUser userID MaxAdminLoginAttempts) id (\<lambda>attempts.
        call (ListOAuthIdentities userID) id (\<lambda>identities.
        let detail = \<lparr>adUser = user\<lparr>uPasswordHash := None\<rparr>, adConfirmed = uEmailVerifiedAt user \<noteq> None,
              adLinkActive = False, adLinkExpiry = 0, adSessions = open_sessions, adAttempts = attempts,
              adIdentities = identities\<rparr> in
        reading unix_now (\<lambda>now.
        attempt (FindActiveEmailConfirmationToken userID now) (\<lambda>r. case r of
          Inr link \<Rightarrow> ret (detail\<lparr>adLinkActive := True, adLinkExpiry := ltExpiresAt link\<rparr>)
        | Inl err \<Rightarrow>
            if errors_is err (Tok ErrEmailConfirmationTokenNotFound) then ret detail else fail err)))))))"

section \<open>Lockouts\<close>

definition MaxLockoutOrigins :: nat where "MaxLockoutOrigins = 10"

record lockout_origin =
  loKey :: string
  loCount :: int
  loLimit :: int
  loRetryAfter :: int

record lockout_status =
  lsIdentifierKey :: string
  lsIdentifierCount :: int
  lsIdentifierLimit :: int
  lsIdentifierRetryAfter :: int
  lsLocked :: bool
  lsOrigins :: "lockout_origin list"

definition signInIdentifierKeys :: "user \<Rightarrow> string list" where
  "signInIdentifierKeys target =
     concat (map (\<lambda>v. case v of None \<Rightarrow> [] | Some s \<Rightarrow> if TrimSpace s = [] then [] else [TrimSpace s])
       [uEmail target, uUsername target])"

text \<open>The scan of the recent attempts for distinct origins, newest first, cut at the maximum.\<close>

fun collect_origins :: "login_attempt list \<Rightarrow> string list \<Rightarrow> string list" where
  "collect_origins [] origins = origins"
| "collect_origins (a # rest) origins =
     (case laIP a of
        None \<Rightarrow> collect_origins rest origins
      | Some ip \<Rightarrow>
          let origin = TrimSpace ip in
          if origin = [] \<or> origin \<in> set origins then collect_origins rest origins
          else
            let origins' = origins @ [origin] in
            if MaxLockoutOrigins \<le> length origins' then origins' else collect_origins rest origins')"

definition recentOrigins :: "user \<Rightarrow> string list prog" where
  "recentOrigins target =
     (case uEmail target of
        None \<Rightarrow> ret []
      | Some email \<Rightarrow>
          if TrimSpace email = [] then ret []
          else attempt (ListLoginAttemptsForEmail email MaxAdminLoginAttempts) (\<lambda>r. case r of
              Inl _ \<Rightarrow> ret [] | Inr tried \<Rightarrow> ret (collect_origins tried [])))"

fun identifier_status :: "world rate_limiter \<Rightarrow> string list \<Rightarrow> lockout_status \<Rightarrow> lockout_status prog" where
  "identifier_status l [] status = ret status"
| "identifier_status l (key # keys) status =
     reading now_ns (\<lambda>now.
     call (Snapshot l now signInIdentifierAction key) id (\<lambda>snapshot.
     identifier_status l keys
       (if snCount snapshot = 0 \<or> snCount snapshot < lsIdentifierCount status then status
        else status\<lparr>lsIdentifierKey := key, lsIdentifierCount := snCount snapshot,
          lsIdentifierLimit := snLimit snapshot, lsIdentifierRetryAfter := snRetryAfter snapshot,
          lsLocked := (0 < snLimit snapshot \<and> snLimit snapshot \<le> snCount snapshot)\<rparr>)))"

fun origin_status :: "golib \<Rightarrow> world rate_limiter \<Rightarrow> string list \<Rightarrow> lockout_status \<Rightarrow> lockout_status prog" where
  "origin_status L l [] status = ret status"
| "origin_status L l (origin # rest) status =
     reading now_ns (\<lambda>now.
     call (Snapshot l now signInOriginAction (originRateLimitKey L origin)) id (\<lambda>snapshot.
     origin_status L l rest (status\<lparr>lsOrigins := lsOrigins status @ [\<lparr>loKey = origin, loCount = snCount snapshot,
       loLimit = snLimit snapshot, loRetryAfter = snRetryAfter snapshot\<rparr>]\<rparr>)))"

definition identifierLimit :: "world rate_limiter \<Rightarrow> int prog" where
  "identifierLimit l =
     reading now_ns (\<lambda>now. attempt (Snapshot l now signInIdentifierAction ''probe'') (\<lambda>r. case r of
       Inl _ \<Rightarrow> ret 0 | Inr snapshot \<Rightarrow> ret (snLimit snapshot)))"

definition lockout_Status :: "golib \<Rightarrow> world rate_limiter \<Rightarrow> user \<Rightarrow> lockout_status prog" where
  "lockout_Status L l target =
     call (identifierLimit l) id (\<lambda>limit.
     call (identifier_status l (signInIdentifierKeys target) \<lparr>lsIdentifierKey = [], lsIdentifierCount = 0,
       lsIdentifierLimit = limit, lsIdentifierRetryAfter = 0, lsLocked = False, lsOrigins = []\<rparr>) id (\<lambda>status.
     call (recentOrigins target) id (\<lambda>origins.
     origin_status L l origins status)))"

fun clear_keys :: "world rate_limiter \<Rightarrow> string \<Rightarrow> string list \<Rightarrow> unit prog" where
  "clear_keys l action [] = ret ()"
| "clear_keys l action (key # keys) = call (Clear l action key) id (\<lambda>_. clear_keys l action keys)"

definition lockout_Clear :: "golib \<Rightarrow> world rate_limiter \<Rightarrow> auditor \<Rightarrow> admin_actor \<Rightarrow> user \<Rightarrow> unit prog" where
  "lockout_Clear L l auditor actor target =
     (if acActorID actor \<le> 0 \<or> uID target \<le> 0 then fail (Adm ErrInvalidAdminQuery)
      else
        call (clear_keys l signInIdentifierAction (signInIdentifierKeys target)) id (\<lambda>_.
        call (recentOrigins target) id (\<lambda>origins.
        call (clear_keys l signInOriginAction (map (originRateLimitKey L) origins)) id (\<lambda>_.
        audit_ignoring auditor \<lparr>arActorUserID = acActorID actor, arActorEmail = [],
          arAction = ''admin.lockout.cleared'', arTargetType = ''user'', arTargetID = FormatInt (uID target),
          arDetail = adminAccountDetail target, arIP = acOrigin actor\<rparr>))))"

section \<open>Budgets\<close>

fun overview :: "world rate_limiter list \<Rightarrow> rate_limit_action_info list \<Rightarrow> rate_limit_action_info list prog" where
  "overview [] seen = ret seen"
| "overview (l # ls) seen =
     reading now_ns (\<lambda>now.
     call (Actions l now) id (\<lambda>as.
     overview ls (foldl (\<lambda>acc a. if aiAction a \<in> aiAction ` set acc then acc else acc @ [a]) seen as)))"

definition Overview :: "world rate_limiter list \<Rightarrow> rate_limit_action_info list prog" where
  "Overview ls = overview ls []"

fun limits_Buckets :: "world rate_limiter list \<Rightarrow> string \<Rightarrow> rate_limit_bucket_info list prog" where
  "limits_Buckets [] action = fail (Auth ErrUnknownRateLimitAction)"
| "limits_Buckets (l # ls) action =
     reading now_ns (\<lambda>now.
     call (Actions l now) id (\<lambda>as.
     if \<exists>a \<in> set as. aiAction a = action then Buckets l now action else limits_Buckets ls action))"

definition limits_record :: "auditor \<Rightarrow> admin_actor \<Rightarrow> string \<Rightarrow> int \<Rightarrow> unit prog" where
  "limits_record auditor actor target removed =
     audit_ignoring auditor \<lparr>arActorUserID = acActorID actor, arActorEmail = [], arAction = ''admin.ratelimit.cleared'',
       arTargetType = ''ratelimit'', arTargetID = target, arDetail = ''removed='' @ FormatInt removed,
       arIP = acOrigin actor\<rparr>"

text \<open>The action is cleared once per entry of \<^verbatim>\<open>Actions\<close> that names it.\<close>

fun clear_action_in :: "world rate_limiter \<Rightarrow> string \<Rightarrow> rate_limit_action_info list \<Rightarrow> bool \<times> int \<Rightarrow> (bool \<times> int) prog" where
  "clear_action_in l action [] (matched, removed) = ret (matched, removed)"
| "clear_action_in l action (a # as) (matched, removed) =
     (if aiAction a \<noteq> action then clear_action_in l action as (matched, removed)
      else call (ClearAction l action) id (\<lambda>count. clear_action_in l action as (True, removed + count)))"

fun clear_action_all :: "world rate_limiter list \<Rightarrow> string \<Rightarrow> bool \<times> int \<Rightarrow> (bool \<times> int) prog" where
  "clear_action_all [] action acc = ret acc"
| "clear_action_all (l # ls) action acc =
     reading now_ns (\<lambda>now.
     call (Actions l now) id (\<lambda>as.
     call (clear_action_in l action as acc) id (clear_action_all ls action)))"

definition limits_ClearAction :: "world rate_limiter list \<Rightarrow> auditor \<Rightarrow> admin_actor \<Rightarrow> string \<Rightarrow> int prog" where
  "limits_ClearAction ls auditor actor action =
     (if acActorID actor \<le> 0 \<or> action = [] then fail (Adm ErrInvalidAdminQuery)
      else
        call (clear_action_all ls action (False, 0)) id (\<lambda>(matched, removed).
        if \<not> matched then fail (Auth ErrUnknownRateLimitAction)
        else call (limits_record auditor actor action removed) id (\<lambda>_. ret removed)))"

text \<open>
  The limiters are emptied in order up to the first that fails, and what was removed until then is recorded. (The
  count a failing limiter reports is zero.)
\<close>

fun clear_all :: "world rate_limiter list \<Rightarrow> int \<Rightarrow> (int \<times> error option) prog" where
  "clear_all [] removed = ret (removed, None)"
| "clear_all (l # ls) removed =
     attempt (ClearAll l) (\<lambda>r. case r of
       Inl err \<Rightarrow> ret (removed, Some err)
     | Inr count \<Rightarrow> clear_all ls (removed + count))"

definition limits_ClearAll :: "world rate_limiter list \<Rightarrow> auditor \<Rightarrow> admin_actor \<Rightarrow> int prog" where
  "limits_ClearAll ls auditor actor =
     (if acActorID actor \<le> 0 then fail (Adm ErrInvalidAdminQuery)
      else
        call (clear_all ls 0) id (\<lambda>(removed, err).
        call (limits_record auditor actor ''all'' removed) id (\<lambda>_.
        case err of None \<Rightarrow> ret removed | Some e \<Rightarrow> fail (Wrap e))))"

section \<open>Composition\<close>

lemma evolves_admin_record:
  assumes c: "covers_quiet R" and a: "quiet_auditor auditor"
  shows "evolves (on_tables R) (admin_record auditor actor action targetID detail)"
  unfolding admin_record_def
  by (intro evolves_intro preord_intro covers_quiet_preord [OF c] evolves_audit_ignoring [OF a c])

lemma evolves_admin_reads:
  assumes c: "covers_quiet R" and h: "\<And>p. evolves (on_tables R) (aaHash s p)"
  shows "evolves (on_tables R) (admin_password s p)" "evolves (on_tables R) (admin_Find uid)"
  unfolding admin_password_def admin_Find_def by (intro evolves_intro preord_intro covers_quiet_preord [OF c] h)+

lemma evolves_admin_accounts:
  assumes c: "covers_quiet R" and a: "quiet_auditor (aaAuditor s)"
    and h: "\<And>p. evolves (on_tables R) (aaHash s p)"
    and rev: "\<And>f uid. aaSessions s = Some f \<Longrightarrow> evolves (on_tables R) (f uid)"
    and cu: "\<And>u. evolves (on_tables R) (CreateUser L u)" and u: "\<And>u v. evolves (on_tables R) (UpdateUser L u v)"
  shows "evolves (on_tables R) (RevokeSessions s actor uid)" "evolves (on_tables R) (admin_Create L s actor i)"
    "evolves (on_tables R) (admin_Update L s actor uid j)"
  unfolding RevokeSessions_def admin_Create_def admin_Update_def prod.case
  by (cases "aaSessions s"; (simp only: option.case)?;
      intro evolves_intro preord_intro covers_quiet_preord [OF c] evolves_admin_record [OF c a] evolves_admin_reads [OF c]
        rev cu u h; assumption)+

lemma evolves_admin_Delete:
  assumes c: "covers_quiet R" and a: "quiet_auditor (aaAuditor s)"
    and rev: "\<And>f uid. aaSessions s = Some f \<Longrightarrow> evolves (on_tables R) (f uid)"
    and d: "\<And>u v. evolves (on_tables R) (DeleteUser u v)"
  shows "evolves (on_tables R) (admin_Delete s actor uid ver)"
  unfolding admin_Delete_def
  by (cases "aaSessions s"; (simp only: option.case)?;
      intro evolves_intro preord_intro covers_quiet_preord [OF c] evolves_admin_record [OF c a] rev d; assumption)

lemma evolves_admin_credentials:
  assumes c: "covers_quiet R" and a: "quiet_auditor auditor" and u: "\<And>u v. evolves (on_tables R) (UpdateUser L u v)"
  shows "evolves (on_tables R) (RemoveIdentity auditor actor uid iid)" "evolves (on_tables R) (ConfirmEmail L auditor actor uid)"
    "evolves (on_tables R) (SendConfirmation L cs auditor actor uid)"
  unfolding RemoveIdentity_def ConfirmEmail_def SendConfirmation_def
  by (intro evolves_intro preord_intro covers_quiet_preord [OF c] c evolves_admin_record [OF c a] evolves_Unlink [OF c] u)+

section \<open>Properties\<close>

text \<open>Every column that refers to an account.\<close>

definition mentioned :: "int \<Rightarrow> db \<Rightarrow> bool" where
  "mentioned uid d \<longleftrightarrow> uid \<in> user_ids d \<or> uid \<in> rUserID ` set (sessions d)
     \<or> uid \<in> oiUserID ` set (oauth_identities d) \<or> uid \<in> tUserID ` set (email_tokens d)
     \<or> uid \<in> tUserID ` set (reset_tokens d) \<or> uid \<in> ccUserID ` set (claim_codes d)
     \<or> uid \<in> mUserID ` set (group_members d) \<or> uid \<in> ssUserID ` set (sso_logins d)
     \<or> Some uid \<in> osUserID ` set (oauth_states d) \<or> Some uid \<in> laUserID ` set (login_attempts d)
     \<or> Some uid \<in> aeActorUserID ` set (audit_log d) \<or> Some uid \<in> gCreatedBy ` set (groups d)"

lemma db_ok_mentioned:
  assumes ok: "db_ok L d" and m: "mentioned uid d"
  shows "uid \<in> user_ids d"
proof -
  have "rUserID ` set (sessions d) \<subseteq> user_ids d" using ok unfolding db_ok_def sessions_ok_def by blast
  moreover have "oiUserID ` set (oauth_identities d) \<subseteq> user_ids d"
    "Some uid \<in> osUserID ` set (oauth_states d) \<longrightarrow> uid \<in> user_ids d"
    using ok unfolding db_ok_def oauth_ok_def image_iff by (blast, metis)
  moreover have "tUserID ` set (email_tokens d) \<subseteq> user_ids d" "tUserID ` set (reset_tokens d) \<subseteq> user_ids d"
    using ok unfolding db_ok_def tokens_ok_def by blast+
  moreover have "ccUserID ` set (claim_codes d) \<subseteq> user_ids d" "mUserID ` set (group_members d) \<subseteq> user_ids d"
    using ok unfolding db_ok_def claims_ok_def members_ok_def by blast+
  moreover have "ssUserID ` set (sso_logins d) \<subseteq> user_ids d"
    "Some uid \<in> laUserID ` set (login_attempts d) \<longrightarrow> uid \<in> user_ids d"
    "Some uid \<in> aeActorUserID ` set (audit_log d) \<longrightarrow> uid \<in> user_ids d"
    using ok unfolding db_ok_def history_ok_def image_iff by (blast, metis, metis)
  moreover have "Some uid \<in> gCreatedBy ` set (groups d) \<longrightarrow> uid \<in> user_ids d"
    using ok unfolding db_ok_def groups_ok_def image_iff by metis
  ultimately show ?thesis using m unfolding mentioned_def
    by (elim disjE) (assumption | erule (1) subsetD | erule (1) mp)+
qed

lemma DeleteUser_Inr:
  assumes "DeleteUser uid ver w = (Inr x, w')"
  shows "tables w' = delete_user_cascade uid (tables w)" "spare_admin uid (tables w)"
    "\<exists>u \<in> set (users (tables w)). uID u = uid \<and> uVersion u = ver"
proof -
  from assms obtain r w1 where t: "transaction mapUserError (delete_user_body uid ver) w = (Inr r, w1)"
    and c: "(case r of Some _ \<Rightarrow> ret () | None \<Rightarrow> classifyMissingUserWrite uid) w1 = (Inr x, w')"
    by (auto simp: DeleteUser_def)
  have r: "r = Some () \<and> w1 = w'"
  proof (cases r)
    case None
    with c show ?thesis by (simp add: classifyMissingUserWrite_refuses)
  qed (use c in simp)
  with t obtain w2 where "delete_user_body uid ver (w\<lparr>faults := tl (faults w)\<rparr>) = (Inr (Some ()), w2)"
    and "tables w' = tables w2"
    by (auto elim!: transaction_Inr)
  from delete_user_body_commit [OF this(1)] this(2)
  show "tables w' = delete_user_cascade uid (tables w)" "spare_admin uid (tables w)"
    "\<exists>u \<in> set (users (tables w)). uID u = uid \<and> uVersion u = ver" by simp_all
qed

lemma quiet_frames: "evolves (on_tables quiet) m \<Longrightarrow> m w = (r, w') \<Longrightarrow> quiet (tables w) (tables w')"
  by (auto dest: evolvesD simp: on_tables_def)

lemma not_isl_run: "\<not> isl (fst p) \<Longrightarrow> \<exists>x w'. p = (Inr x, w')"
  by (cases p; cases "fst p") auto

lemma kept_after: "evolves (on_tables (keeps I)) m \<Longrightarrow> I (tables w) \<Longrightarrow> I (tables (snd (m w)))"
  by (simp add: evolves_def on_tables_def keeps_def split_paired_all)

text \<open>The only administrator, whom the checks protect.\<close>

definition sole_admin :: "int \<Rightarrow> db \<Rightarrow> bool" where
  "sole_admin uid d \<longleftrightarrow> (\<exists>u \<in> set (users d). uID u = uid \<and> site_admin u)
     \<and> (\<forall>u \<in> set (users d). site_admin u \<longrightarrow> uID u = uid)"

lemma sole_admin_not_spare: "users_ok L d \<Longrightarrow> sole_admin uid d \<Longrightarrow> \<not> spare_admin uid d"
proof
  assume ok: "users_ok L d" and sole: "sole_admin uid d" and spare: "spare_admin uid d"
  from sole obtain u where u: "u \<in> set (users d)" "uID u = uid" "site_admin u" unfolding sole_admin_def by blast
  with find_user_by_id [OF ok u(1)] spare obtain v where "v \<in> set (users d)" "uID v \<noteq> uid" "site_admin v"
    unfolding spare_admin_def by auto
  with sole show False unfolding sole_admin_def by blast
qed

text \<open>
  C21: Deleting an account removes it completely. A deletion that succeeds was of another account than the
  administrator's own, at the revision the form showed; afterwards the other accounts are as before, no table
  refers to the deleted one any more (sessions, identities, links, codes, memberships, history), an administrator
  remains, and the constraints of the schema hold.
\<close>

theorem admin_Delete_removes:
  assumes run: "admin_Delete s actor uid ver w = (Inr (), w')" and inv: "admin_inv L (tables w)"
    and rev: "\<And>f u. aaSessions s = Some f \<Longrightarrow> evolves (on_tables quiet) (f u)" and aud: "quiet_auditor (aaAuditor s)"
  shows "acActorID actor \<noteq> uid \<and> (\<exists>u \<in> set (users (tables w)). uID u = uid \<and> uVersion u = ver)
    \<and> users (tables w') = delete_where (\<lambda>u. uID u = uid) (users (tables w))
    \<and> \<not> mentioned uid (tables w') \<and> admin_inv L (tables w')"
proof -
  from run obtain u w1 w2 w3 where f: "FindUserByID uid w = (Inr u, w1)"
    and r: "(case aaSessions s of None \<Rightarrow> ret () | Some revoke \<Rightarrow> revoke uid) w1 = (Inr (), w2)"
    and d: "DeleteUser uid ver w2 = (Inr (), w3)"
    and a: "admin_record (aaAuditor s) actor ''admin.account.deleted'' (uID u) (adminAccountDetail u) w3 = (Inr (), w')"
    and other: "acActorID actor \<noteq> uid"
    by (auto simp: admin_Delete_def split: if_splits)
  have "quiet (tables w1) (tables w2)"
    using r rev by (cases "aaSessions s") (auto dest: quiet_frames intro: preord_refl [OF preord_quiet])
  then have t: "users (tables w2) = users (tables w)"
    using FindUserByID_Inr [OF f] by (simp add: quiet_def)
  have q: "quiet (tables w3) (tables w')"
    by (rule quiet_frames [OF evolves_admin_record [OF covers_quiet_quiet aud] a])
  have users: "users (tables w') = delete_where (\<lambda>u. uID u = uid) (users (tables w))"
    using q by (simp add: quiet_def DeleteUser_Inr(1) [OF d] delete_user_cascade_def t)
  have "evolves (on_tables (keeps (admin_inv L))) (admin_Delete s actor uid ver)"
    using rev covers_quiet_mono [OF covers_quiet_admin]
    by (intro evolves_admin_Delete evolves_DeleteUser_admin covers_quiet_admin aud) blast
  with run inv have inv': "admin_inv L (tables w')" by (auto dest!: evolvesD simp: on_tables_def keeps_def)
  then have "db_ok L (tables w')" by (simp add: admin_inv_def)
  moreover have "uid \<notin> user_ids (tables w')" by (auto simp: users)
  ultimately have "\<not> mentioned uid (tables w')" using db_ok_mentioned by blast
  with other users inv' DeleteUser_Inr(3) [OF d] show ?thesis by (simp add: t)
qed

lemma UpdateUser_spare:
  assumes upd: "UpdateUser L user ver w = (Inr x, w')" and drop: "\<not> uIsAdmin user \<or> uIsGuest user"
  shows "spare_admin (uID user) (tables w)"
proof -
  from upd obtain r w1 where t: "transaction mapUserError (update_user_body L user ver) w = (Inr r, w1)"
    and c: "(case r of Some u \<Rightarrow> ret u | None \<Rightarrow> classifyMissingUserWrite (uID user)) w1 = (Inr x, w')"
    by (auto simp: UpdateUser_def)
  have "r = Some x"
  proof (cases r)
    case None
    with c show ?thesis by (simp add: classifyMissingUserWrite_refuses)
  qed (use c in simp)
  with t obtain w2 where "update_user_body L user ver (w\<lparr>faults := tl (faults w)\<rparr>) = (Inr (Some x), w2)"
    by (auto elim!: transaction_Inr)
  from update_user_body_commit(2) [OF this drop] show ?thesis by simp
qed

lemma guard_Inr: "(if b then fail e else m) w = (Inr x, w') \<longleftrightarrow> \<not> b \<and> m w = (Inr x, w')"
  by (simp add: fail_def)

lemma admin_Update_stays:
  assumes run: "admin_Update L s actor uid i w = (Inr x, w')" and demote: "\<not> aiIsAdmin i"
    and hash: "\<And>p. evolves (on_tables quiet) (aaHash s p)" and ok: "users_ok L (tables w)"
  shows "\<not> sole_admin uid (tables w)"
proof -
  have "\<exists>v K. call (admin_password s (aiPassword i)) id (\<lambda>h. call (FindUserByID uid) missing_record (\<lambda>u.
      call (UpdateUser L (u\<lparr>uEmail := Some v, uIsAdmin := aiIsAdmin i,
        uPasswordHash := (case h of None \<Rightarrow> uPasswordHash u | Some h \<Rightarrow> Some h)\<rparr>) (aiVersion i)) missing_record (K h u)))
      w = (Inr x, w')"
    using run unfolding admin_Update_def
    by (simp only: guard_Inr check_Inr_iff) (elim conjE exE, intro exI, assumption)
  then obtain h u v y w1 w2 w3 where p: "admin_password s (aiPassword i) w = (Inr h, w1)"
    and f: "FindUserByID uid w1 = (Inr u, w2)"
    and upd: "UpdateUser L (u\<lparr>uEmail := Some v, uIsAdmin := aiIsAdmin i,
        uPasswordHash := (case h of None \<Rightarrow> uPasswordHash u | Some h \<Rightarrow> Some h)\<rparr>) (aiVersion i) w2 = (Inr y, w3)"
    by auto
  have "quiet (tables w) (tables w1)" by (rule quiet_frames [OF evolves_admin_reads(1) [OF covers_quiet_quiet hash] p])
  then have "users (tables w2) = users (tables w)" using FindUserByID_Inr [OF f] by (simp add: quiet_def)
  moreover have "uID u = uid" using FindUserByID_Inr [OF f] by (auto dest: find_Some_iff')
  ultimately have "spare_admin uid (tables w)"
    using UpdateUser_spare [OF upd] demote by (simp add: spare_admin_def)
  with sole_admin_not_spare [OF ok] show ?thesis by blast
qed

lemma admin_Delete_spare:
  assumes run: "admin_Delete s actor uid ver w = (Inr x, w')" and ok: "users_ok L (tables w)"
    and rev: "\<And>f u. aaSessions s = Some f \<Longrightarrow> evolves (on_tables quiet) (f u)"
  shows "\<not> sole_admin uid (tables w)"
proof -
  from run obtain u w1 w2 w3 where f: "FindUserByID uid w = (Inr u, w1)"
    and r: "(case aaSessions s of None \<Rightarrow> ret () | Some revoke \<Rightarrow> revoke uid) w1 = (Inr (), w2)"
    and d: "DeleteUser uid ver w2 = (Inr (), w3)"
    by (auto simp: admin_Delete_def split: if_splits)
  have "quiet (tables w1) (tables w2)"
    using r rev by (cases "aaSessions s") (auto dest: quiet_frames intro: preord_refl [OF preord_quiet])
  then have "users (tables w2) = users (tables w)" using FindUserByID_Inr [OF f] by (simp add: quiet_def)
  with DeleteUser_Inr(2) [OF d] have "spare_admin uid (tables w)" by (simp add: spare_admin_def)
  with sole_admin_not_spare [OF ok] show ?thesis by blast
qed

text \<open>
  C22: Administrators cannot lock themselves out. An administrator who edits or deletes through these handlers can
  neither give up their own rights nor delete themselves, and the attempt changes nothing; nobody, themselves or
  not, can take the rights of the only administrator or delete that account; and whatever the handlers answer, the
  constraints hold and an administrator remains.
\<close>

theorem administrators_protected:
  assumes inv: "admin_inv L (tables w)" and hash: "\<And>p. evolves (on_tables quiet) (aaHash s p)"
    and rev: "\<And>f u. aaSessions s = Some f \<Longrightarrow> evolves (on_tables quiet) (f u)" and aud: "quiet_auditor (aaAuditor s)"
  shows "(acActorID actor = uid \<longrightarrow> (\<exists>e. admin_Delete s actor uid ver w = (Inl e, w)))
    \<and> (acActorID actor = uid \<and> \<not> aiIsAdmin i \<longrightarrow> (\<exists>e. admin_Update L s actor uid i w = (Inl e, w)))
    \<and> (sole_admin uid (tables w) \<longrightarrow> isl (fst (admin_Delete s actor uid ver w)))
    \<and> (sole_admin uid (tables w) \<and> \<not> aiIsAdmin i \<longrightarrow> isl (fst (admin_Update L s actor uid i w)))
    \<and> admin_inv L (tables (snd (admin_Delete s actor uid ver w)))
    \<and> admin_inv L (tables (snd (admin_Update L s actor uid i w)))"
proof (intro conjI impI)
  have ok: "users_ok L (tables w)" using inv by (simp add: admin_inv_def db_ok_def)
  note up = covers_quiet_mono [OF covers_quiet_admin] and kept = kept_after [where I = "admin_inv L" and w = w, OF _ inv]
  show "admin_inv L (tables (snd (admin_Delete s actor uid ver w)))"
    by (intro kept evolves_admin_Delete evolves_DeleteUser_admin covers_quiet_admin aud up [OF rev])
  show "admin_inv L (tables (snd (admin_Update L s actor uid i w)))"
    by (intro kept evolves_admin_accounts(3) evolves_CreateUser_admin evolves_UpdateUser_admin
        covers_quiet_admin aud up [OF rev] up [OF hash])
  show "isl (fst (admin_Delete s actor uid ver w))" if "sole_admin uid (tables w)"
  proof (rule ccontr)
    assume "\<not> isl (fst (admin_Delete s actor uid ver w))"
    then obtain x w' where "admin_Delete s actor uid ver w = (Inr x, w')" using not_isl_run by blast
    then have "\<not> sole_admin uid (tables w)" by (rule admin_Delete_spare [OF _ ok]) (rule rev)
    with that show False by blast
  qed
  show "isl (fst (admin_Update L s actor uid i w))" if "sole_admin uid (tables w) \<and> \<not> aiIsAdmin i"
  proof (rule ccontr)
    assume "\<not> isl (fst (admin_Update L s actor uid i w))"
    then obtain x w' where "admin_Update L s actor uid i w = (Inr x, w')" using not_isl_run by blast
    then have "\<not> sole_admin uid (tables w)" by (rule admin_Update_stays [OF _ _ hash ok]) (simp add: that)
    with that show False by blast
  qed
qed (simp_all add: admin_Delete_def admin_Update_def fail_def)

section \<open>Worked examples\<close>

definition demo_admins :: admin_service where
  "demo_admins = \<lparr>aaHash = (\<lambda>p. ret ''h9''), aaAuditor = Some Record,
     aaSessions = Some (RevokeUser \<lparr>ssLifetime = 3600000000000, ssSSO = None\<rparr>)\<rparr>"

lemma demo_admins_quiet:
  "aaSessions demo_admins = Some f \<Longrightarrow> evolves (on_tables quiet) (f u)"
  "evolves (on_tables quiet) (aaHash demo_admins p)" "quiet_auditor (aaAuditor demo_admins)"
proof -
  show "evolves (on_tables quiet) (f u)" if "aaSessions demo_admins = Some f"
    using that unfolding demo_admins_def by (auto intro!: evolves_RevokeUser covers_quiet_quiet)
qed (simp_all add: demo_admins_def evolves_ret preord_on_tables preord_quiet)

lemma demo_admin_inv: "admin_inv ascii_lib (tables demo_world)"
  using demo_db_ok by (simp add: admin_inv_def has_site_admin_def demo_defs)

theorem admin_Delete_removes_witness:
  "\<exists>w'. admin_Delete demo_admins \<lparr>acActorID = 1, acOrigin = []\<rparr> 2 0 demo_world = (Inr (), w') \<and> \<not> mentioned 2 (tables w')"
proof -
  let ?run = "admin_Delete demo_admins \<lparr>acActorID = 1, acOrigin = []\<rparr> 2 0 demo_world"
  have "\<not> isl (fst ?run)" by code_simp
  then obtain w' where r: "?run = (Inr (), w')" using not_isl_run [of ?run] by auto
  have "\<not> mentioned 2 (tables w')"
    by (rule admin_Delete_removes [THEN conjunct2, THEN conjunct2, THEN conjunct2, THEN conjunct1, OF r demo_admin_inv])
       (erule demo_admins_quiet(1) | rule demo_admins_quiet)+
  with r show ?thesis by blast
qed

theorem administrators_protected_witness:
  "isl (fst (admin_Delete demo_admins \<lparr>acActorID = 2, acOrigin = []\<rparr> 1 0 demo_world))"
proof -
  have "sole_admin 1 (tables demo_world)" by (simp add: sole_admin_def demo_defs)
  moreover have "sole_admin 1 (tables demo_world) \<longrightarrow> isl (fst (admin_Delete demo_admins \<lparr>acActorID = 2, acOrigin = []\<rparr> 1 0 demo_world))"
    by (rule administrators_protected [THEN conjunct2, THEN conjunct2, THEN conjunct1, OF demo_admin_inv])
       (erule demo_admins_quiet(1) | rule demo_admins_quiet)+
  ultimately show ?thesis by blast
qed

end
