(* ===== verification/SSOProvider.thy ===== *)
theory SSOProvider
  imports OAuthService Recovery
begin

text \<open>
  The identity deployment behind single sign-on: the answers to Hydra's login, consent and logout challenges and the
  revocation of an account's sessions in every client app (\<^verbatim>\<open>internal/service/sso_provider.go\<close>), with the table of
  the login session identifiers seen per account (\<^verbatim>\<open>internal/store/postgres/sso.go\<close>). The Hydra admin API is a
  parameter, one operation per method of the port.
\<close>

section \<open>Recorded login sessions\<close>

text \<open>
  \<^verbatim>\<open>000012_create_sso_login_sessions.up.sql\<close>. A repeated identifier updates the expiry of its row when it belongs to
  the same account and is left alone, without an error, when it belongs to another.
\<close>

definition upsert_sso_login :: "sso_login_row \<Rightarrow> unit stmt" where
  "upsert_sso_login row d =
     (if \<not> varchar 128 (ssSid row) then (Inl (PgError StringTruncation OtherConstraint), d)
      else if ssSid row = [] \<or> ssExpiresAt row \<le> ssCreatedAt row then (Inl (PgError CheckViolation OtherConstraint), d)
      else if ssSid row \<in> ssSid ` set (sso_logins d) then
        (Inr (), d\<lparr>sso_logins := update_where (\<lambda>s. ssSid s = ssSid row \<and> ssUserID s = ssUserID row)
           (\<lambda>s. s\<lparr>ssExpiresAt := max (ssExpiresAt s) (ssExpiresAt row)\<rparr>) (sso_logins d)\<rparr>)
      else if ssUserID row \<notin> user_ids d then (Inl (PgError ForeignKeyViolation OtherConstraint), d)
      else (Inr (), d\<lparr>sso_logins := sso_logins d @ [row]\<rparr>))"

definition RecordSSOLoginSession :: "sso_login_row \<Rightarrow> unit prog" where
  "RecordSSOLoginSession session =
     (if TrimSpace (ssSid session) = [] \<or> ssUserID session \<le> 0 \<or> ssExpiresAt session \<le> ssCreatedAt session
      then fail (Repo ErrInvalidData)
      else call (query (upsert_sso_login session)) wrapOperation ret)"

text \<open>\<open>before\<close> is the text collation of the database.\<close>

definition select_sso_logins :: "(string \<Rightarrow> string \<Rightarrow> bool) \<Rightarrow> int \<Rightarrow> string list stmt" where
  "select_sso_logins before userID d =
     (Inr (map ssSid (order_by (\<lambda>a b. ssCreatedAt a < ssCreatedAt b \<or> ssCreatedAt a = ssCreatedAt b \<and> before (ssSid a) (ssSid b))
        (filter (\<lambda>s. ssUserID s = userID) (sso_logins d)))), d)"

definition ListSSOLoginSessions :: "(string \<Rightarrow> string \<Rightarrow> bool) \<Rightarrow> int \<Rightarrow> string list prog" where
  "ListSSOLoginSessions before userID =
     (if userID \<le> 0 then fail (Ses ErrInvalidSessionUserID)
      else call (query (select_sso_logins before userID)) wrapOperation ret)"

definition delete_sso_login :: "string \<Rightarrow> unit stmt" where
  "delete_sso_login sid d = (Inr (), d\<lparr>sso_logins := delete_where (\<lambda>s. ssSid s = sid) (sso_logins d)\<rparr>)"

definition DeleteSSOLoginSession :: "string \<Rightarrow> unit prog" where
  "DeleteSSOLoginSession sid = call (query (delete_sso_login sid)) wrapOperation ret"

section \<open>The Hydra admin API\<close>

definition maxSSOChallenge :: nat where "maxSSOChallenge = 4096"
definition maxSSOClientNameRunes :: nat where "maxSSOClientNameRunes = 64"

record sso_login_request =
  lrSkip :: bool
  lrSubject :: string
  lrSessionID :: string
  lrClientName :: string

record sso_consent_request =
  cqSubject :: string
  cqLoginSessionID :: string
  cqRequestedScope :: "string list"
  cqRequestedAudience :: "string list"

record sso_logout_request =
  loSubject :: string
  loSessionID :: string

datatype claim_value = ClaimText string | ClaimBool bool

record sso_consent_grant =
  cgScope :: "string list"
  cgAudience :: "string list"
  cgIDTokenClaims :: "string \<rightharpoonup> claim_value"
  cgRememberFor :: int

record sso_admin =
  hyLoginRequest :: "string \<Rightarrow> sso_login_request prog"
  hyAcceptLogin :: "string \<Rightarrow> string \<Rightarrow> int \<Rightarrow> string prog"
  hyRejectLogin :: "string \<Rightarrow> string prog"
  hyConsentRequest :: "string \<Rightarrow> sso_consent_request prog"
  hyAcceptConsent :: "string \<Rightarrow> sso_consent_grant \<Rightarrow> string prog"
  hyRejectConsent :: "string \<Rightarrow> string prog"
  hyLogoutRequest :: "string \<Rightarrow> sso_logout_request prog"
  hyAcceptLogout :: "string \<Rightarrow> string prog"
  hyRevokeLoginSession :: "string \<Rightarrow> unit prog"
  hyRevokeConsentSessions :: "string \<Rightarrow> unit prog"

record sso_provider =
  spAdmin :: sso_admin
  spRememberFor :: int
  spConfirmationRequired :: bool
  spBefore :: "string \<Rightarrow> string \<Rightarrow> bool"   \<comment> \<open>the collation of the recorded identifiers\<close>

definition NewSSOProviderService ::
    "sso_admin \<Rightarrow> int \<Rightarrow> bool \<Rightarrow> (string \<Rightarrow> string \<Rightarrow> bool) \<Rightarrow> error + sso_provider" where
  "NewSSOProviderService admin rememberFor required before =
     (if rememberFor < time_Second then Inl (Ses ErrInvalidSessionLifetime)
      else Inr \<lparr>spAdmin = admin, spRememberFor = rememberFor, spConfirmationRequired = required, spBefore = before\<rparr>)"

section \<open>Subjects, claims, challenges\<close>

definition ssoSubject :: "int \<Rightarrow> string" where
  "ssoSubject userID = FormatInt userID"

definition parseSSOSubject :: "string \<Rightarrow> error + int" where
  "parseSSOSubject subject =
     (case ParseInt64 subject of
        None \<Rightarrow> Inl (Ses ErrInvalidSessionUserID)
      | Some userID \<Rightarrow>
          if userID \<le> 0 \<or> ssoSubject userID \<noteq> subject then Inl (Ses ErrInvalidSessionUserID) else Inr userID)"

definition validateSSOChallenge :: "string \<Rightarrow> error + unit" where
  "validateSSOChallenge challenge =
     (if TrimSpace challenge = [] \<or> maxSSOChallenge < length challenge then Inl (OAuth ErrInvalidSSOChallenge)
      else Inr ())"

definition ssoDisplayName :: "user \<Rightarrow> string" where
  "ssoDisplayName user =
     (case uDisplayName user of
        Some n \<Rightarrow> if TrimSpace n \<noteq> [] then TrimSpace n
                 else (case uUsername user of Some u \<Rightarrow> TrimSpace u | None \<Rightarrow> [])
      | None \<Rightarrow> (case uUsername user of Some u \<Rightarrow> TrimSpace u | None \<Rightarrow> []))"

definition ssoIDTokenClaims :: "user \<Rightarrow> string list \<Rightarrow> string \<rightharpoonup> claim_value" where
  "ssoIDTokenClaims user scopes =
     (let claims = (case uEmail user of
            Some e \<Rightarrow> if ''email'' \<in> set scopes
              then Map.empty(''email'' \<mapsto> ClaimText e, ''email_verified'' \<mapsto> ClaimBool (uEmailVerifiedAt user \<noteq> None))
              else Map.empty
          | None \<Rightarrow> Map.empty);
        named = (if ''profile'' \<in> set scopes \<and> ssoDisplayName user \<noteq> []
            then claims(''name'' \<mapsto> ClaimText (ssoDisplayName user)) else claims)
      in if ''profile'' \<in> set scopes \<and> uLocale user \<noteq> []
         then named(''locale'' \<mapsto> ClaimText (uLocale user)) else named)"

text \<open>\<^verbatim>\<open>unicode.IsControl\<close>: the two control blocks of Latin-1.\<close>

definition IsControl :: "nat \<Rightarrow> bool" where
  "IsControl r \<longleftrightarrow> r < 32 \<or> 127 \<le> r \<and> r < 160"

section \<open>Challenges\<close>

definition eligibleUser :: "sso_provider \<Rightarrow> int \<Rightarrow> user option prog" where
  "eligibleUser s userID =
     (if userID \<le> 0 then ret None
      else
        attempt (FindUserByID userID) (\<lambda>r. case r of
          Inl _ \<Rightarrow> ret None
        | Inr user \<Rightarrow>
            if uID user \<noteq> userID \<or> uIsGuest user then ret None
            else if spConfirmationRequired s \<and> uEmailVerifiedAt user = None then ret None
            else ret (Some user)))"

definition eligible :: "sso_provider \<Rightarrow> int \<Rightarrow> bool prog" where
  "eligible s userID = call (eligibleUser s userID) id (\<lambda>u. ret (u \<noteq> None))"

definition BeginLogin :: "sso_provider \<Rightarrow> string \<Rightarrow> int \<Rightarrow> string prog" where
  "BeginLogin s challenge currentUserID =
     check (validateSSOChallenge challenge) id (\<lambda>_.
     call (hyLoginRequest (spAdmin s) challenge) id (\<lambda>request.
     if lrSkip request then
       (case parseSSOSubject (lrSubject request) of
          Inl _ \<Rightarrow> hyRejectLogin (spAdmin s) challenge
        | Inr userID \<Rightarrow>
            call (eligible s userID) id (\<lambda>ok.
            if ok then hyAcceptLogin (spAdmin s) challenge (lrSubject request) (spRememberFor s)
            else hyRejectLogin (spAdmin s) challenge))
     else if currentUserID \<le> 0 then ret []
     else
       call (eligible s currentUserID) id (\<lambda>ok.
       if ok then hyAcceptLogin (spAdmin s) challenge (ssoSubject currentUserID) (spRememberFor s) else ret [])))"

definition LoginClientName :: "sso_provider \<Rightarrow> string \<Rightarrow> string prog" where
  "LoginClientName s challenge =
     (if validateSSOChallenge challenge \<noteq> Inr () then ret []
      else
        attempt (hyLoginRequest (spAdmin s) challenge) (\<lambda>r. case r of
          Inl _ \<Rightarrow> ret []
        | Inr request \<Rightarrow>
            let name = TrimSpace (lrClientName request) in
            if name = [] \<or> maxSSOClientNameRunes < RuneCountInString name then ret []
            else if \<exists>r \<in> set (runes name). IsControl r then ret []
            else ret name))"

definition CompleteLogin :: "sso_provider \<Rightarrow> string \<Rightarrow> int \<Rightarrow> string prog" where
  "CompleteLogin s challenge userID =
     check (validateSSOChallenge challenge) id (\<lambda>_.
     call (eligible s userID) id (\<lambda>ok.
     if \<not> ok then hyRejectLogin (spAdmin s) challenge
     else hyAcceptLogin (spAdmin s) challenge (ssoSubject userID) (spRememberFor s)))"

definition consent_grant :: "sso_provider \<Rightarrow> sso_consent_request \<Rightarrow> user \<Rightarrow> sso_consent_grant" where
  "consent_grant s request user = \<lparr>cgScope = cqRequestedScope request, cgAudience = cqRequestedAudience request,
     cgIDTokenClaims = ssoIDTokenClaims user (cqRequestedScope request), cgRememberFor = spRememberFor s\<rparr>"

definition Consent :: "sso_provider \<Rightarrow> string \<Rightarrow> string prog" where
  "Consent s challenge =
     check (validateSSOChallenge challenge) id (\<lambda>_.
     call (hyConsentRequest (spAdmin s) challenge) id (\<lambda>request.
     case parseSSOSubject (cqSubject request) of
       Inl _ \<Rightarrow> hyRejectConsent (spAdmin s) challenge
     | Inr userID \<Rightarrow>
         call (eligibleUser s userID) id (\<lambda>found. case found of
           None \<Rightarrow> hyRejectConsent (spAdmin s) challenge
         | Some user \<Rightarrow>
             reading unix_now (\<lambda>now.
             call (if cqLoginSessionID request \<noteq> [] then
                 RecordSSOLoginSession \<lparr>ssSid = cqLoginSessionID request, ssUserID = userID, ssCreatedAt = now,
                   ssExpiresAt = wrap64 (now + spRememberFor s div time_Second)\<rparr>
               else ret ()) Wrap (\<lambda>_.
             hyAcceptConsent (spAdmin s) challenge (consent_grant s request user))))))"

definition sso_Logout :: "sso_provider \<Rightarrow> string \<Rightarrow> string prog" where
  "sso_Logout s challenge =
     check (validateSSOChallenge challenge) id (\<lambda>_.
     call (hyLogoutRequest (spAdmin s) challenge) id (\<lambda>request.
     call (if loSessionID request \<noteq> [] then attempt (DeleteSSOLoginSession (loSessionID request)) (\<lambda>_. ret ())
           else ret ()) id (\<lambda>_.
     hyAcceptLogout (spAdmin s) challenge)))"

section \<open>Revocation\<close>

text \<open>The loop over the recorded sessions; a record whose revocation fails stays for a retry.\<close>

fun revoke_each :: "sso_provider \<Rightarrow> string list \<Rightarrow> error list \<Rightarrow> error list prog" where
  "revoke_each s [] failures = ret failures"
| "revoke_each s (sid # sids) failures =
     attempt (hyRevokeLoginSession (spAdmin s) sid) (\<lambda>r. case r of
       Inl err \<Rightarrow> revoke_each s sids (failures @ [err])
     | Inr _ \<Rightarrow>
         attempt (DeleteSSOLoginSession sid) (\<lambda>r. case r of
           Inl err \<Rightarrow> revoke_each s sids (failures @ [err])
         | Inr _ \<Rightarrow> revoke_each s sids failures))"

definition sso_RevokeUser :: "sso_provider \<Rightarrow> int \<Rightarrow> unit prog" where
  "sso_RevokeUser s userID =
     (if userID \<le> 0 then fail (Ses ErrInvalidSessionUserID)
      else
        call (ListSSOLoginSessions (spBefore s) userID) Wrap (\<lambda>sids.
        call (revoke_each s sids []) id (\<lambda>failures.
        attempt (hyRevokeConsentSessions (spAdmin s) (ssoSubject userID)) (\<lambda>r.
        let all = failures @ (case r of Inl err \<Rightarrow> [err] | Inr _ \<Rightarrow> []) in
        if all = [] then ret () else fail (Join all)))))"

section \<open>Composition\<close>

text \<open>Hydra is another system: its answers do not touch the tables.\<close>

definition hydra_external :: "sso_admin \<Rightarrow> bool" where
  "hydra_external h \<longleftrightarrow> (\<forall>c. evolves (on_tables (=)) (hyLoginRequest h c))
     \<and> (\<forall>c. evolves (on_tables (=)) (hyConsentRequest h c)) \<and> (\<forall>c. evolves (on_tables (=)) (hyLogoutRequest h c))
     \<and> (\<forall>c t n. evolves (on_tables (=)) (hyAcceptLogin h c t n)) \<and> (\<forall>c. evolves (on_tables (=)) (hyRejectLogin h c))
     \<and> (\<forall>c g. evolves (on_tables (=)) (hyAcceptConsent h c g)) \<and> (\<forall>c. evolves (on_tables (=)) (hyRejectConsent h c))
     \<and> (\<forall>c. evolves (on_tables (=)) (hyAcceptLogout h c)) \<and> (\<forall>t. evolves (on_tables (=)) (hyRevokeLoginSession h t))
     \<and> (\<forall>t. evolves (on_tables (=)) (hyRevokeConsentSessions h t))"

lemma hydra_evolves:
  assumes "preord R" "hydra_external h"
  shows "evolves (on_tables R) (hyLoginRequest h c)" "evolves (on_tables R) (hyConsentRequest h c)"
    "evolves (on_tables R) (hyLogoutRequest h c)" "evolves (on_tables R) (hyAcceptLogin h c t n)"
    "evolves (on_tables R) (hyRejectLogin h c)" "evolves (on_tables R) (hyAcceptConsent h c g)"
    "evolves (on_tables R) (hyRejectConsent h c)" "evolves (on_tables R) (hyAcceptLogout h c)"
    "evolves (on_tables R) (hyRevokeLoginSession h t)" "evolves (on_tables R) (hyRevokeConsentSessions h t)"
  using assms(2) by (auto simp: hydra_external_def intro!: evolves_eq_mono [OF assms(1)])

lemma evolves_eligible [evolves_intro]:
  "preord R \<Longrightarrow> evolves (on_tables R) (eligibleUser s uid)" "preord R \<Longrightarrow> evolves (on_tables R) (eligible s uid)"
  unfolding eligible_def eligibleUser_def by (intro evolves_intro preord_intro; assumption)+

lemma upsert_sso_quiet:
  assumes u: "upsert_sso_login row d = (Inr x, d')"
  shows "quiet d d'"
proof -
  have "history_ok d'" if "history_ok d"
    using that u by (auto simp: upsert_sso_login_def history_ok_def unique_on_append unique_on_update_same set_update_where
        image_iff split: if_splits; metis)
  moreover obtain ls where "d' = d\<lparr>sso_logins := ls\<rparr>" using u by (auto simp: upsert_sso_login_def split: if_splits)
  ultimately show ?thesis by (auto simp: quiet_def db_ok_def)
qed

lemma delete_sso_quiet: "delete_sso_login sid d = (Inr x, d') \<Longrightarrow> quiet d d'"
  by (auto simp: delete_sso_login_def quiet_def db_ok_def history_ok_def)

lemma evolves_sso_store [evolves_intro]:
  "covers_quiet R \<Longrightarrow> evolves (on_tables R) (RecordSSOLoginSession row)"
  "covers_quiet R \<Longrightarrow> evolves (on_tables R) (DeleteSSOLoginSession sid)"
  "preord R \<Longrightarrow> evolves (on_tables R) (ListSSOLoginSessions before uid)"
proof -
  show "evolves (on_tables R) (RecordSSOLoginSession row)" if "covers_quiet R"
    using that by (rule covers_quiet_mono, unfold RecordSSOLoginSession_def)
      (intro evolves_intro preord_intro evolves_query; erule upsert_sso_quiet)
  show "evolves (on_tables R) (DeleteSSOLoginSession sid)" if "covers_quiet R"
    using that by (rule covers_quiet_mono, unfold DeleteSSOLoginSession_def)
      (intro evolves_intro preord_intro evolves_query; erule delete_sso_quiet)
  show "evolves (on_tables R) (ListSSOLoginSessions before uid)" if "preord R"
    unfolding ListSSOLoginSessions_def select_sso_logins_def using that by (intro evolves_intro preord_intro)
qed

lemma evolves_revoke_each:
  assumes c: "covers_quiet R" and ext: "hydra_external (spAdmin s)"
  shows "evolves (on_tables R) (revoke_each s sids fs)"
  by (induction sids arbitrary: fs; unfold revoke_each.simps)
    (intro evolves_intro preord_intro covers_quiet_preord [OF c] c hydra_evolves ext; assumption)+

lemma evolves_sso_provider:
  assumes c: "covers_quiet R" and ext: "hydra_external (spAdmin s)"
  shows "evolves (on_tables R) (BeginLogin s ch uid)" "evolves (on_tables R) (CompleteLogin s ch uid)"
    "evolves (on_tables R) (Consent s ch)" "evolves (on_tables R) (sso_Logout s ch)"
    "evolves (on_tables R) (sso_RevokeUser s uid)"
  unfolding BeginLogin_def CompleteLogin_def Consent_def sso_Logout_def sso_RevokeUser_def
  by (intro evolves_intro preord_intro covers_quiet_preord [OF c] c hydra_evolves ext evolves_revoke_each)+

section \<open>Who may sign in to client apps\<close>

definition may_use_sso :: "sso_provider \<Rightarrow> user \<Rightarrow> db \<Rightarrow> bool" where
  "may_use_sso s u d \<longleftrightarrow> u \<in> set (users d) \<and> 0 < uID u \<and> \<not> uIsGuest u
     \<and> (spConfirmationRequired s \<longrightarrow> uEmailVerifiedAt u \<noteq> None)"

lemma eligibleUser_Inr:
  assumes "eligibleUser s uid w = (Inr r, w')"
  shows "tables w' = tables w \<and> (\<forall>u. r = Some u \<longrightarrow> may_use_sso s u (tables w) \<and> uID u = uid)"
proof (cases "uid \<le> 0")
  case False
  obtain q v where f: "FindUserByID uid w = (q, v)" by (cases "FindUserByID uid w")
  have t: "tables v = tables w" using evolves_FindUserByID [OF preord_eq] f by (rule evolves_eqD)
  show ?thesis
  proof (cases q)
    case (Inl e)
    with False f assms t show ?thesis by (auto simp: eligibleUser_def attempt_def)
  next
    case (Inr u)
    with f have "find (\<lambda>v. uID v = uid) (users (tables w)) = Some u" using FindUserByID_Inr by blast
    then have "u \<in> set (users (tables w))" "uID u = uid" by (auto dest: find_Some_iff')
    with Inr False f assms t show ?thesis
      by (auto simp: eligibleUser_def attempt_def may_use_sso_def split: if_splits)
  qed
qed (use assms in \<open>simp add: eligibleUser_def\<close>)

lemma eligible_Inr:
  assumes "eligible s uid w = (Inr ok, w')"
  shows "tables w' = tables w \<and> (ok \<longrightarrow> (\<exists>u. may_use_sso s u (tables w) \<and> uID u = uid))"
proof -
  from assms obtain r where "eligibleUser s uid w = (Inr r, w')" and "ok = (r \<noteq> None)" by (auto simp: eligible_def)
  from eligibleUser_Inr [OF this(1)] this(2) show ?thesis by auto
qed

lemma parseSSOSubject_Inr: "parseSSOSubject t = Inr uid \<longleftrightarrow> 0 < uid \<and> ParseInt64 t = Some uid \<and> ssoSubject uid = t"
  by (auto simp: parseSSOSubject_def split: option.splits)

text \<open>The subject of an account reads back as that account.\<close>

lemma parse_ssoSubject:
  assumes "0 < uid" "uid < 2 ^ 63"
  shows "parseSSOSubject (ssoSubject uid) = Inr uid"
proof -
  let ?t = "format_nat (nat uid)"
  obtain c r where t: "?t = c # r" using format_nat_digits [of "nat uid"] by (cases ?t) auto
  then have "c \<in> set ''0123456789''" using digits_of_format [of c "nat uid"] by simp
  then have c: "c \<noteq> CHR ''-''" "c \<noteq> CHR ''+''" by auto
  have "nat uid < 2 ^ 63" using assms by (simp add: nat_less_iff)
  then have "ParseUint 64 ?t = Some (nat uid)" by (intro ParseUint_format) simp
  with t c have "ParseInt64 ?t = Some uid"
    using assms \<open>nat uid < 2 ^ 63\<close> by (simp add: ParseInt64_def)
  with assms(1) show ?thesis by (simp add: parseSSOSubject_def ssoSubject_def FormatInt_def)
qed

lemma RecordSSO_Inr:
  assumes "RecordSSOLoginSession row w = (Inr x, w')"
  shows "ssSid row \<in> ssSid ` set (sso_logins (tables w')) \<and> users (tables w') = users (tables w)"
proof -
  from assms have u: "upsert_sso_login row (tables w) = (Inr (), tables w')"
    by (auto simp: RecordSSOLoginSession_def split: if_splits dest!: query_Inr)
  show ?thesis
  proof (cases "ssSid row \<in> ssSid ` set (sso_logins (tables w))")
    case True
    with u have t: "tables w' = (tables w)\<lparr>sso_logins := update_where (\<lambda>s. ssSid s = ssSid row \<and> ssUserID s = ssUserID row)
        (\<lambda>s. s\<lparr>ssExpiresAt := max (ssExpiresAt s) (ssExpiresAt row)\<rparr>) (sso_logins (tables w))\<rparr>"
      unfolding upsert_sso_login_def by (simp split: if_splits)
    then have "map ssSid (sso_logins (tables w')) = map ssSid (sso_logins (tables w))"
      by (simp add: map_update_where)
    with True t show ?thesis by (simp flip: set_map)
  next
    case False
    with u have "tables w' = (tables w)\<lparr>sso_logins := sso_logins (tables w) @ [row]\<rparr>"
      unfolding upsert_sso_login_def by (simp split: if_splits)
    then show ?thesis by simp
  qed
qed

text \<open>
  An identifier already recorded for another account is accepted and stays with that account, so the caller goes on
  although nothing of its own was recorded.
\<close>

lemma RecordSSO_foreign:
  assumes "faults w = []" "r \<in> set (sso_logins (tables w))" "ssSid r = ssSid row" "ssUserID r \<noteq> ssUserID row"
    and "unique_on (\<lambda>s. Some (ssSid s)) (sso_logins (tables w))"
    and "TrimSpace (ssSid row) \<noteq> []" "ssSid row \<noteq> []" "varchar 128 (ssSid row)" "0 < ssUserID row" "ssCreatedAt row < ssExpiresAt row"
  shows "RecordSSOLoginSession row w = (Inr (), w)"
proof -
  have "ssUserID s \<noteq> ssUserID row" if "s \<in> set (sso_logins (tables w))" "ssSid s = ssSid row" for s
    using unique_onD [OF assms(5) that(1) assms(2), of "ssSid row"] that assms(3,4) by auto
  then have "update_where (\<lambda>s. ssSid s = ssSid row \<and> ssUserID s = ssUserID row)
      (\<lambda>s. s\<lparr>ssExpiresAt := max (ssExpiresAt s) (ssExpiresAt row)\<rparr>) (sso_logins (tables w)) = sso_logins (tables w)"
    by (intro update_where_id) auto
  moreover have "ssSid row \<in> ssSid ` set (sso_logins (tables w))" using assms(2,3) by (metis image_eqI)
  ultimately have "upsert_sso_login row (tables w) = (Inr (), tables w)"
    using assms(7,8,10) by (simp add: upsert_sso_login_def)
  then show ?thesis using assms(1,6,9,10) by (simp add: RecordSSOLoginSession_def call_def ret_def)
qed

section \<open>Properties\<close>

lemma CompleteLogin_Inr:
  assumes run: "CompleteLogin s ch uid w = (Inr url, w')"
  shows "\<exists>v. hyRejectLogin (spAdmin s) ch v = (Inr url, w')
        \<or> (\<exists>u. may_use_sso s u (tables w) \<and> uID u = uid
            \<and> hyAcceptLogin (spAdmin s) ch (ssoSubject uid) (spRememberFor s) v = (Inr url, w'))"
proof -
  from run obtain ok v where e: "eligible s uid w = (Inr ok, v)"
    and r: "(if \<not> ok then hyRejectLogin (spAdmin s) ch else hyAcceptLogin (spAdmin s) ch (ssoSubject uid) (spRememberFor s)) v
      = (Inr url, w')"
    by (auto simp: CompleteLogin_def)
  with eligible_Inr [OF e] show "\<exists>v. hyRejectLogin (spAdmin s) ch v = (Inr url, w')
        \<or> (\<exists>u. may_use_sso s u (tables w) \<and> uID u = uid
            \<and> hyAcceptLogin (spAdmin s) ch (ssoSubject uid) (spRememberFor s) v = (Inr url, w'))"
    by (intro exI [of _ v]) (auto split: if_splits)
qed

lemma BeginLogin_Inr:
  assumes ext: "hydra_external (spAdmin s)" and run: "BeginLogin s ch uid w = (Inr url, w')"
  shows "url = [] \<or> (\<exists>v. hyRejectLogin (spAdmin s) ch v = (Inr url, w')
        \<or> (\<exists>u. may_use_sso s u (tables w)
            \<and> hyAcceptLogin (spAdmin s) ch (ssoSubject (uID u)) (spRememberFor s) v = (Inr url, w')))"
proof -
  from run obtain req v where q: "hyLoginRequest (spAdmin s) ch w = (Inr req, v)"
    and r: "(if lrSkip req then (case parseSSOSubject (lrSubject req) of
          Inl _ \<Rightarrow> hyRejectLogin (spAdmin s) ch
        | Inr userID \<Rightarrow> call (eligible s userID) id (\<lambda>ok.
            if ok then hyAcceptLogin (spAdmin s) ch (lrSubject req) (spRememberFor s) else hyRejectLogin (spAdmin s) ch))
      else if uid \<le> 0 then ret []
      else call (eligible s uid) id (\<lambda>ok.
        if ok then hyAcceptLogin (spAdmin s) ch (ssoSubject uid) (spRememberFor s) else ret [])) v = (Inr url, w')"
    by (auto simp: BeginLogin_def)
  have t: "tables v = tables w" by (rule evolves_eqD [OF hydra_evolves(1) [OF preord_eq ext] q])
  show "url = [] \<or> (\<exists>v. hyRejectLogin (spAdmin s) ch v = (Inr url, w')
        \<or> (\<exists>u. may_use_sso s u (tables w)
            \<and> hyAcceptLogin (spAdmin s) ch (ssoSubject (uID u)) (spRememberFor s) v = (Inr url, w')))"
    using r t by (fastforce split: if_splits sum.splits dest: eligible_Inr simp: parseSSOSubject_Inr)
qed

lemma Consent_Inr:
  assumes ext: "hydra_external (spAdmin s)" and run: "Consent s ch w = (Inr url, w')"
  shows "\<exists>v. hyRejectConsent (spAdmin s) ch v = (Inr url, w')
        \<or> (\<exists>u req. may_use_sso s u (tables w) \<and> cqSubject req = ssoSubject (uID u)
            \<and> (cqLoginSessionID req \<noteq> [] \<longrightarrow> cqLoginSessionID req \<in> ssSid ` set (sso_logins (tables v)))
            \<and> hyAcceptConsent (spAdmin s) ch (consent_grant s req u) v = (Inr url, w'))"
proof -
  from run obtain req v where q: "hyConsentRequest (spAdmin s) ch w = (Inr req, v)"
    and r: "(case parseSSOSubject (cqSubject req) of
       Inl _ \<Rightarrow> hyRejectConsent (spAdmin s) ch
     | Inr userID \<Rightarrow>
         call (eligibleUser s userID) id (\<lambda>found. case found of
           None \<Rightarrow> hyRejectConsent (spAdmin s) ch
         | Some user \<Rightarrow>
             reading unix_now (\<lambda>now.
             call (if cqLoginSessionID req \<noteq> [] then
                 RecordSSOLoginSession \<lparr>ssSid = cqLoginSessionID req, ssUserID = userID, ssCreatedAt = now,
                   ssExpiresAt = wrap64 (now + spRememberFor s div time_Second)\<rparr>
               else ret ()) Wrap (\<lambda>_. hyAcceptConsent (spAdmin s) ch (consent_grant s req user))))) v = (Inr url, w')"
    by (auto simp: Consent_def)
  have t: "tables v = tables w" by (rule evolves_eqD [OF hydra_evolves(2) [OF preord_eq ext] q])
  show "\<exists>v. hyRejectConsent (spAdmin s) ch v = (Inr url, w')
        \<or> (\<exists>u req. may_use_sso s u (tables w) \<and> cqSubject req = ssoSubject (uID u)
            \<and> (cqLoginSessionID req \<noteq> [] \<longrightarrow> cqLoginSessionID req \<in> ssSid ` set (sso_logins (tables v)))
            \<and> hyAcceptConsent (spAdmin s) ch (consent_grant s req u) v = (Inr url, w'))"
  proof (cases "parseSSOSubject (cqSubject req)")
    case (Inl e)
    with r show ?thesis by auto
  next
    case (Inr userID)
    with r obtain found v1 where e: "eligibleUser s userID v = (Inr found, v1)"
      and k: "(case found of None \<Rightarrow> hyRejectConsent (spAdmin s) ch
         | Some user \<Rightarrow>
             reading unix_now (\<lambda>now.
             call (if cqLoginSessionID req \<noteq> [] then
                 RecordSSOLoginSession \<lparr>ssSid = cqLoginSessionID req, ssUserID = userID, ssCreatedAt = now,
                   ssExpiresAt = wrap64 (now + spRememberFor s div time_Second)\<rparr>
               else ret ()) Wrap (\<lambda>_. hyAcceptConsent (spAdmin s) ch (consent_grant s req user)))) v1 = (Inr url, w')"
      by auto
    show ?thesis
    proof (cases found)
      case None
      with k show ?thesis by auto
    next
      case (Some user)
      with k obtain v2 where rec: "(if cqLoginSessionID req \<noteq> [] then
                 RecordSSOLoginSession \<lparr>ssSid = cqLoginSessionID req, ssUserID = userID, ssCreatedAt = unix_now v1,
                   ssExpiresAt = wrap64 (unix_now v1 + spRememberFor s div time_Second)\<rparr>
               else ret ()) v1 = (Inr (), v2)"
        and acc: "hyAcceptConsent (spAdmin s) ch (consent_grant s req user) v2 = (Inr url, w')" by auto
      have "may_use_sso s user (tables w)" "cqSubject req = ssoSubject (uID user)"
        using eligibleUser_Inr [OF e] Some t Inr by (auto simp: parseSSOSubject_Inr)
      moreover have "cqLoginSessionID req \<noteq> [] \<Longrightarrow> cqLoginSessionID req \<in> ssSid ` set (sso_logins (tables v2))"
        using rec RecordSSO_Inr by fastforce
      ultimately show ?thesis using acc by blast
    qed
  qed
qed


text \<open>One pass over recorded sessions: only their records go, and all of them when nothing failed.\<close>

lemma revoke_each_Inr:
  assumes "revoke_each s sids fs w = (r, w')" and ext: "hydra_external (spAdmin s)"
  shows "\<exists>gs ls. r = Inr (fs @ gs) \<and> tables w' = (tables w)\<lparr>sso_logins := ls\<rparr> \<and> set ls \<subseteq> set (sso_logins (tables w))
    \<and> (\<forall>x \<in> set (sso_logins (tables w)). ssSid x \<notin> set sids \<longrightarrow> x \<in> set ls)
    \<and> (gs = [] \<longrightarrow> (\<forall>x \<in> set ls. ssSid x \<notin> set sids))"
  using assms(1)
proof (induction sids arbitrary: fs w)
  case Nil
  then show ?case by (intro exI [of _ "[]"] exI [of _ "sso_logins (tables w)"]) simp
next
  case (Cons sid sids)
  obtain q v where h: "hyRevokeLoginSession (spAdmin s) sid w = (q, v)" by (cases "hyRevokeLoginSession (spAdmin s) sid w")
  have t: "tables v = tables w" by (rule evolves_eqD [OF hydra_evolves(9) [OF preord_eq ext] h])
  have failed: ?case if "revoke_each s sids (fs @ [e]) u = (r, w')" "tables u = tables w" for e u
  proof -
    from Cons.IH [OF that(1)] obtain gs ls where "r = Inr ((fs @ [e]) @ gs)" "tables w' = (tables u)\<lparr>sso_logins := ls\<rparr>"
      "set ls \<subseteq> set (sso_logins (tables u))" "\<forall>x \<in> set (sso_logins (tables u)). ssSid x \<notin> set sids \<longrightarrow> x \<in> set ls" by blast
    with that(2) show ?thesis by (intro exI [of _ "e # gs"] exI [of _ ls]) auto
  qed
  show ?case
  proof (cases q)
    case (Inl e)
    with Cons.prems h have "revoke_each s sids (fs @ [e]) v = (r, w')" by (simp add: attempt_def)
    then show ?thesis using t by (rule failed)
  next
    case (Inr x)
    obtain p u where d: "DeleteSSOLoginSession sid v = (p, u)" by (cases "DeleteSSOLoginSession sid v")
    show ?thesis
    proof (cases p)
      case (Inl e)
      with Cons.prems h Inr d have "revoke_each s sids (fs @ [e]) u = (r, w')" by (simp add: attempt_def)
      moreover have "tables u = tables w"
        using d Inl t by (auto simp: DeleteSSOLoginSession_def call_def ret_def delete_sso_login_def
            split: prod.splits sum.splits elim!: query_cases)
      ultimately show ?thesis by (rule failed)
    next
      case del: (Inr y)
      with Cons.prems h Inr d have rest: "revoke_each s sids fs u = (r, w')" by (simp add: attempt_def)
      have u: "tables u = (tables w)\<lparr>sso_logins := delete_where (\<lambda>x. ssSid x = sid) (sso_logins (tables w))\<rparr>"
        using d del t by (auto simp: DeleteSSOLoginSession_def delete_sso_login_def dest!: query_Inr)
      from Cons.IH [OF rest] obtain gs ls where "r = Inr (fs @ gs)" "tables w' = (tables u)\<lparr>sso_logins := ls\<rparr>"
        "set ls \<subseteq> set (sso_logins (tables u))" "\<forall>x \<in> set (sso_logins (tables u)). ssSid x \<notin> set sids \<longrightarrow> x \<in> set ls"
        "gs = [] \<longrightarrow> (\<forall>x \<in> set ls. ssSid x \<notin> set sids)" by blast
      then show ?thesis by (intro exI [of _ gs] exI [of _ ls]) (auto simp: u)
    qed
  qed
qed

text \<open>
  C24: Revocation through the provider is what the session service relies on. Ending the single sign-on sessions of an
  account touches the table of recorded sessions only, never a record of another account, and when it reports
  success no session of the account is left on record.
\<close>

theorem sso_RevokeUser_contract:
  assumes run: "sso_RevokeUser s uid w = (r, w')" and ext: "hydra_external (spAdmin s)"
    and ok: "history_ok (tables w)"
  shows "sso_only (tables w) (tables w')
    \<and> (\<forall>x \<in> set (sso_logins (tables w)). ssUserID x \<noteq> uid \<longrightarrow> x \<in> set (sso_logins (tables w')))
    \<and> (r = Inr () \<longrightarrow> (\<forall>x \<in> set (sso_logins (tables w')). ssUserID x \<noteq> uid))"
proof -
  let ?all = "sso_logins (tables w)"
  obtain q v where l: "ListSSOLoginSessions (spBefore s) uid w = (q, v)" by (cases "ListSSOLoginSessions (spBefore s) uid w")
  have tv: "tables v = tables w" by (rule evolves_eqD [OF evolves_sso_store(3) [OF preord_eq] l])
  show ?thesis
  proof (cases "uid \<le> 0 \<or> isl q")
    case True
    with run l have "tables w' = tables w" "r \<noteq> Inr ()"
      using tv by (auto simp: sso_RevokeUser_def call_def fail_def isl_def split: if_splits)
    then show ?thesis by (simp add: sso_only_def)
  next
    case False
    then obtain sids where q: "q = Inr sids" by (auto simp: isl_def) (metis sum.exhaust)
    have sids: "set sids = ssSid ` {x \<in> set ?all. ssUserID x = uid}"
      using l q False by (auto simp: ListSSOLoginSessions_def select_sso_logins_def dest!: query_Inr)
    obtain a u where e: "revoke_each s sids [] v = (a, u)" by (cases "revoke_each s sids [] v")
    obtain gs ls where a: "a = Inr gs" and u: "tables u = (tables w)\<lparr>sso_logins := ls\<rparr>" and ls: "set ls \<subseteq> set ?all"
      "\<forall>x \<in> set ?all. ssSid x \<notin> set sids \<longrightarrow> x \<in> set ls" "gs = [] \<longrightarrow> (\<forall>x \<in> set ls. ssSid x \<notin> set sids)"
      using revoke_each_Inr [OF e ext] tv by auto
    obtain c x where c: "hyRevokeConsentSessions (spAdmin s) (ssoSubject uid) u = (c, x)"
      by (cases "hyRevokeConsentSessions (spAdmin s) (ssoSubject uid) u")
    have "tables x = tables u" by (rule evolves_eqD [OF hydra_evolves(10) [OF preord_eq ext] c])
    moreover have w': "w' = x" and r: "r = Inr () \<Longrightarrow> gs = []"
      using run False l q e a c
      by (auto simp: sso_RevokeUser_def call_def attempt_def ret_def fail_def Let_def split: if_splits sum.splits)
    ultimately have t: "tables w' = (tables w)\<lparr>sso_logins := ls\<rparr>" by (simp add: u)
    have other: "ssSid x \<notin> set sids" if x: "x \<in> set ?all" "ssUserID x \<noteq> uid" for x
    proof
      assume "ssSid x \<in> set sids"
      then obtain y where "y \<in> set ?all" "ssUserID y = uid" "ssSid y = ssSid x" by (auto simp: sids)
      with unique_onD [of "\<lambda>s. Some (ssSid s)" ?all x y "ssSid x"] ok x show False by (auto simp: history_ok_def)
    qed
    have "\<forall>x \<in> set ls. ssUserID x \<noteq> uid" if "r = Inr ()"
      using ls(1,3) r [OF that] by (auto simp: sids)
    with t other ls show ?thesis by (auto simp: sso_only_def)
  qed
qed

text \<open>So the provider is a revoker the session service may be built with.\<close>

lemma sso_only_iff: "sso_only d d' \<longleftrightarrow> (\<exists>ls. d' = d\<lparr>sso_logins := ls\<rparr>)"
proof
  assume "\<exists>ls. d' = d\<lparr>sso_logins := ls\<rparr>"
  then obtain ls where "d' = d\<lparr>sso_logins := ls\<rparr>" by blast
  then show "sso_only d d'" unfolding sso_only_def by simp
qed (unfold sso_only_def, rule exI)

lemma preord_sso_only: "preord sso_only"
proof -
  have "sso_only d d" for d unfolding sso_only_def by simp
  moreover have "sso_only d d''" if "sso_only d d'" "sso_only d' d''" for d d' d''
    using that by (auto simp: sso_only_iff)
  ultimately show ?thesis unfolding preord_def reflp_def transp_def by blast
qed

lemma provider_revoker_ok:
  assumes ext: "hydra_external (spAdmin s)"
  shows "sso_revoker_ok (SetSSORevoker (sso_RevokeUser s) svc)"
proof -
  have del: "evolves (on_tables sso_only) (DeleteSSOLoginSession sid)" for sid
    unfolding DeleteSSOLoginSession_def
    by (intro evolves_intro preord_intro preord_sso_only evolves_query) (auto simp: delete_sso_login_def sso_only_def)
  have "evolves (on_tables sso_only) (revoke_each s sids fs)" for sids fs
    by (induction sids arbitrary: fs; unfold revoke_each.simps)
       (intro evolves_intro preord_on_tables preord_sso_only hydra_evolves ext del | assumption)+
  then have "evolves (on_tables sso_only) (sso_RevokeUser s uid)" for uid
    unfolding sso_RevokeUser_def
    by (intro evolves_intro preord_on_tables preord_sso_only hydra_evolves ext)
  then show ?thesis by (simp add: sso_revoker_ok_def SetSSORevoker_def)
qed

section \<open>Worked examples\<close>

definition demo_hydra :: sso_admin where
  "demo_hydra = \<lparr>hyLoginRequest = (\<lambda>c. ret \<lparr>lrSkip = False, lrSubject = [], lrSessionID = ''sid'', lrClientName = ''App''\<rparr>),
     hyAcceptLogin = (\<lambda>c t n. ret (''accept:'' @ t)), hyRejectLogin = (\<lambda>c. ret ''reject''),
     hyConsentRequest = (\<lambda>c. ret \<lparr>cqSubject = ''2'', cqLoginSessionID = ''sid'', cqRequestedScope = [''email''],
       cqRequestedAudience = []\<rparr>),
     hyAcceptConsent = (\<lambda>c g. ret ''granted''), hyRejectConsent = (\<lambda>c. ret ''denied''),
     hyLogoutRequest = (\<lambda>c. ret \<lparr>loSubject = ''2'', loSessionID = ''sid''\<rparr>), hyAcceptLogout = (\<lambda>c. ret ''bye''),
     hyRevokeLoginSession = (\<lambda>t. ret ()), hyRevokeConsentSessions = (\<lambda>t. ret ())\<rparr>"

definition demo_provider :: sso_provider where
  "demo_provider = \<lparr>spAdmin = demo_hydra, spRememberFor = 3600000000000, spConfirmationRequired = False,
     spBefore = (\<lambda>a b. string_less a b)\<rparr>"

definition demo_sso :: world where
  "demo_sso = demo_world\<lparr>tables := demo_db\<lparr>sso_logins := [\<lparr>ssSid = ''a'', ssUserID = 2, ssCreatedAt = 1, ssExpiresAt = 9\<rparr>,
     \<lparr>ssSid = ''b'', ssUserID = 1, ssCreatedAt = 1, ssExpiresAt = 9\<rparr>]\<rparr>\<rparr>"

lemma demo_hydra_external: "hydra_external (spAdmin demo_provider)"
  by (simp add: hydra_external_def demo_provider_def demo_hydra_def evolves_ret preord_on_tables preord_eq)


theorem sso_RevokeUser_contract_witness:
  "map ssSid (sso_logins (tables (snd (sso_RevokeUser demo_provider 2 demo_sso)))) = [''b'']
     \<and> [x \<leftarrow> sso_logins (tables (snd (sso_RevokeUser demo_provider 2 demo_sso))). ssUserID x = 2] = []"
proof -
  let ?run = "sso_RevokeUser demo_provider 2 demo_sso"
  have "history_ok (tables demo_sso)" by (simp add: history_ok_def demo_sso_def demo_defs)
  from sso_RevokeUser_contract [OF prod.collapse [symmetric, of ?run] demo_hydra_external this]
  have "fst ?run = Inr () \<longrightarrow> [x \<leftarrow> sso_logins (tables (snd ?run)). ssUserID x = 2] = []"
    by (auto simp: filter_empty_conv)
  moreover have "fst ?run = Inr ()" by code_simp
  moreover have "map ssSid (sso_logins (tables (snd ?run))) = [''b'']" by code_simp
  ultimately show ?thesis by blast
qed

end
