(* ===== verification/SSOClient.thy ===== *)
theory SSOClient
  imports SSOProvider Guests Settings
begin

text \<open>
  Sign-in of a client app through the issuer (\<^verbatim>\<open>internal/service/sso_client.go\<close>): the redirect, the callback that
  signs a subject in or converts the guest that started it, back-channel logout and the sign-out address, with the
  repository operation that converts and links in one transaction (\<^verbatim>\<open>internal/store/postgres/users.go\<close>). The OpenID
  Connect client is a parameter, one operation per method of the port.
\<close>

section \<open>Conversion in one transaction\<close>

text \<open>The update of a guest row at the expected revision, and the columns it writes.\<close>

definition set_upgrade_columns :: "user \<Rightarrow> user \<Rightarrow> user" where
  "set_upgrade_columns guest row = row\<lparr>uEmail := uEmail guest, uDisplayName := uDisplayName guest, uIsGuest := False,
     uEmailVerifiedAt := uEmailVerifiedAt guest, uVersion := uVersion row + 1\<rparr>"

definition upgrade_guest_body ::
    "golib \<Rightarrow> user \<Rightarrow> int \<Rightarrow> oauth_identity \<Rightarrow> int \<Rightarrow> user option prog" where
  "upgrade_guest_body L guest expectedVersion identity revokedAt =
     call (query (update_claims (\<lambda>c. ccUserID c = uID guest \<and> ccRevokedAt c = None)
         (\<lambda>c. c\<lparr>ccRevokedAt := Some revokedAt\<rparr>))) mapGuestClaimError (\<lambda>_.
     attempt (query (update_user_where L (\<lambda>u. uID u = uID guest \<and> uVersion u = expectedVersion \<and> uIsGuest u)
         (set_upgrade_columns guest))) (\<lambda>r. case r of
       Inl err \<Rightarrow> if errors_is err (Repo SqlErrNoRows) then fail (Gst ErrGuestUpgradeRequiresGuest)
                 else fail (mapUserError err)
     | Inr row \<Rightarrow>
         check (scanUser row) mapUserError (\<lambda>updated.
         call (query (insert_identity identity)) mapOAuthIdentityError (\<lambda>_. ret (Some updated)))))"

definition UpgradeGuestWithIdentity ::
    "golib \<Rightarrow> user \<Rightarrow> int \<Rightarrow> oauth_identity \<Rightarrow> int \<Rightarrow> user prog" where
  "UpgradeGuestWithIdentity L guest expectedVersion identity revokedAt =
     (let identity = identity\<lparr>oidProvider := canonicalProvider L (oidProvider identity)\<rparr> in
      if uID guest \<le> 0 \<or> uIsGuest guest \<or> oidUserID identity \<noteq> uID guest \<or> oidProvider identity = []
         \<or> oidSubject identity = [] \<or> 255 < length (oidSubject identity)
      then fail (Repo ErrInvalidData)
      else
        call (transaction mapUserError (upgrade_guest_body L guest expectedVersion identity revokedAt)) id (\<lambda>r.
        case r of Some updated \<Rightarrow> ret updated | None \<Rightarrow> fail (Repo ErrInvalidData)))"

section \<open>The service\<close>

definition SSOProviderName :: string where "SSOProviderName = ''sso''"

record sso_callback_result =
  cbSession :: session
  cbUpgraded :: bool

record sso_identity =
  siSubject :: string
  siEmail :: string
  siEmailVerified :: bool
  siName :: string
  siLocale :: string
  siSessionID :: string
  siIDToken :: string

record sso_relying_party =
  rpAuthorizationURL :: "string \<Rightarrow> string \<Rightarrow> string prog"
  rpExchange :: "string \<Rightarrow> string \<Rightarrow> sso_identity prog"
  rpVerifyLogoutToken :: "string \<Rightarrow> string prog"
  rpEndSessionURL :: "string \<Rightarrow> string \<Rightarrow> string prog"

record sso_client =
  scRelyingParty :: sso_relying_party
  scSessions :: session_service
  scStateLife :: int
  scPostLogoutURL :: string
  scParseURL :: "string \<Rightarrow> url option"

definition NewSSOClientService :: "sso_client \<Rightarrow> error + sso_client" where
  "NewSSOClientService deps =
     (if scStateLife deps < time_Second \<or> \<not> safeOAuthURL (scParseURL deps) (scPostLogoutURL deps)
      then Inl (OAuth ErrOAuthProviderUnavailable) else Inr deps)"

definition sso_start :: "golib \<Rightarrow> sso_client \<Rightarrow> string \<Rightarrow> int \<Rightarrow> (string \<times> string) prog" where
  "sso_start L s action userID =
     call newOAuthState id (\<lambda>state.
     call (newPKCEVerifier L) id (\<lambda>(verifier, challenge).
     reading unix_now (\<lambda>createdAt.
     call (rpAuthorizationURL (scRelyingParty s) state challenge) (\<lambda>err. Join [OAuth ErrSSOUnavailable, err]) (\<lambda>authorizationURL.
     if \<not> safeOAuthURL (scParseURL s) authorizationURL then fail (OAuth ErrSSOSignInFailed)
     else
       call (CreateOAuthState L \<lparr>ostState = state, ostProvider = SSOProviderName, ostAction = action, ostUserID = userID,
           ostCodeVerifier = verifier, ostCreatedAt = createdAt,
           ostExpiresAt = wrap64 (createdAt + scStateLife s div time_Second)\<rparr>) Wrap (\<lambda>_.
       ret (authorizationURL, state))))))"

definition sso_Start :: "golib \<Rightarrow> sso_client \<Rightarrow> (string \<times> string) prog" where
  "sso_Start L s = sso_start L s oauthActionSignIn 0"

definition StartUpgrade :: "golib \<Rightarrow> sso_client \<Rightarrow> int \<Rightarrow> (string \<times> string) prog" where
  "StartUpgrade L s guestID =
     (if guestID \<le> 0 then fail (Account ErrInvalidUserID)
      else
        call (FindUserByID guestID) (\<lambda>_. Gst ErrGuestUpgradeRequiresGuest) (\<lambda>guest.
        if uID guest \<noteq> guestID \<or> \<not> uIsGuest guest then fail (Gst ErrGuestUpgradeRequiresGuest)
        else sso_start L s oauthActionLink guestID))"

text \<open>\<^verbatim>\<open>NormalizeEmail\<close> with its failure read as no address, and the display name the issuer offers.\<close>

definition sso_email :: "golib \<Rightarrow> sso_identity \<Rightarrow> string" where
  "sso_email L identity = (case NormalizeEmail L (siEmail identity) of Inl _ \<Rightarrow> [] | Inr email \<Rightarrow> email)"

definition sso_name :: "sso_identity \<Rightarrow> string option" where
  "sso_name identity =
     (case normalizeDisplayName (siName identity) of
        Inl _ \<Rightarrow> None | Inr name \<Rightarrow> if name = [] then None else Some name)"

definition upgraded_guest :: "user \<Rightarrow> sso_identity \<Rightarrow> string \<Rightarrow> int \<Rightarrow> user" where
  "upgraded_guest guest identity email now =
     (let u = guest\<lparr>uIsGuest := False\<rparr>;
          v = (if email = [] then u
               else if siEmailVerified identity then u\<lparr>uEmail := Some email, uEmailVerifiedAt := Some now\<rparr>
               else u\<lparr>uEmail := Some email\<rparr>)
      in (case sso_name identity of
            Some name \<Rightarrow> if uDisplayName v = None then v\<lparr>uDisplayName := Some name\<rparr> else v
          | None \<Rightarrow> v))"

text \<open>The address of an upgrade may not belong to an account.\<close>

definition sso_email_free :: "golib \<Rightarrow> string \<Rightarrow> unit prog" where
  "sso_email_free L email =
     (if email = [] then ret ()
      else
        attempt (FindUserByEmail L email) (\<lambda>r. case r of
          Inr existing \<Rightarrow> if 0 < uID existing then fail (OAuth ErrOAuthEmailConflict) else ret ()
        | Inl err \<Rightarrow> if \<not> errors_is err (Account ErrUserNotFound) then fail (Wrap err) else ret ()))"

definition upgrade_error :: "error \<Rightarrow> error" where
  "upgrade_error err =
     (if errors_is err (Account ErrDuplicateEmail) then OAuth ErrOAuthEmailConflict
      else if errors_is err (OAuth ErrOAuthIdentityConflict) then OAuth ErrSSOGuestIdentityTaken
      else Wrap err)"

definition upgradeGuest :: "golib \<Rightarrow> sso_client \<Rightarrow> int \<Rightarrow> sso_identity \<Rightarrow> int \<Rightarrow> sso_callback_result prog" where
  "upgradeGuest L s guestID identity now =
     call (FindUserByID guestID) (\<lambda>_. Gst ErrGuestUpgradeRequiresGuest) (\<lambda>guest.
     if uID guest \<noteq> guestID \<or> \<not> uIsGuest guest then fail (Gst ErrGuestUpgradeRequiresGuest)
     else
       attempt (FindOAuthIdentity L SSOProviderName (siSubject identity)) (\<lambda>r. case r of
         Inr _ \<Rightarrow> fail (OAuth ErrSSOGuestIdentityTaken)
       | Inl err \<Rightarrow>
           if \<not> errors_is err (OAuth ErrOAuthIdentityNotFound) then fail (Wrap err)
           else
             let email = sso_email L identity in
             call (sso_email_free L email) id (\<lambda>_.
             call (UpgradeGuestWithIdentity L (upgraded_guest guest identity email now) (uVersion guest)
                 \<lparr>oidID = 0, oidUserID = guestID, oidProvider = SSOProviderName, oidSubject = siSubject identity,
                  oidEmail = email, oidCreatedAt = now\<rparr> now) upgrade_error (\<lambda>saved.
             if uID saved \<noteq> guestID \<or> uIsGuest saved then fail (Gst ErrInvalidUpgradedUser)
             else
               call (RevokeUser (scSessions s) guestID) Wrap (\<lambda>_.
               call (CreateSSO L (scSessions s) guestID (siSessionID identity) (siIDToken identity)) Wrap (\<lambda>session.
               ret \<lparr>cbSession = session, cbUpgraded = True\<rparr>))))))"

definition newSSOUser :: "sso_identity \<Rightarrow> string \<Rightarrow> int \<Rightarrow> user" where
  "newSSOUser identity email now =
     zero_user\<lparr>uTheme := ''light'',
       uLocale := (if Supported (siLocale identity) then siLocale identity else ''en''),
       uCreatedAt := now,
       uEmail := (if email \<noteq> [] then Some email else None),
       uEmailVerifiedAt := (if email \<noteq> [] \<and> siEmailVerified identity then Some now else None),
       uDisplayName := sso_name identity\<rparr>"

text \<open>The profile data the issuer owns; whether anything changes decides if there is a write.\<close>

definition refreshed :: "user \<Rightarrow> sso_identity \<Rightarrow> string \<Rightarrow> int \<Rightarrow> user \<times> bool" where
  "refreshed user identity email now =
     (let moved = email \<noteq> [] \<and> uEmail user \<noteq> Some email;
          u = (if moved then user\<lparr>uEmail := Some email, uEmailVerifiedAt := None\<rparr> else user);
          confirms = email \<noteq> [] \<and> siEmailVerified identity \<and> uEmailVerifiedAt u = None;
          v = (if confirms then u\<lparr>uEmailVerifiedAt := Some now\<rparr> else u);
          renames = sso_name identity \<noteq> None \<and> uDisplayName user \<noteq> sso_name identity
      in (if renames then v\<lparr>uDisplayName := sso_name identity\<rparr> else v, moved \<or> confirms \<or> renames))"

definition sso_refresh :: "golib \<Rightarrow> user \<Rightarrow> sso_identity \<Rightarrow> string \<Rightarrow> int \<Rightarrow> user prog" where
  "sso_refresh L user identity email now =
     (let (updated, changed) = refreshed user identity email now in
      if \<not> changed then ret user
      else attempt (UpdateUser L updated (uVersion user)) (\<lambda>r. case r of Inl _ \<Rightarrow> ret user | Inr saved \<Rightarrow> ret saved))"

text \<open>The local account an unknown subject is linked to: one both sides vouch for, or a new one.\<close>

definition sso_new_account :: "golib \<Rightarrow> sso_identity \<Rightarrow> string \<Rightarrow> int \<Rightarrow> user prog" where
  "sso_new_account L identity email now = call (CreateUser L (newSSOUser identity email now)) Wrap ret"

definition sso_match_account :: "golib \<Rightarrow> sso_identity \<Rightarrow> string \<Rightarrow> int \<Rightarrow> user prog" where
  "sso_match_account L identity email now =
     (if email = [] then sso_new_account L identity email now
      else
        attempt (FindUserByEmail L email) (\<lambda>r. case r of
          Inr found \<Rightarrow>
            if 0 < uID found then
              (if \<not> siEmailVerified identity \<or> uEmailVerifiedAt found = None \<or> uIsGuest found
               then fail (OAuth ErrOAuthEmailConflict) else ret found)
            else sso_new_account L identity email now
        | Inl err \<Rightarrow>
            if \<not> errors_is err (Account ErrUserNotFound) then fail (Wrap err)
            else sso_new_account L identity email now))"

definition sso_account :: "golib \<Rightarrow> sso_identity \<Rightarrow> int \<Rightarrow> user prog" where
  "sso_account L identity now =
     (let email = sso_email L identity in
      attempt (FindOAuthIdentity L SSOProviderName (siSubject identity)) (\<lambda>r. case r of
        Inr existing \<Rightarrow>
          call (FindUserByID (oidUserID existing)) (\<lambda>_. OAuth ErrSSOSignInFailed) (\<lambda>user.
          if uID user \<noteq> oidUserID existing then fail (OAuth ErrSSOSignInFailed)
          else sso_refresh L user identity email now)
      | Inl err \<Rightarrow>
          if \<not> errors_is err (OAuth ErrOAuthIdentityNotFound) then fail (Wrap err)
          else
            call (sso_match_account L identity email now) id (\<lambda>user.
            call (CreateOAuthIdentity L \<lparr>oidID = 0, oidUserID = uID user, oidProvider = SSOProviderName,
                oidSubject = siSubject identity, oidEmail = email, oidCreatedAt = now\<rparr>) Wrap (\<lambda>_.
            ret user))))"

text \<open>The consumed state must be one of this flow, and an upgrade one of this browser.\<close>

definition sso_state_ok :: "oauth_state \<Rightarrow> int \<Rightarrow> int \<Rightarrow> bool" where
  "sso_state_ok stored actorUserID now \<longleftrightarrow>
     ostProvider stored = SSOProviderName \<and> now < ostExpiresAt stored \<and> ostCodeVerifier stored \<noteq> []
     \<and> (if ostAction stored = oauthActionSignIn then ostUserID stored = 0
        else if ostAction stored = oauthActionLink then 0 < ostUserID stored \<and> ostUserID stored = actorUserID
        else False)"

definition sso_Callback :: "golib \<Rightarrow> sso_client \<Rightarrow> int \<Rightarrow> string \<Rightarrow> string \<Rightarrow> sso_callback_result prog" where
  "sso_Callback L s actorUserID code rawState =
     (if unusable_code code then fail (OAuth ErrSSOSignInFailed)
      else
        check (normalizeOAuthState rawState) (\<lambda>_. OAuth ErrOAuthStateInvalid) (\<lambda>state.
        reading unix_now (\<lambda>now.
        call (ConsumeOAuthState L state now) (\<lambda>_. OAuth ErrOAuthStateInvalid) (\<lambda>stored.
        if \<not> sso_state_ok stored actorUserID now then fail (OAuth ErrOAuthStateInvalid)
        else
          call (rpExchange (scRelyingParty s) code (ostCodeVerifier stored)) (\<lambda>err. Join [OAuth ErrSSOSignInFailed, err]) (\<lambda>identity.
          if TrimSpace (siSubject identity) = [] \<or> TrimSpace (siSessionID identity) = [] \<or> siIDToken identity = []
          then fail (OAuth ErrSSOSignInFailed)
          else if ostAction stored = oauthActionLink then upgradeGuest L s (ostUserID stored) identity now
          else
            call (sso_account L identity now) id (\<lambda>user.
            call (CreateSSO L (scSessions s) (uID user) (siSessionID identity) (siIDToken identity)) Wrap (\<lambda>session.
            ret \<lparr>cbSession = session, cbUpgraded = False\<rparr>)))))))"

definition BackChannelLogout :: "sso_client \<Rightarrow> string \<Rightarrow> unit prog" where
  "BackChannelLogout s logoutToken =
     call (rpVerifyLogoutToken (scRelyingParty s) logoutToken) (\<lambda>_. OAuth ErrSSOLogoutTokenInvalid) (\<lambda>sid.
     if TrimSpace sid = [] then fail (OAuth ErrSSOLogoutTokenInvalid)
     else reading unix_now (\<lambda>now. call (RevokeSSOSessions sid now) Wrap (\<lambda>_. ret ())))"

definition SignOutURL :: "golib \<Rightarrow> sso_client \<Rightarrow> string \<Rightarrow> string prog" where
  "SignOutURL L s sessionID =
     (if TrimSpace sessionID = [] then ret []
      else
        attempt (FindSSOIDToken L sessionID) (\<lambda>r. case r of
          Inl _ \<Rightarrow> ret []
        | Inr idToken \<Rightarrow>
            if idToken = [] then ret [] else rpEndSessionURL (scRelyingParty s) idToken (scPostLogoutURL s)))"

section \<open>The conversion\<close>

lemma upgrade_guest_body_Inr:
  assumes "upgrade_guest_body L guest ver i t w = (Inr (Some saved), w')"
  obtains row n where "row \<in> set (users (tables w))" "uID row = uID guest" "uIsGuest row" "uVersion row = ver"
    "saved = set_upgrade_columns guest row"
    "(oidProvider i, oidSubject i) \<notin> (\<lambda>i. (oiProvider i, oiSubject i)) ` set (oauth_identities (tables w))"
    "tables w' = (tables w)\<lparr>claim_codes := update_where (\<lambda>c. ccUserID c = uID guest \<and> ccRevokedAt c = None)
        (\<lambda>c. c\<lparr>ccRevokedAt := Some t\<rparr>) (claim_codes (tables w)),
      users := update_where (\<lambda>v. uID v = uID guest) (\<lambda>_. saved) (users (tables w)),
      oauth_identities := oauth_identities (tables w) @ [identity_row_of i n], oauth_identities_seq := n\<rparr>"
proof -
  let ?P = "\<lambda>u. uID u = uID guest \<and> uVersion u = ver \<and> uIsGuest u"
  from assms obtain x w1 q w2 where c: "query (update_claims (\<lambda>c. ccUserID c = uID guest \<and> ccRevokedAt c = None)
         (\<lambda>c. c\<lparr>ccRevokedAt := Some t\<rparr>)) w = (Inr x, w1)"
    and u: "query (update_user_where L ?P (set_upgrade_columns guest)) w1 = (q, w2)"
    and rest: "(case q of Inl err \<Rightarrow> if errors_is err (Repo SqlErrNoRows) then fail (Gst ErrGuestUpgradeRequiresGuest)
                 else fail (mapUserError err)
     | Inr row \<Rightarrow> check (scanUser row) mapUserError (\<lambda>updated.
         call (query (insert_identity i)) mapOAuthIdentityError (\<lambda>_. ret (Some updated)))) w2 = (Inr (Some saved), w')"
    by (auto simp: upgrade_guest_body_def attempt_iff)
  from rest obtain row y where q: "q = Inr row" and row: "row = saved" and i: "query (insert_identity i) w2 = (Inr y, w')"
    by (cases q) (auto simp: scanUser_def split: if_splits)
  have t1: "tables w1 = (tables w)\<lparr>claim_codes := update_where (\<lambda>c. ccUserID c = uID guest \<and> ccRevokedAt c = None)
        (\<lambda>c. c\<lparr>ccRevokedAt := Some t\<rparr>) (claim_codes (tables w))\<rparr>"
    using query_Inr [OF c] by (simp add: update_claims_def)
  from u q row have "update_user_where L ?P (set_upgrade_columns guest) (tables w1) = (Inr saved, tables w2)"
    by (auto dest: query_Inr)
  then obtain old where old: "old \<in> set (users (tables w1))" "?P old" "saved = set_upgrade_columns guest old"
    and t2: "tables w2 = (tables w1)\<lparr>users := update_where (\<lambda>v. uID v = uID old) (\<lambda>_. saved) (users (tables w1))\<rparr>"
    by (rule update_user_where_Inr) blast
  note t3 = insert_identity_Inr [OF query_Inr [OF i]]
  have ids: "uID old = uID guest" using old by simp
  show thesis
    by (rule that [of old "oauth_identities_seq (tables w2) + 1"]) (use old t1 t2 t3 ids in simp_all)
qed

lemma UpgradeGuest_Inr:
  assumes "UpgradeGuestWithIdentity L guest ver i t w = (Inr saved, w')"
  obtains row n where "row \<in> set (users (tables w))" "uID row = uID guest" "uIsGuest row" "uVersion row = ver"
    "saved = set_upgrade_columns guest row"
    "(canonicalProvider L (oidProvider i), oidSubject i) \<notin> (\<lambda>i. (oiProvider i, oiSubject i)) ` set (oauth_identities (tables w))"
    "tables w' = (tables w)\<lparr>claim_codes := update_where (\<lambda>c. ccUserID c = uID guest \<and> ccRevokedAt c = None)
        (\<lambda>c. c\<lparr>ccRevokedAt := Some t\<rparr>) (claim_codes (tables w)),
      users := update_where (\<lambda>v. uID v = uID guest) (\<lambda>_. saved) (users (tables w)),
      oauth_identities := oauth_identities (tables w)
        @ [identity_row_of (i\<lparr>oidProvider := canonicalProvider L (oidProvider i)\<rparr>) n], oauth_identities_seq := n\<rparr>"
proof -
  let ?i = "i\<lparr>oidProvider := canonicalProvider L (oidProvider i)\<rparr>"
  from assms obtain r w1 where tr: "transaction mapUserError (upgrade_guest_body L guest ver ?i t) w = (Inr r, w1)"
    and c: "(case r of Some updated \<Rightarrow> ret updated | None \<Rightarrow> fail (Repo ErrInvalidData)) w1 = (Inr saved, w')"
    by (auto simp: UpgradeGuestWithIdentity_def Let_def split: if_splits)
  from c have r: "r = Some saved" "w1 = w'" by (auto split: option.splits)
  from tr r obtain w2 where b: "upgrade_guest_body L guest ver ?i t (w\<lparr>faults := tl (faults w)\<rparr>) = (Inr (Some saved), w2)"
    and t: "tables w' = tables w2"
    by (auto elim!: transaction_Inr)
  from b show thesis
    by (rule upgrade_guest_body_Inr) (rule that, simp_all add: t)
qed

section \<open>Composition\<close>

definition relying_party_external :: "sso_relying_party \<Rightarrow> bool" where
  "relying_party_external r \<longleftrightarrow> (\<forall>a b. evolves (on_tables (=)) (rpAuthorizationURL r a b))
     \<and> (\<forall>a b. evolves (on_tables (=)) (rpExchange r a b)) \<and> (\<forall>a. evolves (on_tables (=)) (rpVerifyLogoutToken r a))
     \<and> (\<forall>a b. evolves (on_tables (=)) (rpEndSessionURL r a b))"

lemma relying_party_evolves:
  assumes "preord R" "relying_party_external r"
  shows "evolves (on_tables R) (rpAuthorizationURL r a b)" "evolves (on_tables R) (rpExchange r a b)"
    "evolves (on_tables R) (rpVerifyLogoutToken r a)" "evolves (on_tables R) (rpEndSessionURL r a b)"
  using assms(2) by (auto simp: relying_party_external_def intro!: evolves_eq_mono [OF assms(1)])

lemma sso_email_free_tables: "sso_email_free L email w = (r, w') \<Longrightarrow> tables w' = tables w"
  by (rule evolves_eqD [of "sso_email_free L email"]) (unfold sso_email_free_def, intro evolves_intro preord_intro)

lemma CreateSSO_Inr:
  assumes "CreateSSO L s uid sid tok w = (Inr ses, w')"
  shows "sUserID ses = uid \<and> (\<exists>row. rUserID row = uid \<and> rID row = sessionDigest L (sID ses)
    \<and> tables w' = (tables w)\<lparr>sessions := sessions (tables w) @ [row]\<rparr>)"
proof -
  from assms obtain x where x: "session_create L s uid sid tok w = (Inr x, w')" and ses: "ses = x\<lparr>sSSOIDToken := []\<rparr>"
    by (auto simp: CreateSSO_def split: if_splits)
  from session_create_Inr(1,10) [OF x] ses show ?thesis
    by (auto simp: session_row_of_def intro!: exI [of _ "session_row_of L x"])
qed

text \<open>The account afterwards, and every earlier way into it.\<close>

definition cut_over :: "golib \<Rightarrow> int \<Rightarrow> session \<Rightarrow> db \<Rightarrow> bool" where
  "cut_over L uid ses d \<longleftrightarrow> (\<forall>c \<in> set (claim_codes d). ccUserID c = uid \<longrightarrow> ccRevokedAt c \<noteq> None)
     \<and> (\<forall>r \<in> set (sessions d). rUserID r = uid \<longrightarrow> rRevokedAt r \<noteq> None \<or> rID r = sessionDigest L (sID ses))"

lemma upgraded_guest_ID [simp]: "uID (upgraded_guest g i e t) = uID g"
  by (simp add: upgraded_guest_def Let_def split: option.split)

lemma upgradeGuest_Inr:
  assumes run: "upgradeGuest L s gid identity now w = (Inr res, w')" and sso: "sso_revoker_ok (scSessions s)"
  shows "cbUpgraded res \<and> sUserID (cbSession res) = gid \<and> cut_over L gid (cbSession res) (tables w')
    \<and> (\<exists>u saved. u \<in> set (users (tables w)) \<and> uID u = gid \<and> uIsGuest u \<and> uID saved = gid \<and> \<not> uIsGuest saved
        \<and> users (tables w') = update_where (\<lambda>v. uID v = gid) (\<lambda>_. saved) (users (tables w)))
    \<and> (canonicalProvider L SSOProviderName, siSubject identity)
        \<notin> (\<lambda>i. (oiProvider i, oiSubject i)) ` set (oauth_identities (tables w))
    \<and> (\<exists>i. oauth_identities (tables w') = oauth_identities (tables w) @ [i] \<and> oiUserID i = gid
        \<and> oiProvider i = canonicalProvider L SSOProviderName \<and> oiSubject i = siSubject identity)
    \<and> oauth_states (tables w') = oauth_states (tables w)"
proof -
  let ?i = "\<lparr>oidID = 0, oidUserID = gid, oidProvider = SSOProviderName, oidSubject = siSubject identity,
      oidEmail = sso_email L identity, oidCreatedAt = now\<rparr>"
  from run obtain guest w1 e w2 w3 saved w4 w5 ses where f: "FindUserByID gid w = (Inr guest, w1)"
    and i: "FindOAuthIdentity L SSOProviderName (siSubject identity) w1 = (Inl e, w2)"
    and fr: "sso_email_free L (sso_email L identity) w2 = (Inr (), w3)"
    and up: "UpgradeGuestWithIdentity L (upgraded_guest guest identity (sso_email L identity) now) (uVersion guest) ?i now w3
      = (Inr saved, w4)" and sv: "uID saved = gid" "\<not> uIsGuest saved"
    and rv: "RevokeUser (scSessions s) gid w4 = (Inr (), w5)"
    and cr: "CreateSSO L (scSessions s) gid (siSessionID identity) (siIDToken identity) w5 = (Inr ses, w')"
    and res: "res = \<lparr>cbSession = ses, cbUpgraded = True\<rparr>"
    by (auto simp: upgradeGuest_def attempt_case_iff Let_def split: if_splits sum.splits)
  have t3: "tables w3 = tables w"
    using FindUserByID_Inr [OF f] FindOAuthIdentity_tables [OF i] sso_email_free_tables [OF fr] by simp
  have gid: "uID guest = gid" using FindUserByID_Inr [OF f] by (auto dest: find_Some_iff')
  let ?g = "upgraded_guest guest identity (sso_email L identity) now"
  from up obtain row n where row: "row \<in> set (users (tables w3))" "uID row = uID ?g" "uIsGuest row" "uVersion row = uVersion guest"
      "saved = set_upgrade_columns ?g row"
    and new: "(canonicalProvider L (oidProvider ?i), oidSubject ?i)
        \<notin> (\<lambda>i. (oiProvider i, oiSubject i)) ` set (oauth_identities (tables w3))"
    and t4: "tables w4 = (tables w3)\<lparr>claim_codes := update_where (\<lambda>c. ccUserID c = uID ?g \<and> ccRevokedAt c = None)
        (\<lambda>c. c\<lparr>ccRevokedAt := Some now\<rparr>) (claim_codes (tables w3)),
      users := update_where (\<lambda>v. uID v = uID ?g) (\<lambda>_. saved) (users (tables w3)),
      oauth_identities := oauth_identities (tables w3)
        @ [identity_row_of (?i\<lparr>oidProvider := canonicalProvider L (oidProvider ?i)\<rparr>) n], oauth_identities_seq := n\<rparr>"
    by (rule UpgradeGuest_Inr) (rule that)
  have id: "uID ?g = gid" using gid by simp
  note t4 = t4 [unfolded id t3] and row = row [unfolded id t3] and new = new [unfolded t3]
  from rv sso obtain ls where t5: "tables w5 = (tables w4)\<lparr>sessions := update_where (\<lambda>r. rUserID r = gid)
      (coalesce_revoked (unix_now w4)) (sessions (tables w4)), sso_logins := ls\<rparr>" by (rule RevokeUser_Inr)
  from CreateSSO_Inr [OF cr] obtain r where r: "sUserID ses = gid" "rUserID r = gid" "rID r = sessionDigest L (sID ses)"
    and t6: "tables w' = (tables w5)\<lparr>sessions := sessions (tables w5) @ [r]\<rparr>" by blast
  have "cut_over L gid ses (tables w')"
    using ended_by_revocation [OF t5] r by (auto simp: cut_over_def t6 sessions_ended_def t5 t4 ball_update_where)
  moreover have "\<exists>u saved. u \<in> set (users (tables w)) \<and> uID u = gid \<and> uIsGuest u \<and> uID saved = gid \<and> \<not> uIsGuest saved
        \<and> users (tables w') = update_where (\<lambda>v. uID v = gid) (\<lambda>_. saved) (users (tables w))"
    by (intro exI [of _ row] exI [of _ saved]) (use row(1,2,3) sv in \<open>simp add: t6 t5 t4\<close>)
  moreover have "\<exists>i. oauth_identities (tables w') = oauth_identities (tables w) @ [i] \<and> oiUserID i = gid
        \<and> oiProvider i = canonicalProvider L SSOProviderName \<and> oiSubject i = siSubject identity"
    by (rule exI [of _ "identity_row_of (?i\<lparr>oidProvider := canonicalProvider L SSOProviderName\<rparr>) n"])
       (simp add: t6 t5 t4)
  moreover have "oauth_states (tables w') = oauth_states (tables w)" by (simp add: t6 t5 t4)
  ultimately show ?thesis using new r(1) by (simp add: res)
qed

text \<open>Whatever an update answers, it writes at most the accounts.\<close>

definition users_only :: "db \<Rightarrow> db \<Rightarrow> bool" where
  "users_only d d' \<longleftrightarrow> (\<exists>us. d' = d\<lparr>users := us\<rparr>)"

lemma preord_users_only: "preord users_only"
proof -
  have "users_only d d" for d unfolding users_only_def by (rule exI [of _ "users d"]) simp
  moreover have "users_only d d''" if "users_only d d'" "users_only d' d''" for d d' d''
    using that by (auto simp: users_only_def)
  ultimately show ?thesis unfolding preord_def reflp_def transp_def by blast
qed

lemma evolves_UpdateUser_users: "evolves (on_tables users_only) (UpdateUser L user ver)"
proof -
  have "evolves (on_tables users_only) (transaction mapUserError (update_user_body L user ver))"
  proof (rule evolves_transaction_commit [OF preord_users_only])
    fix w u' w'
    assume "update_user_body L user ver w = (Inr (Some u'), w')"
    from update_user_body_commit(1) [OF this] show "users_only (tables w) (tables w')"
      by (rule update_user_where_Inr) (auto simp: users_only_def)
  qed
  then show ?thesis unfolding UpdateUser_def by (intro evolves_intro preord_on_tables preord_users_only)
qed

text \<open>The local account of an issuer subject: its own, one both sides vouch for by address, or a new one.\<close>

definition sso_owner :: "golib \<Rightarrow> sso_identity \<Rightarrow> db \<Rightarrow> int \<Rightarrow> bool" where
  "sso_owner L identity d uid \<longleftrightarrow>
     (\<exists>i \<in> set (oauth_identities d). oiProvider i = canonicalProvider L SSOProviderName
        \<and> oiSubject i = siSubject identity \<and> oiUserID i = uid)
     \<or> siEmailVerified identity \<and> (\<exists>u \<in> set (users d). uID u = uid \<and> uEmailVerifiedAt u \<noteq> None \<and> \<not> uIsGuest u
         \<and> (\<exists>e. NormalizeEmail L (sso_email L identity) = Inr e \<and> uEmail u = Some e))
     \<or> uid \<notin> user_ids d"

lemma sso_refresh_Inr:
  assumes run: "sso_refresh L user identity email now w = (Inr u, w')"
  shows "uID u = uID user \<and> oauth_identities (tables w') = oauth_identities (tables w)
    \<and> oauth_states (tables w') = oauth_states (tables w)"
proof -
  obtain v changed where r: "refreshed user identity email now = (v, changed)" by (cases "refreshed user identity email now")
  then have id: "uID v = uID user" by (auto simp: refreshed_def Let_def split: if_splits)
  obtain q x where q: "UpdateUser L v (uVersion user) w = (q, x)" by (cases "UpdateUser L v (uVersion user) w")
  have "users_only (tables w) (tables x)" using evolvesD [OF evolves_UpdateUser_users q] by (simp add: on_tables_def)
  then have t: "oauth_identities (tables x) = oauth_identities (tables w) \<and> oauth_states (tables x) = oauth_states (tables w)"
    by (auto simp: users_only_def)
  have "u = user \<and> w' = w \<or> w' = x \<and> (q = Inr u \<or> u = user)"
    using run r q by (auto simp: sso_refresh_def attempt_def split: if_splits sum.splits)
  moreover have "uID u = uID user" if "q = Inr u"
    using q unfolding that by (rule UpdateUser_Inr) (simp add: set_user_columns_def id)
  ultimately show ?thesis using t by auto
qed

lemma FindUserByEmail_Inr:
  "FindUserByEmail L email w = (Inr u, w') \<Longrightarrow> tables w' = tables w \<and> u \<in> set (users (tables w))
    \<and> (\<exists>e. NormalizeEmail L email = Inr e \<and> uEmail u = Some e)"
  by (auto simp: FindUserByEmail_def split: sum.splits if_splits dest!: find_user_Inr find_Some_iff')

lemma sso_match_account_Inr:
  assumes run: "sso_match_account L identity email now w = (Inr u, w')" and ok: "users_ok L (tables w)"
  shows "(siEmailVerified identity \<and> u \<in> set (users (tables w)) \<and> uEmailVerifiedAt u \<noteq> None \<and> \<not> uIsGuest u
        \<and> (\<exists>e. NormalizeEmail L email = Inr e \<and> uEmail u = Some e) \<or> uID u \<notin> user_ids (tables w))
    \<and> oauth_identities (tables w') = oauth_identities (tables w) \<and> oauth_states (tables w') = oauth_states (tables w)"
proof -
  obtain q w1 where q: "FindUserByEmail L email w = (q, w1)" by (cases "FindUserByEmail L email w")
  have t1: "tables w1 = tables w"
    using q by (rule evolves_eqD [of "FindUserByEmail L email", rotated]) (intro evolves_intro preord_intro)
  have cases: "(\<exists>v. tables v = tables w \<and> sso_new_account L identity email now v = (Inr u, w')) \<or>
    (q = Inr u \<and> siEmailVerified identity \<and> uEmailVerifiedAt u \<noteq> None \<and> \<not> uIsGuest u \<and> w' = w1)"
    using run q t1 by (auto simp: sso_match_account_def attempt_def split: if_splits sum.splits)
  then show ?thesis
  proof
    assume "\<exists>v. tables v = tables w \<and> sso_new_account L identity email now v = (Inr u, w')"
    then obtain v where t: "tables v = tables w" and "CreateUser L (newSSOUser identity email now) v = (Inr u, w')"
      by (auto simp: sso_new_account_def)
    note cu = CreateUser_Inr [OF this(2)]
    have "\<forall>x \<in> set (users (tables w)). uID x \<le> users_seq (tables w)" using ok by (simp add: users_ok_def)
    with cu t have "uID u \<notin> user_ids (tables w)" by auto
    with cu t show ?thesis by simp
  next
    assume "q = Inr u \<and> siEmailVerified identity \<and> uEmailVerifiedAt u \<noteq> None \<and> \<not> uIsGuest u \<and> w' = w1"
    with q t1 FindUserByEmail_Inr show ?thesis by auto
  qed
qed

lemma sso_account_Inr:
  assumes run: "sso_account L identity now w = (Inr u, w')" and ok: "users_ok L (tables w)"
  shows "sso_owner L identity (tables w) (uID u) \<and> oauth_states (tables w') = oauth_states (tables w)
    \<and> (\<exists>i \<in> set (oauth_identities (tables w')). oiProvider i = canonicalProvider L SSOProviderName
        \<and> oiSubject i = siSubject identity \<and> oiUserID i = uID u)"
proof -
  obtain q w1 where q: "FindOAuthIdentity L SSOProviderName (siSubject identity) w = (q, w1)"
    by (cases "FindOAuthIdentity L SSOProviderName (siSubject identity) w")
  note t1 = FindOAuthIdentity_tables [OF q]
  show ?thesis
  proof (cases q)
    case (Inr old)
    with run q obtain user w2 where user: "uID user = oidUserID old"
      and f: "FindUserByID (oidUserID old) w1 = (Inr user, w2)"
      and rf: "sso_refresh L user identity (sso_email L identity) now w2 = (Inr u, w')"
      by (auto simp: sso_account_def attempt_def Let_def split: if_splits)
    obtain row where row: "row \<in> set (oauth_identities (tables w))" "oiProvider row = canonicalProvider L SSOProviderName"
      "oiSubject row = siSubject identity" "oidUserID old = oiUserID row"
      using FindOAuthIdentity_Inr [of L SSOProviderName "siSubject identity" w old w1] q Inr by auto
    from sso_refresh_Inr [OF rf] FindUserByID_Inr [OF f] t1 user have "uID u = oiUserID row"
      "oauth_identities (tables w') = oauth_identities (tables w)" "oauth_states (tables w') = oauth_states (tables w)"
      by (simp_all add: row)
    with row show ?thesis by (auto simp: sso_owner_def intro!: bexI [of _ row])
  next
    case (Inl e)
    let ?i = "\<lambda>uid. \<lparr>oidID = 0, oidUserID = uid, oidProvider = SSOProviderName, oidSubject = siSubject identity,
      oidEmail = sso_email L identity, oidCreatedAt = now\<rparr>"
    from Inl run q obtain w2 where m: "sso_match_account L identity (sso_email L identity) now w1 = (Inr u, w2)"
      and c: "CreateOAuthIdentity L (?i (uID u)) w2 = (Inr (), w')"
      by (auto simp: sso_account_def attempt_def Let_def split: if_splits)
    have "users_ok L (tables w1)" using ok t1 by simp
    note m = sso_match_account_Inr [OF m this, unfolded t1]
    from CreateOAuthIdentity_Inr [OF c] obtain n where
      t: "tables w' = (tables w2)\<lparr>oauth_identities := oauth_identities (tables w2)
        @ [identity_row_of ((?i (uID u))\<lparr>oidProvider := canonicalProvider L SSOProviderName\<rparr>) n], oauth_identities_seq := n\<rparr>"
      by auto
    have "sso_owner L identity (tables w) (uID u)" using m by (auto simp: sso_owner_def)
    with m show ?thesis by (simp add: t)
  qed
qed

lemma ConsumeOAuthState_Inr:
  assumes "ConsumeOAuthState L raw now w = (Inr st, w')"
  obtains row where "row \<in> set (oauth_states (tables w))" "pending_state (tokenDigest L raw) now row"
    "ostProvider st = osProvider row" "ostAction st = osAction row"
    "ostUserID st = (case osUserID row of None \<Rightarrow> 0 | Some u \<Rightarrow> u)" "osUserID row = None \<or> 0 < ostUserID st"
    "tables w' = (tables w)\<lparr>oauth_states := spend_state (tokenDigest L raw) now (oauth_states (tables w))\<rparr>"
  using assms
proof (rule ConsumeOAuthState_cases)
  fix r
  assume f: "find (pending_state (tokenDigest L raw) now) (oauth_states (tables w)) = Some r"
    and t: "tables w' = (tables w)\<lparr>oauth_states := spend_state (tokenDigest L raw) now (oauth_states (tables w))\<rparr>"
    and "\<And>x. Inr st = (Inr x :: error + oauth_state) \<Longrightarrow> \<exists>y. scanOAuthState r = Inr y \<and> x = y\<lparr>ostState := raw\<rparr>"
  then obtain y where y: "scanOAuthState r = Inr y" "st = y\<lparr>ostState := raw\<rparr>" by blast
  show thesis
    by (rule that [of r])
       (use f t y find_Some_iff' [OF f] in \<open>auto simp: scanOAuthState_def Let_def split: if_splits option.splits\<close>)
qed simp

lemma evolves_sso_client:
  assumes c: "covers_quiet R" and ext: "relying_party_external (scRelyingParty s)"
    and cu: "\<And>u. evolves (on_tables R) (CreateUser L u)" and u: "\<And>u v. evolves (on_tables R) (UpdateUser L u v)"
    and up: "\<And>u v i t. evolves (on_tables R) (UpgradeGuestWithIdentity L u v i t)"
    and sso: "\<And>f uid. ssSSO (scSessions s) = Some f \<Longrightarrow> evolves (on_tables R) (f uid)"
  shows "evolves (on_tables R) (sso_Start L s)" "evolves (on_tables R) (StartUpgrade L s uid)"
    "evolves (on_tables R) (sso_Callback L s uid code raw)"
  unfolding sso_Start_def StartUpgrade_def sso_start_def sso_Callback_def
    upgradeGuest_def sso_email_free_def sso_account_def sso_refresh_def sso_match_account_def sso_new_account_def
  by (intro evolves_intro preord_intro covers_quiet_preord [OF c] c relying_party_evolves ext cu u up sso)+

lemma evolves_sso_sign_out:
  assumes c: "covers_quiet R" and ext: "relying_party_external (scRelyingParty s)"
  shows "evolves (on_tables R) (BackChannelLogout s tok)" "evolves (on_tables R) (SignOutURL L s sid)"
proof -
  show "evolves (on_tables R) (BackChannelLogout s tok)"
    unfolding BackChannelLogout_def
    by (intro evolves_intro preord_intro covers_quiet_preord [OF c] c relying_party_evolves ext)
  show "evolves (on_tables R) (SignOutURL L s sid)"
    unfolding SignOutURL_def FindSSOIDToken_def
    by (intro evolves_intro preord_intro covers_quiet_preord [OF c] c relying_party_evolves ext)
       (auto dest!: session_reads intro: preord_refl covers_quiet_preord [OF c])
qed

section \<open>Properties\<close>

text \<open>
  C25: A single sign-on callback completes only the flow it belongs to. It was made with a pending state of the issuer,
  spent afterwards, and with an identity the issuer returned for its code. An upgrade was started by the account now
  signed in, which was a guest and becomes the account of a subject nobody had, keeping its identifier, with its
  transfer codes revoked and no open session but the new one. A sign-in opens a session of the subject's own account,
  of an account whose confirmed address the issuer confirms too, or of a new account, and leaves the subject linked to it.
\<close>

theorem sso_Callback_bound:
  assumes run: "sso_Callback L s actor code raw w = (Inr res, w')" and ok: "users_ok L (tables w)"
    and ext: "relying_party_external (scRelyingParty s)" and sso: "sso_revoker_ok (scSessions s)"
  shows "\<exists>row identity v wa wb. row \<in> set (oauth_states (tables w)) \<and> pending_state (tokenDigest L raw) (unix_now w) row
    \<and> osProvider row = SSOProviderName \<and> rpExchange (scRelyingParty s) code v wa = (Inr identity, wb)
    \<and> \<not> holds_state L (tables w') raw (unix_now w)
    \<and> (if cbUpgraded res
       then osAction row = ''link'' \<and> osUserID row = Some actor \<and> sUserID (cbSession res) = actor
         \<and> (\<exists>u saved. u \<in> set (users (tables w)) \<and> uID u = actor \<and> uIsGuest u \<and> uID saved = actor \<and> \<not> uIsGuest saved
             \<and> users (tables w') = update_where (\<lambda>v. uID v = actor) (\<lambda>_. saved) (users (tables w)))
         \<and> (canonicalProvider L SSOProviderName, siSubject identity)
             \<notin> (\<lambda>i. (oiProvider i, oiSubject i)) ` set (oauth_identities (tables w))
         \<and> cut_over L actor (cbSession res) (tables w')
       else osAction row = ''sign-in'' \<and> osUserID row = None \<and> sso_owner L identity (tables w) (sUserID (cbSession res)))
    \<and> (\<exists>i \<in> set (oauth_identities (tables w')). oiProvider i = canonicalProvider L SSOProviderName
        \<and> oiSubject i = siSubject identity \<and> oiUserID i = sUserID (cbSession res))"
proof -
  from run obtain st w1 identity w2 where c: "ConsumeOAuthState L raw (unix_now w) w = (Inr st, w1)"
    and st: "sso_state_ok st actor (unix_now w)"
    and x: "rpExchange (scRelyingParty s) code (ostCodeVerifier st) w1 = (Inr identity, w2)"
    and flow: "(if ostAction st = oauthActionLink then upgradeGuest L s (ostUserID st) identity (unix_now w)
          else
            call (sso_account L identity (unix_now w)) id (\<lambda>user.
            call (CreateSSO L (scSessions s) (uID user) (siSessionID identity) (siIDToken identity)) Wrap (\<lambda>session.
            ret \<lparr>cbSession = session, cbUpgraded = False\<rparr>))) w2 = (Inr res, w')"
    by (auto simp: sso_Callback_def normalizeOAuthState_def split: if_splits)
  from c obtain row where row: "row \<in> set (oauth_states (tables w))" "pending_state (tokenDigest L raw) (unix_now w) row"
    and sr: "ostProvider st = osProvider row" "ostAction st = osAction row"
      "ostUserID st = (case osUserID row of None \<Rightarrow> 0 | Some u \<Rightarrow> u)" "osUserID row = None \<or> 0 < ostUserID st"
    and t1: "tables w1 = (tables w)\<lparr>oauth_states := spend_state (tokenDigest L raw) (unix_now w) (oauth_states (tables w))\<rparr>"
    by (rule ConsumeOAuthState_Inr)
  have t2: "tables w2 = tables w1" by (rule evolves_eqD [OF relying_party_evolves(2) [OF preord_eq ext] x])
  have spent: "\<not> holds_state L (tables w') raw (unix_now w)" if "oauth_states (tables w') = oauth_states (tables w2)"
    using that by (intro holds_state_spend(1) [OF _ order_refl]) (simp add: t2 t1)
  have prov: "osProvider row = SSOProviderName" using st sr by (simp add: sso_state_ok_def)
  show ?thesis
  proof (cases "ostAction st = oauthActionLink")
    case True
    then have actor: "ostUserID st = actor" "0 < actor" using st by (auto simp: sso_state_ok_def oauthActionLink_def oauthActionSignIn_def)
    then have bound: "osUserID row = Some actor" using sr(3) by (auto split: option.splits)
    from flow True actor have "upgradeGuest L s actor identity (unix_now w) w2 = (Inr res, w')" by simp
    note up = upgradeGuest_Inr [OF this sso, unfolded t2]
    then have frame: "oauth_states (tables w') = oauth_states (tables w2)" by (simp add: t2)
    from up row prov x spent [OF frame] bound True sr(2) show ?thesis
      by (intro exI [of _ row] exI [of _ identity] exI [of _ "ostCodeVerifier st"] exI [of _ w1] exI [of _ w2])
         (auto simp: t1 oauthActionLink_def)
  next
    case False
    then have act: "ostAction st = oauthActionSignIn" "ostUserID st = 0" using st by (auto simp: sso_state_ok_def split: if_splits)
    then have bound: "osUserID row = None" using sr(3,4) by auto
    from flow False obtain user w3 ses where a: "sso_account L identity (unix_now w) w2 = (Inr user, w3)"
      and cr: "CreateSSO L (scSessions s) (uID user) (siSessionID identity) (siIDToken identity) w3 = (Inr ses, w')"
      and res: "res = \<lparr>cbSession = ses, cbUpgraded = False\<rparr>" by auto
    have "users_ok L (tables w2)" using ok by (simp add: t2 t1)
    note a = sso_account_Inr [OF a this]
    from CreateSSO_Inr [OF cr] obtain r where ses: "sUserID ses = uID user"
      and t': "tables w' = (tables w3)\<lparr>sessions := sessions (tables w3) @ [r]\<rparr>" by blast
    have frame: "oauth_states (tables w') = oauth_states (tables w2)" using a by (simp add: t')
    have "sso_owner L identity (tables w) (uID user)" using a by (simp add: t2 t1 sso_owner_def)
    with a row prov x spent [OF frame] bound act sr(2) show ?thesis
      by (intro exI [of _ row] exI [of _ identity] exI [of _ "ostCodeVerifier st"] exI [of _ w1] exI [of _ w2])
         (simp add: res ses t' oauthActionSignIn_def)
  qed
qed

section \<open>Worked examples\<close>

definition demo_relying_party :: sso_relying_party where
  "demo_relying_party = \<lparr>rpAuthorizationURL = (\<lambda>st ch. ret (''https://i/'' @ st)),
     rpExchange = (\<lambda>code v. ret \<lparr>siSubject = ''sub'', siEmail = [], siEmailVerified = False, siName = [],
       siLocale = ''en'', siSessionID = ''sid'', siIDToken = ''tok''\<rparr>),
     rpVerifyLogoutToken = (\<lambda>t. ret ''sid''), rpEndSessionURL = (\<lambda>t u. ret u)\<rparr>"

definition demo_sso_client :: sso_client where
  "demo_sso_client = \<lparr>scRelyingParty = demo_relying_party, scSessions = \<lparr>ssLifetime = 3600000000000, ssSSO = None\<rparr>,
     scStateLife = 600000000000, scPostLogoutURL = ''https://a/'', scParseURL = (\<lambda>_. None)\<rparr>"

definition demo_sso_world :: world where
  "demo_sso_world = demo_world\<lparr>tables := demo_db\<lparr>
     oauth_states := [\<lparr>osState = tokenDigest ascii_lib (replicate 64 (CHR ''a'')), osProvider = ''sso'',
       osAction = ''link'', osUserID = Some 3, osCodeVerifier = Some ''v'', osCreatedAt = 0, osExpiresAt = 2000,
       osConsumedAt = None\<rparr>]\<rparr>\<rparr>"

theorem sso_Callback_bound_witness:
  "\<exists>res w'. sso_Callback ascii_lib demo_sso_client 3 ''code'' (replicate 64 (CHR ''a'')) demo_sso_world = (Inr res, w')
     \<and> cbUpgraded res \<and> cut_over ascii_lib 3 (cbSession res) (tables w')"
proof -
  let ?run = "sso_Callback ascii_lib demo_sso_client 3 ''code'' (replicate 64 (CHR ''a'')) demo_sso_world"
  have "case fst ?run of Inl _ \<Rightarrow> False | Inr res \<Rightarrow> cbUpgraded res" by code_simp
  then obtain res where "fst ?run = Inr res" and up: "cbUpgraded res" by (auto split: sum.splits)
  then have r: "?run = (Inr res, snd ?run)" by (metis prod.collapse)
  have ok: "users_ok ascii_lib (tables demo_sso_world)" using demo_db_ok by (simp add: demo_sso_world_def db_ok_def)
  have ext: "relying_party_external (scRelyingParty demo_sso_client)"
    by (simp add: relying_party_external_def demo_sso_client_def demo_relying_party_def evolves_ret preord_on_tables preord_eq)
  have sso: "sso_revoker_ok (scSessions demo_sso_client)" by (simp add: sso_revoker_ok_def demo_sso_client_def)
  from sso_Callback_bound [OF r ok ext sso] up have "cut_over ascii_lib 3 (cbSession res) (tables (snd ?run))" by auto
  with r up show ?thesis by blast
qed

end
