(* ===== verification/UsageQueue.thy ===== *)
theory UsageQueue
  imports AuditTrail "HOL-Library.While_Combinator" "HOL-Library.Sublist"
begin

text \<open>
  Usage recording (\<^verbatim>\<open>internal/service/usage.go\<close>, \<^verbatim>\<open>internal/store/postgres/usage.go\<close>): the normalisation of an
  observed request, the row it becomes, and the bounded queue between the requests that report events and the
  worker that stores them. The queue is a step relation, one step per shared-memory action of the code, because the
  reporting requests, the worker and the shutdown interleave.
\<close>

section \<open>Events\<close>

definition DefaultUsageQueueCapacity :: nat where "DefaultUsageQueueCapacity = 1024"
definition DefaultUsageRetryAttempts :: nat where "DefaultUsageRetryAttempts = 3"
definition MaxUsageRouteLength :: nat where "MaxUsageRouteLength = 255"
definition MaxUsageMethodLength :: nat where "MaxUsageMethodLength = 8"
definition MaxUsageOriginLength :: nat where "MaxUsageOriginLength = 64"
definition MaxUsageRequestIDLength :: nat where "MaxUsageRequestIDLength = 64"

record usage_event =
  ueCreatedAt :: int
  ueMethod :: string
  ueRoute :: string
  ueStatus :: int
  ueRequestID :: string
  ueTraceID :: string
  ueUserID :: "int option"
  ueIP :: "string option"

text \<open>\<^verbatim>\<open>strings.ContainsAny(route, "?\r\n")\<close>.\<close>

definition route_plain :: "string \<Rightarrow> bool" where
  "route_plain route \<longleftrightarrow> list_all (\<lambda>c. c \<noteq> CHR ''?'' \<and> c \<noteq> CHR 0x0D \<and> c \<noteq> CHR 0x0A) route"

definition usage_id_ok :: "string \<Rightarrow> bool" where
  "usage_id_ok v \<longleftrightarrow> length v \<le> MaxUsageRequestIDLength \<and> (v = [] \<or> printable v)"

definition normalizeUsageEvent :: "usage_event \<Rightarrow> int \<Rightarrow> error + usage_event" where
  "normalizeUsageEvent event now =
     (let method = TrimSpace (ueMethod event); route = TrimSpace (ueRoute event);
          requestID = TrimSpace (ueRequestID event); traceID = TrimSpace (ueTraceID event) in
      if now \<le> 0 then Inl (Ops ErrInvalidUsageEvent)
      else if method = [] \<or> MaxUsageMethodLength < length method \<or> \<not> printable method then Inl (Ops ErrInvalidUsageEvent)
      else if route = [] \<or> MaxUsageRouteLength < length route \<or> \<not> route_plain route \<or> \<not> printable route
        then Inl (Ops ErrInvalidUsageEvent)
      else if ueStatus event < 100 \<or> 599 < ueStatus event then Inl (Ops ErrInvalidUsageEvent)
      else if \<not> usage_id_ok requestID then Inl (Ops ErrInvalidUsageEvent)
      else if \<not> usage_id_ok traceID then Inl (Ops ErrInvalidUsageEvent)
      else Inr \<lparr>ueCreatedAt = now, ueMethod = method, ueRoute = route, ueStatus = ueStatus event,
        ueRequestID = requestID, ueTraceID = traceID,
        ueUserID = (case ueUserID event of Some u \<Rightarrow> if 0 < u then Some u else None | None \<Rightarrow> None),
        ueIP = (case ueIP event of
            Some ip \<Rightarrow> let origin = TrimSpace ip in
              if origin \<noteq> [] \<and> length origin \<le> MaxUsageOriginLength \<and> printable origin then Some origin else None
          | None \<Rightarrow> None)\<rparr>)"

section \<open>Rows\<close>

text \<open>
  \<^verbatim>\<open>000004_create_security_history.up.sql\<close>, \<^verbatim>\<open>000008_usage_request_link.up.sql\<close>, \<^verbatim>\<open>000009_usage_trace_link.up.sql\<close>:
  the widths and checks of a row, and its reference to an account.
\<close>

record usage_row =
  urCreatedAt :: int
  urMethod :: string
  urRoute :: string
  urStatus :: int
  urRequestID :: "string option"
  urTraceID :: "string option"
  urUserID :: "int option"
  urIP :: "string option"

definition usage_violation :: "int set \<Rightarrow> usage_row \<Rightarrow> error option" where
  "usage_violation accounts r =
     (if \<not> varchar 8 (urMethod r) \<or> \<not> varchar 255 (urRoute r) \<or> \<not> opt_varchar 64 (urRequestID r)
        \<or> \<not> opt_varchar 32 (urTraceID r) \<or> \<not> opt_varchar 64 (urIP r)
        then Some (PgError StringTruncation OtherConstraint)
      else if urMethod r = [] \<or> urRoute r = [] \<or> CHR ''?'' \<in> set (urRoute r) \<or> urStatus r < 100 \<or> 599 < urStatus r
        then Some (PgError CheckViolation OtherConstraint)
      else if (case urUserID r of None \<Rightarrow> False | Some u \<Rightarrow> u \<notin> accounts)
        then Some (PgError ForeignKeyViolation OtherConstraint)
      else None)"

definition nullableUsageRequestID :: "string \<Rightarrow> string option" where
  "nullableUsageRequestID value = (if value = [] then None else Some value)"

text \<open>The rows stored so far, the accounts they may refer to, the clock and the failures still to come.\<close>

record usage_store =
  utAccounts :: "int set"
  utRows :: "usage_row list"
  utNow :: int
  utFaults :: "error option list"

definition RecordUsageEvent :: "usage_event \<Rightarrow> (usage_store, unit) act" where
  "RecordUsageEvent event w =
     (if ueMethod event = [] \<or> ueRoute event = [] \<or> ueStatus event < 100 \<or> 599 < ueStatus event
      then (Inl (Repo ErrInvalidData), w)
      else
        let row = \<lparr>urCreatedAt = (if ueCreatedAt event \<le> 0 then utNow w else ueCreatedAt event),
              urMethod = ueMethod event, urRoute = ueRoute event, urStatus = ueStatus event,
              urRequestID = nullableUsageRequestID (ueRequestID event), urTraceID = nullableUsageRequestID (ueTraceID event),
              urUserID = ueUserID event, urIP = ueIP event\<rparr>;
            v = w\<lparr>utFaults := tl (utFaults w)\<rparr> in
        case (if utFaults w = [] then None else hd (utFaults w)) of
          Some err \<Rightarrow> (Inl (wrapOperation err), v)
        | None \<Rightarrow>
            (case usage_violation (utAccounts w) row of
               Some err \<Rightarrow> (Inl (wrapOperation err), v)
             | None \<Rightarrow> (Inr (), v\<lparr>utRows := utRows w @ [row]\<rparr>)))"

section \<open>Persisting one event\<close>

text \<open>
  The retry loop of \<^verbatim>\<open>persist\<close>: at most \<open>n\<close> tries; a failure after the context ended gives up at once, the wait
  between two tries lets the world go on. (The \<^verbatim>\<open>break\<close> inside the wait leaves the \<^verbatim>\<open>select\<close> only, so a context that
  ends during a wait is noticed after one more try.)
\<close>

fun persist_tries :: "(usage_event \<Rightarrow> ('w, unit) act) \<Rightarrow> ('w \<Rightarrow> bool) \<Rightarrow> ('w \<Rightarrow> 'w) \<Rightarrow> usage_event \<Rightarrow> nat \<Rightarrow> 'w \<Rightarrow> bool \<times> 'w" where
  "persist_tries repository ended wait event 0 w = (False, w)"
| "persist_tries repository ended wait event (Suc n) w =
     (case repository event w of
        (Inr _, w') \<Rightarrow> (True, w')
      | (Inl _, w') \<Rightarrow>
          if ended w' then (False, w')
          else persist_tries repository ended wait event n (if 0 < n then wait w' else w'))"

definition persist :: "(usage_event \<Rightarrow> ('w, unit) act) \<Rightarrow> ('w \<Rightarrow> bool) \<Rightarrow> ('w \<Rightarrow> 'w) \<Rightarrow> nat \<Rightarrow> usage_event \<Rightarrow> 'w \<Rightarrow> bool \<times> 'w" where
  "persist repository ended wait retries event = persist_tries repository ended wait event (max 1 retries)"

section \<open>The queue\<close>

text \<open>
  The channel and its capacity, the closed flag, the events whose report has passed the closed check and now waits to
  send, the event the worker holds, whether the worker still runs, and the counters. A send on a closed channel
  panics, which ends the process.
\<close>

record usage_queue =
  uqCapacity :: nat
  uqEvents :: "usage_event list"
  uqClosed :: bool
  uqSending :: "usage_event list"
  uqHeld :: "usage_event option"
  uqRunning :: bool
  uqRecorded :: nat
  uqFailed :: nat
  uqDropped :: nat
  uqPanicked :: bool

definition NewUsageQueue :: "nat \<Rightarrow> error + usage_queue" where
  "NewUsageQueue capacity =
     (if capacity = 0 then Inl (Ops ErrInvalidUsageConfig)
      else Inr \<lparr>uqCapacity = capacity, uqEvents = [], uqClosed = False, uqSending = [], uqHeld = None, uqRunning = True,
        uqRecorded = 0, uqFailed = 0, uqDropped = 0, uqPanicked = False\<rparr>)"

text \<open>
  The actions: a report normalises its event and passes the check of the closed flag (or is refused), then sends when
  there is room or gives up when its context ends; the worker takes an event, stores it or fails to, and stops when
  its own context has ended, closing the channel on the way out.
\<close>

datatype usage_action =
    Report usage_event int   \<comment> \<open>\<^verbatim>\<open>EnqueueUsage\<close> up to the unlock\<close>
  | Send usage_event         \<comment> \<open>the send branch of its \<^verbatim>\<open>select\<close>\<close>
  | GiveUp usage_event       \<comment> \<open>the cancelled branch\<close>
  | Receive                  \<comment> \<open>the receive branch of \<^verbatim>\<open>Run\<close>\<close>
  | Stored bool              \<comment> \<open>the end of \<^verbatim>\<open>persist\<close>\<close>
  | Stop                     \<comment> \<open>the cancelled branch of \<^verbatim>\<open>Run\<close>\<close>
  | Close                    \<comment> \<open>its deferred \<^verbatim>\<open>close\<close>\<close>

fun queue_do :: "usage_action \<Rightarrow> usage_queue \<Rightarrow> usage_queue option" where
  "queue_do (Report event now) q =
     (case normalizeUsageEvent event now of
        Inl _ \<Rightarrow> Some q
      | Inr e \<Rightarrow> if uqClosed q then Some q else Some (q\<lparr>uqSending := uqSending q @ [e]\<rparr>))"
| "queue_do (Send e) q =
     (if e \<notin> set (uqSending q) then None
      else if uqClosed q then Some (q\<lparr>uqPanicked := True\<rparr>)
      else if uqCapacity q \<le> length (uqEvents q) then None
      else Some (q\<lparr>uqSending := remove1 e (uqSending q), uqEvents := uqEvents q @ [e]\<rparr>))"
| "queue_do (GiveUp e) q =
     (if e \<notin> set (uqSending q) then None
      else Some (q\<lparr>uqSending := remove1 e (uqSending q), uqDropped := uqDropped q + 1\<rparr>))"
| "queue_do Receive q =
     (if \<not> uqRunning q \<or> uqHeld q \<noteq> None then None
      else (case uqEvents q of [] \<Rightarrow> None | e # rest \<Rightarrow> Some (q\<lparr>uqEvents := rest, uqHeld := Some e\<rparr>)))"
| "queue_do (Stored ok) q =
     (if uqHeld q = None then None
      else Some (if ok then q\<lparr>uqHeld := None, uqRecorded := uqRecorded q + 1\<rparr>
                 else q\<lparr>uqHeld := None, uqFailed := uqFailed q + 1\<rparr>))"
| "queue_do Stop q =
     (if \<not> uqRunning q \<or> uqHeld q \<noteq> None then None else Some (q\<lparr>uqRunning := False\<rparr>))"
| "queue_do Close q =
     (if uqRunning q \<or> uqClosed q then None else Some (q\<lparr>uqClosed := True\<rparr>))"

text \<open>\<^verbatim>\<open>Stats\<close>: capacity, pending, recorded, failed, dropped.\<close>

definition usage_Stats :: "usage_queue \<Rightarrow> nat \<times> nat \<times> nat \<times> nat \<times> nat" where
  "usage_Stats q = (uqCapacity q, length (uqEvents q), uqRecorded q, uqFailed q, uqDropped q)"

inductive queue_step :: "usage_queue \<Rightarrow> usage_queue \<Rightarrow> bool" where
  step: "\<not> uqPanicked q \<Longrightarrow> queue_do a q = Some q' \<Longrightarrow> queue_step q q'"

inductive_cases queue_stepE: "queue_step q q'"

inductive queue_reach :: "nat \<Rightarrow> usage_queue \<Rightarrow> bool" for capacity where
  fresh: "NewUsageQueue capacity = Inr q \<Longrightarrow> queue_reach capacity q"
| go_on: "queue_reach capacity q \<Longrightarrow> queue_step q q' \<Longrightarrow> queue_reach capacity q'"

section \<open>The abstract queue\<close>

text \<open>What the queue promises: events leave in the order they entered, each handled once, and only so many wait.\<close>

inductive fifo_step :: "nat \<Rightarrow> usage_event list \<times> nat \<Rightarrow> usage_event list \<times> nat \<Rightarrow> bool" for capacity where
  enter: "length xs \<le> capacity \<Longrightarrow> fifo_step capacity (xs, n) (xs @ [e], n)"
| leave: "fifo_step capacity (e # xs, n) (xs, n + 1)"
| idle: "fifo_step capacity s s"

definition fifo_of :: "usage_queue \<Rightarrow> usage_event list \<times> nat" where
  "fifo_of q = ((case uqHeld q of None \<Rightarrow> [] | Some e \<Rightarrow> [e]) @ uqEvents q, uqRecorded q + uqFailed q)"

definition queue_ok :: "nat \<Rightarrow> usage_queue \<Rightarrow> bool" where
  "queue_ok capacity q \<longleftrightarrow> uqCapacity q = capacity \<and> length (uqEvents q) \<le> capacity
     \<and> (uqClosed q \<longrightarrow> \<not> uqRunning q) \<and> (uqHeld q \<noteq> None \<longrightarrow> uqRunning q)
     \<and> (uqPanicked q \<longrightarrow> uqClosed q \<and> uqSending q \<noteq> [])"

lemma queue_do_ok: "queue_do a q = Some q' \<Longrightarrow> queue_ok c q \<Longrightarrow> \<not> uqPanicked q \<Longrightarrow> queue_ok c q'"
  by (cases a) (auto simp: queue_ok_def split: if_splits sum.splits list.splits)

lemma queue_reach_ok: "queue_reach c q \<Longrightarrow> queue_ok c q"
proof (induction rule: queue_reach.induct)
  case (fresh q)
  then show ?case by (auto simp: NewUsageQueue_def queue_ok_def split: if_splits)
next
  case (go_on q q')
  from go_on.hyps(2) show ?case by (rule queue_stepE) (use go_on.IH queue_do_ok in blast)
qed

lemma queue_do_fifo:
  assumes "queue_do a q = Some q'" "queue_ok c q"
  shows "fifo_step c (fifo_of q) (fifo_of q')"
proof (cases a)
  case (Send e)
  then show ?thesis
  proof (cases "uqClosed q")
    case False
    with Send assms have q': "q' = q\<lparr>uqSending := remove1 e (uqSending q), uqEvents := uqEvents q @ [e]\<rparr>"
      and "length (uqEvents q) < c" by (auto simp: queue_ok_def split: if_splits)
    then have "length (fst (fifo_of q)) \<le> c" by (auto simp: fifo_of_def split: option.split)
    from fifo_step.enter [OF this, of "snd (fifo_of q)" e] show ?thesis by (simp add: q' fifo_of_def split: option.split)
  qed (use Send assms in \<open>auto simp: fifo_of_def intro: fifo_step.idle split: if_splits\<close>)
next
  case (Stored ok)
  with assms obtain e where h: "uqHeld q = Some e" and q': "q' = (if ok then q\<lparr>uqHeld := None, uqRecorded := uqRecorded q + 1\<rparr>
      else q\<lparr>uqHeld := None, uqFailed := uqFailed q + 1\<rparr>)" by (auto split: if_splits)
  show ?thesis using fifo_step.leave [of c e "uqEvents q" "uqRecorded q + uqFailed q"]
    by (simp add: q' fifo_of_def h)
qed (use assms in \<open>auto simp: fifo_of_def intro: fifo_step.idle split: if_splits sum.splits list.splits\<close>)

section \<open>Draining\<close>

text \<open>One turn of the worker's loop, and the loop as long as something is queued.\<close>

definition usage_turn :: "(usage_event \<Rightarrow> 'w \<Rightarrow> bool \<times> 'w) \<Rightarrow> usage_queue \<times> 'w \<Rightarrow> usage_queue \<times> 'w" where
  "usage_turn keep s =
     (case queue_do Receive (fst s) of
        None \<Rightarrow> s
      | Some q \<Rightarrow>
          (case uqHeld q of
             None \<Rightarrow> s
           | Some e \<Rightarrow> (let (ok, w) = keep e (snd s) in
               case queue_do (Stored ok) q of None \<Rightarrow> s | Some q' \<Rightarrow> (q', w))))"

definition usage_drain :: "(usage_event \<Rightarrow> 'w \<Rightarrow> bool \<times> 'w) \<Rightarrow> usage_queue \<times> 'w \<Rightarrow> (usage_queue \<times> 'w) option" where
  "usage_drain keep = while_option (\<lambda>s. uqEvents (fst s) \<noteq> []) (usage_turn keep)"

lemma usage_turn_eq:
  assumes "uqRunning q" "uqHeld q = None" "uqEvents q = e # rest" "keep e w = (ok, w')"
  shows "usage_turn keep (q, w) = (if ok then q\<lparr>uqEvents := rest, uqHeld := None, uqRecorded := uqRecorded q + 1\<rparr>
      else q\<lparr>uqEvents := rest, uqHeld := None, uqFailed := uqFailed q + 1\<rparr>, w')"
  using assms by (simp add: usage_turn_def)

lemma usage_drain_run:
  assumes "uqRunning q" "uqHeld q = None"
  shows "\<exists>q'. usage_drain keep (q, w) = Some (q', foldl (\<lambda>w e. snd (keep e w)) w (uqEvents q))
    \<and> uqEvents q' = [] \<and> uqHeld q' = None \<and> uqRecorded q' + uqFailed q' = uqRecorded q + uqFailed q + length (uqEvents q)
    \<and> uqDropped q' = uqDropped q \<and> uqRunning q'"
  using assms
proof (induction "uqEvents q" arbitrary: q w)
  case Nil
  then show ?case by (intro exI [of _ q]) (simp add: usage_drain_def while_option_unfold)
next
  case (Cons e rest)
  obtain ok w1 where k: "keep e w = (ok, w1)" by (cases "keep e w")
  let ?q = "if ok then q\<lparr>uqEvents := rest, uqHeld := None, uqRecorded := uqRecorded q + 1\<rparr>
      else q\<lparr>uqEvents := rest, uqHeld := None, uqFailed := uqFailed q + 1\<rparr>"
  have t: "usage_turn keep (q, w) = (?q, w1)" using Cons.prems Cons.hyps(2) k by (intro usage_turn_eq) simp_all
  have "usage_drain keep (q, w) = usage_drain keep (?q, w1)"
    unfolding usage_drain_def by (subst while_option_unfold) (simp add: t flip: Cons.hyps(2))
  moreover have "rest = uqEvents ?q" "uqRunning ?q" "uqHeld ?q = None" using Cons.prems by simp_all
  note Cons.hyps(1) [OF this, of w1]
  ultimately show ?case by (auto simp: k simp flip: Cons.hyps(2))
qed

section \<open>Properties\<close>



text \<open>
  C28: Shutting down races with reporting. The queue can reach a panic, because a report checks the closed flag before it
  sends: the channel may be closed in between. It panics in no other way, and once the worker has stopped, the events
  still queued are neither stored nor counted.
\<close>

theorem usage_close_race:
  "(\<exists>q. queue_reach DefaultUsageQueueCapacity q \<and> uqPanicked q)
   \<and> (\<forall>c q. queue_reach c q \<and> uqPanicked q \<longrightarrow> uqClosed q \<and> uqSending q \<noteq> [])
   \<and> (\<forall>c q q'. queue_reach c q \<and> \<not> uqRunning q \<and> queue_step q q' \<longrightarrow>
        prefix (uqEvents q) (uqEvents q') \<and> uqRecorded q' = uqRecorded q \<and> uqFailed q' = uqFailed q
        \<and> (uqEvents q' = uqEvents q \<or> uqDropped q' = uqDropped q))"
proof (intro conjI allI impI)
  let ?e = "\<lparr>ueCreatedAt = 0, ueMethod = ''GET'', ueRoute = ''/'', ueStatus = 200, ueRequestID = [], ueTraceID = [],
    ueUserID = None, ueIP = None\<rparr>"
  let ?n = "?e\<lparr>ueCreatedAt := 1\<rparr>"
  have n: "normalizeUsageEvent ?e 1 = Inr ?n" by code_simp
  obtain q where q: "NewUsageQueue DefaultUsageQueueCapacity = Inr q"
    and q_def: "q = \<lparr>uqCapacity = DefaultUsageQueueCapacity, uqEvents = [], uqClosed = False, uqSending = [], uqHeld = None,
      uqRunning = True, uqRecorded = 0, uqFailed = 0, uqDropped = 0, uqPanicked = False\<rparr>"
    by (simp add: NewUsageQueue_def DefaultUsageQueueCapacity_def)
  let ?q1 = "q\<lparr>uqSending := [?n]\<rparr>" and ?q2 = "q\<lparr>uqSending := [?n], uqRunning := False\<rparr>"
    and ?q3 = "q\<lparr>uqSending := [?n], uqRunning := False, uqClosed := True\<rparr>"
    and ?q4 = "q\<lparr>uqSending := [?n], uqRunning := False, uqClosed := True, uqPanicked := True\<rparr>"
  have s1: "queue_step q ?q1" by (rule queue_step.step [of _ "Report ?e 1"]) (simp_all add: q_def n)
  have s2: "queue_step ?q1 ?q2" by (rule queue_step.step [of _ Stop]) (simp_all add: q_def)
  have s3: "queue_step ?q2 ?q3" by (rule queue_step.step [of _ Close]) (simp_all add: q_def)
  have s4: "queue_step ?q3 ?q4" by (rule queue_step.step [of _ "Send ?n"]) (simp_all add: q_def)
  have "queue_reach DefaultUsageQueueCapacity ?q4"
    by (rule queue_reach.go_on [OF queue_reach.go_on [OF queue_reach.go_on [OF queue_reach.go_on
          [OF queue_reach.fresh [OF q] s1] s2] s3] s4])
  then show "\<exists>q. queue_reach DefaultUsageQueueCapacity q \<and> uqPanicked q" by (intro exI [of _ ?q4]) simp
next
  fix c q
  assume "queue_reach c q \<and> uqPanicked q"
  then show "uqClosed q" "uqSending q \<noteq> []" using queue_reach_ok [of c q] by (auto simp: queue_ok_def)
next
  fix c q q'
  assume a: "queue_reach c q \<and> \<not> uqRunning q \<and> queue_step q q'"
  then have held: "uqHeld q = None" using queue_reach_ok [of c q] by (auto simp: queue_ok_def)
  from a obtain act where act: "queue_do act q = Some q'" by (auto elim: queue_stepE)
  show "prefix (uqEvents q) (uqEvents q')" "uqRecorded q' = uqRecorded q" "uqFailed q' = uqFailed q"
    "uqEvents q' = uqEvents q \<or> uqDropped q' = uqDropped q"
    using act a held by (cases act; auto split: if_splits sum.splits)+
qed

section \<open>Worked examples\<close>

definition demo_event :: usage_event where
  "demo_event = \<lparr>ueCreatedAt = 1, ueMethod = ''GET'', ueRoute = ''/'', ueStatus = 200, ueRequestID = [], ueTraceID = [],
    ueUserID = None, ueIP = None\<rparr>"

definition demo_queue :: "usage_event list \<Rightarrow> usage_event list \<Rightarrow> usage_queue" where
  "demo_queue waiting events = \<lparr>uqCapacity = 1, uqEvents = events, uqClosed = False, uqSending = waiting, uqHeld = None,
     uqRunning = True, uqRecorded = 0, uqFailed = 0, uqDropped = 0, uqPanicked = False\<rparr>"

definition demo_usage_store :: usage_store where
  "demo_usage_store = \<lparr>utAccounts = {}, utRows = [], utNow = 1, utFaults = [Some DriverError]\<rparr>"

lemma demo_queue_reach: "queue_reach 1 (demo_queue [demo_event] [])"
  "queue_step (demo_queue [demo_event] []) (demo_queue [] [demo_event])"
proof -
  have n: "normalizeUsageEvent demo_event 1 = Inr demo_event" by code_simp
  have f: "queue_reach 1 (demo_queue [] [])" by (rule queue_reach.fresh) (simp add: NewUsageQueue_def demo_queue_def)
  have "queue_step (demo_queue [] []) (demo_queue [demo_event] [])"
    by (rule queue_step.step [of _ "Report demo_event 1"]) (simp_all add: demo_queue_def n)
  with f show "queue_reach 1 (demo_queue [demo_event] [])" by (rule queue_reach.go_on)
  show "queue_step (demo_queue [demo_event] []) (demo_queue [] [demo_event])"
    by (rule queue_step.step [of _ "Send demo_event"]) (simp_all add: demo_queue_def)
qed



theorem usage_close_race_witness:
  "\<exists>q. queue_reach DefaultUsageQueueCapacity q \<and> uqPanicked q \<and> uqClosed q"
  using usage_close_race by blast

text \<open>
  A trace identifier may be twice as long as its column: such an event passes normalisation and is then refused by
  every attempt to store it.
\<close>

lemma usage_trace_overflow:
  "\<exists>event e. normalizeUsageEvent event 1 = Inr e
     \<and> (\<forall>w. utFaults w = [] \<longrightarrow> \<not> fst (persist RecordUsageEvent ended wait 1 e w) \<and> utRows (snd (persist RecordUsageEvent ended wait 1 e w)) = utRows w)"
proof -
  let ?e = "demo_event\<lparr>ueTraceID := replicate 33 (CHR ''a'')\<rparr>"
  have n: "normalizeUsageEvent ?e 1 = Inr ?e" by code_simp
  have v: "\<not> opt_varchar 32 (nullableUsageRequestID (replicate 33 (CHR ''a'')))" by code_simp
  then have "\<not> fst (persist RecordUsageEvent ended wait 1 ?e w) \<and> utRows (snd (persist RecordUsageEvent ended wait 1 ?e w)) = utRows w"
    if "utFaults w = []" for w
    using that by (simp add: persist_def RecordUsageEvent_def usage_violation_def demo_event_def Let_def)
  with n show ?thesis by blast
qed

end
