(* ===== verification/Maintenance.thy ===== *)
theory Maintenance
  imports Guests UsageQueue SSOProvider
begin

text \<open>
  Scheduled cleanup: retention of links, flow states, sessions of the issuer, sign-in history and usage events
  (\<^verbatim>\<open>internal/service/retention.go\<close>, \<^verbatim>\<open>store/postgres/retention.go\<close>) and the worker that runs the cleanup jobs
  (\<^verbatim>\<open>internal/service/maintenance.go\<close>).
\<close>

section \<open>Deleting what is past its time\<close>

definition spent :: "int \<Rightarrow> token_row \<Rightarrow> bool" where
  "spent now t \<longleftrightarrow> tConsumedAt t \<noteq> None \<or> tExpiresAt t \<le> now"

definition spent_state :: "int \<Rightarrow> oauth_state_row \<Rightarrow> bool" where
  "spent_state now s \<longleftrightarrow> osConsumedAt s \<noteq> None \<or> osExpiresAt s \<le> now"

definition removed_by :: "('r \<Rightarrow> bool) \<Rightarrow> 'r list \<Rightarrow> int" where
  "removed_by P rows = int (length (filter P rows))"

definition retention_delete :: "int stmt \<Rightarrow> int \<Rightarrow> int prog" where
  "retention_delete q cutoff =
     (if cutoff \<le> 0 then fail (Repo ErrInvalidData) else call (query q) wrapOperation ret)"

definition DeleteExpiredEmailConfirmationTokens :: "int \<Rightarrow> int prog" where
  "DeleteExpiredEmailConfirmationTokens now = retention_delete (\<lambda>d. (Inr (removed_by (spent now) (email_tokens d)),
     d\<lparr>email_tokens := delete_where (spent now) (email_tokens d)\<rparr>)) now"

definition DeleteExpiredPasswordResetTokens :: "int \<Rightarrow> int prog" where
  "DeleteExpiredPasswordResetTokens now = retention_delete (\<lambda>d. (Inr (removed_by (spent now) (reset_tokens d)),
     d\<lparr>reset_tokens := delete_where (spent now) (reset_tokens d)\<rparr>)) now"

definition DeleteExpiredOAuthStates :: "int \<Rightarrow> int prog" where
  "DeleteExpiredOAuthStates now = retention_delete (\<lambda>d. (Inr (removed_by (spent_state now) (oauth_states d)),
     d\<lparr>oauth_states := delete_where (spent_state now) (oauth_states d)\<rparr>)) now"

definition DeleteExpiredSSOLoginSessions :: "int \<Rightarrow> int prog" where
  "DeleteExpiredSSOLoginSessions now = retention_delete (\<lambda>d. (Inr (removed_by (\<lambda>s. ssExpiresAt s \<le> now) (sso_logins d)),
     d\<lparr>sso_logins := delete_where (\<lambda>s. ssExpiresAt s \<le> now) (sso_logins d)\<rparr>)) now"

definition DeleteLoginAttemptsBefore :: "int \<Rightarrow> int prog" where
  "DeleteLoginAttemptsBefore cutoff = retention_delete (\<lambda>d. (Inr (removed_by (\<lambda>a. laCreatedAt a < cutoff) (login_attempts d)),
     d\<lparr>login_attempts := delete_where (\<lambda>a. laCreatedAt a < cutoff) (login_attempts d)\<rparr>)) cutoff"

definition DeleteUsageEventsBefore :: "int \<Rightarrow> (usage_store, int) act" where
  "DeleteUsageEventsBefore cutoff w =
     (if cutoff \<le> 0 then (Inl (Repo ErrInvalidData), w)
      else
        let v = w\<lparr>utFaults := tl (utFaults w)\<rparr> in
        case (if utFaults w = [] then None else hd (utFaults w)) of
          Some err \<Rightarrow> (Inl (wrapOperation err), v)
        | None \<Rightarrow> (Inr (removed_by (\<lambda>r. urCreatedAt r < cutoff) (utRows w)),
            v\<lparr>utRows := delete_where (\<lambda>r. urCreatedAt r < cutoff) (utRows w)\<rparr>))"

section \<open>The retention service\<close>

definition DefaultLoginAttemptRetention :: int where "DefaultLoginAttemptRetention = 30 * 24 * (3600 * time_Second)"
definition DefaultUsageRetention :: int where "DefaultUsageRetention = 90 * 24 * (3600 * time_Second)"

text \<open>The two periods, in nanoseconds.\<close>

record retention_service =
  LoginRetention :: int
  UsageRetention :: int

definition NewRetentionService :: "int \<Rightarrow> int \<Rightarrow> error + retention_service" where
  "NewRetentionService loginRetention usageRetention =
     (if loginRetention \<le> 0 \<or> usageRetention \<le> 0 then Inl (Ops ErrInvalidRetentionConfig)
      else Inr \<lparr>LoginRetention = loginRetention, UsageRetention = usageRetention\<rparr>)"

definition retention_validate :: "retention_service \<Rightarrow> error option" where
  "retention_validate s =
     (if LoginRetention s \<le> 0 \<or> UsageRetention s \<le> 0 then Some (Ops ErrInvalidRetentionConfig) else None)"

text \<open>
  A maintenance task returns a count and possibly an error beside it; \<open>task_of\<close> reads an operation that returns
  zero with its error.
\<close>

type_synonym 'w maintenance_task = "'w \<Rightarrow> (int \<times> error option) \<times> 'w"

definition task_of :: "('w, int) act \<Rightarrow> 'w maintenance_task" where
  "task_of m w = (case m w of (Inl e, w') \<Rightarrow> ((0, Some e), w') | (Inr n, w') \<Rightarrow> ((n, None), w'))"

fun remove_each :: "('w, int) act list \<Rightarrow> int \<Rightarrow> 'w maintenance_task" where
  "remove_each [] removed w = ((removed, None), w)"
| "remove_each (remove # rest) removed w =
     (case remove w of
        (Inl err, w') \<Rightarrow> ((removed, Some (Wrap err)), w')
      | (Inr count, w') \<Rightarrow> remove_each rest (removed + count) w')"

definition CleanupTokens :: "retention_service \<Rightarrow> world maintenance_task" where
  "CleanupTokens s w =
     (case retention_validate s of
        Some err \<Rightarrow> ((0, Some err), w)
      | None \<Rightarrow>
          let now = unix_now w in
          remove_each [DeleteExpiredEmailConfirmationTokens now, DeleteExpiredPasswordResetTokens now,
            DeleteExpiredOAuthStates now, DeleteExpiredSSOLoginSessions now] 0 w)"

definition CleanupLoginAttempts :: "retention_service \<Rightarrow> world maintenance_task" where
  "CleanupLoginAttempts s w =
     (case retention_validate s of
        Some err \<Rightarrow> ((0, Some err), w)
      | None \<Rightarrow> task_of (call (DeleteLoginAttemptsBefore ((now_ns w - LoginRetention s) div time_Second)) Wrap ret) w)"

text \<open>The usage events live in a store of their own; \<open>now\<close> is the service's clock.\<close>

definition CleanupUsageEvents :: "retention_service \<Rightarrow> int \<Rightarrow> usage_store maintenance_task" where
  "CleanupUsageEvents s now w =
     (case retention_validate s of
        Some err \<Rightarrow> ((0, Some err), w)
      | None \<Rightarrow> task_of (call (DeleteUsageEventsBefore ((now - UsageRetention s) div time_Second)) Wrap ret) w)"

section \<open>The worker\<close>

definition DefaultMaintenanceInterval :: int where "DefaultMaintenanceInterval = 6 * (3600 * time_Second)"
definition maxMaintenanceJobName :: nat where "maxMaintenanceJobName = 64"

record 'w maintenance_job =
  mjName :: string
  mjRun :: "'w maintenance_task"

record maintenance_run =
  mrJob :: string
  mrStartedAt :: int
  mrFinishedAt :: int
  mrDeleted :: int
  mrErr :: "error option"

definition Failed :: "maintenance_run \<Rightarrow> bool" where
  "Failed r \<longleftrightarrow> mrErr r \<noteq> None"

record maintenance_status =
  msJob :: string
  msRuns :: int
  msFailures :: int
  msLastStartedAt :: int
  msLastFinishedAt :: int
  msLastDuration :: int
  msLastDeleted :: int
  msLastError :: "error option"

definition fresh_status :: "string \<Rightarrow> maintenance_status" where
  "fresh_status name = \<lparr>msJob = name, msRuns = 0, msFailures = 0, msLastStartedAt = 0, msLastFinishedAt = 0,
     msLastDuration = 0, msLastDeleted = 0, msLastError = None\<rparr>"

record 'w maintenance_worker =
  mwJobs :: "'w maintenance_job list"
  mwInterval :: int
  mwOrder :: "string list"
  mwStatus :: "string \<rightharpoonup> maintenance_status"

definition validateMaintenanceJob :: "string \<times> 'w maintenance_task option \<Rightarrow> bool" where
  "validateMaintenanceJob job \<longleftrightarrow>
     snd job \<noteq> None \<and> fst job \<noteq> [] \<and> length (fst job) \<le> maxMaintenanceJobName \<and> printable (fst job)"

text \<open>The loop of the constructor over its jobs, as named by the caller; a missing operation is \<open>None\<close>.\<close>

fun register_jobs :: "(string \<times> 'w maintenance_task option) list \<Rightarrow> 'w maintenance_worker \<Rightarrow> error + 'w maintenance_worker" where
  "register_jobs [] worker = Inr worker"
| "register_jobs (job # rest) worker =
     (if \<not> validateMaintenanceJob job then Inl (Ops ErrInvalidMaintenanceJob)
      else if mwStatus worker (fst job) \<noteq> None then Inl (Ops ErrInvalidMaintenanceJob)
      else register_jobs rest (worker\<lparr>
        mwJobs := mwJobs worker @ [\<lparr>mjName = fst job, mjRun = the (snd job)\<rparr>],
        mwOrder := mwOrder worker @ [fst job],
        mwStatus := (mwStatus worker)(fst job \<mapsto> fresh_status (fst job))\<rparr>))"

definition NewMaintenanceWorker :: "int \<Rightarrow> (string \<times> 'w maintenance_task option) list \<Rightarrow> error + 'w maintenance_worker" where
  "NewMaintenanceWorker interval jobs =
     (case register_jobs jobs \<lparr>mwJobs = [], mwInterval = (if interval \<le> 0 then DefaultMaintenanceInterval else interval),
         mwOrder = [], mwStatus = Map.empty\<rparr> of
        Inl err \<Rightarrow> Inl err
      | Inr worker \<Rightarrow> if mwJobs worker = [] then Inl (Ops ErrInvalidMaintenanceConfig) else Inr worker)"

definition maintenance_Jobs :: "'w maintenance_worker \<Rightarrow> string list" where
  "maintenance_Jobs w = mwOrder w"

definition recorded :: "maintenance_run \<Rightarrow> int \<Rightarrow> maintenance_status \<Rightarrow> maintenance_status" where
  "recorded run duration st =
     (let st = st\<lparr>msRuns := msRuns st + 1, msLastStartedAt := mrStartedAt run, msLastFinishedAt := mrFinishedAt run,
        msLastDuration := duration, msLastDeleted := mrDeleted run, msLastError := mrErr run\<rparr> in
      if Failed run then st\<lparr>msFailures := msFailures st + 1\<rparr> else st)"

definition worker_record :: "maintenance_run \<Rightarrow> int \<Rightarrow> 'w maintenance_worker \<Rightarrow> 'w maintenance_worker" where
  "worker_record run duration w =
     (case mwStatus w (mrJob run) of
        None \<Rightarrow> w\<lparr>mwStatus := (mwStatus w)(mrJob run \<mapsto> recorded run duration (fresh_status (mrJob run))),
          mwOrder := mwOrder w @ [mrJob run]\<rparr>
      | Some st \<Rightarrow> w\<lparr>mwStatus := (mwStatus w)(mrJob run \<mapsto> recorded run duration st)\<rparr>)"

text \<open>
  \<open>now\<close> reads the clock of the world, in nanoseconds; a task may let time pass. The run keeps the error where the code
  keeps its bounded message.
\<close>

definition runJob :: "('w \<Rightarrow> int) \<Rightarrow> 'w maintenance_job \<Rightarrow> 'w maintenance_worker \<times> 'w \<Rightarrow> maintenance_run \<times> 'w maintenance_worker \<times> 'w" where
  "runJob now job p =
     (case mjRun job (snd p) of ((deleted, err), w') \<Rightarrow>
        let run = \<lparr>mrJob = mjName job, mrStartedAt = now (snd p) div time_Second, mrFinishedAt = now w' div time_Second,
              mrDeleted = deleted, mrErr = err\<rparr> in
        (run, worker_record run (now w' - now (snd p)) (fst p), w'))"

fun run_jobs :: "('w \<Rightarrow> int) \<Rightarrow> 'w maintenance_job list \<Rightarrow> 'w maintenance_worker \<times> 'w \<Rightarrow> maintenance_run list \<times> 'w maintenance_worker \<times> 'w" where
  "run_jobs now [] p = ([], p)"
| "run_jobs now (job # jobs) p =
     (case runJob now job p of (run, q) \<Rightarrow> (case run_jobs now jobs q of (runs, q') \<Rightarrow> (run # runs, q')))"

definition RunOnce :: "('w \<Rightarrow> int) \<Rightarrow> 'w maintenance_worker \<times> 'w \<Rightarrow> maintenance_run list \<times> 'w maintenance_worker \<times> 'w" where
  "RunOnce now p = run_jobs now (mwJobs (fst p)) p"

definition RunJob :: "('w \<Rightarrow> int) \<Rightarrow> string \<Rightarrow> 'w maintenance_worker \<times> 'w \<Rightarrow> (error + maintenance_run) \<times> 'w maintenance_worker \<times> 'w" where
  "RunJob now name p =
     (case find (\<lambda>job. mjName job = name) (mwJobs (fst p)) of
        None \<Rightarrow> (Inl (Ops ErrUnknownMaintenanceJob), p)
      | Some job \<Rightarrow> (case runJob now job p of (run, q) \<Rightarrow> (Inr run, q)))"

text \<open>
  \<open>Run\<close>: once at the start, then on every tick until the context ends. The list says how the world goes on up to each
  tick; it ends when the context is cancelled.
\<close>

fun worker_ticks :: "('w \<Rightarrow> int) \<Rightarrow> ('w \<Rightarrow> 'w) list \<Rightarrow> 'w maintenance_worker \<times> 'w \<Rightarrow> 'w maintenance_worker \<times> 'w" where
  "worker_ticks now [] p = p"
| "worker_ticks now (wait # ticks) p = worker_ticks now ticks (snd (RunOnce now (fst p, wait (snd p))))"

definition worker_Run :: "('w \<Rightarrow> int) \<Rightarrow> ('w \<Rightarrow> 'w) list \<Rightarrow> 'w maintenance_worker \<times> 'w \<Rightarrow> error option \<times> 'w maintenance_worker \<times> 'w" where
  "worker_Run now ticks p =
     (if mwInterval (fst p) \<le> 0 then (Some (Ops ErrInvalidMaintenanceConfig), p)
      else (None, worker_ticks now ticks (snd (RunOnce now p))))"

fun status_list :: "(string \<rightharpoonup> maintenance_status) \<Rightarrow> string list \<Rightarrow> maintenance_status list" where
  "status_list m [] = []"
| "status_list m (name # names) = (case m name of None \<Rightarrow> [] | Some st \<Rightarrow> [st]) @ status_list m names"

definition Status :: "'w maintenance_worker \<Rightarrow> maintenance_status list" where
  "Status w = status_list (mwStatus w) (mwOrder w)"

section \<open>Runs and their record\<close>

definition runs_of :: "'w maintenance_worker \<Rightarrow> string \<Rightarrow> (int \<times> int) option" where
  "runs_of w name = map_option (\<lambda>st. (msRuns st, msFailures st)) (mwStatus w name)"

text \<open>The jobs are registered once each, and each has been run \<open>n\<close> times.\<close>

definition worker_ok :: "nat \<Rightarrow> 'w maintenance_worker \<Rightarrow> bool" where
  "worker_ok n w \<longleftrightarrow> mwOrder w = map mjName (mwJobs w) \<and> distinct (mwOrder w)
     \<and> (\<forall>name \<in> set (mwOrder w). \<exists>st. mwStatus w name = Some st \<and> msJob st = name
          \<and> msRuns st = int n \<and> msFailures st \<le> msRuns st)"

definition run_all :: "'w maintenance_job list \<Rightarrow> 'w \<Rightarrow> 'w" where
  "run_all jobs = fold (\<lambda>job u. snd (mjRun job u)) jobs"

lemma register_jobs_Inr:
  assumes "register_jobs jobs w = Inr v" and "worker_ok 0 w" and "set (mwOrder w) = dom (mwStatus w)"
  shows "worker_ok 0 v \<and> mwOrder v = mwOrder w @ map fst jobs \<and> mwInterval v = mwInterval w
    \<and> mwJobs v = mwJobs w @ map (\<lambda>j. \<lparr>mjName = fst j, mjRun = the (snd j)\<rparr>) jobs"
  using assms
proof (induction jobs arbitrary: w)
  case (Cons job jobs)
  let ?w = "w\<lparr>mwJobs := mwJobs w @ [\<lparr>mjName = fst job, mjRun = the (snd job)\<rparr>], mwOrder := mwOrder w @ [fst job],
      mwStatus := (mwStatus w)(fst job \<mapsto> fresh_status (fst job))\<rparr>"
  from Cons.prems have new: "mwStatus w (fst job) = None" and r: "register_jobs jobs ?w = Inr v"
    by (auto split: if_splits)
  have "fst job \<notin> set (mwOrder w)" using new Cons.prems(3) by (simp add: domIff)
  then have ok: "worker_ok 0 ?w" using Cons.prems(2) by (auto simp: worker_ok_def fresh_status_def)
  have "set (mwOrder ?w) = dom (mwStatus ?w)" using Cons.prems(3) by auto
  from Cons.IH [OF r ok this] show ?case by simp
qed simp

lemma NewMaintenanceWorker_Inr:
  assumes "NewMaintenanceWorker interval jobs = Inr w"
  shows "worker_ok 0 w" and "mwOrder w = map fst jobs" and "0 < mwInterval w"
    and "mwJobs w = map (\<lambda>j. \<lparr>mjName = fst j, mjRun = the (snd j)\<rparr>) jobs"
proof -
  let ?w = "\<lparr>mwJobs = [], mwInterval = (if interval \<le> 0 then DefaultMaintenanceInterval else interval),
      mwOrder = [], mwStatus = Map.empty\<rparr>"
  from assms have r: "register_jobs jobs ?w = Inr w"
    unfolding NewMaintenanceWorker_def by (simp split: sum.splits if_splits)
  have "worker_ok 0 ?w" by (simp add: worker_ok_def)
  from register_jobs_Inr [OF r this]
  show "worker_ok 0 w" and "mwOrder w = map fst jobs" and "0 < mwInterval w"
    and "mwJobs w = map (\<lambda>j. \<lparr>mjName = fst j, mjRun = the (snd j)\<rparr>) jobs"
    by (simp_all add: DefaultMaintenanceInterval_def time_Second_def)
qed

lemma runJob_effect:
  assumes "runJob now job (w, u) = (run, w', u')" and "mwStatus w (mjName job) = Some st"
  shows "mrJob run = mjName job \<and> u' = snd (mjRun job u) \<and> mwJobs w' = mwJobs w \<and> mwOrder w' = mwOrder w
    \<and> mwInterval w' = mwInterval w
    \<and> (\<exists>st'. mwStatus w' = (mwStatus w)(mjName job \<mapsto> st') \<and> msJob st' = msJob st
         \<and> msRuns st' = msRuns st + 1 \<and> (msFailures st \<le> msRuns st \<longrightarrow> msFailures st' \<le> msRuns st'))"
  using assms
  by (auto simp: runJob_def worker_record_def recorded_def Let_def split: prod.splits)

lemma run_jobs_effect:
  assumes "run_jobs now jobs (w, u) = (runs, w', u')" and "distinct (map mjName jobs)"
    and "\<forall>name \<in> mjName ` set jobs. \<exists>st. mwStatus w name = Some st \<and> msJob st = name
          \<and> msRuns st = int n \<and> msFailures st \<le> msRuns st"
  shows "map mrJob runs = map mjName jobs \<and> u' = run_all jobs u \<and> mwJobs w' = mwJobs w \<and> mwOrder w' = mwOrder w
    \<and> mwInterval w' = mwInterval w
    \<and> (\<forall>name. name \<notin> mjName ` set jobs \<longrightarrow> mwStatus w' name = mwStatus w name)
    \<and> (\<forall>name \<in> mjName ` set jobs. \<exists>st. mwStatus w' name = Some st \<and> msJob st = name
         \<and> msRuns st = int (Suc n) \<and> msFailures st \<le> msRuns st)"
  using assms
proof (induction jobs arbitrary: w u runs)
  case (Cons job jobs)
  obtain run w1 u1 where r: "runJob now job (w, u) = (run, w1, u1)" by (cases "runJob now job (w, u)") auto
  with Cons.prems(1) obtain runs' where rest: "run_jobs now jobs (w1, u1) = (runs', w', u')" and runs: "runs = run # runs'"
    by (auto split: prod.splits)
  from Cons.prems(3) obtain st where st: "mwStatus w (mjName job) = Some st" "msJob st = mjName job"
    "msRuns st = int n" "msFailures st \<le> msRuns st" by auto
  from runJob_effect [OF r st(1)] obtain st' where e: "mrJob run = mjName job" "u1 = snd (mjRun job u)"
    "mwJobs w1 = mwJobs w" "mwOrder w1 = mwOrder w" "mwInterval w1 = mwInterval w"
    "mwStatus w1 = (mwStatus w)(mjName job \<mapsto> st')" "msJob st' = mjName job" "msRuns st' = int (Suc n)" "msFailures st' \<le> msRuns st'"
    using st by auto
  have "\<forall>name \<in> mjName ` set jobs. mwStatus w1 name = mwStatus w name" using Cons.prems(2) e(6) by (auto simp: image_iff)
  with Cons.prems(3) have pre: "\<forall>name \<in> mjName ` set jobs. \<exists>st. mwStatus w1 name = Some st \<and> msJob st = name
      \<and> msRuns st = int n \<and> msFailures st \<le> msRuns st" by simp
  have ih: "map mrJob runs' = map mjName jobs \<and> u' = run_all jobs u1 \<and> mwJobs w' = mwJobs w1 \<and> mwOrder w' = mwOrder w1
    \<and> mwInterval w' = mwInterval w1
    \<and> (\<forall>name. name \<notin> mjName ` set jobs \<longrightarrow> mwStatus w' name = mwStatus w1 name)
    \<and> (\<forall>name \<in> mjName ` set jobs. \<exists>st. mwStatus w' name = Some st \<and> msJob st = name
         \<and> msRuns st = int (Suc n) \<and> msFailures st \<le> msRuns st)"
    using Cons.prems(2) by (intro Cons.IH [OF rest _ pre]) simp
  have "mjName job \<notin> mjName ` set jobs" using Cons.prems(2) by simp
  then show ?case using ih e by (simp add: runs run_all_def)
qed (simp add: run_all_def)

lemma RunOnce_ok:
  assumes "worker_ok n w" and "RunOnce now (w, u) = (runs, w', u')"
  shows "worker_ok (Suc n) w' \<and> u' = run_all (mwJobs w) u \<and> mwJobs w' = mwJobs w \<and> mwOrder w' = mwOrder w
    \<and> map mrJob runs = mwOrder w"
proof -
  have r: "run_jobs now (mwJobs w) (w, u) = (runs, w', u')" using assms(2) by (simp add: RunOnce_def)
  have ok: "mwOrder w = map mjName (mwJobs w)" "distinct (map mjName (mwJobs w))"
    "\<forall>name \<in> mjName ` set (mwJobs w). \<exists>st. mwStatus w name = Some st \<and> msJob st = name
          \<and> msRuns st = int n \<and> msFailures st \<le> msRuns st"
    using assms(1) by (auto simp: worker_ok_def)
  from run_jobs_effect [OF r ok(2,3)] ok show ?thesis by (simp add: worker_ok_def)
qed

lemma worker_ticks_ok:
  "worker_ok n w \<Longrightarrow> worker_ticks now ticks (w, u) = (w', u') \<Longrightarrow>
    worker_ok (n + length ticks) w' \<and> mwOrder w' = mwOrder w
    \<and> u' = fold (\<lambda>wait v. run_all (mwJobs w) (wait v)) ticks u"
proof (induction ticks arbitrary: n w u)
  case (Cons wait ticks)
  obtain runs w1 u1 where r: "RunOnce now (w, wait u) = (runs, w1, u1)" by (cases "RunOnce now (w, wait u)") auto
  with Cons.prems(2) have t: "worker_ticks now ticks (w1, u1) = (w', u')" by simp
  from RunOnce_ok [OF Cons.prems(1) r] Cons.IH [OF _ t, of "Suc n"] show ?case by simp
qed simp

lemma status_list_names:
  "\<forall>name \<in> set names. \<exists>st. m name = Some st \<and> P name st \<Longrightarrow>
    (\<forall>name st. P name st \<longrightarrow> msJob st = name) \<Longrightarrow>
    map msJob (status_list m names) = names \<and> (\<forall>st \<in> set (status_list m names). P (msJob st) st)"
  by (induction names) auto

section \<open>Properties\<close>

text \<open>
  C29: Maintenance never starves a job. A worker that the constructor accepts keeps running: \<open>Run\<close> starts without an
  error, and after \<open>n\<close> ticks every registered job has been run \<open>n + 1\<close> times, whichever jobs failed in between; the world
  is the one that running all jobs, in order, once at the start and once per tick, leads to; and the status lists the
  jobs in the order of registration.
\<close>

theorem maintenance_runs_every_job:
  assumes new: "NewMaintenanceWorker interval jobs = Inr worker"
    and run: "worker_Run now ticks (worker, u) = (err, worker', u')"
  shows "err = None
    \<and> map msJob (Status worker') = map fst jobs
    \<and> (\<forall>st \<in> set (Status worker'). msRuns st = int (Suc (length ticks)) \<and> msFailures st \<le> msRuns st)
    \<and> (let all = fold (\<lambda>job v. snd (the (snd job) v)) jobs in u' = fold (\<lambda>wait v. all (wait v)) ticks (all u))"
proof -
  note w = NewMaintenanceWorker_Inr [OF new]
  obtain runs w1 u1 where r: "RunOnce now (worker, u) = (runs, w1, u1)" by (cases "RunOnce now (worker, u)") auto
  with run w(3) have err: "err = None" and t: "worker_ticks now ticks (w1, u1) = (worker', u')"
    by (auto simp: worker_Run_def)
  from RunOnce_ok [OF w(1) r] have ok1: "worker_ok 1 w1" and u1: "u1 = run_all (mwJobs worker) u"
    and j1: "mwJobs w1 = mwJobs worker" "mwOrder w1 = mwOrder worker" by simp_all
  from worker_ticks_ok [OF ok1 t] have ok: "worker_ok (Suc (length ticks)) worker'"
    and o: "mwOrder worker' = map fst jobs" and u': "u' = fold (\<lambda>wait v. run_all (mwJobs worker) (wait v)) ticks u1"
    using j1 w(2) by simp_all
  have "run_all (mwJobs worker) = fold (\<lambda>job v. snd (the (snd job) v)) jobs"
    by (simp add: run_all_def w(4) fold_map comp_def)
  moreover have "map msJob (Status worker') = map fst jobs
      \<and> (\<forall>st \<in> set (Status worker'). msRuns st = int (Suc (length ticks)) \<and> msFailures st \<le> msRuns st)"
  proof -
    let ?P = "\<lambda>name st. msJob st = name \<and> msRuns st = int (Suc (length ticks)) \<and> msFailures st \<le> msRuns st"
    have "\<forall>name \<in> set (map fst jobs). \<exists>st. mwStatus worker' name = Some st \<and> ?P name st"
      using ok unfolding worker_ok_def o by (elim conjE)
    from status_list_names [OF this] show ?thesis unfolding Status_def o by force
  qed
  ultimately show ?thesis using err u' u1 by force
qed

text \<open>
  Token cleanup removes exactly what can no longer be used, and reports how much: spent or expired links and flow states
  and expired sessions of the issuer. Nothing else changes.
\<close>

lemma retention_delete_Inr:
  assumes "retention_delete q cutoff w = (Inr n, w')"
  shows "q (tables w) = (Inr n, tables w')" and "unix_now w' = unix_now w"
  using assms query_Inr_world [of q w n w']
  by (auto simp: retention_delete_def fail_def unix_now_def dest: query_Inr split: if_splits)

lemma CleanupTokens_exact:
  assumes run: "CleanupTokens s w = ((n, None), w')"
  defines "d \<equiv> tables w" and "now \<equiv> unix_now w"
  shows "tables w' = d\<lparr>email_tokens := delete_where (spent now) (email_tokens d),
      reset_tokens := delete_where (spent now) (reset_tokens d),
      oauth_states := delete_where (spent_state now) (oauth_states d),
      sso_logins := delete_where (\<lambda>x. ssExpiresAt x \<le> now) (sso_logins d)\<rparr>"
    and "n = removed_by (spent now) (email_tokens d) + removed_by (spent now) (reset_tokens d)
      + removed_by (spent_state now) (oauth_states d) + removed_by (\<lambda>x. ssExpiresAt x \<le> now) (sso_logins d)"
proof -
  from run obtain a w1 b w2 c w3 e where
    r: "DeleteExpiredEmailConfirmationTokens now w = (Inr a, w1)" "DeleteExpiredPasswordResetTokens now w1 = (Inr b, w2)"
      "DeleteExpiredOAuthStates now w2 = (Inr c, w3)" "DeleteExpiredSSOLoginSessions now w3 = (Inr e, w')"
    and n: "n = a + b + c + e"
    by (auto simp: CleanupTokens_def Let_def now_def split: option.splits prod.splits sum.splits)
  note q = r [unfolded DeleteExpiredEmailConfirmationTokens_def DeleteExpiredPasswordResetTokens_def
      DeleteExpiredOAuthStates_def DeleteExpiredSSOLoginSessions_def, THEN retention_delete_Inr(1)]
  have t1: "tables w1 = d\<lparr>email_tokens := delete_where (spent now) (email_tokens d)\<rparr>" "a = removed_by (spent now) (email_tokens d)"
    using q(1) by (simp_all add: d_def)
  have t2: "tables w2 = (tables w1)\<lparr>reset_tokens := delete_where (spent now) (reset_tokens d)\<rparr>"
      "b = removed_by (spent now) (reset_tokens d)"
    using q(2) t1(1) by simp_all
  have t3: "tables w3 = (tables w2)\<lparr>oauth_states := delete_where (spent_state now) (oauth_states d)\<rparr>"
      "c = removed_by (spent_state now) (oauth_states d)"
    using q(3) t1(1) t2(1) by simp_all
  have t4: "tables w' = (tables w3)\<lparr>sso_logins := delete_where (\<lambda>x. ssExpiresAt x \<le> now) (sso_logins d)\<rparr>"
      "e = removed_by (\<lambda>x. ssExpiresAt x \<le> now) (sso_logins d)"
    using q(4) t1(1) t2(1) t3(1) by simp_all
  from t1 t2 t3 t4 n show "tables w' = d\<lparr>email_tokens := delete_where (spent now) (email_tokens d),
      reset_tokens := delete_where (spent now) (reset_tokens d),
      oauth_states := delete_where (spent_state now) (oauth_states d),
      sso_logins := delete_where (\<lambda>x. ssExpiresAt x \<le> now) (sso_logins d)\<rparr>"
    and "n = removed_by (spent now) (email_tokens d) + removed_by (spent now) (reset_tokens d)
      + removed_by (spent_state now) (oauth_states d) + removed_by (\<lambda>x. ssExpiresAt x \<le> now) (sso_logins d)"
    by simp_all
qed

section \<open>Worked examples\<close>

definition demo_jobs :: "(string \<times> int maintenance_task option) list" where
  "demo_jobs = [(''fails'', Some (\<lambda>w. ((0, Some AnonymousError), w + 1))), (''works'', Some (\<lambda>w. ((3, None), w + 10)))]"

definition demo_worker :: "int maintenance_worker" where
  "demo_worker = \<lparr>mwJobs = map (\<lambda>j. \<lparr>mjName = fst j, mjRun = the (snd j)\<rparr>) demo_jobs, mwInterval = DefaultMaintenanceInterval,
     mwOrder = [''fails'', ''works''], mwStatus = [''fails'' \<mapsto> fresh_status ''fails'', ''works'' \<mapsto> fresh_status ''works'']\<rparr>"

lemma demo_worker_new: "NewMaintenanceWorker 0 demo_jobs = Inr demo_worker"
proof -
  have "printable ''fails''" "printable ''works''" by code_simp+
  then show ?thesis
    by (simp add: NewMaintenanceWorker_def demo_jobs_def demo_worker_def validateMaintenanceJob_def maxMaintenanceJobName_def)
qed

theorem maintenance_runs_every_job_witness:
  "snd (snd (worker_Run id [\<lambda>w. w + 100] (demo_worker, 0))) = 122
     \<and> map msFailures (Status (fst (snd (worker_Run id [\<lambda>w. w + 100] (demo_worker, 0))))) = [2, 0]"
proof -
  obtain err w u where run: "worker_Run id [\<lambda>w. w + 100] (demo_worker, 0) = (err, w, u)"
    by (cases "worker_Run id [\<lambda>w. w + 100] (demo_worker, 0)") auto
  from maintenance_runs_every_job [OF demo_worker_new run] have "u = 122" by (simp add: demo_jobs_def)
  moreover have "map msFailures (Status (fst (snd (worker_Run id [\<lambda>w. w + 100] (demo_worker, 0))))) = [2, 0]"
    by code_simp
  ultimately show ?thesis by (simp add: run)
qed

end
