(* ===== verification/Invariants.thy ===== *)
theory Invariants
  imports SSOClient Maintenance AdminAccounts
begin

text \<open>
  The invariants of the whole application, for the writes that no component proves them for: conversion of a guest
  with its identity, cleanup of guests, and the account writes seen from the groups. The locale at the end collects what
  every service relies on.
\<close>

section \<open>Conversion of a guest\<close>

lemma evolves_upgrade_body_ok: "evolves (on_tables (keeps (db_ok L))) (upgrade_guest_body L guest ver i t)"
  unfolding upgrade_guest_body_def
  by (intro evolves_intro preord_intro covers_quiet_mono [OF covers_quiet_ok] evolves_claim_statements
      evolves_oauth_statements)
     (auto simp: keeps_def set_upgrade_columns_def update_user_where_ok)

lemma evolves_UpgradeGuest_ok: "evolves (on_tables (keeps (db_ok L))) (UpgradeGuestWithIdentity L guest ver i t)"
  unfolding UpgradeGuestWithIdentity_def Let_def
  by (intro evolves_intro preord_intro evolves_transaction evolves_upgrade_body_ok)

lemma upgraded_guest_spares_admins:
  assumes inv: "admin_inv L d" and row: "row \<in> set (users d)" "uIsGuest row"
    and us: "users d' = update_where (\<lambda>v. uID v = uID row) (\<lambda>_. saved) (users d)"
  shows "has_site_admin d'"
proof -
  from inv obtain v where v: "v \<in> set (users d)" "site_admin v" by (auto simp: admin_inv_def has_site_admin_def)
  have uniq: "unique_on (\<lambda>u. Some (uID u)) (users d)" using inv by (simp add: admin_inv_def db_ok_def users_ok_def)
  have "uID v \<noteq> uID row"
    using unique_onD [OF uniq v(1) row(1), of "uID row"] v(2) row(2) by auto
  with v us show ?thesis by (auto simp: has_site_admin_def set_update_where)
qed

lemma evolves_UpgradeGuest_admin: "evolves (on_tables (keeps (admin_inv L))) (UpgradeGuestWithIdentity L guest ver i t)"
proof -
  have "evolves (on_tables (keeps (admin_inv L))) (transaction mapUserError (upgrade_guest_body L guest ver j t))" for j
  proof (rule evolves_transaction_commit)
    fix w saved w'
    assume b: "upgrade_guest_body L guest ver j t w = (Inr (Some saved), w')"
    show "keeps (admin_inv L) (tables w) (tables w')"
      unfolding keeps_def
    proof
      assume inv: "admin_inv L (tables w)"
      have "db_ok L (tables w')" using evolvesD [OF evolves_upgrade_body_ok b] inv
        by (simp add: on_tables_def keeps_def admin_inv_def)
      moreover have "has_site_admin (tables w')"
        using b by (rule upgrade_guest_body_Inr) (erule upgraded_guest_spares_admins [OF inv], simp_all)
      ultimately show "admin_inv L (tables w')" by (simp add: admin_inv_def)
    qed
  qed (rule preord_intro)
  then show ?thesis unfolding UpgradeGuestWithIdentity_def Let_def
    by (intro evolves_intro preord_intro)
qed

section \<open>Cleanup of guests\<close>

lemma evolves_delete_candidates_ok: "evolves (on_tables (keeps (db_ok L))) (delete_candidates us)"
proof (induction us)
  case (Cons u us)
  have d: "evolves (on_tables (keeps (db_ok L))) (query (delete_user_row u))"
    by (rule evolves_query [OF preord_keeps]) (auto simp: keeps_def delete_user_row_def delete_cascade_ok)
  have m: "evolves (on_tables (keeps (db_ok L))) (query (has_membership u))"
    by (rule evolves_claim_reads(3) [OF preord_keeps])
  show ?case
    unfolding delete_candidates.simps
    by (intro evolves_call evolves_if evolves_ret preord_intro d m Cons.IH)
qed (simp add: evolves_ret preord_intro)

text \<open>What the transaction of the cleanup commits.\<close>

definition cleanup_body :: "int \<Rightarrow> int option prog" where
  "cleanup_body cutoff = call (query (select_abandoned cutoff)) mapGuestClaimError (\<lambda>candidates.
     call (delete_candidates candidates) id (\<lambda>deleted. ret (Some deleted)))"

lemma cleanup_body_commit:
  assumes "cleanup_body cutoff w = (Inr (Some n), w')"
  obtains w1 where "tables w1 = tables w"
    "delete_candidates (map uID (filter (abandoned cutoff) (users (tables w1)))) w1 = (Inr n, w')"
proof -
  from assms obtain cs w1 where q: "query (select_abandoned cutoff) w = (Inr cs, w1)"
    and d: "delete_candidates cs w1 = (Inr n, w')" by (auto simp: cleanup_body_def)
  from query_Inr [OF q] that d show thesis by (auto simp: select_abandoned_def)
qed

lemma evolves_Cleanup:
  assumes R: "preord R" and body: "\<And>cutoff w n w'. cleanup_body cutoff w = (Inr (Some n), w') \<Longrightarrow> R (tables w) (tables w')"
  shows "evolves (on_tables R) (Cleanup retention)"
  unfolding Cleanup_def Let_def DeleteEmptyAbandonedGuests_def cleanup_body_def [symmetric]
  by (intro evolves_intro preord_intro R) (rule evolves_transaction_commit [OF R], erule body)

lemma cleanup_keeps_ok: "cleanup_body cutoff w = (Inr (Some n), w') \<Longrightarrow> keeps (db_ok L) (tables w) (tables w')"
  by (erule cleanup_body_commit) (metis evolvesD [OF evolves_delete_candidates_ok] on_tables_def)

lemma evolves_Cleanup_ok: "evolves (on_tables (keeps (db_ok L))) (Cleanup retention)"
  by (rule evolves_Cleanup [OF preord_keeps]) (rule cleanup_keeps_ok)

lemma evolves_Cleanup_admin: "evolves (on_tables (keeps (admin_inv L))) (Cleanup retention)"
proof (rule evolves_Cleanup [OF preord_keeps])
  fix cutoff w n w'
  assume b: "cleanup_body cutoff w = (Inr (Some n), w')"
  show "keeps (admin_inv L) (tables w) (tables w')"
    unfolding keeps_def
  proof
    assume inv: "admin_inv L (tables w)"
    from inv obtain v where v: "v \<in> set (users (tables w))" "site_admin v" by (auto simp: admin_inv_def has_site_admin_def)
    from b obtain w1 where t1: "tables w1 = tables w"
      and d: "delete_candidates (map uID (filter (abandoned cutoff) (users (tables w1)))) w1 = (Inr n, w')"
      by (rule cleanup_body_commit)
    have "unique_on (\<lambda>u. Some (uID u)) (users (tables w1))" using inv t1 by (simp add: admin_inv_def db_ok_def users_ok_def)
    from delete_abandoned_Inr(1) [OF d this] v t1 have "v \<in> set (users (tables w'))" by (simp add: removable_def)
    with v have "has_site_admin (tables w')" by (auto simp: has_site_admin_def)
    then show "admin_inv L (tables w')" using cleanup_keeps_ok [OF b, of L] inv by (simp add: admin_inv_def keeps_def)
  qed
qed

section \<open>Account writes leave the groups alone\<close>

definition group_view :: "db \<Rightarrow> int list \<times> membership list" where
  "group_view d = (map gID (groups d), group_members d)"

lemma groups_led_view: "group_view d' = group_view d \<Longrightarrow> groups_led d \<Longrightarrow> groups_led d'"
proof -
  have "groups_led d \<longleftrightarrow> (\<forall>g \<in> set (fst (group_view d)). \<exists>m \<in> set (snd (group_view d)). mGroupID m = g \<and> mRole m = ''admin'')"
    for d :: db by (auto simp: groups_led_def group_view_def)
  then show "group_view d' = group_view d \<Longrightarrow> groups_led d \<Longrightarrow> groups_led d'" by simp
qed

lemma evolves_group_view:
  assumes "evolves (on_tables (keeps (db_ok L))) m" and "evolves (on_tables (same group_view)) m"
  shows "evolves (on_tables (keeps (group_inv L))) m"
  unfolding evolves_def on_tables_def keeps_def
proof (intro allI impI)
  fix w :: world
  assume "group_inv L (tables w)"
  then show "group_inv L (tables (snd (m w)))"
    using assms groups_led_view [of "tables (snd (m w))" "tables w"]
    by (simp add: evolves_def on_tables_def keeps_def same_def group_inv_def)
qed

lemma evolves_CreateUser_view: "evolves (on_tables (same group_view)) (CreateUser L u)"
  unfolding CreateUser_def
  by (intro evolves_intro preord_intro) (auto simp: same_def group_view_def insert_user_Inr)

lemma evolves_UpdateUser_view: "evolves (on_tables (same group_view)) (UpdateUser L u v)"
  using evolves_UpdateUser_users by (rule evolves_mono) (auto simp: on_tables_def users_only_def same_def group_view_def)

lemma evolves_UpgradeGuest_view: "evolves (on_tables (same group_view)) (UpgradeGuestWithIdentity L guest ver i t)"
proof -
  have "evolves (on_tables (same group_view)) (transaction mapUserError (upgrade_guest_body L guest ver j t))" for j
  proof (rule evolves_transaction_commit)
    fix w x w'
    assume b: "upgrade_guest_body L guest ver j t w = (Inr (Some x), w')"
    then show "same group_view (tables w) (tables w')"
      by (rule upgrade_guest_body_Inr) (simp add: same_def group_view_def)
  qed (rule preord_intro)
  then show ?thesis unfolding UpgradeGuestWithIdentity_def Let_def by (intro evolves_intro preord_intro)
qed

lemma evolves_Cleanup_view: "evolves (on_tables (same group_view)) (Cleanup retention)"
proof (rule evolves_Cleanup [OF preord_same])
  fix cutoff w n w'
  assume "cleanup_body cutoff w = (Inr (Some n), w')"
  then obtain w1 where "tables w1 = tables w"
    "delete_candidates (map uID (filter (abandoned cutoff) (users (tables w1)))) w1 = (Inr n, w')"
    by (rule cleanup_body_commit)
  with delete_candidates_Inr [OF this(2)] show "same group_view (tables w) (tables w')"
    by (simp add: same_def group_view_def)
qed

end
