(* ===== verification/Locale.thy ===== *)
theory Locale
  imports Settings Complex_Main
begin

text \<open>
  Languages and localized paths (\<^verbatim>\<open>internal/locale/locale.go\<close>): precedence of the preferences, the
  \<^verbatim>\<open>Accept-Language\<close> header, and the two directions between a route and its path under a language.
\<close>

section \<open>Preferences\<close>

datatype source = SourceURL | SourceAccount | SourceBrowser | SourceBrowserLanguage | SourceDefault

record preferences =
  pfURL :: string
  pfAccount :: string
  pfBrowser :: string
  pfAcceptLanguage :: string

definition Codes :: "string list" where "Codes = [English, Hungarian]"
definition Default :: string where "Default = English"

text \<open>
  A parsed weight: \<^verbatim>\<open>strconv.ParseFloat\<close> also reads \<^verbatim>\<open>NaN\<close>, which no comparison holds of.
\<close>

datatype weight = NaN | Weight rat

fun weight_less :: "weight \<Rightarrow> weight \<Rightarrow> bool" where
  "weight_less (Weight p) (Weight q) \<longleftrightarrow> p < q"
| "weight_less _ _ \<longleftrightarrow> False"

fun weight_same :: "weight \<Rightarrow> weight \<Rightarrow> bool" where
  "weight_same (Weight p) (Weight q) \<longleftrightarrow> p = q"
| "weight_same _ _ \<longleftrightarrow> False"

record language_candidate =
  lcCode :: string
  lcQuality :: weight
  lcOrder :: nat

text \<open>\<^verbatim>\<open>strings.SplitN(s, sep, 2)\<close> with a one-byte separator: the part before it, and the rest where it occurs.\<close>

definition split_once :: "char \<Rightarrow> string \<Rightarrow> string \<times> string option" where
  "split_once c s =
     (if c \<in> set s then (takeWhile (\<lambda>x. x \<noteq> c) s, Some (tl (dropWhile (\<lambda>x. x \<noteq> c) s))) else (s, None))"

text \<open>The loop over the parameters of one range: its weight, or nothing when a weight is unusable.\<close>

fun range_quality :: "golib \<Rightarrow> (string \<Rightarrow> weight option) \<Rightarrow> string list \<Rightarrow> weight \<Rightarrow> weight option" where
  "range_quality L parse [] quality = Some quality"
| "range_quality L parse (parameter # rest) quality =
     (case split_once (CHR ''='') (TrimSpace parameter) of
        (name, None) \<Rightarrow> range_quality L parse rest quality
      | (name, Some val) \<Rightarrow>
          if ToLower L (TrimSpace name) \<noteq> ''q'' then range_quality L parse rest quality
          else (case parse (TrimSpace val) of
              None \<Rightarrow> None
            | Some q \<Rightarrow> if weight_less q (Weight 0) \<or> weight_less (Weight 1) q then None
                        else range_quality L parse rest q))"

definition range_candidate :: "golib \<Rightarrow> (string \<Rightarrow> weight option) \<Rightarrow> nat \<Rightarrow> string \<Rightarrow> language_candidate option" where
  "range_candidate L parse order raw =
     (case split_on (CHR '';'') raw of
        [] \<Rightarrow> None
      | part # parameters \<Rightarrow>
          let tag = ToLower L (TrimSpace part) in
          if tag = [] \<or> tag = ''*'' then None
          else (case range_quality L parse parameters (Weight 1) of
              None \<Rightarrow> None
            | Some quality \<Rightarrow>
                if weight_same quality (Weight 0) then None
                else if Supported tag then Some \<lparr>lcCode = tag, lcQuality = quality, lcOrder = order\<rparr>
                else
                  let primary = fst (split_once (CHR ''-'') tag) in
                  if Supported primary then Some \<lparr>lcCode = primary, lcQuality = quality, lcOrder = order\<rparr> else None))"

definition candidate_before :: "language_candidate \<Rightarrow> language_candidate \<Rightarrow> bool" where
  "candidate_before l r \<longleftrightarrow>
     (if weight_same (lcQuality l) (lcQuality r) then lcOrder l < lcOrder r
      else weight_less (lcQuality r) (lcQuality l))"

text \<open>
  \<^verbatim>\<open>sort.SliceStable\<close> as the insertion sort it is on up to twenty elements: a new element moves left past the elements it
  is before. (The accumulator holds the sorted part, last element first.)
\<close>

fun sink :: "('a \<Rightarrow> 'a \<Rightarrow> bool) \<Rightarrow> 'a \<Rightarrow> 'a list \<Rightarrow> 'a list" where
  "sink before x [] = [x]"
| "sink before x (y # ys) = (if before x y then y # sink before x ys else x # y # ys)"

definition SliceStable :: "('a \<Rightarrow> 'a \<Rightarrow> bool) \<Rightarrow> 'a list \<Rightarrow> 'a list" where
  "SliceStable before xs = rev (foldl (\<lambda>acc x. sink before x acc) [] xs)"

definition acceptLanguage :: "golib \<Rightarrow> (string \<Rightarrow> weight option) \<Rightarrow> string \<Rightarrow> string option" where
  "acceptLanguage L parse header =
     (if TrimSpace header = [] then None
      else
        let ranges = split_on (CHR '','') header;
            candidates = concat (map (\<lambda>(order, raw). case range_candidate L parse order raw of None \<Rightarrow> [] | Some c \<Rightarrow> [c])
              (zip [0..<length ranges] ranges)) in
        case SliceStable candidate_before candidates of [] \<Rightarrow> None | c # _ \<Rightarrow> Some (lcCode c))"

definition Resolve :: "golib \<Rightarrow> (string \<Rightarrow> weight option) \<Rightarrow> preferences \<Rightarrow> string \<times> source" where
  "Resolve L parse p =
     (if Supported (pfURL p) then (pfURL p, SourceURL)
      else if Supported (pfAccount p) then (pfAccount p, SourceAccount)
      else if Supported (pfBrowser p) then (pfBrowser p, SourceBrowser)
      else (case acceptLanguage L parse (pfAcceptLanguage p) of
          Some code \<Rightarrow> (code, SourceBrowserLanguage) | None \<Rightarrow> (Default, SourceDefault)))"

section \<open>Paths\<close>

definition HasPrefix :: "string \<Rightarrow> string \<Rightarrow> bool" where
  "HasPrefix s p \<longleftrightarrow> take (length p) s = p"

definition ParsePath :: "string \<Rightarrow> (string \<times> string) option" where
  "ParsePath path =
     (case cut_prefix ''/'' path of
        None \<Rightarrow> None
      | Some trimmed \<Rightarrow>
          if trimmed = [] then None
          else (case split_once (CHR ''/'') trimmed of (code, rest) \<Rightarrow>
              if \<not> Supported code then None
              else (case rest of
                  None \<Rightarrow> Some (code, ''/'')
                | Some r \<Rightarrow> if r = [] then Some (code, ''/'')
                            else if HasPrefix r ''/'' then None
                            else Some (code, CHR ''/'' # r))))"

datatype locale_err = ErrUnsupported | ErrInvalidPath

text \<open>\<^verbatim>\<open>URL.String\<close> of a reference without scheme, user and host whose path starts with a slash.\<close>

definition relative_String :: "url \<Rightarrow> string" where
  "relative_String u =
     url_escape ''$&+,/:;=@'' (urlPath u)
     @ (if urlRawQuery u \<noteq> [] then CHR ''?'' # urlRawQuery u else [])
     @ (if urlFragment u \<noteq> [] then CHR ''#'' # url_escape ''$&+,/:;=?@!()*'' (urlFragment u) else [])"

definition localized_path :: "(string \<Rightarrow> url option) \<Rightarrow> string \<Rightarrow> string \<Rightarrow> locale_err + string" where
  "localized_path parse code route =
     (if \<not> Supported code then Inl ErrUnsupported
      else (case parse route of
          None \<Rightarrow> Inl ErrInvalidPath
        | Some parsed \<Rightarrow>
            if urlScheme parsed \<noteq> [] \<or> urlHost parsed \<noteq> [] \<or> \<not> HasPrefix (urlPath parsed) ''/'' then Inl ErrInvalidPath
            else if HasPrefix (urlPath parsed) ''//'' then Inl ErrInvalidPath
            else
              let path = drop 1 (urlPath parsed) in
              Inr (relative_String (parsed\<lparr>urlPath := CHR ''/'' # code @ (if path = [] then ''/'' else CHR ''/'' # path)\<rparr>))))"

section \<open>Facts\<close>

lemma acceptLanguage_supported: "acceptLanguage L parse header = Some code \<Longrightarrow> Supported code"
proof -
  have sink: "set (sink b x ys) \<subseteq> insert x (set ys)" for b and x :: language_candidate and ys
    by (induction ys) auto
  have "set (foldl (\<lambda>acc x. sink b x acc) acc xs) \<subseteq> set acc \<union> set xs" for b acc and xs :: "language_candidate list"
  proof (induction xs arbitrary: acc)
    case (Cons x xs)
    from Cons [of "sink b x acc"] sink [of b x acc] show ?case by auto
  qed simp
  from this [of _ "[]"] have sort: "set (SliceStable b xs) \<subseteq> set xs" for b and xs :: "language_candidate list"
    by (simp add: SliceStable_def)
  have range: "range_candidate L parse i raw = Some c \<Longrightarrow> Supported (lcCode c)" for i raw c
    by (auto simp: range_candidate_def Let_def split: list.splits if_splits option.splits)
  let ?cs = "concat (map (\<lambda>(order, raw). case range_candidate L parse order raw of None \<Rightarrow> [] | Some c \<Rightarrow> [c])
      (zip [0..<length (split_on (CHR '','') header)] (split_on (CHR '','') header)))"
  assume "acceptLanguage L parse header = Some code"
  then obtain c cs where c: "SliceStable candidate_before ?cs = c # cs" and code: "code = lcCode c"
    by (auto simp: acceptLanguage_def Let_def split: if_splits list.splits)
  have "c \<in> set (SliceStable candidate_before ?cs)" unfolding c by simp
  then have "c \<in> set ?cs" by (rule subsetD [OF sort])
  then show "Supported code" using range code by (auto split: option.splits)
qed

lemma Resolve_supported: "Supported (fst (Resolve L parse p))"
  using acceptLanguage_supported [of L parse "pfAcceptLanguage p"]
  by (auto simp: Resolve_def Default_def Supported_def split: option.splits)

text \<open>A weight that is not a number passes the bounds on weights, because no comparison with it holds.\<close>

lemma nan_weight_accepted: "range_quality ascii_lib (\<lambda>_. Some NaN) [''q=nan''] (Weight 1) = Some NaN"
  by code_simp

text \<open>A path under a language reads back as the language and the route.\<close>

lemma ParsePath_localized:
  assumes "Supported code" and "r = [] \<or> hd r \<noteq> CHR ''/''"
  shows "ParsePath (CHR ''/'' # code @ CHR ''/'' # r) = Some (code, CHR ''/'' # r)"
proof -
  have "code = ''en'' \<or> code = ''hu''" using assms(1) by (simp add: Supported_def English_def Hungarian_def)
  then have c: "CHR ''/'' \<notin> set code" "code \<noteq> []" by auto
  then have all: "\<And>x. x \<in> set code \<Longrightarrow> x \<noteq> CHR ''/''" by auto
  have "takeWhile (\<lambda>x. x \<noteq> CHR ''/'') (code @ CHR ''/'' # r) = code"
    "dropWhile (\<lambda>x. x \<noteq> CHR ''/'') (code @ CHR ''/'' # r) = CHR ''/'' # r"
    using takeWhile_append2 [of code, OF all] dropWhile_append2 [of code, OF all] by simp_all
  then have s: "split_once (CHR ''/'') (code @ CHR ''/'' # r) = (code, Some r)" by (simp add: split_once_def)
  have "cut_prefix ''/'' (CHR ''/'' # code @ CHR ''/'' # r) = Some (code @ CHR ''/'' # r)" by (simp add: cut_prefix_def)
  then show ?thesis using assms s by (cases r) (auto simp: ParsePath_def HasPrefix_def)
qed

end
