(* ===== verification/Config.thy ===== *)
theory Config
  imports Locale
begin

text \<open>
  Deployment configuration (\<^verbatim>\<open>internal/config/config.go\<close>): reading the environment, the checks of every setting, the
  role in single sign-on, and what production refuses to start with. The parsers of the standard library
  (\<^verbatim>\<open>url.Parse\<close>, \<^verbatim>\<open>net.SplitHostPort\<close>, \<^verbatim>\<open>time.ParseDuration\<close>, \<^verbatim>\<open>mail.ParseAddress\<close>, \<^verbatim>\<open>net.ParseIP\<close> and \<^verbatim>\<open>net.ParseCIDR\<close>)
  are fields of \<open>config_lib\<close>; durations are nanoseconds. Errors keep their kind, not their text.
\<close>

section \<open>Settings\<close>

definition EnvironmentEnv :: string where "EnvironmentEnv = ''GOWEB_ENV''"
definition HTTPAddressEnv :: string where "HTTPAddressEnv = ''GOWEB_HTTP_ADDR''"
definition PublicURLEnv :: string where "PublicURLEnv = ''GOWEB_PUBLIC_URL''"
definition SessionCookieSecureEnv :: string where "SessionCookieSecureEnv = ''GOWEB_SESSION_COOKIE_SECURE''"
definition EmailConfirmationRequiredEnv :: string where "EmailConfirmationRequiredEnv = ''GOWEB_EMAIL_CONFIRMATION_REQUIRED''"
definition SessionLifetimeEnv :: string where "SessionLifetimeEnv = ''GOWEB_SESSION_LIFETIME''"
definition GuestRetentionEnv :: string where "GuestRetentionEnv = ''GOWEB_GUEST_RETENTION''"
definition LoginAttemptRetentionEnv :: string where "LoginAttemptRetentionEnv = ''GOWEB_LOGIN_ATTEMPT_RETENTION''"
definition UsageRetentionEnv :: string where "UsageRetentionEnv = ''GOWEB_USAGE_RETENTION''"
definition AuthRateLimitEnv :: string where "AuthRateLimitEnv = ''GOWEB_AUTH_RATE_LIMIT''"
definition MailRelayEnv :: string where "MailRelayEnv = ''GOWEB_MAIL_RELAY''"
definition ResendAPIKeyEnv :: string where "ResendAPIKeyEnv = ''GOWEB_RESEND_API_KEY''"
definition MailFromEnv :: string where "MailFromEnv = ''GOWEB_MAIL_FROM''"
definition TrustedProxyEnv :: string where "TrustedProxyEnv = ''GOWEB_TRUSTED_PROXY''"
definition DatabaseURLEnv :: string where "DatabaseURLEnv = ''GOWEB_DATABASE_URL''"
definition SessionSecretEnv :: string where "SessionSecretEnv = ''GOWEB_SESSION_SECRET''"
definition BootstrapAdminEmailEnv :: string where "BootstrapAdminEmailEnv = ''GOWEB_BOOTSTRAP_ADMIN_EMAIL''"
definition BootstrapAdminPasswordEnv :: string where "BootstrapAdminPasswordEnv = ''GOWEB_BOOTSTRAP_ADMIN_PASSWORD''"
definition GoogleClientIDEnv :: string where "GoogleClientIDEnv = ''GOWEB_GOOGLE_CLIENT_ID''"
definition GoogleClientSecretEnv :: string where "GoogleClientSecretEnv = ''GOWEB_GOOGLE_CLIENT_SECRET''"
definition GoogleRedirectURLEnv :: string where "GoogleRedirectURLEnv = ''GOWEB_GOOGLE_REDIRECT_URL''"
definition AuthModeEnv :: string where "AuthModeEnv = ''GOWEB_AUTH_MODE''"
definition HydraAdminURLEnv :: string where "HydraAdminURLEnv = ''GOWEB_HYDRA_ADMIN_URL''"
definition SSOIssuerURLEnv :: string where "SSOIssuerURLEnv = ''GOWEB_SSO_ISSUER_URL''"
definition SSOClientIDEnv :: string where "SSOClientIDEnv = ''GOWEB_SSO_CLIENT_ID''"
definition SSOClientSecretEnv :: string where "SSOClientSecretEnv = ''GOWEB_SSO_CLIENT_SECRET''"
definition SSORedirectURLEnv :: string where "SSORedirectURLEnv = ''GOWEB_SSO_REDIRECT_URL''"
definition SSOAccountURLEnv :: string where "SSOAccountURLEnv = ''GOWEB_SSO_ACCOUNT_URL''"

definition MinimumBootstrapAdminPasswordLength :: nat where "MinimumBootstrapAdminPasswordLength = 8"
definition MinimumSessionSecretLength :: nat where "MinimumSessionSecretLength = 32"
definition DefaultHTTPAddress :: string where "DefaultHTTPAddress = '':8080''"
definition DefaultPublicURL :: string where "DefaultPublicURL = ''http://localhost:8080''"
definition DefaultSessionLifetime :: int where "DefaultSessionLifetime = 24 * (3600 * time_Second)"
definition DefaultGuestRetention :: int where "DefaultGuestRetention = 30 * 24 * (3600 * time_Second)"
definition config_LoginAttemptRetention :: int where "config_LoginAttemptRetention = 30 * 24 * (3600 * time_Second)"
definition config_UsageRetention :: int where "config_UsageRetention = 90 * 24 * (3600 * time_Second)"
definition DefaultAuthRateLimit :: int where "DefaultAuthRateLimit = 10"
definition MaximumAuthRateLimit :: int where "MaximumAuthRateLimit = 10000"

datatype config_err =
    ErrInvalidEnvironment | ErrInvalidHTTPAddress | ErrInvalidPublicURL | ErrInvalidBoolean | ErrInvalidDuration
  | ErrInvalidRateLimit | ErrWeakSecret | ErrInvalidBootstrapAdmin | ErrBootstrapAdminForbidden | ErrInvalidMailRelay
  | ErrInvalidTrustedProxy | ErrInvalidOAuth | ErrInvalidAuthMode | ErrUnsafeProductionConfig

datatype environment = EnvironmentDevelopment | EnvironmentTest | EnvironmentProduction
datatype auth_mode = AuthModeLocal | AuthModeProvider | AuthModeClient
datatype secret = Secret (Reveal: string)

definition IsSet :: "secret \<Rightarrow> bool" where
  "IsSet s \<longleftrightarrow> Reveal s \<noteq> []"

text \<open>The redacted forms: \<^verbatim>\<open>String\<close> and \<^verbatim>\<open>MarshalJSON\<close>.\<close>

definition secret_String :: "secret \<Rightarrow> string" where
  "secret_String s = (if \<not> IsSet s then [] else ''[redacted]'')"

definition MarshalJSON :: "secret \<Rightarrow> string" where
  "MarshalJSON s = (if \<not> IsSet s then ''null'' else CHR 0x22 # ''[redacted]'' @ [CHR 0x22])"

record config =
  Environment :: environment
  HTTPAddress :: string
  PublicURL :: url
  SessionCookieSecure :: bool
  EmailConfirmationRequired :: bool
  SessionLifetime :: int
  GuestRetention :: int
  LoginAttemptRetention :: int
  UsageEventRetention :: int
  AuthRateLimit :: int
  DatabaseURL :: secret
  SessionSecret :: secret
  BootstrapAdminEmail :: string
  BootstrapAdminPassword :: secret
  MailRelay :: secret
  ResendAPIKey :: secret
  MailFrom :: string
  mailFromConfigured :: bool
  TrustedProxy :: string
  GoogleClientID :: string
  GoogleClientSecret :: secret
  GoogleRedirectURL :: string
  AuthMode :: auth_mode
  HydraAdminURL :: string
  SSOIssuerURL :: string
  SSOClientID :: string
  SSOClientSecret :: secret
  SSORedirectURL :: string
  SSOAccountURL :: string

definition GoogleOAuthConfigured :: "config \<Rightarrow> bool" where
  "GoogleOAuthConfigured c \<longleftrightarrow>
     TrimSpace (GoogleClientID c) \<noteq> [] \<and> IsSet (GoogleClientSecret c) \<and> TrimSpace (GoogleRedirectURL c) \<noteq> []"

definition MailConfigured :: "config \<Rightarrow> bool" where
  "MailConfigured c \<longleftrightarrow> IsSet (MailRelay c) \<or> IsSet (ResendAPIKey c)"

definition BootstrapAdminConfigured :: "config \<Rightarrow> bool" where
  "BootstrapAdminConfigured c \<longleftrightarrow> TrimSpace (BootstrapAdminEmail c) \<noteq> [] \<and> IsSet (BootstrapAdminPassword c)"

section \<open>Parsers\<close>

record config_lib =
  clLib :: golib
  url_Parse :: "string \<Rightarrow> url option"
  SplitHostPort :: "string \<Rightarrow> (string \<times> string) option"
  ParseDuration :: "string \<Rightarrow> int option"
  ParseMailbox :: "string \<Rightarrow> (string \<times> string) option"   \<comment> \<open>\<^verbatim>\<open>mail.ParseAddress\<close>: name and address\<close>
  ParseIP :: "string \<Rightarrow> bool"
  ParseCIDR :: "string \<Rightarrow> bool"

text \<open>\<^verbatim>\<open>strconv.ParseBool\<close> and \<^verbatim>\<open>strconv.Atoi\<close>.\<close>

definition ParseBool :: "string \<Rightarrow> bool option" where
  "ParseBool s =
     (if s \<in> set [''1'', ''t'', ''T'', ''true'', ''TRUE'', ''True''] then Some True
      else if s \<in> set [''0'', ''f'', ''F'', ''false'', ''FALSE'', ''False''] then Some False else None)"

definition Atoi :: "string \<Rightarrow> int option" where
  "Atoi s = ParseInt64 s"

definition valueOrDefault :: "string \<Rightarrow> string \<Rightarrow> string" where
  "valueOrDefault v fallback = (if TrimSpace v = [] then fallback else TrimSpace v)"

definition parseEnvironment :: "golib \<Rightarrow> string \<Rightarrow> config_err + environment" where
  "parseEnvironment L raw =
     (let e = ToLower L (TrimSpace raw) in
      if e = [] then Inr EnvironmentDevelopment
      else if e = ''development'' then Inr EnvironmentDevelopment
      else if e = ''test'' then Inr EnvironmentTest
      else if e = ''production'' then Inr EnvironmentProduction
      else Inl ErrInvalidEnvironment)"

definition parseHTTPAddress :: "config_lib \<Rightarrow> string \<Rightarrow> config_err + string" where
  "parseHTTPAddress C address =
     (case SplitHostPort C address of
        None \<Rightarrow> Inl ErrInvalidHTTPAddress
      | Some (_, port) \<Rightarrow> (case Atoi port of
          None \<Rightarrow> Inl ErrInvalidHTTPAddress
        | Some n \<Rightarrow> if n < 1 \<or> 65535 < n then Inl ErrInvalidHTTPAddress else Inr address))"

definition bare_url :: "url \<Rightarrow> bool" where
  "bare_url u \<longleftrightarrow> urlScheme u \<noteq> [] \<and> urlHost u \<noteq> [] \<and> \<not> urlUser u \<and> urlRawQuery u = [] \<and> urlFragment u = []"

definition parsePublicURL :: "config_lib \<Rightarrow> string \<Rightarrow> config_err + url" where
  "parsePublicURL C raw =
     (case url_Parse C raw of
        None \<Rightarrow> Inl ErrInvalidPublicURL
      | Some u \<Rightarrow>
          if \<not> bare_url u then Inl ErrInvalidPublicURL
          else if urlScheme u \<noteq> ''http'' \<and> urlScheme u \<noteq> ''https'' then Inl ErrInvalidPublicURL
          else Inr u)"

definition parseBool :: "string \<Rightarrow> bool \<Rightarrow> config_err + bool" where
  "parseBool raw defaultValue =
     (if TrimSpace raw = [] then Inr defaultValue
      else (case ParseBool raw of None \<Rightarrow> Inl ErrInvalidBoolean | Some b \<Rightarrow> Inr b))"

definition parseRetention :: "config_lib \<Rightarrow> string \<Rightarrow> int \<Rightarrow> config_err + int" where
  "parseRetention C raw fallback =
     (if TrimSpace raw = [] then Inr fallback
      else (case ParseDuration C raw of
          None \<Rightarrow> Inl ErrInvalidDuration
        | Some period \<Rightarrow> if period \<le> 0 then Inl ErrInvalidDuration else Inr period))"

definition parseSessionLifetime :: "config_lib \<Rightarrow> string \<Rightarrow> config_err + int" where
  "parseSessionLifetime C raw =
     (if TrimSpace raw = [] then Inr DefaultSessionLifetime
      else (case ParseDuration C raw of
          None \<Rightarrow> Inl ErrInvalidDuration
        | Some lifetime \<Rightarrow> if lifetime \<le> 0 then Inl ErrInvalidDuration else Inr lifetime))"

definition parseAuthRateLimit :: "string \<Rightarrow> config_err + int" where
  "parseAuthRateLimit raw =
     (if TrimSpace raw = [] then Inr DefaultAuthRateLimit
      else (case Atoi (TrimSpace raw) of
          None \<Rightarrow> Inl ErrInvalidRateLimit
        | Some limit \<Rightarrow> if limit < 1 \<or> MaximumAuthRateLimit < limit then Inl ErrInvalidRateLimit else Inr limit))"

definition validateHTTPURL :: "config_lib \<Rightarrow> config_err \<Rightarrow> string \<Rightarrow> config_err + unit" where
  "validateHTTPURL C kind raw =
     (case url_Parse C raw of
        None \<Rightarrow> Inl kind
      | Some u \<Rightarrow>
          if \<not> bare_url u then Inl kind
          else if urlScheme u \<noteq> ''http'' \<and> urlScheme u \<noteq> ''https'' then Inl kind
          else Inr ())"

definition validProxyAddress :: "config_lib \<Rightarrow> string \<Rightarrow> bool" where
  "validProxyAddress C raw \<longleftrightarrow> ParseIP C raw \<or> ParseCIDR C raw"

definition plainEmailAddress :: "config_lib \<Rightarrow> string \<Rightarrow> bool" where
  "plainEmailAddress C v = (case ParseMailbox C v of None \<Rightarrow> False | Some (name, address) \<Rightarrow> name = [] \<and> address = v)"

text \<open>\<^verbatim>\<open>url.URL.Hostname\<close>: the host without a valid port, and without the brackets of an IPv6 address.\<close>

definition Hostname :: "url \<Rightarrow> string" where
  "Hostname u =
     (let host = urlHost u;
          port = takeWhile (\<lambda>c. c \<noteq> CHR '':'') (rev host);
          host = (if CHR '':'' \<in> set host \<and> list_all is_digit port then take (length host - Suc (length port)) host else host) in
      if HasPrefix host ''['' \<and> host \<noteq> [] \<and> last host = CHR '']'' then butlast (tl host) else host)"

section \<open>Loading\<close>

text \<open>The early returns of \<^verbatim>\<open>Load\<close>: the first error ends it.\<close>

definition must :: "'e + 'a \<Rightarrow> ('a \<Rightarrow> 'e + 'b) \<Rightarrow> 'e + 'b" where
  "must r k = (case r of Inl e \<Rightarrow> Inl e | Inr x \<Rightarrow> k x)"

definition refuse_if :: "bool \<Rightarrow> 'e \<Rightarrow> 'e + unit" where
  "refuse_if b e = (if b then Inl e else Inr ())"

lemma must_Inr [simp]: "must r k = Inr y \<longleftrightarrow> (\<exists>x. r = Inr x \<and> k x = Inr y)"
  by (cases r) (simp_all add: must_def)

lemma refuse_if_Inr [simp]: "refuse_if b e = Inr u \<longleftrightarrow> \<not> b"
  by (simp add: refuse_if_def)

definition IsControl :: "nat \<Rightarrow> bool" where
  "IsControl r \<longleftrightarrow> r < 0x20 \<or> (0x7F \<le> r \<and> r \<le> 0x9F)"

definition check_bootstrap :: "config_lib \<Rightarrow> string \<Rightarrow> secret \<Rightarrow> environment \<Rightarrow> config_err + unit" where
  "check_bootstrap C email password env =
     (if email = [] \<and> \<not> IsSet password then Inr ()
      else
        must (refuse_if (email = [] \<or> \<not> IsSet password) ErrInvalidBootstrapAdmin) (\<lambda>_.
        must (refuse_if (ParseMailbox C email = None) ErrInvalidBootstrapAdmin) (\<lambda>_.
        must (refuse_if (length (Reveal password) < MinimumBootstrapAdminPasswordLength) ErrWeakSecret) (\<lambda>_.
        refuse_if (env = EnvironmentProduction) ErrBootstrapAdminForbidden))))"

definition check_relay :: "config_lib \<Rightarrow> secret \<Rightarrow> config_err + unit" where
  "check_relay C relay =
     (if \<not> IsSet relay then Inr ()
      else (case url_Parse C (TrimSpace (Reveal relay)) of
          None \<Rightarrow> Inl ErrInvalidMailRelay
        | Some u \<Rightarrow> refuse_if ((urlScheme u \<noteq> ''smtp'' \<and> urlScheme u \<noteq> ''smtps'') \<or> urlHost u = [] \<or> urlUser u
            \<or> urlRawQuery u \<noteq> [] \<or> urlFragment u \<noteq> []) ErrInvalidMailRelay))"

definition check_resend :: "secret \<Rightarrow> secret \<Rightarrow> config_err + unit" where
  "check_resend relay key =
     (if \<not> IsSet key then Inr ()
      else
        must (refuse_if (IsSet relay) ErrInvalidMailRelay) (\<lambda>_.
        refuse_if (256 < length (Reveal key) \<or> (\<exists>r \<in> set (runes (Reveal key)). IsSpace r \<or> IsControl r)) ErrInvalidMailRelay))"

definition mail_from :: "config_lib \<Rightarrow> url \<Rightarrow> string \<Rightarrow> config_err + string" where
  "mail_from C publicURL raw =
     (if raw = [] then
        let derived = ''no-reply@'' @ Hostname publicURL in
        Inr (if \<not> plainEmailAddress C derived then ''no-reply@localhost'' else derived)
      else if \<not> plainEmailAddress C raw then Inl ErrInvalidMailRelay
      else Inr raw)"

definition google_redirect :: "config_lib \<Rightarrow> url \<Rightarrow> string \<Rightarrow> secret \<Rightarrow> string \<Rightarrow> config_err + string" where
  "google_redirect C publicURL clientID clientSecret redirect =
     (if clientID = [] \<and> \<not> IsSet clientSecret then Inr redirect
      else if clientID = [] \<or> \<not> IsSet clientSecret then Inl ErrInvalidOAuth
      else if redirect \<noteq> [] then Inr redirect
      else (case localized_path (url_Parse C) Default ''/oauth/google/callback'' of
          Inl _ \<Rightarrow> Inl ErrInvalidOAuth
        | Inr path \<Rightarrow> Inr (TrimRightSlash (url_String publicURL) @ path)))"

definition ssoClientURLs :: "config \<Rightarrow> (string \<times> string) list" where
  "ssoClientURLs c = [(SSOIssuerURLEnv, SSOIssuerURL c), (SSORedirectURLEnv, SSORedirectURL c), (SSOAccountURLEnv, SSOAccountURL c)]"

fun validate_urls :: "config_lib \<Rightarrow> (string \<times> string) list \<Rightarrow> config_err + unit" where
  "validate_urls C [] = Inr ()"
| "validate_urls C ((name, v) # rest) =
     (if v = [] then validate_urls C rest
      else must (validateHTTPURL C ErrInvalidAuthMode v) (\<lambda>_. validate_urls C rest))"

definition parseAuthMode :: "golib \<Rightarrow> string \<Rightarrow> config_err + auth_mode" where
  "parseAuthMode L raw =
     (let mode = ToLower L (TrimSpace raw) in
      if mode = [] \<or> mode = ''local'' then Inr AuthModeLocal
      else if mode = ''provider'' then Inr AuthModeProvider
      else if mode = ''client'' then Inr AuthModeClient
      else Inl ErrInvalidAuthMode)"

definition check_provider :: "config_lib \<Rightarrow> config \<Rightarrow> config_err + config" where
  "check_provider C cfg =
     must (refuse_if (HydraAdminURL cfg = [] \<or> SSOIssuerURL cfg = []) ErrInvalidAuthMode) (\<lambda>_.
     must (validateHTTPURL C ErrInvalidAuthMode (HydraAdminURL cfg)) (\<lambda>_.
     must (validateHTTPURL C ErrInvalidAuthMode (SSOIssuerURL cfg)) (\<lambda>_. Inr cfg)))"

definition check_client :: "config_lib \<Rightarrow> config \<Rightarrow> config_err + config" where
  "check_client C cfg =
     must (refuse_if (SSOIssuerURL cfg = [] \<or> SSOClientID cfg = [] \<or> \<not> IsSet (SSOClientSecret cfg)) ErrInvalidAuthMode) (\<lambda>_.
     must (refuse_if (GoogleClientID cfg \<noteq> [] \<or> IsSet (GoogleClientSecret cfg) \<or> GoogleRedirectURL cfg \<noteq> []) ErrInvalidAuthMode) (\<lambda>_.
     must (if SSORedirectURL cfg \<noteq> [] then Inr cfg
           else (case localized_path (url_Parse C) Default ''/oauth/sso/callback'' of
               Inl _ \<Rightarrow> Inl ErrInvalidAuthMode
             | Inr path \<Rightarrow> Inr (cfg\<lparr>SSORedirectURL := TrimRightSlash (url_String (PublicURL cfg)) @ path\<rparr>))) (\<lambda>cfg.
     must (validate_urls C (ssoClientURLs cfg)) (\<lambda>_. Inr cfg))))"

definition applyAuthMode :: "config_lib \<Rightarrow> config \<Rightarrow> (string \<Rightarrow> string) \<Rightarrow> config_err + config" where
  "applyAuthMode C cfg getenv =
     must (parseAuthMode (clLib C) (getenv AuthModeEnv)) (\<lambda>mode.
     let cfg = cfg\<lparr>AuthMode := mode, HydraAdminURL := TrimSpace (getenv HydraAdminURLEnv),
           SSOIssuerURL := TrimSpace (getenv SSOIssuerURLEnv), SSOClientID := TrimSpace (getenv SSOClientIDEnv),
           SSOClientSecret := Secret (getenv SSOClientSecretEnv), SSORedirectURL := TrimSpace (getenv SSORedirectURLEnv),
           SSOAccountURL := TrimSpace (getenv SSOAccountURLEnv)\<rparr> in
     must (refuse_if (mode \<noteq> AuthModeProvider \<and> HydraAdminURL cfg \<noteq> []) ErrInvalidAuthMode) (\<lambda>_.
     must (refuse_if (mode = AuthModeLocal \<and> SSOIssuerURL cfg \<noteq> []) ErrInvalidAuthMode) (\<lambda>_.
     must (refuse_if (mode \<noteq> AuthModeClient \<and> (SSOClientID cfg \<noteq> [] \<or> IsSet (SSOClientSecret cfg)
         \<or> SSORedirectURL cfg \<noteq> [] \<or> SSOAccountURL cfg \<noteq> [])) ErrInvalidAuthMode) (\<lambda>_.
     must (refuse_if (mode \<noteq> AuthModeLocal \<and> \<not> IsSet (DatabaseURL cfg)) ErrInvalidAuthMode) (\<lambda>_.
     case mode of
       AuthModeLocal \<Rightarrow> Inr cfg
     | AuthModeProvider \<Rightarrow> check_provider C cfg
     | AuthModeClient \<Rightarrow> check_client C cfg)))))"

text \<open>The problems production has with a configuration, in the order of the code; one is enough to refuse it.\<close>

definition production_problems :: "config_lib \<Rightarrow> config \<Rightarrow> bool list" where
  "production_problems C cfg =
     [\<not> SessionCookieSecure cfg,
      urlScheme (PublicURL cfg) \<noteq> ''https'',
      \<not> IsSet (DatabaseURL cfg),
      \<not> IsSet (SessionSecret cfg),
      \<not> MailConfigured cfg,
      DefaultAuthRateLimit < AuthRateLimit cfg,
      IsSet (ResendAPIKey cfg) \<and> \<not> mailFromConfigured cfg,
      GoogleOAuthConfigured cfg \<and> (case url_Parse C (GoogleRedirectURL cfg) of None \<Rightarrow> True | Some u \<Rightarrow> urlScheme u \<noteq> ''https''),
      AuthMode cfg = AuthModeProvider \<and> \<not> HasPrefix (SSOIssuerURL cfg) ''https://'']
     @ (if AuthMode cfg = AuthModeClient then map (\<lambda>(name, v). v \<noteq> []
          \<and> (case url_Parse C v of None \<Rightarrow> True | Some u \<Rightarrow> urlScheme u \<noteq> ''https'')) (ssoClientURLs cfg) else [])"

definition validateProduction :: "config_lib \<Rightarrow> config \<Rightarrow> config_err + unit" where
  "validateProduction C cfg =
     (if Environment cfg \<noteq> EnvironmentProduction then Inr ()
      else refuse_if (list_ex id (production_problems C cfg)) ErrUnsafeProductionConfig)"

definition Load :: "config_lib \<Rightarrow> (string \<Rightarrow> string) \<Rightarrow> config_err + config" where
  "Load C getenv =
     must (parseEnvironment (clLib C) (getenv EnvironmentEnv)) (\<lambda>env.
     must (parseHTTPAddress C (valueOrDefault (getenv HTTPAddressEnv) DefaultHTTPAddress)) (\<lambda>httpAddress.
     must (parsePublicURL C (valueOrDefault (getenv PublicURLEnv) DefaultPublicURL)) (\<lambda>publicURL.
     must (parseBool (getenv SessionCookieSecureEnv) (env = EnvironmentProduction \<or> urlScheme publicURL = ''https'')) (\<lambda>cookieSecure.
     must (parseBool (getenv EmailConfirmationRequiredEnv) False) (\<lambda>confirmation.
     must (parseSessionLifetime C (getenv SessionLifetimeEnv)) (\<lambda>lifetime.
     must (parseRetention C (getenv GuestRetentionEnv) DefaultGuestRetention) (\<lambda>guestRetention.
     must (parseRetention C (getenv LoginAttemptRetentionEnv) config_LoginAttemptRetention) (\<lambda>loginRetention.
     must (parseRetention C (getenv UsageRetentionEnv) config_UsageRetention) (\<lambda>usageRetention.
     must (parseAuthRateLimit (getenv AuthRateLimitEnv)) (\<lambda>authRateLimit.
     let sessionSecret = Secret (getenv SessionSecretEnv) in
     must (refuse_if (IsSet sessionSecret \<and> length (Reveal sessionSecret) < MinimumSessionSecretLength) ErrWeakSecret) (\<lambda>_.
     let bootstrapEmail = TrimSpace (getenv BootstrapAdminEmailEnv);
         bootstrapPassword = Secret (getenv BootstrapAdminPasswordEnv) in
     must (check_bootstrap C bootstrapEmail bootstrapPassword env) (\<lambda>_.
     let relay = Secret (getenv MailRelayEnv) in
     must (check_relay C relay) (\<lambda>_.
     let key = Secret (TrimSpace (getenv ResendAPIKeyEnv)) in
     must (check_resend relay key) (\<lambda>_.
     must (mail_from C publicURL (TrimSpace (getenv MailFromEnv))) (\<lambda>mailFrom.
     let proxy = TrimSpace (getenv TrustedProxyEnv) in
     must (refuse_if (proxy \<noteq> [] \<and> \<not> validProxyAddress C proxy) ErrInvalidTrustedProxy) (\<lambda>_.
     let clientID = TrimSpace (getenv GoogleClientIDEnv); clientSecret = Secret (getenv GoogleClientSecretEnv) in
     must (google_redirect C publicURL clientID clientSecret (TrimSpace (getenv GoogleRedirectURLEnv))) (\<lambda>redirect.
     must (if redirect \<noteq> [] then validateHTTPURL C ErrInvalidOAuth redirect else Inr ()) (\<lambda>_.
     must (applyAuthMode C \<lparr>Environment = env, HTTPAddress = httpAddress, PublicURL = publicURL,
         SessionCookieSecure = cookieSecure, EmailConfirmationRequired = confirmation, SessionLifetime = lifetime,
         GuestRetention = guestRetention, LoginAttemptRetention = loginRetention, UsageEventRetention = usageRetention,
         AuthRateLimit = authRateLimit, DatabaseURL = Secret (getenv DatabaseURLEnv), SessionSecret = sessionSecret,
         BootstrapAdminEmail = bootstrapEmail, BootstrapAdminPassword = bootstrapPassword, MailRelay = relay,
         ResendAPIKey = key, MailFrom = mailFrom, mailFromConfigured = (TrimSpace (getenv MailFromEnv) \<noteq> []),
         TrustedProxy = proxy, GoogleClientID = clientID, GoogleClientSecret = clientSecret, GoogleRedirectURL = redirect,
         AuthMode = AuthModeLocal, HydraAdminURL = [], SSOIssuerURL = [], SSOClientID = [], SSOClientSecret = Secret [],
         SSORedirectURL = [], SSOAccountURL = []\<rparr> getenv) (\<lambda>loaded.
     must (validateProduction C loaded) (\<lambda>_. Inr loaded))))))))))))))))))))"

section \<open>What a loaded configuration guarantees\<close>

text \<open>The role settings are written last; nothing else of the configuration changes there.\<close>

definition with_role :: "config \<Rightarrow> config \<Rightarrow> config" where
  "with_role c cfg = cfg\<lparr>AuthMode := AuthMode c, HydraAdminURL := HydraAdminURL c, SSOIssuerURL := SSOIssuerURL c,
     SSOClientID := SSOClientID c, SSOClientSecret := SSOClientSecret c, SSORedirectURL := SSORedirectURL c,
     SSOAccountURL := SSOAccountURL c\<rparr>"

text \<open>Each role has its own settings and no other's.\<close>

definition role_ok :: "config \<Rightarrow> bool" where
  "role_ok c = (case AuthMode c of
       AuthModeLocal \<Rightarrow> HydraAdminURL c = [] \<and> SSOIssuerURL c = [] \<and> SSOClientID c = [] \<and> \<not> IsSet (SSOClientSecret c)
     | AuthModeProvider \<Rightarrow> HydraAdminURL c \<noteq> [] \<and> SSOIssuerURL c \<noteq> [] \<and> \<not> IsSet (SSOClientSecret c) \<and> IsSet (DatabaseURL c)
     | AuthModeClient \<Rightarrow> HydraAdminURL c = [] \<and> SSOIssuerURL c \<noteq> [] \<and> SSOClientID c \<noteq> [] \<and> IsSet (SSOClientSecret c)
         \<and> SSORedirectURL c \<noteq> [] \<and> IsSet (DatabaseURL c) \<and> \<not> GoogleOAuthConfigured c)"

lemma localized_path_nonempty: "localized_path parse code route = Inr path \<Longrightarrow> path \<noteq> []"
  by (auto simp: localized_path_def relative_String_def url_escape_def url_escape_byte_def Let_def split: option.splits if_splits)

lemma check_client_Inr:
  assumes "check_client C cfg = Inr c"
  shows "\<exists>r. c = cfg\<lparr>SSORedirectURL := r\<rparr> \<and> r \<noteq> []" and "SSOIssuerURL cfg \<noteq> []" and "SSOClientID cfg \<noteq> []"
    and "IsSet (SSOClientSecret cfg)" and "\<not> GoogleOAuthConfigured cfg"
proof -
  from assms obtain d where g: "SSOIssuerURL cfg \<noteq> []" "SSOClientID cfg \<noteq> []" "IsSet (SSOClientSecret cfg)"
      "\<not> IsSet (GoogleClientSecret cfg)"
    and d: "(if SSORedirectURL cfg \<noteq> [] then Inr cfg
           else (case localized_path (url_Parse C) Default ''/oauth/sso/callback'' of
               Inl _ \<Rightarrow> Inl ErrInvalidAuthMode
             | Inr path \<Rightarrow> Inr (cfg\<lparr>SSORedirectURL := TrimRightSlash (url_String (PublicURL cfg)) @ path\<rparr>))) = Inr d"
    and c: "c = d"
    by (simp only: check_client_def must_Inr refuse_if_Inr) auto
  have "\<exists>r. d = cfg\<lparr>SSORedirectURL := r\<rparr> \<and> r \<noteq> []"
  proof (cases "SSORedirectURL cfg = []")
    case True
    with d show ?thesis by (auto split: sum.splits dest: localized_path_nonempty)
  next
    case False
    with d have "d = cfg" by simp
    with False show ?thesis by (intro exI [of _ "SSORedirectURL cfg"]) simp
  qed
  with c g show "\<exists>r. c = cfg\<lparr>SSORedirectURL := r\<rparr> \<and> r \<noteq> []" and "SSOIssuerURL cfg \<noteq> []" and "SSOClientID cfg \<noteq> []"
    and "IsSet (SSOClientSecret cfg)" and "\<not> GoogleOAuthConfigured cfg"
    by (auto simp: GoogleOAuthConfigured_def)
qed

lemma applyAuthMode_Inr:
  assumes "applyAuthMode C cfg getenv = Inr c"
  shows "c = with_role c cfg" and "role_ok c"
proof -
  let ?d = "\<lambda>mode. cfg\<lparr>AuthMode := mode, HydraAdminURL := TrimSpace (getenv HydraAdminURLEnv),
           SSOIssuerURL := TrimSpace (getenv SSOIssuerURLEnv), SSOClientID := TrimSpace (getenv SSOClientIDEnv),
           SSOClientSecret := Secret (getenv SSOClientSecretEnv), SSORedirectURL := TrimSpace (getenv SSORedirectURLEnv),
           SSOAccountURL := TrimSpace (getenv SSOAccountURLEnv)\<rparr>"
  from assms obtain mode where g: "mode \<noteq> AuthModeProvider \<Longrightarrow> HydraAdminURL (?d mode) = []"
      "mode = AuthModeLocal \<Longrightarrow> SSOIssuerURL (?d mode) = []"
      "mode \<noteq> AuthModeClient \<Longrightarrow> SSOClientID (?d mode) = [] \<and> \<not> IsSet (SSOClientSecret (?d mode))"
      "mode \<noteq> AuthModeLocal \<Longrightarrow> IsSet (DatabaseURL cfg)"
    and r: "(case mode of AuthModeLocal \<Rightarrow> Inr (?d mode) | AuthModeProvider \<Rightarrow> check_provider C (?d mode)
       | AuthModeClient \<Rightarrow> check_client C (?d mode)) = Inr c"
    unfolding applyAuthMode_def Let_def must_Inr refuse_if_Inr by force
  have "c = with_role c cfg \<and> role_ok c"
  proof (cases mode)
    case AuthModeLocal
    with r g show ?thesis by (auto simp: with_role_def role_ok_def)
  next
    case AuthModeProvider
    with r have "c = ?d mode" "HydraAdminURL (?d mode) \<noteq> []" "SSOIssuerURL (?d mode) \<noteq> []"
      by (auto simp: check_provider_def)
    with AuthModeProvider g show ?thesis by (auto simp: with_role_def role_ok_def)
  next
    case AuthModeClient
    with r have k: "check_client C (?d mode) = Inr c" by simp
    from check_client_Inr [OF k] AuthModeClient g show ?thesis
      by (auto simp: with_role_def role_ok_def GoogleOAuthConfigured_def)
  qed
  then show "c = with_role c cfg" and "role_ok c" by blast+
qed

lemma parse_bounds_config:
  "parseSessionLifetime C raw = Inr x \<Longrightarrow> 0 < x"
  "parseRetention C raw fallback = Inr x \<Longrightarrow> 0 < fallback \<Longrightarrow> 0 < x"
  "parseAuthRateLimit raw = Inr x \<Longrightarrow> 1 \<le> x \<and> x \<le> MaximumAuthRateLimit"
  by (auto simp: parseSessionLifetime_def parseRetention_def parseAuthRateLimit_def DefaultSessionLifetime_def
      time_Second_def DefaultAuthRateLimit_def MaximumAuthRateLimit_def split: if_splits option.splits)

lemma check_bootstrap_production:
  "check_bootstrap C email password EnvironmentProduction = Inr u \<Longrightarrow> email = [] \<and> \<not> IsSet password"
  by (auto simp: check_bootstrap_def split: if_splits)

lemma check_resend_Inr: "check_resend relay key = Inr u \<Longrightarrow> \<not> (IsSet relay \<and> IsSet key)"
  by (auto simp: check_resend_def split: if_splits)

text \<open>What the settings read before the role satisfy.\<close>

definition base_ok :: "config \<Rightarrow> bool" where
  "base_ok c \<longleftrightarrow> 0 < SessionLifetime c \<and> 0 < GuestRetention c \<and> 0 < LoginAttemptRetention c \<and> 0 < UsageEventRetention c
     \<and> 1 \<le> AuthRateLimit c \<and> AuthRateLimit c \<le> MaximumAuthRateLimit
     \<and> (IsSet (SessionSecret c) \<longrightarrow> MinimumSessionSecretLength \<le> length (Reveal (SessionSecret c)))
     \<and> \<not> (IsSet (MailRelay c) \<and> IsSet (ResendAPIKey c))
     \<and> (Environment c = EnvironmentProduction \<longrightarrow> BootstrapAdminEmail c = [] \<and> \<not> IsSet (BootstrapAdminPassword c))"

lemma Load_Inr:
  assumes "Load C getenv = Inr c"
  obtains base where "applyAuthMode C base getenv = Inr c" "validateProduction C c = Inr ()" "base_ok base"
proof -
  have pos: "0 < DefaultGuestRetention" "0 < config_LoginAttemptRetention" "0 < config_UsageRetention"
    by (simp_all add: DefaultGuestRetention_def config_LoginAttemptRetention_def config_UsageRetention_def time_Second_def)
  show thesis
    using assms unfolding Load_def Let_def must_Inr refuse_if_Inr
    apply (elim exE conjE)
    apply (simp only: sum.inject)
    apply (rule that, assumption, simp)
    apply (unfold base_ok_def config.simps)
    apply (intro conjI)
            apply (erule parse_bounds_config(1))
           apply (erule parse_bounds_config(2) [OF _ pos(1)])
          apply (erule parse_bounds_config(2) [OF _ pos(2)])
         apply (erule parse_bounds_config(2) [OF _ pos(3)])
        apply (drule parse_bounds_config(3), simp)
       apply (drule parse_bounds_config(3), simp)
      apply fastforce
     apply (erule check_resend_Inr)
    apply (blast dest: check_bootstrap_production)
    done
qed

lemma base_ok_role: "base_ok (with_role c cfg) = base_ok cfg"
  by (simp add: base_ok_def with_role_def)


section \<open>Worked examples\<close>

definition demo_url :: "string \<Rightarrow> url option" where
  "demo_url s =
     (if s = ''https://id.test'' then Some \<lparr>urlScheme = ''https'', urlUser = False, urlHost = ''id.test'', urlPath = [],
        urlRawQuery = [], urlFragment = []\<rparr>
      else if s = ''smtp://mail'' then Some \<lparr>urlScheme = ''smtp'', urlUser = False, urlHost = ''mail'', urlPath = [],
        urlRawQuery = [], urlFragment = []\<rparr>
      else None)"

definition demo_config_lib :: config_lib where
  "demo_config_lib = \<lparr>clLib = ascii_lib, url_Parse = demo_url,
     SplitHostPort = (\<lambda>s. case split_on (CHR '':'') s of [host, port] \<Rightarrow> Some (host, port) | _ \<Rightarrow> None),
     ParseDuration = (\<lambda>_. None), ParseMailbox = (\<lambda>s. Some ([], s)), ParseIP = (\<lambda>_. False), ParseCIDR = (\<lambda>_. False)\<rparr>"

definition demo_env :: "string \<Rightarrow> string" where
  "demo_env name =
     (case map_of [(EnvironmentEnv, '' Production ''), (PublicURLEnv, ''https://id.test''), (DatabaseURLEnv, ''postgres''),
        (SessionSecretEnv, replicate 32 (CHR ''s'')), (MailRelayEnv, ''smtp://mail''), (AuthRateLimitEnv, ''5'')] name of
        None \<Rightarrow> [] | Some v \<Rightarrow> v)"

text \<open>The settings one by one, then the whole of \<open>Load\<close>.\<close>

lemma demo_settings:
  "parseEnvironment (clLib demo_config_lib) (demo_env EnvironmentEnv) = Inr EnvironmentProduction"
  "valueOrDefault (demo_env HTTPAddressEnv) DefaultHTTPAddress = '':8080''"
  "SplitHostPort demo_config_lib '':8080'' = Some ([], ''8080'')"
  "parsePublicURL demo_config_lib (valueOrDefault (demo_env PublicURLEnv) DefaultPublicURL) =
     Inr \<lparr>urlScheme = ''https'', urlUser = False, urlHost = ''id.test'', urlPath = [], urlRawQuery = [], urlFragment = []\<rparr>"
  "parseBool (demo_env SessionCookieSecureEnv) True = Inr True"
  "parseBool (demo_env EmailConfirmationRequiredEnv) False = Inr False"
  "parseSessionLifetime demo_config_lib (demo_env SessionLifetimeEnv) = Inr DefaultSessionLifetime"
  "TrimSpace (demo_env AuthRateLimitEnv) = ''5''"
  "check_relay demo_config_lib (Secret (demo_env MailRelayEnv)) = Inr ()"
  "check_resend (Secret (demo_env MailRelayEnv)) (Secret (TrimSpace (demo_env ResendAPIKeyEnv))) = Inr ()"
  "mail_from demo_config_lib \<lparr>urlScheme = ''https'', urlUser = False, urlHost = ''id.test'', urlPath = [],
     urlRawQuery = [], urlFragment = []\<rparr> (TrimSpace (demo_env MailFromEnv)) = Inr ''no-reply@id.test''"
  "IsSet (Secret (demo_env SessionSecretEnv))" "length (demo_env SessionSecretEnv) = 32"
  "TrimSpace (demo_env BootstrapAdminEmailEnv) = []" "demo_env BootstrapAdminPasswordEnv = []"
  "parseAuthMode (clLib demo_config_lib) (demo_env AuthModeEnv) = Inr AuthModeLocal"
  "IsSet (Secret (demo_env MailRelayEnv))" "IsSet (Secret (demo_env DatabaseURLEnv))"
  by code_simp+

lemma demo_unset:
  "TrimSpace (demo_env GuestRetentionEnv) = []" "TrimSpace (demo_env LoginAttemptRetentionEnv) = []"
  "TrimSpace (demo_env UsageRetentionEnv) = []" "TrimSpace (demo_env ResendAPIKeyEnv) = []"
  "TrimSpace (demo_env TrustedProxyEnv) = []" "TrimSpace (demo_env GoogleClientIDEnv) = []" "demo_env GoogleClientSecretEnv = []"
  "TrimSpace (demo_env GoogleRedirectURLEnv) = []" "TrimSpace (demo_env HydraAdminURLEnv) = []"
  "TrimSpace (demo_env SSOIssuerURLEnv) = []" "TrimSpace (demo_env SSOClientIDEnv) = []" "demo_env SSOClientSecretEnv = []"
  "TrimSpace (demo_env SSORedirectURLEnv) = []" "TrimSpace (demo_env SSOAccountURLEnv) = []"
  by code_simp+

lemma demo_numbers: "Atoi ''8080'' = Some 8080" "Atoi ''5'' = Some 5"
  by (simp_all add: Atoi_def ParseInt64_def ParseUint_def decimal_value_def digit_value_def is_digit_def)

lemma demo_Load: "\<exists>c. Load demo_config_lib demo_env = Inr c \<and> Environment c = EnvironmentProduction"
proof -
  have TrimNil: "TrimSpace [] = []" by code_simp
  show ?thesis
    by (simp add: Load_def Let_def must_def refuse_if_def check_resend_def demo_settings demo_unset demo_numbers parseHTTPAddress_def parseRetention_def
        parseAuthRateLimit_def check_bootstrap_def IsSet_def google_redirect_def applyAuthMode_def validateProduction_def
        production_problems_def MailConfigured_def GoogleOAuthConfigured_def DefaultAuthRateLimit_def MaximumAuthRateLimit_def
        MinimumSessionSecretLength_def demo_settings(12,17,18) [unfolded IsSet_def secret.sel] TrimNil)
qed


end
