(* ===== verification/App.thy ===== *)
theory App
  imports Invariants Config
begin

text \<open>
  The service graph of one deployment (\<^verbatim>\<open>internal/app/app.go\<close>): every service built from a loaded configuration and the
  parties outside the program, the requests those services answer, and the scheduled jobs. The hasher gets the zero
  configuration, which stands for its defaults.
\<close>

section \<open>Construction\<close>

text \<open>What is not code of the repository: the standard library, argon2, Hydra, Google, the OpenID Connect client, the mail
  relays, and the collation of the database.\<close>

record externals =
  xLib :: golib
  xArgon2 :: argon2
  xHydra :: "config \<Rightarrow> error + sso_admin"
  xGoogle :: "config \<Rightarrow> error + oauth_provider"
  xRelyingParty :: "config \<Rightarrow> error + sso_relying_party"
  xMailSender :: "config \<Rightarrow> error + unit"
  xCollation :: "string \<Rightarrow> string \<Rightarrow> bool"
  xParseURL :: "string \<Rightarrow> url option"

record graph =
  grLib :: golib
  grSessions :: session_service
  grSSOProvider :: "sso_provider option"
  grSSOClient :: "sso_client option"
  grSignUp :: signup_service
  grSignIn :: limited_signin
  grSignInLimiter :: "world rate_limiter"
  grConfirmationLimiter :: "world rate_limiter"
  grResetLimiter :: "world rate_limiter"
  grGuestLimiter :: "world rate_limiter"
  grJoinLimiter :: "world rate_limiter"
  grConfirmation :: confirmation_service
  grPasswordResetter :: reset_service
  grPasswordConsumer :: reset_consumer
  grOAuth :: oauth_service
  grGuestUpgrade :: guest_upgrade_service
  grGuestCleanup :: int
  grPasswordSettings :: password_service
  grGroup :: group_service
  grAdminAccounts :: admin_service
  grAuditor :: auditor
  grRetention :: retention_service
  grMaintenance :: "(world \<times> usage_store) maintenance_worker"
  grUsage :: usage_queue

definition time_Minute :: int where "time_Minute = 60 * time_Second"
definition DefaultAuthenticationRateLimitConfig :: rate_limit_config where
  "DefaultAuthenticationRateLimitConfig = \<lparr>rcLimit = 10, rcWindow = time_Minute, rcMaxKeys = 10000\<rparr>"
definition DefaultEmailConfirmationLifetime :: int where "DefaultEmailConfirmationLifetime = 24 * (60 * time_Minute)"
definition DefaultPasswordResetLifetime :: int where "DefaultPasswordResetLifetime = 60 * time_Minute"
definition DefaultOAuthStateLifetime :: int where "DefaultOAuthStateLifetime = 10 * time_Minute"

definition withRetentionDefaults :: "config \<Rightarrow> config" where
  "withRetentionDefaults cfg =
     (let cfg = (if GuestRetention cfg \<le> 0 then cfg\<lparr>GuestRetention := DefaultGuestRetention\<rparr> else cfg);
          cfg = (if LoginAttemptRetention cfg \<le> 0 then cfg\<lparr>LoginAttemptRetention := config_LoginAttemptRetention\<rparr> else cfg) in
      if UsageEventRetention cfg \<le> 0 then cfg\<lparr>UsageEventRetention := config_UsageRetention\<rparr> else cfg)"

definition authenticationRateLimitConfig :: "config \<Rightarrow> rate_limit_config" where
  "authenticationRateLimitConfig cfg =
     (if 0 < AuthRateLimit cfg then DefaultAuthenticationRateLimitConfig\<lparr>rcLimit := AuthRateLimit cfg\<rparr>
      else DefaultAuthenticationRateLimitConfig)"

definition newSharedRateLimiter :: "golib \<Rightarrow> string \<Rightarrow> rate_limit_config \<Rightarrow> error + world rate_limiter" where
  "newSharedRateLimiter L scope cfg =
     must (NewRateLimitStore_scope scope) (\<lambda>scope. NewRateLimiterWithStore cfg (PostgresRateLimitStore L scope))"

definition per_minute :: "int \<Rightarrow> rate_limit_config" where
  "per_minute n = \<lparr>rcLimit = n, rcWindow = time_Minute, rcMaxKeys = 0\<rparr>"

definition newProviderRegistry :: "externals \<Rightarrow> config \<Rightarrow> error + provider_registry" where
  "newProviderRegistry X cfg =
     (if \<not> GoogleOAuthConfigured cfg then NewProviderRegistry (xLib X) []
      else must (xGoogle X cfg) (\<lambda>google. NewProviderRegistry (xLib X) [Some google]))"

definition newSSOProvider :: "externals \<Rightarrow> config \<Rightarrow> error + sso_provider" where
  "newSSOProvider X cfg =
     must (xHydra X cfg) (\<lambda>admin.
     NewSSOProviderService admin (SessionLifetime cfg) (EmailConfirmationRequired cfg) (xCollation X))"

definition newSSOClient :: "externals \<Rightarrow> config \<Rightarrow> session_service \<Rightarrow> error + sso_client" where
  "newSSOClient X cfg sessionService =
     must (xRelyingParty X cfg) (\<lambda>relyingParty.
     case localized_path (xParseURL X) Default ''/sign-in'' of
       Inl _ \<Rightarrow> Inl AnonymousError
     | Inr signInPath \<Rightarrow>
         NewSSOClientService \<lparr>scRelyingParty = relyingParty, scSessions = sessionService, scStateLife = DefaultOAuthStateLifetime,
           scPostLogoutURL = TrimRightSlash (url_String (PublicURL cfg)) @ signInPath, scParseURL = xParseURL X\<rparr>)"

text \<open>The hook of the sign-in service that does nothing.\<close>

definition noopFailedAttemptState :: "string \<Rightarrow> unit prog" where
  "noopFailedAttemptState identifier = ret ()"

text \<open>A job on the database, and the one on the usage events; both read the same clock.\<close>

definition database_job :: "world maintenance_task \<Rightarrow> (world \<times> usage_store) maintenance_task" where
  "database_job t p = (case t (fst p) of (r, w) \<Rightarrow> (r, (w, snd p)))"

definition usage_job :: "retention_service \<Rightarrow> (world \<times> usage_store) maintenance_task" where
  "usage_job s p = (case CleanupUsageEvents s (now_ns (fst p)) (snd p) of (r, u) \<Rightarrow> (r, (fst p, u)))"

definition maintenance_jobs :: "int \<Rightarrow> retention_service \<Rightarrow> (string \<times> (world \<times> usage_store) maintenance_task option) list" where
  "maintenance_jobs cleanup retention =
     [(''guest_cleanup'', Some (database_job (task_of (Cleanup cleanup)))),
      (''token_retention'', Some (database_job (CleanupTokens retention))),
      (''login_attempt_retention'', Some (database_job (CleanupLoginAttempts retention))),
      (''usage_retention'', Some (usage_job retention)),
      (''rate_limit_retention'', Some (database_job (task_of pg_DeleteExpired)))]"

definition New :: "externals \<Rightarrow> config \<Rightarrow> error + graph" where
  "New X cfg =
     (let L = xLib X; verify = Verify (xArgon2 X) in
      must (refuse_if (Environment cfg = EnvironmentProduction \<and> \<not> MailConfigured cfg) AnonymousError) (\<lambda>_.
      let cfg = withRetentionDefaults cfg in
      must (NewSessionService (SessionLifetime cfg)) (\<lambda>plainSessions.
      must (if AuthMode cfg = AuthModeProvider then must (newSSOProvider X cfg) (\<lambda>p. Inr (Some p)) else Inr None) (\<lambda>ssoProvider.
      let sessionService = (case ssoProvider of None \<Rightarrow> plainSessions | Some p \<Rightarrow> SetSSORevoker (sso_RevokeUser p) plainSessions) in
      must (NewPasswordHasher zero_hash_config) (\<lambda>hasher.
      let hash = Hash (xArgon2 X) hasher in
      must (xMailSender X cfg) (\<lambda>_.
      must (newSharedRateLimiter L ''signin'' (authenticationRateLimitConfig cfg)) (\<lambda>signInLimiter.
      must (newSharedRateLimiter L ''confirmation'' (per_minute 10)) (\<lambda>confirmationLimiter.
      must (newSharedRateLimiter L ''password-reset'' (per_minute 10)) (\<lambda>resetLimiter.
      must (NewEmailConfirmationService (PublicURL cfg) DefaultEmailConfirmationLifetime) (\<lambda>confirmation.
      must (NewPasswordResetService resetLimiter (PublicURL cfg) DefaultPasswordResetLifetime) (\<lambda>resetter.
      must (newProviderRegistry X cfg) (\<lambda>providers.
      must (if AuthMode cfg = AuthModeClient then must (newSSOClient X cfg sessionService) (\<lambda>c. Inr (Some c)) else Inr None) (\<lambda>ssoClient.
      must (NewOAuthSignInService providers sessionService DefaultOAuthStateLifetime (xParseURL X)) (\<lambda>oauth.
      must (newSharedRateLimiter L ''guest'' (per_minute 10)) (\<lambda>guestLimiter.
      must (NewGuestCleanupService (GuestRetention cfg)) (\<lambda>cleanup.
      must (newSharedRateLimiter L ''group-join'' (per_minute 20)) (\<lambda>joinLimiter.
      must (NewRetentionService (LoginAttemptRetention cfg) (UsageEventRetention cfg)) (\<lambda>retention.
      must (NewUsageQueue DefaultUsageQueueCapacity) (\<lambda>usage.
      must (NewMaintenanceWorker DefaultMaintenanceInterval (maintenance_jobs cleanup retention)) (\<lambda>worker.
      Inr \<lparr>grLib = L, grSessions = sessionService, grSSOProvider = ssoProvider, grSSOClient = ssoClient,
        grSignUp = \<lparr>suHash = hash, suSessions = sessionService, suConfirmationRequired = EmailConfirmationRequired cfg\<rparr>,
        grSignIn = \<lparr>lsSignIn = \<lparr>siVerify = verify, siSessions = sessionService, siAttempts = noopFailedAttemptState,
            siConfirmationRequired = EmailConfirmationRequired cfg\<rparr>,
          lsLimiter = signInLimiter, lsRecorder = Some store_RecordLoginAttempt\<rparr>,
        grSignInLimiter = signInLimiter, grConfirmationLimiter = confirmationLimiter, grResetLimiter = resetLimiter,
        grGuestLimiter = guestLimiter, grJoinLimiter = joinLimiter, grConfirmation = confirmation,
        grPasswordResetter = resetter, grPasswordConsumer = \<lparr>pcHash = hash, pcSessions = sessionService\<rparr>,
        grOAuth = oauth, grGuestUpgrade = \<lparr>guHash = hash, guSessions = sessionService\<rparr>, grGuestCleanup = cleanup,
        grPasswordSettings = \<lparr>pwHash = hash, pwVerify = verify, pwSessions = sessionService\<rparr>,
        grGroup = \<lparr>gsAuditor = Some Record\<rparr>,
        grAdminAccounts = \<lparr>aaHash = hash, aaAuditor = Some Record, aaSessions = Some (RevokeUser sessionService)\<rparr>,
        grAuditor = Some Record, grRetention = retention, grMaintenance = worker, grUsage = usage\<rparr>))))))))))))))))))))"

section \<open>Requests\<close>

text \<open>
  The operations a handler calls, one per request of a visitor, a member, an administrator or the issuer. Single sign-on
  requests are routed only in the role they belong to.
\<close>

datatype request =
    DoSignUp signup_input
  | DoSignIn signin_input string | DoSignOut string | DoLookup string | DoConfirm string | DoIssue int
  | DoResend string | DoResetRequest string | DoResetRedeem string string | DoOAuthStart string
  | DoOAuthStartLink int string | DoOAuthCallback int string string string | DoUnlink int int
  | DoGuestCreate string string | DoGuestRedeem string string | DoClaimIssue int
  | DoGuestUpgrade int guest_upgrade_input | DoTheme int string | DoProfile int profile_input
  | DoLocale int string | DoPassword int password_input | DoGroupCreate int string | DoGroupList int
  | DoGroupDetail int int | DoGroupRename int int int string | DoGroupRotate int int | DoGroupJoin int string
  | DoGroupRole int int int int string | DoGroupRemove int int int int | DoGroupLeave int int
  | DoAdminCreate admin_actor admin_account_input | DoAdminUpdate admin_actor int admin_update_input
  | DoAdminDelete admin_actor int int | DoAdminRevoke admin_actor int | DoAdminUnlink admin_actor int int
  | DoAdminConfirm admin_actor int | DoAdminSend admin_actor int | DoAdminUnlock admin_actor user
  | DoAdminClearAction admin_actor string | DoAdminClearAll admin_actor | DoIssuerBegin string int
  | DoIssuerComplete string int | DoIssuerConsent string | DoIssuerLogout string | DoSSOStart
  | DoSSOUpgrade int | DoSSOCallback int string string | DoSSOBackChannel string | DoSSOSignOut string

definition limiters :: "graph \<Rightarrow> world rate_limiter list" where
  "limiters g = [grSignInLimiter g, grConfirmationLimiter g, grResetLimiter g, grGuestLimiter g, grJoinLimiter g]"

text \<open>The answer of a request is not part of the state.\<close>

definition answered_as :: "'a prog \<Rightarrow> unit prog" where
  "answered_as m = call m id (\<lambda>_. ret ())"

primrec serve :: "graph \<Rightarrow> request \<Rightarrow> unit prog" where
  "serve g (DoSignUp i) = answered_as (limited_SignUp (grLib g) (grSignUp g) (grSignInLimiter g) i)"
| "serve g (DoSignIn i origin) = answered_as (limited_SignIn (grLib g) (grSignIn g) i origin)"
| "serve g (DoSignOut c) = answered_as (SignOut (grLib g) c)"
| "serve g (DoLookup c) = answered_as (Lookup (grLib g) c)"
| "serve g (DoConfirm t) = answered_as (Confirm (grLib g) t)"
| "serve g (DoIssue u) = answered_as (Issue (grLib g) (grConfirmation g) u)"
| "serve g (DoResend e) = answered_as (Resend (grLib g) (grConfirmation g) (grConfirmationLimiter g) e)"
| "serve g (DoResetRequest e) = answered_as (Request (grLib g) (grPasswordResetter g) e)"
| "serve g (DoResetRedeem t p) = answered_as (Redeem (grLib g) (grPasswordConsumer g) t p)"
| "serve g (DoOAuthStart n) = answered_as (Start (grLib g) (grOAuth g) n)"
| "serve g (DoOAuthStartLink u n) = answered_as (StartLink (grLib g) (grOAuth g) u n)"
| "serve g (DoOAuthCallback u n c t) = answered_as (CompleteCallback (grLib g) (grOAuth g) u n c t)"
| "serve g (DoUnlink u i) = answered_as (Unlink u i)"
| "serve g (DoGuestCreate origin t) = answered_as (limited_guest_Create (grLib g) (grSessions g) (grGuestLimiter g) origin t)"
| "serve g (DoGuestRedeem origin c) = answered_as (limited_guest_Redeem (grLib g) (grSessions g) (grGuestLimiter g) origin c)"
| "serve g (DoClaimIssue u) = answered_as (claim_Issue u)"
| "serve g (DoGuestUpgrade u i) = answered_as (Upgrade (grLib g) (grGuestUpgrade g) u i)"
| "serve g (DoTheme u t) = answered_as (UpdateTheme (grLib g) u t)"
| "serve g (DoProfile u i) = answered_as (profile_Update (grLib g) u i)"
| "serve g (DoLocale u l) = answered_as (locale_Update (grLib g) u l)"
| "serve g (DoPassword u i) = answered_as (password_Update (grLib g) (grPasswordSettings g) u i)"
| "serve g (DoGroupCreate u n) = answered_as (group_Create (grLib g) u n)"
| "serve g (DoGroupList u) = answered_as (group_List u)"
| "serve g (DoGroupDetail u k) = answered_as (Detail (grLib g) u k)"
| "serve g (DoGroupRename u k v n) = answered_as (Rename (grLib g) (grGroup g) u k v n)"
| "serve g (DoGroupRotate u k) = answered_as (RotateInvite (grLib g) (grGroup g) u k)"
| "serve g (DoGroupJoin u c) = answered_as (RateLimited_Join (grLib g) (grJoinLimiter g) u c)"
| "serve g (DoGroupRole u k t v r) = answered_as (ChangeRole (grGroup g) u k t v r)"
| "serve g (DoGroupRemove u k t v) = answered_as (RemoveMember (grGroup g) u k t v)"
| "serve g (DoGroupLeave u k) = answered_as (Leave u k)"
| "serve g (DoAdminCreate a i) = answered_as (admin_Create (grLib g) (grAdminAccounts g) a i)"
| "serve g (DoAdminUpdate a u i) = answered_as (admin_Update (grLib g) (grAdminAccounts g) a u i)"
| "serve g (DoAdminDelete a u v) = answered_as (admin_Delete (grAdminAccounts g) a u v)"
| "serve g (DoAdminRevoke a u) = answered_as (RevokeSessions (grAdminAccounts g) a u)"
| "serve g (DoAdminUnlink a u i) = answered_as (RemoveIdentity (grAuditor g) a u i)"
| "serve g (DoAdminConfirm a u) = answered_as (ConfirmEmail (grLib g) (grAuditor g) a u)"
| "serve g (DoAdminSend a u) = answered_as (SendConfirmation (grLib g) (grConfirmation g) (grAuditor g) a u)"
| "serve g (DoAdminUnlock a u) = answered_as (lockout_Clear (grLib g) (grSignInLimiter g) (grAuditor g) a u)"
| "serve g (DoAdminClearAction a k) = answered_as (limits_ClearAction (limiters g) (grAuditor g) a k)"
| "serve g (DoAdminClearAll a) = answered_as (limits_ClearAll (limiters g) (grAuditor g) a)"
| "serve g (DoIssuerBegin c u) = (case grSSOProvider g of None \<Rightarrow> ret () | Some p \<Rightarrow> answered_as (BeginLogin p c u))"
| "serve g (DoIssuerComplete c u) = (case grSSOProvider g of None \<Rightarrow> ret () | Some p \<Rightarrow> answered_as (CompleteLogin p c u))"
| "serve g (DoIssuerConsent c) = (case grSSOProvider g of None \<Rightarrow> ret () | Some p \<Rightarrow> answered_as (Consent p c))"
| "serve g (DoIssuerLogout c) = (case grSSOProvider g of None \<Rightarrow> ret () | Some p \<Rightarrow> answered_as (sso_Logout p c))"
| "serve g DoSSOStart = (case grSSOClient g of None \<Rightarrow> ret () | Some c \<Rightarrow> answered_as (sso_Start (grLib g) c))"
| "serve g (DoSSOUpgrade u) = (case grSSOClient g of None \<Rightarrow> ret () | Some c \<Rightarrow> answered_as (StartUpgrade (grLib g) c u))"
| "serve g (DoSSOCallback u k t) = (case grSSOClient g of None \<Rightarrow> ret () | Some c \<Rightarrow> answered_as (sso_Callback (grLib g) c u k t))"
| "serve g (DoSSOBackChannel t) = (case grSSOClient g of None \<Rightarrow> ret () | Some c \<Rightarrow> answered_as (BackChannelLogout c t))"
| "serve g (DoSSOSignOut t) = (case grSSOClient g of None \<Rightarrow> ret () | Some c \<Rightarrow> answered_as (SignOutURL (grLib g) c t))"

end
