(* ===== verification/System.thy ===== *)
theory System
  imports App
begin

text \<open>
  Runs of the application: any sequence of requests, scheduled jobs and events outside the database. One locale collects
  what an invariant of the accounts needs, from the account writes alone; it is interpreted for well-formedness of the
  database, for the last administrator and for the leadership of groups.
\<close>

section \<open>Runs\<close>

definition deletes_account :: "request \<Rightarrow> bool" where
  "deletes_account r = (case r of DoAdminDelete _ _ _ \<Rightarrow> True | _ \<Rightarrow> False)"

text \<open>
  A step serves an admitted request, runs one scheduled job, or happens elsewhere: time passes, the pool fails or
  recovers, usage events are stored. None of the last kind touches the tables.
\<close>

inductive app_step :: "graph \<Rightarrow> (request \<Rightarrow> bool) \<Rightarrow> world \<times> usage_store \<Rightarrow> world \<times> usage_store \<Rightarrow> bool"
  for g admitted where
  serves: "admitted r \<Longrightarrow> serve g r w = (q, w') \<Longrightarrow> app_step g admitted (w, u) (w', u)"
| maintains: "job \<in> set (mwJobs (grMaintenance g)) \<Longrightarrow> mjRun job p = (r, p') \<Longrightarrow> app_step g admitted p p'"
| elsewhere: "tables w' = tables w \<Longrightarrow> app_step g admitted (w, u) (w', u')"

inductive_cases app_stepE: "app_step g admitted p p'"

inductive app_run :: "graph \<Rightarrow> (request \<Rightarrow> bool) \<Rightarrow> world \<times> usage_store \<Rightarrow> world \<times> usage_store \<Rightarrow> bool"
  for g admitted where
  start: "app_run g admitted p p"
| go_on: "app_run g admitted p p' \<Longrightarrow> app_step g admitted p' p'' \<Longrightarrow> app_run g admitted p p''"

section \<open>What construction guarantees\<close>

text \<open>
  Outside parties reach the database only through the requests they answer: Hydra, Google and the issuer's endpoints
  leave the tables as they are.
\<close>

definition outside_ok :: "externals \<Rightarrow> bool" where
  "outside_ok X \<longleftrightarrow> (\<forall>cfg a. xHydra X cfg = Inr a \<longrightarrow> hydra_external a)
     \<and> (\<forall>cfg p. xGoogle X cfg = Inr p \<longrightarrow> (\<forall>c. pvClient p = Some c \<longrightarrow>
          (\<forall>a b. evolves (on_tables (=)) (ocAuthorizationURL c a b)) \<and> (\<forall>a b. evolves (on_tables (=)) (ocExchange c a b))))
     \<and> (\<forall>cfg r. xRelyingParty X cfg = Inr r \<longrightarrow> relying_party_external r)"

definition pg_limiter :: "world rate_limiter \<Rightarrow> bool" where
  "pg_limiter l \<longleftrightarrow> (\<exists>L scope. rlStore l = PostgresRateLimitStore L scope)"

definition provider_sessions :: "session_service \<Rightarrow> bool" where
  "provider_sessions s \<longleftrightarrow> (\<forall>f. ssSSO s = Some f \<longrightarrow> (\<exists>p. f = sso_RevokeUser p \<and> hydra_external (spAdmin p)))"

definition quiet_hash :: "(string \<Rightarrow> string prog) \<Rightarrow> bool" where
  "quiet_hash h \<longleftrightarrow> (\<forall>p. evolves (on_tables (=)) (h p))"

definition graph_ok :: "graph \<Rightarrow> bool" where
  "graph_ok g \<longleftrightarrow> list_all pg_limiter (limiters g) \<and> pg_limiter (lsLimiter (grSignIn g)) \<and> pg_limiter (prLimiter (grPasswordResetter g))
     \<and> lsRecorder (grSignIn g) = Some store_RecordLoginAttempt \<and> siAttempts (lsSignIn (grSignIn g)) = noopFailedAttemptState
     \<and> grAuditor g = Some Record \<and> gsAuditor (grGroup g) = Some Record \<and> aaAuditor (grAdminAccounts g) = Some Record
     \<and> aaSessions (grAdminAccounts g) = Some (RevokeUser (grSessions g)) \<and> provider_sessions (grSessions g)
     \<and> pcSessions (grPasswordConsumer g) = grSessions g \<and> guSessions (grGuestUpgrade g) = grSessions g
     \<and> pwSessions (grPasswordSettings g) = grSessions g
     \<and> quiet_hash (suHash (grSignUp g)) \<and> quiet_hash (pcHash (grPasswordConsumer g)) \<and> quiet_hash (guHash (grGuestUpgrade g))
     \<and> quiet_hash (pwHash (grPasswordSettings g)) \<and> quiet_hash (aaHash (grAdminAccounts g))
     \<and> providers_external (oaProviders (grOAuth g))
     \<and> (\<forall>p. grSSOProvider g = Some p \<longrightarrow> hydra_external (spAdmin p))
     \<and> (\<forall>c. grSSOClient g = Some c \<longrightarrow> relying_party_external (scRelyingParty c) \<and> scSessions c = grSessions g)
     \<and> (\<exists>cleanup retention. mwJobs (grMaintenance g) =
          map (\<lambda>j. \<lparr>mjName = fst j, mjRun = the (snd j)\<rparr>) (maintenance_jobs cleanup retention))"

lemma newSharedRateLimiter_Inr:
  assumes "newSharedRateLimiter L scope cfg = Inr l"
  shows "pg_limiter l"
proof -
  from assms obtain scope' where "rlStore l = PostgresRateLimitStore L scope'"
    by (auto simp: newSharedRateLimiter_def NewRateLimiterWithStore_def split: if_splits)
  then show ?thesis unfolding pg_limiter_def by blast
qed

lemma newProviderRegistry_Inr:
  assumes "newProviderRegistry X cfg = Inr r" and "outside_ok X"
  shows "providers_external r"
proof (cases "GoogleOAuthConfigured cfg")
  case True
  with assms(1) obtain p where p: "xGoogle X cfg = Inr p" and reg: "register_providers (xLib X) [Some p] [] = Inr r"
    by (auto simp: newProviderRegistry_def NewProviderRegistry_def)
  from reg obtain name where "r = [(name, p)]"
    by (cases "normalizeOAuthProviderName (xLib X) (pvName p)") auto
  with p assms(2) show ?thesis unfolding outside_ok_def providers_external_def by auto
next
  case False
  with assms(1) show ?thesis by (simp add: newProviderRegistry_def NewProviderRegistry_def providers_external_def)
qed

lemma newSSOProvider_Inr: "newSSOProvider X cfg = Inr p \<Longrightarrow> outside_ok X \<Longrightarrow> hydra_external (spAdmin p)"
  by (auto simp: newSSOProvider_def NewSSOProviderService_def outside_ok_def split: if_splits)

lemma newSSOClient_Inr:
  "newSSOClient X cfg s = Inr c \<Longrightarrow> outside_ok X \<Longrightarrow> relying_party_external (scRelyingParty c) \<and> scSessions c = s"
  by (cases "localized_path (xParseURL X) Default ''/sign-in''")
     (auto simp: newSSOClient_def NewSSOClientService_def outside_ok_def split: if_splits)

lemma quiet_hash_Hash: "quiet_hash (Hash A h)"
  by (simp add: quiet_hash_def evolves_Hash preord_eq)

lemma New_ok:
  assumes new: "New X cfg = Inr g" and out: "outside_ok X"
  shows "graph_ok g" and "grLib g = xLib X"
proof -
  let ?cfg = "withRetentionDefaults cfg"
  from new obtain plain ssoP h sil cl rl conf rs prov ssoC oa gl cln jl ret us wk where
    p: "NewSessionService (SessionLifetime ?cfg) = Inr plain"
      "(if AuthMode ?cfg = AuthModeProvider then must (newSSOProvider X ?cfg) (\<lambda>p. Inr (Some p)) else Inr None) = Inr ssoP"
    and l: "newSharedRateLimiter (xLib X) ''signin'' (authenticationRateLimitConfig ?cfg) = Inr sil"
      "newSharedRateLimiter (xLib X) ''confirmation'' (per_minute 10) = Inr cl"
      "newSharedRateLimiter (xLib X) ''password-reset'' (per_minute 10) = Inr rl"
      "newSharedRateLimiter (xLib X) ''guest'' (per_minute 10) = Inr gl"
      "newSharedRateLimiter (xLib X) ''group-join'' (per_minute 20) = Inr jl"
    and rs: "NewPasswordResetService rl (PublicURL ?cfg) DefaultPasswordResetLifetime = Inr rs"
    and prov: "newProviderRegistry X ?cfg = Inr prov"
    and oa: "NewOAuthSignInService prov (case ssoP of None \<Rightarrow> plain | Some p \<Rightarrow> SetSSORevoker (sso_RevokeUser p) plain)
        DefaultOAuthStateLifetime (xParseURL X) = Inr oa"
    and c: "(if AuthMode ?cfg = AuthModeClient then must (newSSOClient X ?cfg (case ssoP of None \<Rightarrow> plain
        | Some p \<Rightarrow> SetSSORevoker (sso_RevokeUser p) plain)) (\<lambda>c. Inr (Some c)) else Inr None) = Inr ssoC"
    and wk: "NewMaintenanceWorker DefaultMaintenanceInterval (maintenance_jobs cln ret) = Inr wk"
    and g: "g = \<lparr>grLib = xLib X, grSessions = (case ssoP of None \<Rightarrow> plain | Some p \<Rightarrow> SetSSORevoker (sso_RevokeUser p) plain),
        grSSOProvider = ssoP, grSSOClient = ssoC,
        grSignUp = \<lparr>suHash = Hash (xArgon2 X) h, suSessions = (case ssoP of None \<Rightarrow> plain | Some p \<Rightarrow> SetSSORevoker (sso_RevokeUser p) plain),
          suConfirmationRequired = EmailConfirmationRequired ?cfg\<rparr>,
        grSignIn = \<lparr>lsSignIn = \<lparr>siVerify = Verify (xArgon2 X), siSessions = (case ssoP of None \<Rightarrow> plain | Some p \<Rightarrow> SetSSORevoker (sso_RevokeUser p) plain),
            siAttempts = noopFailedAttemptState, siConfirmationRequired = EmailConfirmationRequired ?cfg\<rparr>,
          lsLimiter = sil, lsRecorder = Some store_RecordLoginAttempt\<rparr>,
        grSignInLimiter = sil, grConfirmationLimiter = cl, grResetLimiter = rl,
        grGuestLimiter = gl, grJoinLimiter = jl, grConfirmation = conf,
        grPasswordResetter = rs, grPasswordConsumer = \<lparr>pcHash = Hash (xArgon2 X) h, pcSessions = (case ssoP of None \<Rightarrow> plain | Some p \<Rightarrow> SetSSORevoker (sso_RevokeUser p) plain)\<rparr>,
        grOAuth = oa, grGuestUpgrade = \<lparr>guHash = Hash (xArgon2 X) h, guSessions = (case ssoP of None \<Rightarrow> plain | Some p \<Rightarrow> SetSSORevoker (sso_RevokeUser p) plain)\<rparr>, grGuestCleanup = cln,
        grPasswordSettings = \<lparr>pwHash = Hash (xArgon2 X) h, pwVerify = Verify (xArgon2 X), pwSessions = (case ssoP of None \<Rightarrow> plain | Some p \<Rightarrow> SetSSORevoker (sso_RevokeUser p) plain)\<rparr>,
        grGroup = \<lparr>gsAuditor = Some Record\<rparr>,
        grAdminAccounts = \<lparr>aaHash = Hash (xArgon2 X) h, aaAuditor = Some Record, aaSessions = Some (RevokeUser (case ssoP of None \<Rightarrow> plain | Some p \<Rightarrow> SetSSORevoker (sso_RevokeUser p) plain))\<rparr>,
        grAuditor = Some Record, grRetention = ret, grMaintenance = wk, grUsage = us\<rparr>"
    unfolding New_def Let_def must_Inr sum.inject by (elim exE conjE) (rule that, assumption+, rule sym, assumption)
  have s: "ssSSO plain = None" using p(1) by (auto simp: NewSessionService_def split: if_splits)
  have hyd: "\<forall>q. ssoP = Some q \<longrightarrow> hydra_external (spAdmin q)"
    using p(2) newSSOProvider_Inr [OF _ out] by (auto split: if_splits)
  have ses: "provider_sessions (case ssoP of None \<Rightarrow> plain | Some p \<Rightarrow> SetSSORevoker (sso_RevokeUser p) plain)"
    using s hyd by (auto simp: provider_sessions_def SetSSORevoker_def split: option.splits)
  have cli: "\<forall>q. ssoC = Some q \<longrightarrow> relying_party_external (scRelyingParty q)
      \<and> scSessions q = (case ssoP of None \<Rightarrow> plain | Some p \<Rightarrow> SetSSORevoker (sso_RevokeUser p) plain)"
    using c newSSOClient_Inr [OF _ out] by (auto split: if_splits)
  have "prLimiter rs = rl" using rs by (auto simp: NewPasswordResetService_def split: if_splits)
  moreover have "oaProviders oa = prov" using oa by (auto simp: NewOAuthSignInService_def split: if_splits)
  ultimately show "graph_ok g"
    using l [THEN newSharedRateLimiter_Inr] hyd ses cli newProviderRegistry_Inr [OF prov out] NewMaintenanceWorker_Inr(4) [OF wk]
    unfolding graph_ok_def g limiters_def by (simp add: quiet_hash_Hash) blast
  show "grLib g = xLib X" by (simp add: g)
qed

section \<open>Budgets seen by administrators\<close>

lemma pg_limiter_quiet: "pg_limiter l \<Longrightarrow> quiet_limiter l"
  unfolding pg_limiter_def by (elim exE) (rule quiet_limiter_postgres)

lemma evolves_pg_limiter:
  assumes l: "pg_limiter l" and c: "covers_quiet R"
  shows "evolves (on_tables R) (Actions l now)" "evolves (on_tables R) (ClearAction l action)"
    "evolves (on_tables R) (ClearAll l)"
proof -
  from l obtain L scope where st: "rlStore l = PostgresRateLimitStore L scope" by (auto simp: pg_limiter_def)
  have "evolves (on_tables quiet) (Actions l now) \<and> evolves (on_tables quiet) (ClearAction l action)
      \<and> evolves (on_tables quiet) (ClearAll l)"
    unfolding Actions_def live_def ClearAction_def ClearAll_def st PostgresRateLimitStore_def rate_limit_store.simps
      pg_ClearAction_def pg_ClearAll_def
    by (intro conjI evolves_intro preord_intro evolves_pg_rate_limit)
  then show "evolves (on_tables R) (Actions l now)" "evolves (on_tables R) (ClearAction l action)"
    "evolves (on_tables R) (ClearAll l)"
    by (blast intro: covers_quiet_mono [OF c])+
qed

lemma evolves_clear_loops:
  assumes c: "covers_quiet R"
  shows "pg_limiter l \<Longrightarrow> evolves (on_tables R) (clear_action_in l action as acc)"
    and "list_all pg_limiter ls \<Longrightarrow> evolves (on_tables R) (clear_action_all ls action acc)"
    and "list_all pg_limiter ls \<Longrightarrow> evolves (on_tables R) (clear_all ls n)"
    and "pg_limiter l \<Longrightarrow> evolves (on_tables R) (clear_keys l action keys)"
proof -
  have p: "preord (on_tables R)" by (intro preord_on_tables covers_quiet_preord [OF c])
  have inner: "evolves (on_tables R) (clear_action_in l action as acc)" if l: "pg_limiter l" for l as acc
  proof (induction as arbitrary: acc)
    case Nil
    show ?case by (cases acc) (simp add: evolves_ret [OF p])
  next
    case (Cons a as)
    show ?case
      by (cases acc, simp only: clear_action_in.simps) (intro evolves_if evolves_call p evolves_pg_limiter [OF l c] Cons)
  qed
  then show "pg_limiter l \<Longrightarrow> evolves (on_tables R) (clear_action_in l action as acc)" .
  show "list_all pg_limiter ls \<Longrightarrow> evolves (on_tables R) (clear_action_all ls action acc)"
  proof (induction ls arbitrary: acc)
    case (Cons l ls)
    then have l: "pg_limiter l" "list_all pg_limiter ls" by simp_all
    show ?case unfolding clear_action_all.simps
      by (intro evolves_reading evolves_call p evolves_pg_limiter [OF l(1) c] inner l Cons.IH)
  qed (simp add: evolves_ret [OF p])
  show "list_all pg_limiter ls \<Longrightarrow> evolves (on_tables R) (clear_all ls n)"
  proof (induction ls arbitrary: n)
    case (Cons l ls)
    then have l: "pg_limiter l" "list_all pg_limiter ls" by simp_all
    show ?case unfolding clear_all.simps
      by (intro evolves_attempt evolves_case_sum evolves_ret p evolves_pg_limiter [OF l(1) c] Cons.IH l)
  qed (simp add: evolves_ret [OF p])
  show "pg_limiter l \<Longrightarrow> evolves (on_tables R) (clear_keys l action keys)"
  proof (induction keys)
    case (Cons key keys)
    then have ih: "evolves (on_tables R) (clear_keys l action keys)" by simp
    show ?case unfolding clear_keys.simps
      by (intro evolves_call p evolves_Clear [OF pg_limiter_quiet c] Cons.prems ih)
  qed (simp add: evolves_ret [OF p])
qed

lemma evolves_recentOrigins: "preord R \<Longrightarrow> evolves (on_tables R) (recentOrigins target)"
  unfolding recentOrigins_def ListLoginAttemptsForEmail_def
  by (intro evolves_intro preord_intro) (auto simp: select_attempts_def preord_refl)

lemma evolves_budget_admin:
  assumes c: "covers_quiet R" and a: "quiet_auditor auditor" and l: "pg_limiter l" and ls: "list_all pg_limiter ls"
  shows "evolves (on_tables R) (lockout_Clear L l auditor actor target)"
    "evolves (on_tables R) (limits_ClearAction ls auditor actor action)"
    "evolves (on_tables R) (limits_ClearAll ls auditor actor)"
  unfolding lockout_Clear_def limits_ClearAction_def limits_ClearAll_def limits_record_def
  by (intro evolves_intro preord_intro covers_quiet_preord [OF c] evolves_clear_loops(4) [OF c l] evolves_recentOrigins
      evolves_audit_ignoring [OF a c] evolves_clear_loops(2,3) [OF c ls])+

section \<open>Scheduled jobs\<close>

lemma retention_quiet:
  "db_ok L d \<Longrightarrow> db_ok L (d\<lparr>email_tokens := delete_where P (email_tokens d)\<rparr>)"
  "db_ok L d \<Longrightarrow> db_ok L (d\<lparr>reset_tokens := delete_where P (reset_tokens d)\<rparr>)"
  "db_ok L d \<Longrightarrow> db_ok L (d\<lparr>oauth_states := delete_where Q (oauth_states d)\<rparr>)"
  "db_ok L d \<Longrightarrow> db_ok L (d\<lparr>sso_logins := delete_where S (sso_logins d)\<rparr>)"
  "db_ok L d \<Longrightarrow> db_ok L (d\<lparr>login_attempts := delete_where T (login_attempts d)\<rparr>)"
  by (auto simp: db_ok_def tokens_ok_def oauth_ok_def history_ok_def)

lemma evolves_retention:
  assumes c: "covers_quiet R"
  shows "evolves (on_tables R) (DeleteExpiredEmailConfirmationTokens now)" "evolves (on_tables R) (DeleteExpiredPasswordResetTokens now)"
    "evolves (on_tables R) (DeleteExpiredOAuthStates now)" "evolves (on_tables R) (DeleteExpiredSSOLoginSessions now)"
    "evolves (on_tables R) (DeleteLoginAttemptsBefore now)"
proof -
  have "evolves (on_tables quiet) (DeleteExpiredEmailConfirmationTokens now)" "evolves (on_tables quiet) (DeleteExpiredPasswordResetTokens now)"
    "evolves (on_tables quiet) (DeleteExpiredOAuthStates now)" "evolves (on_tables quiet) (DeleteExpiredSSOLoginSessions now)"
    "evolves (on_tables quiet) (DeleteLoginAttemptsBefore now)"
    unfolding DeleteExpiredEmailConfirmationTokens_def DeleteExpiredPasswordResetTokens_def DeleteExpiredOAuthStates_def
      DeleteExpiredSSOLoginSessions_def DeleteLoginAttemptsBefore_def retention_delete_def
    by (intro evolves_intro preord_intro; auto simp: quiet_def retention_quiet)+
  then show "evolves (on_tables R) (DeleteExpiredEmailConfirmationTokens now)" "evolves (on_tables R) (DeleteExpiredPasswordResetTokens now)"
    "evolves (on_tables R) (DeleteExpiredOAuthStates now)" "evolves (on_tables R) (DeleteExpiredSSOLoginSessions now)"
    "evolves (on_tables R) (DeleteLoginAttemptsBefore now)"
    by (blast intro: covers_quiet_mono [OF c])+
qed

definition task_keeps :: "(db \<Rightarrow> bool) \<Rightarrow> world maintenance_task \<Rightarrow> bool" where
  "task_keeps I t \<longleftrightarrow> (\<forall>w. I (tables w) \<longrightarrow> I (tables (snd (t w))))"

lemma task_keeps_task_of: "evolves (on_tables (keeps I)) m \<Longrightarrow> task_keeps I (task_of m)"
  by (auto simp: task_keeps_def task_of_def dest: kept_after split: prod.splits sum.splits)

lemma task_keeps_remove_each: "list_all (\<lambda>m. evolves (on_tables (keeps I)) m) ms \<Longrightarrow> task_keeps I (remove_each ms n)"
proof (induction ms arbitrary: n)
  case (Cons m ms)
  show ?case
    unfolding task_keeps_def
  proof (intro allI impI)
    fix w :: world
    assume i: "I (tables w)"
    obtain q w' where m: "m w = (q, w')" by (cases "m w")
    have "I (tables w')" using kept_after [of I m w] Cons.prems i m by simp
    then show "I (tables (snd (remove_each (m # ms) n w)))"
      using Cons m by (auto simp: task_keeps_def split: sum.splits)
  qed
qed (simp add: task_keeps_def)

lemma task_keeps_CleanupTokens:
  assumes "\<And>t. evolves (on_tables (keeps I)) (DeleteExpiredEmailConfirmationTokens t)"
    and "\<And>t. evolves (on_tables (keeps I)) (DeleteExpiredPasswordResetTokens t)"
    and "\<And>t. evolves (on_tables (keeps I)) (DeleteExpiredOAuthStates t)"
    and "\<And>t. evolves (on_tables (keeps I)) (DeleteExpiredSSOLoginSessions t)"
  shows "task_keeps I (CleanupTokens s)"
proof (cases "retention_validate s")
  case None
  have "task_keeps I (remove_each [DeleteExpiredEmailConfirmationTokens t, DeleteExpiredPasswordResetTokens t,
      DeleteExpiredOAuthStates t, DeleteExpiredSSOLoginSessions t] 0)" for t
    using assms by (intro task_keeps_remove_each) simp
  with None show ?thesis unfolding task_keeps_def CleanupTokens_def Let_def by (simp only: option.case) blast
qed (simp add: task_keeps_def CleanupTokens_def)

lemma task_keeps_CleanupLoginAttempts:
  assumes "\<And>t. evolves (on_tables (keeps I)) (DeleteLoginAttemptsBefore t)"
  shows "task_keeps I (CleanupLoginAttempts s)"
proof (cases "retention_validate s")
  case None
  have "task_keeps I (task_of (call (DeleteLoginAttemptsBefore t) Wrap ret))" for t
    by (intro task_keeps_task_of evolves_call evolves_ret preord_intro assms)
  with None show ?thesis unfolding task_keeps_def CleanupLoginAttempts_def by (simp only: option.case) blast
qed (simp add: task_keeps_def CleanupLoginAttempts_def)

section \<open>Invariants of the accounts\<close>

text \<open>
  What an invariant of the database needs: the group operations and everything that leaves accounts and groups alone keep
  it, and so do the four operations on accounts that services share. Every request but the deletion of an account then
  keeps it.
\<close>

locale account_invariant =
  fixes L :: golib and I :: "db \<Rightarrow> bool"
  assumes group_writes: "covers_group (keeps I)"
    and creates: "\<And>u. evolves (on_tables (keeps I)) (CreateUser L u)"
    and updates: "\<And>u v. evolves (on_tables (keeps I)) (UpdateUser L u v)"
    and upgrades: "\<And>u v i t. evolves (on_tables (keeps I)) (UpgradeGuestWithIdentity L u v i t)"
    and cleans: "\<And>r. evolves (on_tables (keeps I)) (Cleanup r)"
begin

lemmas quiet_writes = covers_group_quiet [OF group_writes]

lemma evolves_answered: "evolves (on_tables (keeps I)) m \<Longrightarrow> evolves (on_tables (keeps I)) (answered_as m)"
  unfolding answered_as_def by (intro evolves_intro preord_intro)

lemma evolves_when_configured:
  "(\<And>x. v = Some x \<Longrightarrow> evolves (on_tables (keeps I)) (m x)) \<Longrightarrow>
    evolves (on_tables (keeps I)) (case v of None \<Rightarrow> ret () | Some x \<Rightarrow> answered_as (m x))"
  by (cases v) (auto intro: evolves_ret preord_intro evolves_answered)

lemma hash_kept: "quiet_hash h \<Longrightarrow> evolves (on_tables (keeps I)) (h p)"
  unfolding quiet_hash_def by (rule evolves_eq_mono [OF preord_keeps]) blast

lemma revoker_kept: "provider_sessions s \<Longrightarrow> ssSSO s = Some f \<Longrightarrow> evolves (on_tables (keeps I)) (f uid)"
  unfolding provider_sessions_def by (auto intro: evolves_sso_provider(5) [OF quiet_writes])

text \<open>The services of a graph, with what construction has settled.\<close>

lemma graph_facts:
  assumes "graph_ok g"
  shows "list_all pg_limiter (limiters g)" "quiet_limiter (grSignInLimiter g)" "quiet_limiter (grConfirmationLimiter g)"
    "quiet_limiter (grGuestLimiter g)" "quiet_limiter (grJoinLimiter g)" "quiet_limiter (lsLimiter (grSignIn g))"
    "quiet_limiter (prLimiter (grPasswordResetter g))" "pg_limiter (grSignInLimiter g)" "quiet_recorder (lsRecorder (grSignIn g))"
    "quiet_auditor (grAuditor g)" "quiet_auditor (gsAuditor (grGroup g))" "quiet_auditor (aaAuditor (grAdminAccounts g))"
    "providers_external (oaProviders (grOAuth g))"
  using assms by (auto simp: graph_ok_def limiters_def pg_limiter_quiet)

lemma served_by_visitors:
  assumes g: "graph_ok g" and L: "grLib g = L"
  shows "evolves (on_tables (keeps I)) (limited_SignUp L (grSignUp g) (grSignInLimiter g) i)"
    "evolves (on_tables (keeps I)) (limited_SignIn L (grSignIn g) j origin)"
    "evolves (on_tables (keeps I)) (SignOut L c)" "evolves (on_tables (keeps I)) (Lookup L c)"
    "evolves (on_tables (keeps I)) (Confirm L t)" "evolves (on_tables (keeps I)) (Issue L (grConfirmation g) u)"
    "evolves (on_tables (keeps I)) (Resend L (grConfirmation g) (grConfirmationLimiter g) e)"
    "evolves (on_tables (keeps I)) (Request L (grPasswordResetter g) e)"
    "evolves (on_tables (keeps I)) (Redeem L (grPasswordConsumer g) t p)"
proof -
  note q = quiet_writes and f = graph_facts [OF g]
  have h: "quiet_hash (suHash (grSignUp g))" "quiet_hash (pcHash (grPasswordConsumer g))"
    and s: "provider_sessions (pcSessions (grPasswordConsumer g))"
    and a: "siAttempts (lsSignIn (grSignIn g)) = noopFailedAttemptState"
    using g by (auto simp: graph_ok_def)
  have noop: "evolves (on_tables (keeps I)) (siAttempts (lsSignIn (grSignIn g)) i)" for i
    unfolding a noopFailedAttemptState_def by (intro evolves_ret preord_intro)
  show "evolves (on_tables (keeps I)) (limited_SignUp L (grSignUp g) (grSignInLimiter g) i)"
    by (rule evolves_limited_SignUp [OF q creates hash_kept [OF h(1)] f(2)])
  show "evolves (on_tables (keeps I)) (limited_SignIn L (grSignIn g) j origin)"
    by (rule evolves_limited_SignIn [OF q noop f(6) f(9)])
  show "evolves (on_tables (keeps I)) (SignOut L c)" by (rule evolves_SignOut [OF q])
  show "evolves (on_tables (keeps I)) (Lookup L c)" by (rule evolves_Lookup [OF preord_keeps])
  show "evolves (on_tables (keeps I)) (Confirm L t)" by (rule evolves_Confirm [OF q updates])
  show "evolves (on_tables (keeps I)) (Issue L (grConfirmation g) u)" by (rule evolves_Issue [OF q])
  show "evolves (on_tables (keeps I)) (Resend L (grConfirmation g) (grConfirmationLimiter g) e)"
    by (rule evolves_Resend [OF q f(3)])
  show "evolves (on_tables (keeps I)) (Request L (grPasswordResetter g) e)" by (rule evolves_Request [OF q f(7)])
  show "evolves (on_tables (keeps I)) (Redeem L (grPasswordConsumer g) t p)"
    by (rule evolves_Redeem, rule q, rule updates, rule hash_kept [OF h(2)], erule revoker_kept [OF s])
qed

lemma served_by_members:
  assumes g: "graph_ok g" and L: "grLib g = L"
  shows "evolves (on_tables (keeps I)) (limited_guest_Create L (grSessions g) (grGuestLimiter g) origin t)"
    "evolves (on_tables (keeps I)) (limited_guest_Redeem L (grSessions g) (grGuestLimiter g) origin c)"
    "evolves (on_tables (keeps I)) (claim_Issue u)"
    "evolves (on_tables (keeps I)) (Upgrade L (grGuestUpgrade g) u gi)"
    "evolves (on_tables (keeps I)) (UpdateTheme L u t)" "evolves (on_tables (keeps I)) (profile_Update L u prof)"
    "evolves (on_tables (keeps I)) (locale_Update L u l)"
    "evolves (on_tables (keeps I)) (password_Update L (grPasswordSettings g) u pw)"
    "evolves (on_tables (keeps I)) (Start L (grOAuth g) n)" "evolves (on_tables (keeps I)) (StartLink L (grOAuth g) u n)"
    "evolves (on_tables (keeps I)) (CompleteCallback L (grOAuth g) u n c t)" "evolves (on_tables (keeps I)) (Unlink u k)"
proof -
  note q = quiet_writes and f = graph_facts [OF g]
  have h: "quiet_hash (guHash (grGuestUpgrade g))" "quiet_hash (pwHash (grPasswordSettings g))"
    and s: "provider_sessions (guSessions (grGuestUpgrade g))" "provider_sessions (pwSessions (grPasswordSettings g))"
    using g by (auto simp: graph_ok_def)
  show "evolves (on_tables (keeps I)) (limited_guest_Create L (grSessions g) (grGuestLimiter g) origin t)"
    by (rule evolves_limited_guests(1) [OF q f(4) creates])
  show "evolves (on_tables (keeps I)) (limited_guest_Redeem L (grSessions g) (grGuestLimiter g) origin c)"
    by (rule evolves_limited_guests(2) [OF q f(4)])
  show "evolves (on_tables (keeps I)) (claim_Issue u)" by (rule evolves_claim_Issue [OF q])
  show "evolves (on_tables (keeps I)) (Upgrade L (grGuestUpgrade g) u gi)"
    by (rule evolves_Upgrade, rule q, rule updates, rule hash_kept [OF h(1)], erule revoker_kept [OF s(1)])
  show "evolves (on_tables (keeps I)) (UpdateTheme L u t)" "evolves (on_tables (keeps I)) (profile_Update L u prof)"
    "evolves (on_tables (keeps I)) (locale_Update L u l)"
    by (rule evolves_settings [OF q updates])+
  show "evolves (on_tables (keeps I)) (password_Update L (grPasswordSettings g) u pw)"
    by (rule evolves_password_Update, rule q, rule updates, rule hash_kept [OF h(2)], erule revoker_kept [OF s(2)])
  show "evolves (on_tables (keeps I)) (Start L (grOAuth g) n)" "evolves (on_tables (keeps I)) (StartLink L (grOAuth g) u n)"
    by (rule evolves_starts [OF q f(13)])+
  show "evolves (on_tables (keeps I)) (CompleteCallback L (grOAuth g) u n c t)"
    by (rule evolves_callbacks(2) [OF q f(13) creates updates])
  show "evolves (on_tables (keeps I)) (Unlink u k)" by (rule evolves_Unlink [OF q])
qed

lemma served_by_groups:
  assumes g: "graph_ok g" and L: "grLib g = L"
  shows "evolves (on_tables (keeps I)) (group_Create L u n)" "evolves (on_tables (keeps I)) (group_List u)"
    "evolves (on_tables (keeps I)) (Detail L u k)" "evolves (on_tables (keeps I)) (Rename L (grGroup g) u k v n)"
    "evolves (on_tables (keeps I)) (RotateInvite L (grGroup g) u k)"
    "evolves (on_tables (keeps I)) (RateLimited_Join L (grJoinLimiter g) u c)"
    "evolves (on_tables (keeps I)) (ChangeRole (grGroup g) u k t v r)"
    "evolves (on_tables (keeps I)) (RemoveMember (grGroup g) u k t v)" "evolves (on_tables (keeps I)) (Leave u k)"
proof -
  note f = graph_facts [OF g]
  show "evolves (on_tables (keeps I)) (group_List u)" "evolves (on_tables (keeps I)) (Detail L u k)"
    by (rule evolves_group_views [OF preord_keeps])+
  show "evolves (on_tables (keeps I)) (RateLimited_Join L (grJoinLimiter g) u c)"
    by (rule evolves_RateLimited_Join [OF group_writes f(5)])
  show "evolves (on_tables (keeps I)) (group_Create L u n)" "evolves (on_tables (keeps I)) (Rename L (grGroup g) u k v n)"
    "evolves (on_tables (keeps I)) (RotateInvite L (grGroup g) u k)"
    "evolves (on_tables (keeps I)) (ChangeRole (grGroup g) u k t v r)"
    "evolves (on_tables (keeps I)) (RemoveMember (grGroup g) u k t v)" "evolves (on_tables (keeps I)) (Leave u k)"
    by (rule evolves_group_writes [OF group_writes f(11)])+
qed

lemma revoker_of_admins:
  assumes g: "graph_ok g" and f: "aaSessions (grAdminAccounts g) = Some f"
  shows "evolves (on_tables (keeps I)) (f uid)"
proof -
  from g have s: "aaSessions (grAdminAccounts g) = Some (RevokeUser (grSessions g))" "provider_sessions (grSessions g)"
    by (simp_all add: graph_ok_def)
  have "evolves (on_tables (keeps I)) (RevokeUser (grSessions g) uid)"
    by (rule evolves_RevokeUser [OF quiet_writes], erule revoker_kept [OF s(2)])
  with f s(1) show ?thesis by simp
qed

lemma served_by_admins:
  assumes g: "graph_ok g" and L: "grLib g = L"
  shows "evolves (on_tables (keeps I)) (admin_Create L (grAdminAccounts g) a ci)"
    "evolves (on_tables (keeps I)) (admin_Update L (grAdminAccounts g) a u ui)"
    "evolves (on_tables (keeps I)) (RevokeSessions (grAdminAccounts g) a u)"
    "evolves (on_tables (keeps I)) (RemoveIdentity (grAuditor g) a u iid)"
    "evolves (on_tables (keeps I)) (ConfirmEmail L (grAuditor g) a u)"
    "evolves (on_tables (keeps I)) (SendConfirmation L (grConfirmation g) (grAuditor g) a u)"
    "evolves (on_tables (keeps I)) (lockout_Clear L (grSignInLimiter g) (grAuditor g) a target)"
    "evolves (on_tables (keeps I)) (limits_ClearAction (limiters g) (grAuditor g) a k)"
    "evolves (on_tables (keeps I)) (limits_ClearAll (limiters g) (grAuditor g) a)"
proof -
  note q = quiet_writes and f = graph_facts [OF g]
  have h: "quiet_hash (aaHash (grAdminAccounts g))" using g by (simp add: graph_ok_def)
  show "evolves (on_tables (keeps I)) (admin_Create L (grAdminAccounts g) a ci)"
    by (rule evolves_admin_accounts(2), rule q, rule f(12), rule hash_kept [OF h], erule revoker_of_admins [OF g], rule creates, rule updates)
  show "evolves (on_tables (keeps I)) (admin_Update L (grAdminAccounts g) a u ui)"
    by (rule evolves_admin_accounts(3), rule q, rule f(12), rule hash_kept [OF h], erule revoker_of_admins [OF g], rule creates, rule updates)
  show "evolves (on_tables (keeps I)) (RevokeSessions (grAdminAccounts g) a u)"
    by (rule evolves_admin_accounts(1), rule q, rule f(12), rule hash_kept [OF h], erule revoker_of_admins [OF g], rule creates, rule updates)
  show "evolves (on_tables (keeps I)) (RemoveIdentity (grAuditor g) a u iid)"
    "evolves (on_tables (keeps I)) (ConfirmEmail L (grAuditor g) a u)"
    "evolves (on_tables (keeps I)) (SendConfirmation L (grConfirmation g) (grAuditor g) a u)"
    by (rule evolves_admin_credentials [OF q f(10) updates])+
  show "evolves (on_tables (keeps I)) (lockout_Clear L (grSignInLimiter g) (grAuditor g) a target)"
    "evolves (on_tables (keeps I)) (limits_ClearAction (limiters g) (grAuditor g) a k)"
    "evolves (on_tables (keeps I)) (limits_ClearAll (limiters g) (grAuditor g) a)"
    by (rule evolves_budget_admin [OF q f(10) f(8) f(1)])+
qed

lemma served_by_sso:
  assumes g: "graph_ok g" and L: "grLib g = L"
  shows "grSSOProvider g = Some p \<Longrightarrow> evolves (on_tables (keeps I)) (BeginLogin p ch u)"
    "grSSOProvider g = Some p \<Longrightarrow> evolves (on_tables (keeps I)) (CompleteLogin p ch u)"
    "grSSOProvider g = Some p \<Longrightarrow> evolves (on_tables (keeps I)) (Consent p ch)"
    "grSSOProvider g = Some p \<Longrightarrow> evolves (on_tables (keeps I)) (sso_Logout p ch)"
    "grSSOClient g = Some c \<Longrightarrow> evolves (on_tables (keeps I)) (sso_Start L c)"
    "grSSOClient g = Some c \<Longrightarrow> evolves (on_tables (keeps I)) (StartUpgrade L c u)"
    "grSSOClient g = Some c \<Longrightarrow> evolves (on_tables (keeps I)) (sso_Callback L c u k t)"
    "grSSOClient g = Some c \<Longrightarrow> evolves (on_tables (keeps I)) (BackChannelLogout c t)"
    "grSSOClient g = Some c \<Longrightarrow> evolves (on_tables (keeps I)) (SignOutURL L c t)"
proof -
  have p: "hydra_external (spAdmin p)" if "grSSOProvider g = Some p" for p using g that by (simp add: graph_ok_def)
  have c: "relying_party_external (scRelyingParty c)" "provider_sessions (scSessions c)" if "grSSOClient g = Some c" for c
    using g that by (simp_all add: graph_ok_def)
  note q = quiet_writes
  show "grSSOProvider g = Some p \<Longrightarrow> evolves (on_tables (keeps I)) (BeginLogin p ch u)"
    "grSSOProvider g = Some p \<Longrightarrow> evolves (on_tables (keeps I)) (CompleteLogin p ch u)"
    "grSSOProvider g = Some p \<Longrightarrow> evolves (on_tables (keeps I)) (Consent p ch)"
    "grSSOProvider g = Some p \<Longrightarrow> evolves (on_tables (keeps I)) (sso_Logout p ch)"
    by (erule evolves_sso_provider [OF q p])+
  show "grSSOClient g = Some c \<Longrightarrow> evolves (on_tables (keeps I)) (sso_Start L c)"
    by (rule evolves_sso_client(1), rule q, erule c, rule creates, rule updates, rule upgrades, erule revoker_kept [OF c(2)])
  show "grSSOClient g = Some c \<Longrightarrow> evolves (on_tables (keeps I)) (StartUpgrade L c u)"
    by (rule evolves_sso_client(2), rule q, erule c, rule creates, rule updates, rule upgrades, erule revoker_kept [OF c(2)])
  show "grSSOClient g = Some c \<Longrightarrow> evolves (on_tables (keeps I)) (sso_Callback L c u k t)"
    by (rule evolves_sso_client(3), rule q, erule c, rule creates, rule updates, rule upgrades, erule revoker_kept [OF c(2)])
  show "grSSOClient g = Some c \<Longrightarrow> evolves (on_tables (keeps I)) (BackChannelLogout c t)"
    "grSSOClient g = Some c \<Longrightarrow> evolves (on_tables (keeps I)) (SignOutURL L c t)"
    by (erule evolves_sso_sign_out [OF q c(1)])+
qed

lemma served:
  assumes g: "graph_ok g" and L: "grLib g = L" and r: "\<not> deletes_account r"
  shows "evolves (on_tables (keeps I)) (serve g r)"
proof (cases r)
  case (DoAdminDelete a u v)
  with r show ?thesis by (simp add: deletes_account_def)
qed (simp_all only: serve.simps L; intro evolves_answered evolves_when_configured
    served_by_visitors [OF g L] served_by_members [OF g L] served_by_groups [OF g L] served_by_admins [OF g L]
    served_by_sso [OF g L]; assumption?)+

lemma jobs_kept:
  assumes g: "graph_ok g" and job: "job \<in> set (mwJobs (grMaintenance g))" and run: "mjRun job p = (r, p')"
    and i: "I (tables (fst p))"
  shows "I (tables (fst p'))"
proof -
  from g obtain cleanup s where jobs: "mwJobs (grMaintenance g)
      = map (\<lambda>j. \<lparr>mjName = fst j, mjRun = the (snd j)\<rparr>) (maintenance_jobs cleanup s)"
    unfolding graph_ok_def by blast
  have keep: "I (tables (fst (snd (database_job t p))))" if "task_keeps I t" for t
  proof -
    from that i have "I (tables (snd (t (fst p))))" by (simp add: task_keeps_def)
    then show ?thesis by (cases "t (fst p)") (simp add: database_job_def)
  qed
  have "task_keeps I (task_of (Cleanup cleanup))" by (intro task_keeps_task_of cleans)
  moreover have "task_keeps I (CleanupTokens s)"
    by (rule task_keeps_CleanupTokens) (rule evolves_retention [OF quiet_writes])+
  moreover have "task_keeps I (CleanupLoginAttempts s)"
    by (rule task_keeps_CleanupLoginAttempts) (rule evolves_retention [OF quiet_writes])
  moreover have "task_keeps I (task_of pg_DeleteExpired)"
    unfolding pg_DeleteExpired_def
    by (intro task_keeps_task_of evolves_reading preord_intro covers_quiet_mono [OF quiet_writes evolves_pg_rate_limit(3)])
  ultimately have "\<forall>t \<in> {task_of (Cleanup cleanup), CleanupTokens s, CleanupLoginAttempts s, task_of pg_DeleteExpired}.
      I (tables (fst (snd (database_job t p))))" using keep by blast
  moreover have "fst (snd (usage_job s p)) = fst p" by (simp add: usage_job_def split: prod.split)
  ultimately show ?thesis
    using job run i unfolding jobs maintenance_jobs_def by auto
qed

text \<open>An invariant that every admitted request keeps holds throughout a run.\<close>

lemma run_kept:
  assumes g: "graph_ok g" and adm: "\<And>r. admitted r \<Longrightarrow> evolves (on_tables (keeps I)) (serve g r)"
    and run: "app_run g admitted p p'"
  shows "I (tables (fst p)) \<Longrightarrow> I (tables (fst p'))"
  using run
proof induction
  case (go_on p p' p'')
  from go_on.hyps(2) go_on.IH [OF go_on.prems] show ?case
    by cases (auto dest: kept_after [OF adm] jobs_kept [OF g])
qed

lemma run_without_deletions:
  assumes "graph_ok g" "grLib g = L" "\<And>r. admitted r \<Longrightarrow> \<not> deletes_account r" "app_run g admitted p p'"
  shows "I (tables (fst p)) \<Longrightarrow> I (tables (fst p'))"
  by (rule run_kept [OF assms(1) served [OF assms(1,2,3)] assms(4)])

end

locale account_invariant_deleting = account_invariant +
  assumes deletes: "\<And>u v. evolves (on_tables (keeps I)) (DeleteUser u v)"
begin

lemma served_always:
  assumes g: "graph_ok g" and L: "grLib g = L"
  shows "evolves (on_tables (keeps I)) (serve g r)"
proof (cases "deletes_account r")
  case True
  then obtain a u v where r: "r = DoAdminDelete a u v" by (auto simp: deletes_account_def split: request.splits)
  have "evolves (on_tables (keeps I)) (admin_Delete (grAdminAccounts g) a u v)"
    by (rule evolves_admin_Delete, rule quiet_writes, rule graph_facts(12) [OF g], erule revoker_of_admins [OF g], rule deletes)
  then show ?thesis unfolding r serve.simps by (rule evolves_answered)
qed (rule served [OF g L])

lemma run_with_deletions:
  assumes "graph_ok g" "grLib g = L" "app_run g admitted p p'"
  shows "I (tables (fst p)) \<Longrightarrow> I (tables (fst p'))"
  by (rule run_kept [OF assms(1) served_always [OF assms(1,2)] assms(3)])

end

interpretation well_formed: account_invariant_deleting L "db_ok L" for L
  by unfold_locales
    (rule covers_group_ok evolves_CreateUser_ok evolves_UpdateUser_ok evolves_UpgradeGuest_ok evolves_Cleanup_ok evolves_DeleteUser_ok)+

interpretation administered: account_invariant_deleting L "admin_inv L" for L
  by unfold_locales
    (rule covers_group_admin evolves_CreateUser_admin evolves_UpdateUser_admin evolves_UpgradeGuest_admin evolves_Cleanup_admin
      evolves_DeleteUser_admin)+

interpretation led: account_invariant L "group_inv L" for L
  by unfold_locales
    (rule covers_group_inv evolves_group_view evolves_CreateUser_ok evolves_UpdateUser_ok evolves_UpgradeGuest_ok evolves_Cleanup_ok
      evolves_CreateUser_view evolves_UpdateUser_view evolves_UpgradeGuest_view evolves_Cleanup_view)+

section \<open>Properties\<close>


text \<open>
  C32: The site never loses its last administrator: once it has an account with administrator rights that is not a guest, it
  has one after every run of the application, the deletion and the demotion of administrators included.
\<close>

theorem app_keeps_administrator:
  assumes "New X cfg = Inr g" and "outside_ok X" and "app_run g admitted (w, u) (w', u')" and "admin_inv (xLib X) (tables w)"
  shows "has_site_admin (tables w')"
  using administered.run_with_deletions [OF New_ok [OF assms(1,2)] assms(3)] assms(4) by (simp add: admin_inv_def)

text \<open>
  C33: Every group stays led: in a run without deletions of accounts by an administrator, each group keeps a member with the
  admin role, through joining, leaving, removals, changes of role, conversions of guests and the cleanup of abandoned ones.
\<close>

theorem app_keeps_groups_led:
  assumes "New X cfg = Inr g" and "outside_ok X" and "app_run g (\<lambda>r. \<not> deletes_account r) (w, u) (w', u')"
    and "group_inv (xLib X) (tables w)"
  shows "groups_led (tables w')"
  using led.run_without_deletions [OF New_ok [OF assms(1,2)] _ assms(3)] assms(4) by (simp add: group_inv_def)

section \<open>An application of a development configuration\<close>

definition demo_app :: externals where
  "demo_app = \<lparr>xLib = ascii_lib, xArgon2 = demo_argon2, xHydra = (\<lambda>_. Inl AnonymousError), xGoogle = (\<lambda>_. Inl AnonymousError),
     xRelyingParty = (\<lambda>_. Inl AnonymousError), xMailSender = (\<lambda>_. Inr ()), xCollation = string_less, xParseURL = demo_url\<rparr>"

definition demo_app_config :: config where
  "demo_app_config = \<lparr>Environment = EnvironmentDevelopment, HTTPAddress = DefaultHTTPAddress,
     PublicURL = \<lparr>urlScheme = ''https'', urlUser = False, urlHost = ''id.test'', urlPath = [], urlRawQuery = [], urlFragment = []\<rparr>,
     SessionCookieSecure = True, EmailConfirmationRequired = False, SessionLifetime = DefaultSessionLifetime,
     GuestRetention = 0, LoginAttemptRetention = 0, UsageEventRetention = 0, AuthRateLimit = 5,
     DatabaseURL = Secret [], SessionSecret = Secret [], BootstrapAdminEmail = [], BootstrapAdminPassword = Secret [],
     MailRelay = Secret [], ResendAPIKey = Secret [], MailFrom = [], mailFromConfigured = False, TrustedProxy = [],
     GoogleClientID = [], GoogleClientSecret = Secret [], GoogleRedirectURL = [], AuthMode = AuthModeLocal, HydraAdminURL = [],
     SSOIssuerURL = [], SSOClientID = [], SSOClientSecret = Secret [], SSORedirectURL = [], SSOAccountURL = []\<rparr>"

lemma demo_outside_ok: "outside_ok demo_app"
  by (simp add: outside_ok_def demo_app_def)

lemma demo_jobs_accepted: "\<exists>worker. NewMaintenanceWorker DefaultMaintenanceInterval (maintenance_jobs cleanup retention) = Inr worker"
proof -
  have "printable name" if "name \<in> set (map fst (maintenance_jobs cleanup retention))" for name
    using that unfolding maintenance_jobs_def by simp (elim disjE; simp only:; code_simp)
  then show ?thesis
    by (simp add: NewMaintenanceWorker_def maintenance_jobs_def validateMaintenanceJob_def maxMaintenanceJobName_def)
qed

lemma demo_limiters_accepted:
  assumes "0 < rcLimit cfg" and "0 < rcWindow cfg"
    and "scope \<in> {''signin'', ''confirmation'', ''password-reset'', ''guest'', ''group-join''}"
  shows "\<exists>l. newSharedRateLimiter L scope cfg = Inr l"
proof -
  have "TrimSpace scope \<noteq> [] \<and> length scope \<le> 64"
    using assms(3) by simp (elim disjE; simp only:; code_simp)
  with assms(1,2) show ?thesis
    by (simp add: newSharedRateLimiter_def NewRateLimiterWithStore_def NewRateLimitStore_scope_def)
qed

lemma demo_New: "\<exists>g. New demo_app demo_app_config = Inr g"
proof -
  let ?cfg = "withRetentionDefaults demo_app_config"
  have cfg: "SessionLifetime ?cfg = DefaultSessionLifetime" "AuthMode ?cfg = AuthModeLocal" "0 < GuestRetention ?cfg"
    "0 < LoginAttemptRetention ?cfg" "0 < UsageEventRetention ?cfg" "\<not> GoogleOAuthConfigured ?cfg"
    "usable_public_url (PublicURL ?cfg)" "authenticationRateLimitConfig ?cfg = DefaultAuthenticationRateLimitConfig\<lparr>rcLimit := 5\<rparr>"
    by (simp_all add: withRetentionDefaults_def Let_def demo_app_config_def GoogleOAuthConfigured_def IsSet_def usable_public_url_def
        authenticationRateLimitConfig_def DefaultGuestRetention_def config_LoginAttemptRetention_def config_UsageRetention_def
        time_Second_def)
  have limits: "0 < rcLimit (per_minute 10)" "0 < rcLimit (per_minute 20)" "0 < rcWindow (per_minute n)"
    "0 < rcLimit (authenticationRateLimitConfig ?cfg)" "0 < rcWindow (authenticationRateLimitConfig ?cfg)" for n
    by (simp_all add: per_minute_def cfg DefaultAuthenticationRateLimitConfig_def time_Minute_def time_Second_def)
  obtain sil cl rl gl jl where l: "newSharedRateLimiter ascii_lib ''signin'' (authenticationRateLimitConfig ?cfg) = Inr sil"
    "newSharedRateLimiter ascii_lib ''confirmation'' (per_minute 10) = Inr cl"
    "newSharedRateLimiter ascii_lib ''password-reset'' (per_minute 10) = Inr rl"
    "newSharedRateLimiter ascii_lib ''guest'' (per_minute 10) = Inr gl"
    "newSharedRateLimiter ascii_lib ''group-join'' (per_minute 20) = Inr jl"
    using demo_limiters_accepted limits by (metis insertI1 insertI2)
  have h: "NewPasswordHasher zero_hash_config = Inr DefaultPasswordHashConfig"
    by (simp add: NewPasswordHasher_def normalize_config_Inr valid_config_default)
  have k: "NewSessionService DefaultSessionLifetime = Inr \<lparr>ssLifetime = DefaultSessionLifetime, ssSSO = None\<rparr>"
    "newProviderRegistry demo_app ?cfg = Inr []"
    "NewGuestCleanupService (GuestRetention ?cfg) = Inr (GuestRetention ?cfg)"
    "NewRetentionService (LoginAttemptRetention ?cfg) (UsageEventRetention ?cfg)
      = Inr \<lparr>LoginRetention = LoginAttemptRetention ?cfg, UsageRetention = UsageEventRetention ?cfg\<rparr>"
    "\<not> DefaultEmailConfirmationLifetime < time_Second" "\<not> DefaultPasswordResetLifetime < time_Second"
    "\<not> DefaultOAuthStateLifetime < time_Second" "DefaultUsageQueueCapacity \<noteq> 0"
    "Environment demo_app_config \<noteq> EnvironmentProduction" "xLib demo_app = ascii_lib" "xMailSender demo_app ?cfg = Inr ()"
    using cfg by (simp_all add: NewSessionService_def DefaultSessionLifetime_def time_Second_def newProviderRegistry_def
        NewProviderRegistry_def NewGuestCleanupService_def NewRetentionService_def DefaultEmailConfirmationLifetime_def
        DefaultPasswordResetLifetime_def DefaultOAuthStateLifetime_def time_Minute_def DefaultUsageQueueCapacity_def
        demo_app_config_def demo_app_def)
  obtain worker where w: "NewMaintenanceWorker DefaultMaintenanceInterval (maintenance_jobs (GuestRetention ?cfg)
      \<lparr>LoginRetention = LoginAttemptRetention ?cfg, UsageRetention = UsageEventRetention ?cfg\<rparr>) = Inr worker"
    using demo_jobs_accepted by blast
  show ?thesis
    by (simp add: New_def Let_def l l(1) [unfolded cfg] h k w cfg refuse_if_def NewEmailConfirmationService_def NewPasswordResetService_def
        NewOAuthSignInService_def NewUsageQueue_def)
qed

lemma served_run: "admitted r \<Longrightarrow> app_run g admitted (w, u) (snd (serve g r w), u)"
  by (rule go_on [OF start serves]) (assumption, rule prod.collapse [symmetric])


theorem app_keeps_administrator_witness:
  "\<exists>g. New demo_app demo_app_config = Inr g
     \<and> has_site_admin (tables (snd (serve g (DoAdminDelete \<lparr>acActorID = 2, acOrigin = []\<rparr> 1 0) demo_world)))"
proof -
  obtain g where g: "New demo_app demo_app_config = Inr g" using demo_New by blast
  have "app_run g (\<lambda>_. True) (demo_world, demo_usage_store)
      (snd (serve g (DoAdminDelete \<lparr>acActorID = 2, acOrigin = []\<rparr> 1 0) demo_world), demo_usage_store)"
    by (rule served_run) simp
  from app_keeps_administrator [OF g demo_outside_ok this] demo_admin_inv g show ?thesis by (auto simp: demo_app_def)
qed

theorem app_keeps_groups_led_witness:
  "\<exists>g. New demo_app demo_app_config = Inr g \<and> groups_led (tables (snd (serve g (DoGroupLeave 2 1) demo_groups)))"
proof -
  obtain g where g: "New demo_app demo_app_config = Inr g" using demo_New by blast
  have run: "app_run g (\<lambda>r. \<not> deletes_account r) (demo_groups, demo_usage_store)
      (snd (serve g (DoGroupLeave 2 1) demo_groups), demo_usage_store)"
    by (rule served_run) (simp add: deletes_account_def)
  have "group_inv ascii_lib (tables demo_groups)"
    using demo_groups_ok by (simp add: group_inv_def groups_led_def demo_groups_def demo_group_def)
  with app_keeps_groups_led [OF g demo_outside_ok run] g show ?thesis by (auto simp: demo_app_def)
qed

text \<open>
  The restriction of the last property is needed: deleting an account removes its memberships whatever their role, and an
  administrator can so leave a group without anybody who leads it.
\<close>

lemma deletion_leaves_group_unled:
  "groups_led (tables demo_groups)
   \<and> fst (admin_Delete demo_admins \<lparr>acActorID = 1, acOrigin = []\<rparr> 2 0 demo_groups) = Inr ()
   \<and> \<not> groups_led (tables (snd (admin_Delete demo_admins \<lparr>acActorID = 1, acOrigin = []\<rparr> 2 0 demo_groups)))"
  by code_simp

end
