(* ===== verification/Bootstrap.thy ===== *)
theory Bootstrap
  imports System
begin

text \<open>
  The first administrator of a development deployment (\<^verbatim>\<open>internal/app/bootstrap.go\<close>), created at start-up when the
  configuration names one and the address has no account yet.
\<close>

datatype bootstrap_err = ErrBootstrapAdminForbidden | BootstrapErrInvalidAdmin | BootstrapFailed error

definition EnsureBootstrapAdmin :: "graph \<Rightarrow> config \<Rightarrow> world \<Rightarrow> (bootstrap_err + unit) \<times> world" where
  "EnsureBootstrapAdmin g cfg w =
     (if \<not> BootstrapAdminConfigured cfg then (Inr (), w)
      else if Environment cfg = EnvironmentProduction then (Inl ErrBootstrapAdminForbidden, w)
      else (case NormalizeEmail (grLib g) (BootstrapAdminEmail cfg) of
        Inl _ \<Rightarrow> (Inl BootstrapErrInvalidAdmin, w)
      | Inr email \<Rightarrow>
          if email = [] then (Inl BootstrapErrInvalidAdmin, w)
          else (case FindUserByEmail (grLib g) email w of
            (Inr _, w) \<Rightarrow> (Inr (), w)
          | (Inl err, w) \<Rightarrow>
              if \<not> errors_is err (Account ErrUserNotFound) then (Inl (BootstrapFailed (Wrap err)), w)
              else (case suHash (grSignUp g) (Reveal (BootstrapAdminPassword cfg)) w of
                (Inl err, w) \<Rightarrow> (Inl (BootstrapFailed (Wrap err)), w)
              | (Inr hash, w) \<Rightarrow>
                  (case CreateUser (grLib g) (zero_user\<lparr>uEmail := Some email, uPasswordHash := Some hash, uIsAdmin := True,
                       uTheme := ''light'', uLocale := ''en'', uCreatedAt := unix_now w, uEmailVerifiedAt := Some (unix_now w)\<rparr>) w of
                    (Inr _, w) \<Rightarrow> (Inr (), w)
                  | (Inl err, w) \<Rightarrow>
                      if errors_is err (Account ErrDuplicateEmail) then (Inr (), w)
                      else (Inl (BootstrapFailed (Wrap err)), w))))))"

section \<open>Creating an account with a taken address\<close>

lemma user_violation_taken:
  assumes "uEmail u = Some e" and "e \<in> {e. Some e \<in> uEmail ` set vs}"
  shows "user_violation L u vs \<noteq> None"
  using assms by (auto simp: user_violation_def)

lemma CreateUser_query:
  obtains v where "uEmail v = uEmail u"
    "CreateUser L u = call (query (insert_user L v)) mapUserError (\<lambda>row. check (scanUser row) mapUserError ret)"
  by (rule that [of "let u = (if uTheme u = [] then u\<lparr>uTheme := ''light''\<rparr> else u) in if uLocale u = [] then u\<lparr>uLocale := ''en''\<rparr> else u"])
    (simp_all add: CreateUser_def Let_def)

lemma CreateUser_taken:
  assumes run: "CreateUser L u w = (r, w')" and e: "uEmail u = Some e" "Some e \<in> uEmail ` set (users (tables w))"
  shows "tables w' = tables w"
proof -
  obtain v where v: "uEmail v = uEmail u" "CreateUser L u = call (query (insert_user L v)) mapUserError (\<lambda>row. check (scanUser row) mapUserError ret)"
    by (rule CreateUser_query)
  obtain q w1 where q: "query (insert_user L v) w = (q, w1)" by fastforce
  then show ?thesis
  proof (cases rule: query_cases)
    case (ok x d)
    then show ?thesis using e v(1) user_violation_taken [of "v\<lparr>uID := users_seq (tables w) + 1\<rparr>" e "users (tables w)" L]
      by (simp add: insert_user_def Let_def split: option.splits)
  qed (use q run v(2) in \<open>auto simp: call_def\<close>)
qed

lemma CreateUser_duplicate:
  assumes run: "CreateUser L u w = (Inl e, w')" and d: "errors_is e (Account ErrDuplicateEmail)"
  shows "tables w' = tables w \<and> uEmail u \<in> uEmail ` set (users (tables w)) \<and> uEmail u \<noteq> None"
proof -
  obtain v where v: "uEmail v = uEmail u" "CreateUser L u = call (query (insert_user L v)) mapUserError (\<lambda>row. check (scanUser row) mapUserError ret)"
    by (rule CreateUser_query)
  obtain q w1 where q: "query (insert_user L v) w = (q, w1)" by fastforce
  then show ?thesis
  proof (cases rule: query_cases)
    case (fault f)
    with mapUserError_fault [of f] q run v(2) d show ?thesis by (auto simp: call_def)
  next
    case (err f d')
    from err(1) obtain row where f: "user_violation L row (users (tables w)) = Some f" "uEmail row = uEmail u"
      using v(1) by (auto simp: insert_user_def Let_def split: option.splits)
    have "e = mapUserError f" "w' = w1" using err(2) q run v(2) by (auto simp: call_def)
    with f d err(3) show ?thesis by (auto simp: user_violation_def split: if_splits)
  next
    case (ok x d')
    then have "e = mapUserError (Repo ErrInvalidData)"
      using q run v(2) by (auto simp: call_def check_def scanUser_def split: if_splits)
    with d show ?thesis by simp
  qed
qed

lemma FindUserByEmail_taken:
  assumes "FindUserByEmail L email w = (Inr u, w')" and "NormalizeEmail L email = Inr email"
  shows "Some email \<in> uEmail ` set (users (tables w))"
  using FindUserByEmail_Inr [OF assms(1)] assms(2) by force

section \<open>Properties\<close>


definition demo_bootstrap :: config where
  "demo_bootstrap = demo_app_config\<lparr>BootstrapAdminEmail := '' A@x'', BootstrapAdminPassword := Secret ''password''\<rparr>"


end
