(* ===== verification/Transport.thy ===== *)
theory Transport
  imports Locale UsageQueue
begin

text \<open>
  The transport boundary of every request (\<^verbatim>\<open>internal/adapter/http/middleware\<close>, the shared chain of
  \<^verbatim>\<open>internal/adapter/http/handler.go\<close>, \<^verbatim>\<open>internal/adapter/http/usage.go\<close>): requests and responses, the client address,
  the token against cross-site requests, session cookies, authentication guards, usage recording, and the order in
  which they are composed.

  A handler gets a request and the response under construction and returns the request object as it leaves it:
  \<^verbatim>\<open>next.ServeHTTP(writer, request)\<close> passes the object itself, so what the callee writes to it is seen by the caller, while
  \<^verbatim>\<open>request.WithContext(ctx)\<close> passes a copy.
\<close>

section \<open>Requests and responses\<close>

record principal =
  prID :: string
  prIsAdmin :: bool

text \<open>
  Headers under their canonical names in order of arrival, the parsed query, the cookies the standard library parsed, the posted form
  (\<open>None\<close> when it does not parse), the pattern and path values the router fills in, and the values of the context.
\<close>

record http_request =
  rqMethod :: string
  rqPath :: string
  rqQuery :: "(string \<times> string) list"
  rqPattern :: string
  rqRemoteAddr :: string
  rqTLS :: bool
  rqHeaders :: "(string \<times> string) list"
  rqCookies :: "(string \<times> string) list"
  rqForm :: "(string \<times> string) list option"
  rqPathValues :: "(string \<times> string) list"
  cxRequestID :: "string option"
  cxClientIP :: "string option"
  cxCSRF :: "string option"
  cxPrincipal :: "principal option"
  cxTraceID :: "string option"

datatype same_site = SameSiteUnset | SameSiteDefaultMode | SameSiteLaxMode | SameSiteStrictMode | SameSiteNoneMode

record http_cookie =
  ckName :: string
  ckValue :: string
  ckPath :: string
  ckExpires :: "int option"
  ckMaxAge :: int
  ckHttpOnly :: bool
  ckSecure :: bool
  ckSameSite :: same_site

text \<open>Status 0 stands for a response whose header has not been written yet.\<close>

record http_response =
  rsStatus :: nat
  rsHeaders :: "(string \<times> string) list"
  rsCookies :: "http_cookie list"
  rsBody :: string

type_synonym 'w handler = "http_request \<Rightarrow> http_response \<times> 'w \<Rightarrow> http_request \<times> http_response \<times> 'w"
type_synonym 'w middleware = "'w handler \<Rightarrow> 'w handler"

definition first_value :: "(string \<times> string) list \<Rightarrow> string \<Rightarrow> string" where
  "first_value values name = (case map_of values name of None \<Rightarrow> [] | Some v \<Rightarrow> v)"

definition Header_Get :: "http_request \<Rightarrow> string \<Rightarrow> string" where
  "Header_Get rq name = first_value (rqHeaders rq) name"

definition Header_Values :: "http_request \<Rightarrow> string \<Rightarrow> string list" where
  "Header_Values rq name = map snd (filter (\<lambda>h. fst h = name) (rqHeaders rq))"

definition Cookie :: "http_request \<Rightarrow> string \<Rightarrow> string option" where
  "Cookie rq name = map_of (rqCookies rq) name"

definition PostFormValue :: "http_request \<Rightarrow> string \<Rightarrow> string" where
  "PostFormValue rq name = (case rqForm rq of None \<Rightarrow> [] | Some form \<Rightarrow> first_value form name)"

text \<open>Headers set after the status line has been written are lost.\<close>

definition set_header :: "string \<Rightarrow> string \<Rightarrow> http_response \<Rightarrow> http_response" where
  "set_header name v rs =
     (if rsStatus rs \<noteq> 0 then rs else rs\<lparr>rsHeaders := filter (\<lambda>h. fst h \<noteq> name) (rsHeaders rs) @ [(name, v)]\<rparr>)"

definition WriteHeader :: "nat \<Rightarrow> http_response \<Rightarrow> http_response" where
  "WriteHeader status rs = (if rsStatus rs \<noteq> 0 then rs else rs\<lparr>rsStatus := status\<rparr>)"

definition Write :: "string \<Rightarrow> http_response \<Rightarrow> http_response" where
  "Write body rs = (let rs = WriteHeader 200 rs in rs\<lparr>rsBody := rsBody rs @ body\<rparr>)"

definition http_Error :: "string \<Rightarrow> nat \<Rightarrow> http_response \<Rightarrow> http_response" where
  "http_Error msg status rs =
     Write (msg @ [CHR 0x0A]) (WriteHeader status
       (set_header ''X-Content-Type-Options'' ''nosniff'' (set_header ''Content-Type'' ''text/plain; charset=utf-8'' rs)))"

definition internal_error :: "http_response \<Rightarrow> http_response" where
  "internal_error = http_Error ''internal server error'' 500"

text \<open>A call whose callee works on a copy of the request.\<close>

definition with_copy :: "'w handler \<Rightarrow> http_request \<Rightarrow> http_request \<Rightarrow> http_response \<times> 'w \<Rightarrow> http_request \<times> http_response \<times> 'w" where
  "with_copy next copy rq s = (rq, snd (next copy s))"

text \<open>
  \<^verbatim>\<open>statusWriter\<close>: the first status written through it, 0 when there was none; the writer beneath keeps the first
  status it ever got.
\<close>

definition observing :: "'w handler \<Rightarrow> http_request \<Rightarrow> http_response \<times> 'w \<Rightarrow> nat \<times> http_request \<times> http_response \<times> 'w" where
  "observing next rq s =
     (case next rq ((fst s)\<lparr>rsStatus := 0\<rparr>, snd s) of
        (rq', rs', w') \<Rightarrow> (rsStatus rs', rq', rs'\<lparr>rsStatus := (if rsStatus (fst s) \<noteq> 0 then rsStatus (fst s) else rsStatus rs')\<rparr>, w'))"

section \<open>Chains\<close>

datatype chain_err = ErrNilHandler | ErrNilMiddleware

fun Chain :: "'w handler option \<Rightarrow> 'w middleware option list \<Rightarrow> chain_err + 'w handler" where
  "Chain None ms = Inl ErrNilHandler"
| "Chain (Some handler) [] = Inr handler"
| "Chain (Some handler) (m # ms) =
     (case Chain (Some handler) ms of
        Inl e \<Rightarrow> Inl e
      | Inr inner \<Rightarrow> (case m of None \<Rightarrow> Inl ErrNilMiddleware | Some m \<Rightarrow> Inr (m inner)))"

section \<open>Request identifiers\<close>

definition requestIDBytes :: nat where "requestIDBytes = 16"
definition maxRequestIDLen :: nat where "maxRequestIDLen = 128"

definition NewRequestID :: "string prog" where
  "NewRequestID = call (rand_read requestIDBytes) (\<lambda>_. AnonymousError) (\<lambda>v. ret (hex_encode v))"

definition validRequestID :: "string \<Rightarrow> bool" where
  "validRequestID v \<longleftrightarrow> v \<noteq> [] \<and> length v \<le> maxRequestIDLen
     \<and> list_all (\<lambda>c. c \<in> set ''abcdefghijklmnopqrstuvwxyzABCDEFGHIJKLMNOPQRSTUVWXYZ0123456789-_.'') v"

definition WithRequestID :: "('w, string) act \<Rightarrow> 'w middleware" where
  "WithRequestID generator next rq s =
     (case generator (snd s) of
        (Inl _, w) \<Rightarrow> (rq, internal_error (fst s), w)
      | (Inr requestID, w) \<Rightarrow>
          if \<not> validRequestID requestID then (rq, internal_error (fst s), w)
          else with_copy next (rq\<lparr>cxRequestID := Some requestID\<rparr>) rq (set_header ''X-Request-ID'' requestID (fst s), w))"

text \<open>Timing metadata goes into the context of a copy; it is not modelled.\<close>

definition WithRequestInfo :: "'w middleware" where
  "WithRequestInfo next rq s = with_copy next rq rq s"

section \<open>The client address\<close>

text \<open>
  Addresses of the standard library as numbers, IPv4 in its mapped form, so that equal addresses are equal numbers;
  \<^verbatim>\<open>nlString\<close> is their text.
\<close>

record net_lib =
  nlParseIP :: "string \<Rightarrow> nat option"
  nlString :: "nat \<Rightarrow> string"
  nlParseCIDR :: "string \<Rightarrow> (nat \<Rightarrow> bool) option"
  nlSplitHostPort :: "string \<Rightarrow> (string \<times> string) option"

definition Trim :: "char list \<Rightarrow> string \<Rightarrow> string" where
  "Trim cutset s = rev (dropWhile (\<lambda>c. c \<in> set cutset) (rev (dropWhile (\<lambda>c. c \<in> set cutset) s)))"

definition parseAddress :: "net_lib \<Rightarrow> string \<Rightarrow> nat option" where
  "parseAddress N v =
     (let v = TrimSpace v; v = (case nlSplitHostPort N v of Some (host, _) \<Rightarrow> host | None \<Rightarrow> v) in nlParseIP N (Trim ''[]'' v))"

definition PeerIP :: "net_lib \<Rightarrow> string \<Rightarrow> string" where
  "PeerIP N remoteAddr = (case parseAddress N remoteAddr of Some ip \<Rightarrow> nlString N ip | None \<Rightarrow> TrimSpace remoteAddr)"

definition parseTrustedProxy :: "net_lib \<Rightarrow> string \<Rightarrow> nat \<Rightarrow> bool" where
  "parseTrustedProxy N v =
     (let v = TrimSpace v in
      case nlParseCIDR N v of
        Some contains \<Rightarrow> contains
      | None \<Rightarrow> (case nlParseIP N v of Some ip \<Rightarrow> (\<lambda>x. x = ip) | None \<Rightarrow> (\<lambda>_. False)))"

text \<open>The loop over the forwarded addresses, from the last one.\<close>

fun forwarded :: "net_lib \<Rightarrow> (nat \<Rightarrow> bool) \<Rightarrow> nat \<Rightarrow> string list \<Rightarrow> nat" where
  "forwarded N trusted peer [] = peer"
| "forwarded N trusted peer (hop # rest) =
     (case parseAddress N hop of
        None \<Rightarrow> peer
      | Some ip \<Rightarrow> if \<not> trusted ip then ip else forwarded N trusted peer rest)"

fun Join_with :: "string \<Rightarrow> string list \<Rightarrow> string" where
  "Join_with sep [] = []"
| "Join_with sep [x] = x"
| "Join_with sep (x # y # ys) = x @ sep @ Join_with sep (y # ys)"

definition resolveClientIP :: "net_lib \<Rightarrow> (nat \<Rightarrow> bool) \<Rightarrow> http_request \<Rightarrow> string" where
  "resolveClientIP N trusted rq =
     (case parseAddress N (rqRemoteAddr rq) of
        None \<Rightarrow> PeerIP N (rqRemoteAddr rq)
      | Some peer \<Rightarrow>
          if \<not> trusted peer then nlString N peer
          else nlString N (forwarded N trusted peer
            (rev (split_on (CHR '','') (Join_with '','' (Header_Values rq ''X-Forwarded-For''))))))"

definition ClientIP :: "net_lib \<Rightarrow> string \<Rightarrow> 'w middleware" where
  "ClientIP N trustedProxy next rq s =
     with_copy next (rq\<lparr>cxClientIP := Some (resolveClientIP N (parseTrustedProxy N trustedProxy) rq)\<rparr>) rq s"

definition ClientIPFromContext :: "http_request \<Rightarrow> string option" where
  "ClientIPFromContext rq = (case cxClientIP rq of Some ip \<Rightarrow> if ip \<noteq> [] then Some ip else None | None \<Rightarrow> None)"

definition requestOrigin :: "net_lib \<Rightarrow> http_request \<Rightarrow> string" where
  "requestOrigin N rq =
     (let origin = (case ClientIPFromContext rq of Some ip \<Rightarrow> ip | None \<Rightarrow> PeerIP N (rqRemoteAddr rq)) in
      if origin = [] then ''unknown'' else origin)"

section \<open>Response headers\<close>

definition csp_keyword :: "string \<Rightarrow> string" where
  "csp_keyword k = CHR 0x27 # k @ [CHR 0x27]"

definition contentSecurityPolicy :: string where
  "contentSecurityPolicy =
     ''default-src '' @ csp_keyword ''self'' @ ''; script-src '' @ csp_keyword ''self'' @ ''; style-src '' @ csp_keyword ''self''
     @ ''; img-src '' @ csp_keyword ''self'' @ '' data:; object-src '' @ csp_keyword ''none''
     @ ''; base-uri '' @ csp_keyword ''none'' @ ''; frame-ancestors '' @ csp_keyword ''none''"

definition SecurityHeaders :: "'w middleware" where
  "SecurityHeaders next rq s =
     (let rs = set_header ''Cross-Origin-Opener-Policy'' ''same-origin''
                 (set_header ''Referrer-Policy'' ''same-origin''
                 (set_header ''X-Frame-Options'' ''DENY''
                 (set_header ''X-Content-Type-Options'' ''nosniff''
                 (set_header ''Content-Security-Policy'' contentSecurityPolicy (fst s)))));
          rs = (if \<not> HasPrefix (rqPath rq) ''/static/'' then set_header ''Cache-Control'' ''no-store'' rs else rs) in
      next rq (rs, snd s))"

section \<open>Cross-site requests\<close>

definition CSRFCookieName :: string where "CSRFCookieName = ''goweb_csrf''"
definition CSRFFieldName :: string where "CSRFFieldName = ''_csrf''"
definition CSRFHeaderName :: string where "CSRFHeaderName = ''X-CSRF-Token''"
definition csrfTokenBytes :: nat where "csrfTokenBytes = 32"

text \<open>The header name as the standard library canonicalises it.\<close>

definition CSRFHeaderKey :: string where "CSRFHeaderKey = ''X-Csrf-Token''"

record 'w csrf_config =
  cfSecure :: bool
  cfGenerator :: "('w, string) act"
  cfExempt :: "string list"

type_synonym 'w csrf_option = "'w csrf_config \<Rightarrow> 'w csrf_config"

definition WithCSRFExemptPath :: "string \<Rightarrow> 'w csrf_option" where
  "WithCSRFExemptPath path cfg = cfg\<lparr>cfExempt := path # cfExempt cfg\<rparr>"

definition WithCSRFSecure :: "bool \<Rightarrow> 'w csrf_option" where
  "WithCSRFSecure secure cfg = cfg\<lparr>cfSecure := secure\<rparr>"

definition WithCSRFTokenGenerator :: "('w, string) act \<Rightarrow> 'w csrf_option" where
  "WithCSRFTokenGenerator generator cfg = cfg\<lparr>cfGenerator := generator\<rparr>"

definition NewCSRFToken :: "string prog" where
  "NewCSRFToken = call (rand_read csrfTokenBytes) (\<lambda>_. AnonymousError) (\<lambda>v. ret (hex_encode v))"

definition csrf_config_of :: "('w, string) act \<Rightarrow> 'w csrf_option option list \<Rightarrow> 'w csrf_config" where
  "csrf_config_of generator options =
     foldl (\<lambda>cfg option. case option of None \<Rightarrow> cfg | Some f \<Rightarrow> f cfg)
       \<lparr>cfSecure = False, cfGenerator = generator, cfExempt = []\<rparr> options"

definition isSafeMethod :: "string \<Rightarrow> bool" where
  "isSafeMethod m \<longleftrightarrow> m = ''GET'' \<or> m = ''HEAD'' \<or> m = ''OPTIONS''"

definition validCSRFToken :: "string \<Rightarrow> bool" where
  "validCSRFToken token \<longleftrightarrow> length token = csrfTokenBytes * 2 \<and> list_all is_hex_char token"

definition requestHasCSRFToken :: "http_request \<Rightarrow> string \<Rightarrow> bool" where
  "requestHasCSRFToken rq expected =
     (let provided = TrimSpace (Header_Get rq CSRFHeaderKey) in
      if provided = [] then
        (if rqForm rq = None then False
         else let provided = TrimSpace (PostFormValue rq CSRFFieldName) in validCSRFToken provided \<and> provided = expected)
      else validCSRFToken provided \<and> provided = expected)"

text \<open>\<^verbatim>\<open>http.SetCookie\<close>: a cookie whose name is no token of the header grammar is dropped.\<close>

definition is_token_char :: "char \<Rightarrow> bool" where
  "is_token_char c \<longleftrightarrow>
     c \<in> set ''abcdefghijklmnopqrstuvwxyzABCDEFGHIJKLMNOPQRSTUVWXYZ0123456789!#$%&*+-.^_`|~'' \<or> c = CHR 0x27"

definition isToken :: "string \<Rightarrow> bool" where
  "isToken s \<longleftrightarrow> s \<noteq> [] \<and> list_all is_token_char s"

definition SetCookie :: "http_cookie \<Rightarrow> http_response \<Rightarrow> http_response" where
  "SetCookie c rs = (if rsStatus rs \<noteq> 0 \<or> \<not> isToken (ckName c) then rs else rs\<lparr>rsCookies := rsCookies rs @ [c]\<rparr>)"

definition setCSRFCookie :: "string \<Rightarrow> bool \<Rightarrow> http_response \<Rightarrow> http_response" where
  "setCSRFCookie token secure =
     SetCookie \<lparr>ckName = CSRFCookieName, ckValue = token, ckPath = ''/'', ckExpires = None, ckMaxAge = 0, ckHttpOnly = True,
       ckSecure = secure, ckSameSite = SameSiteStrictMode\<rparr>"

definition CSRF :: "'w csrf_config \<Rightarrow> 'w middleware" where
  "CSRF cfg next rq s =
     (let token = Cookie rq CSRFCookieName;
          valid = (case token of None \<Rightarrow> False | Some t \<Rightarrow> validCSRFToken t) in
      if isSafeMethod (rqMethod rq) then
        (if \<not> valid then
           (case cfGenerator cfg (snd s) of
              (Inl _, w) \<Rightarrow> (rq, internal_error (fst s), w)
            | (Inr fresh, w) \<Rightarrow>
                if \<not> validCSRFToken fresh then (rq, internal_error (fst s), w)
                else with_copy next (rq\<lparr>cxCSRF := Some fresh\<rparr>) rq (setCSRFCookie fresh (cfSecure cfg \<or> rqTLS rq) (fst s), w))
         else with_copy next (rq\<lparr>cxCSRF := token\<rparr>) rq s)
      else if rqPath rq \<in> set (cfExempt cfg) then next rq s
      else if \<not> valid \<or> \<not> requestHasCSRFToken rq (the token)
        then (rq, http_Error ''csrf validation failed'' 403 (fst s), snd s)
      else with_copy next (rq\<lparr>cxCSRF := token\<rparr>) rq s)"

section \<open>Session cookies\<close>

definition DefaultSessionCookieName :: string where "DefaultSessionCookieName = ''goweb_session''"
definition DefaultSessionCookiePath :: string where "DefaultSessionCookiePath = ''/''"

datatype cookie_err = ErrInvalidSessionCookieConfig | ErrInvalidSessionCookieValue

record session_cookie_config =
  scName :: string
  scPath :: string
  scSecure :: bool
  scLifetime :: int
  scSameSite :: same_site

text \<open>\<^verbatim>\<open>http.Cookie.Valid\<close> for the fields the program sets; years before 1601 are refused.\<close>

definition cookie_value_byte :: "char \<Rightarrow> bool" where
  "cookie_value_byte c \<longleftrightarrow> (let n = of_char c :: nat in 0x20 \<le> n \<and> n < 0x7F \<and> c \<noteq> CHR 0x22 \<and> c \<noteq> CHR '';'' \<and> c \<noteq> CHR 0x5C)"

definition cookie_path_byte :: "char \<Rightarrow> bool" where
  "cookie_path_byte c \<longleftrightarrow> (let n = of_char c :: nat in 0x20 \<le> n \<and> n < 0x7F \<and> c \<noteq> CHR '';'')"

definition cookie_Valid :: "http_cookie \<Rightarrow> bool" where
  "cookie_Valid c \<longleftrightarrow> isToken (ckName c) \<and> (case ckExpires c of None \<Rightarrow> True | Some t \<Rightarrow> - 11644473600 \<le> t)
     \<and> list_all cookie_value_byte (ckValue c) \<and> list_all cookie_path_byte (ckPath c)"

definition validCookieName :: "string \<Rightarrow> bool" where
  "validCookieName name \<longleftrightarrow> name \<noteq> [] \<and> cookie_Valid \<lparr>ckName = name, ckValue = [], ckPath = [], ckExpires = None, ckMaxAge = 0,
     ckHttpOnly = False, ckSecure = False, ckSameSite = SameSiteUnset\<rparr>"

definition validCookiePath :: "string \<Rightarrow> bool" where
  "validCookiePath path \<longleftrightarrow> HasPrefix path ''/'' \<and> list_all (\<lambda>c. c \<noteq> CHR '';'' \<and> c \<noteq> CHR 0x0D \<and> c \<noteq> CHR 0x0A) path"

definition validSessionCookieValue :: "string \<Rightarrow> bool" where
  "validSessionCookieValue v \<longleftrightarrow> v \<noteq> [] \<and> length v \<le> 64
     \<and> list_all (\<lambda>c. let n = of_char c :: nat in \<not> (n < 0x21 \<or> 0x7F \<le> n \<or> c = CHR '';'' \<or> c = CHR 0x5C \<or> c = CHR 0x22)) v"

definition validSameSite :: "same_site \<Rightarrow> bool" where
  "validSameSite m \<longleftrightarrow> m = SameSiteLaxMode \<or> m = SameSiteStrictMode \<or> m = SameSiteNoneMode"

definition NewSessionCookie :: "session_cookie_config \<Rightarrow> cookie_err + session_cookie_config" where
  "NewSessionCookie cfg =
     (let cfg = (if scName cfg = [] then cfg\<lparr>scName := DefaultSessionCookieName\<rparr> else cfg);
          cfg = (if scPath cfg = [] then cfg\<lparr>scPath := DefaultSessionCookiePath\<rparr> else cfg);
          cfg = (if scSameSite cfg = SameSiteUnset \<or> scSameSite cfg = SameSiteDefaultMode then cfg\<lparr>scSameSite := SameSiteLaxMode\<rparr> else cfg) in
      if scLifetime cfg < time_Second \<or> \<not> validCookieName (scName cfg) \<or> \<not> validCookiePath (scPath cfg) \<or> \<not> validSameSite (scSameSite cfg)
      then Inl ErrInvalidSessionCookieConfig else Inr cfg)"

text \<open>Times in nanoseconds since 1970; \<^verbatim>\<open>IsZero\<close> is midnight of the first day of year 1.\<close>

definition IsZero :: "int \<Rightarrow> bool" where
  "IsZero now \<longleftrightarrow> now = - 62135596800 * time_Second"

definition session_cookie :: "session_cookie_config \<Rightarrow> string \<Rightarrow> int \<Rightarrow> http_cookie" where
  "session_cookie c v expires =
     \<lparr>ckName = scName c, ckValue = v, ckPath = scPath c, ckExpires = Some (expires div time_Second),
       ckMaxAge = scLifetime c div time_Second, ckHttpOnly = True, ckSecure = scSecure c, ckSameSite = scSameSite c\<rparr>"

definition cookie_Set :: "session_cookie_config \<Rightarrow> string \<Rightarrow> int \<Rightarrow> http_response \<Rightarrow> cookie_err + http_response" where
  "cookie_Set c sessionID now rs =
     (if \<not> validSessionCookieValue sessionID \<or> IsZero now then Inl ErrInvalidSessionCookieValue
      else let cookie = session_cookie c sessionID (now + scLifetime c) in
        if \<not> cookie_Valid cookie then Inl ErrInvalidSessionCookieValue else Inr (SetCookie cookie rs))"

definition cookie_Read :: "session_cookie_config \<Rightarrow> http_request \<Rightarrow> string option" where
  "cookie_Read c rq =
     (case Cookie rq (scName c) of None \<Rightarrow> None | Some v \<Rightarrow> if validSessionCookieValue v then Some v else None)"

definition cookie_Clear :: "session_cookie_config \<Rightarrow> int \<Rightarrow> http_response \<Rightarrow> cookie_err + http_response" where
  "cookie_Clear c now rs =
     (if IsZero now then Inl ErrInvalidSessionCookieValue
      else Inr (SetCookie ((session_cookie c [] time_Second)\<lparr>ckMaxAge := - 1\<rparr>) rs))"

section \<open>Guards\<close>

datatype authn_err = ErrUnauthenticated | ErrSessionAuthentication

type_synonym 'w authenticator = "http_request \<Rightarrow> 'w \<Rightarrow> (authn_err + principal) \<times> 'w"

text \<open>
  \<^verbatim>\<open>http.Redirect\<close> to a path or URL that is already clean, as all targets of the program are; the page it writes beside
  the header is left out.
\<close>

definition http_Redirect :: "string \<Rightarrow> nat \<Rightarrow> http_response \<Rightarrow> http_response" where
  "http_Redirect target status rs = WriteHeader status (set_header ''Location'' target rs)"

definition validRedirectPath :: "(string \<Rightarrow> url option) \<Rightarrow> string \<Rightarrow> bool" where
  "validRedirectPath parse path \<longleftrightarrow>
     path \<noteq> [] \<and> list_all (\<lambda>c. c \<noteq> CHR 0x0D \<and> c \<noteq> CHR 0x0A) path
     \<and> (case parse path of
          None \<Rightarrow> False
        | Some u \<Rightarrow> urlScheme u = [] \<and> urlHost u = [] \<and> HasPrefix (urlPath u) ''/'')
     \<and> \<not> HasPrefix path ''//''"

definition redirect :: "(string \<Rightarrow> url option) \<Rightarrow> string \<Rightarrow> http_response \<Rightarrow> http_response" where
  "redirect parse path rs = (if \<not> validRedirectPath parse path then internal_error rs else http_Redirect path 302 rs)"

definition withPrincipal :: "'w handler \<Rightarrow> principal \<Rightarrow> 'w handler" where
  "withPrincipal next p rq s = with_copy next (rq\<lparr>cxPrincipal := Some p\<rparr>) rq s"

definition RequireAuth :: "'w authenticator option \<Rightarrow> 'w middleware" where
  "RequireAuth authenticator next rq s =
     (case authenticator of
        None \<Rightarrow> (rq, internal_error (fst s), snd s)
      | Some a \<Rightarrow> (case a rq (snd s) of
          (Inl ErrUnauthenticated, w) \<Rightarrow> (rq, http_Error ''authentication required'' 401 (fst s), w)
        | (Inl _, w) \<Rightarrow> (rq, internal_error (fst s), w)
        | (Inr p, w) \<Rightarrow> withPrincipal next p rq (fst s, w)))"

definition RequireAnonymous :: "(string \<Rightarrow> url option) \<Rightarrow> 'w authenticator option \<Rightarrow> string \<Rightarrow> 'w middleware" where
  "RequireAnonymous parse authenticator path next rq s =
     (case authenticator of
        None \<Rightarrow> (rq, internal_error (fst s), snd s)
      | Some a \<Rightarrow> (case a rq (snd s) of
          (Inl ErrUnauthenticated, w) \<Rightarrow> next rq (fst s, w)
        | (Inl _, w) \<Rightarrow> (rq, internal_error (fst s), w)
        | (Inr p, w) \<Rightarrow> (rq, redirect parse path (fst s), w)))"

definition RequireAuthenticated :: "(string \<Rightarrow> url option) \<Rightarrow> 'w authenticator option \<Rightarrow> string \<Rightarrow> 'w middleware" where
  "RequireAuthenticated parse authenticator path next rq s =
     (case authenticator of
        None \<Rightarrow> (rq, internal_error (fst s), snd s)
      | Some a \<Rightarrow> (case a rq (snd s) of
          (Inl ErrUnauthenticated, w) \<Rightarrow> (rq, redirect parse path (fst s), w)
        | (Inl _, w) \<Rightarrow> (rq, internal_error (fst s), w)
        | (Inr p, w) \<Rightarrow> withPrincipal next p rq (fst s, w)))"

definition RequireAdmin :: "(string \<Rightarrow> url option) \<Rightarrow> 'w authenticator option \<Rightarrow> string \<Rightarrow> 'w middleware" where
  "RequireAdmin parse authenticator path next rq s =
     (case authenticator of
        None \<Rightarrow> (rq, internal_error (fst s), snd s)
      | Some a \<Rightarrow> (case a rq (snd s) of
          (Inl ErrUnauthenticated, w) \<Rightarrow> (rq, redirect parse path (fst s), w)
        | (Inl _, w) \<Rightarrow> (rq, internal_error (fst s), w)
        | (Inr p, w) \<Rightarrow>
            if \<not> prIsAdmin p then (rq, http_Error ''access denied'' 403 (fst s), w)
            else withPrincipal next p rq (fst s, w)))"

section \<open>Usage and security events\<close>

record observation =
  obMethod :: string
  obRoute :: string
  obStatus :: nat
  obRequestID :: string
  obTraceID :: string
  obUserID :: "int option"
  obIP :: string

definition DefaultRouteNormalizer :: "http_request \<Rightarrow> string" where
  "DefaultRouteNormalizer rq = (if rqPattern rq \<noteq> [] then rqPattern rq else rqPath rq)"

definition NormalizeUsageRoute :: "http_request \<Rightarrow> string" where
  "NormalizeUsageRoute rq =
     (let route = DefaultRouteNormalizer rq in
      case ParsePath route of Some (_, rest) \<Rightarrow> ''/{language}'' @ rest | None \<Rightarrow> route)"

definition requestOriginHost :: "net_lib \<Rightarrow> string \<Rightarrow> string" where
  "requestOriginHost N remoteAddr =
     (let trimmed = TrimSpace remoteAddr in
      if trimmed = [] then [] else (case nlSplitHostPort N trimmed of Some (host, _) \<Rightarrow> host | None \<Rightarrow> trimmed))"

definition observed_user :: "http_request \<Rightarrow> int option" where
  "observed_user rq =
     (case cxPrincipal rq of
        None \<Rightarrow> None
      | Some p \<Rightarrow> (case ParseInt64 (prID p) of Some n \<Rightarrow> if 0 < n then Some n else None | None \<Rightarrow> None))"

definition text_of :: "string option \<Rightarrow> string" where
  "text_of v = (case v of None \<Rightarrow> [] | Some s \<Rightarrow> s)"

definition status_of :: "nat \<Rightarrow> nat" where
  "status_of status = (if status = 0 then 200 else status)"

definition Usage :: "net_lib \<Rightarrow> (observation \<Rightarrow> ('w, unit) act) option \<Rightarrow> (http_request \<Rightarrow> string) \<Rightarrow> 'w middleware" where
  "Usage N recorder name_route next rq s =
     (case recorder of
        None \<Rightarrow> next rq s
      | Some record \<Rightarrow> (case observing next rq s of (status, rq', rs, w) \<Rightarrow>
          let event = \<lparr>obMethod = rqMethod rq', obRoute = name_route rq', obStatus = status_of status,
                obRequestID = text_of (cxRequestID rq'), obTraceID = text_of (cxTraceID rq'),
                obUserID = observed_user rq', obIP = requestOriginHost N (rqRemoteAddr rq')\<rparr> in
          (rq', rs, snd (record event w))))"

definition usage_event_of :: "observation \<Rightarrow> usage_event" where
  "usage_event_of e =
     \<lparr>ueCreatedAt = 0, ueMethod = obMethod e, ueRoute = obRoute e, ueStatus = int (obStatus e), ueRequestID = obRequestID e,
       ueTraceID = obTraceID e, ueUserID = obUserID e, ueIP = (if obIP e \<noteq> [] then Some (obIP e) else None)\<rparr>"

record security_event =
  seRequestID :: string
  seMethod :: string
  seRoute :: string
  seStatus :: nat

definition isSecurityStatus :: "nat \<Rightarrow> bool" where
  "isSecurityStatus status \<longleftrightarrow> status = 401 \<or> status = 403 \<or> status = 429"

definition SecurityEvents :: "(security_event \<Rightarrow> 'w \<Rightarrow> 'w) option \<Rightarrow> (http_request \<Rightarrow> string) \<Rightarrow> 'w middleware" where
  "SecurityEvents logger name_route next rq s =
     (case logger of
        None \<Rightarrow> next rq s
      | Some emit \<Rightarrow> (case observing next rq s of (status, rq', rs, w) \<Rightarrow>
          if \<not> isSecurityStatus status then (rq', rs, w)
          else (rq', rs, emit \<lparr>seRequestID = text_of (cxRequestID rq'), seMethod = rqMethod rq', seRoute = name_route rq',
              seStatus = status\<rparr> w)))"

record request_event =
  reRequestID :: string
  reMethod :: string
  reStatus :: nat

definition Log :: "(request_event \<Rightarrow> 'w \<Rightarrow> 'w) option \<Rightarrow> 'w middleware" where
  "Log logger next rq s =
     (case logger of
        None \<Rightarrow> next rq s
      | Some emit \<Rightarrow> (case observing next rq s of (status, rq', rs, w) \<Rightarrow>
          (rq', rs, emit \<lparr>reRequestID = text_of (cxRequestID rq'), reMethod = rqMethod rq', reStatus = status_of status\<rparr> w)))"

text \<open>A span: what the tracer starts, the trace identifier it puts into the context, and what ends it.\<close>

definition Span :: "(http_request \<Rightarrow> 'w \<Rightarrow> (string option \<times> (string \<Rightarrow> nat \<Rightarrow> 'w \<Rightarrow> 'w) option) \<times> 'w) option
    \<Rightarrow> (http_request \<Rightarrow> string) \<Rightarrow> 'w middleware" where
  "Span tracer name_route next rq s =
     (case tracer of
        None \<Rightarrow> next rq s
      | Some start \<Rightarrow> (case start rq (snd s) of ((trace, finish), w) \<Rightarrow>
          (case observing next (case trace of None \<Rightarrow> rq | Some t \<Rightarrow> rq\<lparr>cxTraceID := Some t\<rparr>) (fst s, w) of (status, copy, rs, w') \<Rightarrow>
             (rq, rs, (case finish of None \<Rightarrow> w' | Some f \<Rightarrow> f (name_route copy) (status_of status) w')))))"

section \<open>The shared chain\<close>

text \<open>
  The middlewares around the router, in the order of \<^verbatim>\<open>newRouterWithServices\<close>. Recovery from panics, the limit on bodies and
  the cross-origin check of the standard library are the parameters \<open>svRecover\<close> and \<open>svOrigin\<close>; \<open>svExtra\<close> are the
  middlewares a caller adds.
\<close>

record 'w server =
  svRequestIDs :: "('w, string) act"
  svNet :: net_lib
  svTrustedProxy :: string
  svRecover :: "'w middleware"
  svTracer :: "(http_request \<Rightarrow> 'w \<Rightarrow> (string option \<times> (string \<Rightarrow> nat \<Rightarrow> 'w \<Rightarrow> 'w) option) \<times> 'w) option"
  svSecurityLogger :: "(security_event \<Rightarrow> 'w \<Rightarrow> 'w) option"
  svUsage :: "(observation \<Rightarrow> ('w, unit) act) option"
  svOrigin :: "'w middleware"
  svCSRFTokens :: "('w, string) act"
  svCookie :: session_cookie_config
  svClientMode :: bool
  svLogger :: "(request_event \<Rightarrow> 'w \<Rightarrow> 'w) option"
  svExtra :: "'w middleware option list"

definition ssoBackChannelLogoutPath :: string where "ssoBackChannelLogoutPath = ''/oauth/sso/backchannel-logout''"

definition csrf_options :: "'w server \<Rightarrow> 'w csrf_option option list" where
  "csrf_options sv = Some (WithCSRFSecure (scSecure (svCookie sv)))
     # (if svClientMode sv then [Some (WithCSRFExemptPath ssoBackChannelLogoutPath)] else [])"

definition server_csrf :: "'w server \<Rightarrow> 'w csrf_config" where
  "server_csrf sv = csrf_config_of (svCSRFTokens sv) (csrf_options sv)"

definition shared_chain :: "'w server \<Rightarrow> 'w middleware option list" where
  "shared_chain sv =
     [Some (WithRequestID (svRequestIDs sv)), Some WithRequestInfo, Some (ClientIP (svNet sv) (svTrustedProxy sv)),
      Some SecurityHeaders, Some (svRecover sv)]
     @ (if svTracer sv = None then [] else [Some (Span (svTracer sv) NormalizeUsageRoute)])
     @ (if svSecurityLogger sv = None then [] else [Some (SecurityEvents (svSecurityLogger sv) NormalizeUsageRoute)])
     @ (if svUsage sv = None then [] else [Some (Usage (svNet sv) (svUsage sv) NormalizeUsageRoute)])
     @ [Some (svOrigin sv), Some (CSRF (server_csrf sv))]
     @ (if svLogger sv = None then [] else [Some (Log (svLogger sv))])
     @ svExtra sv"

definition newRouter :: "'w server \<Rightarrow> 'w handler \<Rightarrow> chain_err + 'w handler" where
  "newRouter sv mux = Chain (Some mux) (shared_chain sv)"

section \<open>What a middleware may look at\<close>

text \<open>
  A request without the context values that the shared middlewares add. A middleware is transparent when handlers that
  agree on this part of a request are the same to it: it hands the request on with nothing changed but those values, or
  answers itself.
\<close>

definition wire :: "http_request \<Rightarrow> http_request" where
  "wire rq = rq\<lparr>cxRequestID := None, cxClientIP := None, cxCSRF := None, cxTraceID := None\<rparr>"

definition transparent :: "'w middleware \<Rightarrow> bool" where
  "transparent m \<longleftrightarrow> (\<forall>n1 n2 rq s. (\<forall>rq' s'. wire rq' = wire rq \<longrightarrow> n1 rq' s' = n2 rq' s') \<longrightarrow> m n1 rq s = m n2 rq s)"

lemma wire_context [simp]:
  "wire (rq\<lparr>cxRequestID := a\<rparr>) = wire rq" "wire (rq\<lparr>cxClientIP := b\<rparr>) = wire rq" "wire (rq\<lparr>cxCSRF := c\<rparr>) = wire rq"
  "wire (rq\<lparr>cxTraceID := e\<rparr>) = wire rq"
  by (simp_all add: wire_def)

lemma wire_selectors:
  "rqMethod (wire x) = rqMethod x" "rqPath (wire x) = rqPath x" "rqHeaders (wire x) = rqHeaders x" "rqCookies (wire x) = rqCookies x"
  "rqForm (wire x) = rqForm x" "rqRemoteAddr (wire x) = rqRemoteAddr x" "rqPattern (wire x) = rqPattern x"
  "cxPrincipal (wire x) = cxPrincipal x"
  by (simp_all add: wire_def)

lemma wire_fields:
  assumes "wire rq' = wire rq"
  shows "rqMethod rq' = rqMethod rq" "rqPath rq' = rqPath rq" "rqHeaders rq' = rqHeaders rq" "rqCookies rq' = rqCookies rq"
    "rqForm rq' = rqForm rq" "rqRemoteAddr rq' = rqRemoteAddr rq" "rqPattern rq' = rqPattern rq" "cxPrincipal rq' = cxPrincipal rq"
  by (simp_all only: wire_selectors [symmetric, of rq] wire_selectors [symmetric, of rq'] assms)

lemma transparentI:
  "(\<And>n1 n2 rq s. (\<And>rq' s'. wire rq' = wire rq \<Longrightarrow> n1 rq' s' = n2 rq' s') \<Longrightarrow> m n1 rq s = m n2 rq s) \<Longrightarrow> transparent m"
  unfolding transparent_def by (intro allI impI) iprover

lemma transparent_boundaries:
  "transparent (WithRequestID generator)" "transparent WithRequestInfo" "transparent (ClientIP N proxy)"
  "transparent SecurityHeaders"
proof -
  show "transparent (WithRequestID generator)"
  proof (rule transparentI)
    fix n1 n2 :: "'a handler" and rq s
    assume eq: "\<And>rq' s'. wire rq' = wire rq \<Longrightarrow> n1 rq' s' = n2 rq' s'"
    show "WithRequestID generator n1 rq s = WithRequestID generator n2 rq s"
      by (cases "generator (snd s)") (simp add: WithRequestID_def with_copy_def eq split: sum.split)
  qed
qed (rule transparentI; simp add: WithRequestInfo_def ClientIP_def SecurityHeaders_def with_copy_def Let_def)+

lemma transparent_observers:
  "transparent (SecurityEvents logger f)" "transparent (Usage N recorder f)" "transparent (Log requests)"
  by (rule transparentI; simp add: SecurityEvents_def Usage_def Log_def observing_def split: option.split)+

lemma transparent_Span: "transparent (Span tracer f)"
proof (rule transparentI)
  fix n1 n2 :: "'a handler" and rq s
  assume eq: "\<And>rq' s'. wire rq' = wire rq \<Longrightarrow> n1 rq' s' = n2 rq' s'"
  have "observing n1 rq' s = observing n2 rq' s" if "wire rq' = wire rq" for rq' s
    using that by (simp add: observing_def eq)
  with eq [of rq] show "Span tracer f n1 rq s = Span tracer f n2 rq s"
    by (simp add: Span_def split: option.split prod.split)
qed

lemma transparentD: "transparent m \<Longrightarrow> (\<And>rq' s'. wire rq' = wire rq \<Longrightarrow> n1 rq' s' = n2 rq' s') \<Longrightarrow> m n1 rq s = m n2 rq s"
  unfolding transparent_def by blast

lemma Chain_Inr: "Chain (Some n) ms = Inr h \<longleftrightarrow> None \<notin> set ms \<and> h = foldr the ms n"
proof (induction ms arbitrary: h)
  case (Cons m ms)
  show ?case
  proof (cases "Chain (Some n) ms")
    case (Inl e)
    with Cons.IH [of "foldr the ms n"] have "None \<in> set ms" by simp
    with Inl show ?thesis by simp
  next
    case (Inr k)
    with Cons.IH [of k] have "None \<notin> set ms" "k = foldr the ms n" by simp_all
    with Inr show ?thesis by (cases m) auto
  qed
qed auto

lemma foldr_transparent:
  assumes "\<forall>m \<in> set ms. transparent (the m)"
  shows "(\<And>rq' s'. wire rq' = wire rq \<Longrightarrow> n1 rq' s' = n2 rq' s') \<Longrightarrow> foldr the ms n1 rq s = foldr the ms n2 rq s"
  using assms
proof (induction ms arbitrary: rq s)
  case (Cons m ms)
  have t: "transparent (the m)" using Cons.prems(2) by simp
  have "foldr the ms n1 rq' s' = foldr the ms n2 rq' s'" if "wire rq' = wire rq" for rq' s'
    by (rule Cons.IH) (use that Cons.prems in simp_all)
  from transparentD [OF t this] show ?case by simp
qed simp

text \<open>The boundaries outside usage recording.\<close>

definition outer_chain :: "'w server \<Rightarrow> 'w middleware option list" where
  "outer_chain sv =
     [Some (WithRequestID (svRequestIDs sv)), Some WithRequestInfo, Some (ClientIP (svNet sv) (svTrustedProxy sv)),
      Some SecurityHeaders, Some (svRecover sv)]
     @ (if svTracer sv = None then [] else [Some (Span (svTracer sv) NormalizeUsageRoute)])
     @ (if svSecurityLogger sv = None then [] else [Some (SecurityEvents (svSecurityLogger sv) NormalizeUsageRoute)])"

lemma shared_chain_split:
  "shared_chain sv = outer_chain sv @ (if svUsage sv = None then [] else [Some (Usage (svNet sv) (svUsage sv) NormalizeUsageRoute)])
     @ [Some (svOrigin sv), Some (CSRF (server_csrf sv))]
     @ (if svLogger sv = None then [] else [Some (Log (svLogger sv))]) @ svExtra sv"
  by (simp add: outer_chain_def shared_chain_def)

lemma outer_chain_transparent: "transparent (svRecover sv) \<Longrightarrow> \<forall>m \<in> set (outer_chain sv). transparent (the m)"
  by (auto simp: outer_chain_def transparent_boundaries transparent_observers transparent_Span)

lemma server_csrf_simps:
  "cfExempt (server_csrf sv) = (if svClientMode sv then [ssoBackChannelLogoutPath] else [])"
  "cfGenerator (server_csrf sv) = svCSRFTokens sv" "cfSecure (server_csrf sv) = scSecure (svCookie sv)"
  by (simp_all add: server_csrf_def csrf_options_def csrf_config_of_def WithCSRFSecure_def WithCSRFExemptPath_def)

lemma newRouter_Inr:
  assumes "newRouter sv mux = Inr h"
  obtains inner where "h = foldr the (outer_chain sv) (foldr the (if svUsage sv = None then [] else [Some (Usage (svNet sv) (svUsage sv) NormalizeUsageRoute)])
      (svOrigin sv (CSRF (server_csrf sv) inner)))"
    "inner = foldr the ((if svLogger sv = None then [] else [Some (Log (svLogger sv))]) @ svExtra sv) mux"
  using assms unfolding newRouter_def Chain_Inr shared_chain_split by simp

section \<open>Properties\<close>

text \<open>The double-submit check: the cookie holds a token, and the header or else the form field repeats it.\<close>

definition carries_token :: "http_request \<Rightarrow> bool" where
  "carries_token rq \<longleftrightarrow> (\<exists>t. Cookie rq CSRFCookieName = Some t \<and> validCSRFToken t \<and>
     (TrimSpace (Header_Get rq CSRFHeaderKey) = t
      \<or> TrimSpace (Header_Get rq CSRFHeaderKey) = [] \<and> (\<exists>form. rqForm rq = Some form \<and> TrimSpace (first_value form CSRFFieldName) = t)))"

lemma carries_token_iff:
  "carries_token rq \<longleftrightarrow> (case Cookie rq CSRFCookieName of None \<Rightarrow> False | Some t \<Rightarrow> validCSRFToken t \<and> requestHasCSRFToken rq t)"
proof -
  have "\<not> validCSRFToken []" by (simp add: validCSRFToken_def csrfTokenBytes_def)
  then show ?thesis
    by (auto simp: carries_token_def requestHasCSRFToken_def PostFormValue_def Let_def split: option.splits)
qed

lemma carries_token_wire: "wire rq' = wire rq \<Longrightarrow> carries_token rq' = carries_token rq"
  by (simp add: carries_token_def Cookie_def Header_Get_def wire_fields [of rq' rq])

lemma CSRF_stops:
  "\<not> isSafeMethod (rqMethod rq) \<Longrightarrow> rqPath rq \<notin> set (cfExempt cfg) \<Longrightarrow> \<not> carries_token rq \<Longrightarrow>
    CSRF cfg n rq s = (rq, http_Error ''csrf validation failed'' 403 (fst s), snd s)"
  by (auto simp: CSRF_def carries_token_iff Let_def split: option.splits)

lemma CSRF_passes:
  "\<not> isSafeMethod (rqMethod rq) \<Longrightarrow> rqPath rq \<notin> set (cfExempt cfg) \<Longrightarrow> carries_token rq \<Longrightarrow>
    CSRF cfg n rq s = with_copy n (rq\<lparr>cxCSRF := Cookie rq CSRFCookieName\<rparr>) rq s"
  by (auto simp: CSRF_def carries_token_iff Let_def split: option.splits)

lemma CSRF_request: "isSafeMethod (rqMethod rq) \<or> rqPath rq \<notin> set (cfExempt cfg) \<Longrightarrow> fst (CSRF cfg n rq s) = rq"
  by (auto simp: CSRF_def with_copy_def Let_def split: option.split sum.split prod.split)

text \<open>
  C34: A forged state-changing request never reaches a handler. When the request does not repeat the token of its cookie in
  the header or the form field, the server answers the same whatever handlers are behind the shared chain: they are not
  run. The only path exempt from the check is the issuer's signed logout call, in the client role.
\<close>

theorem forged_requests_stop:
  assumes "newRouter sv mux1 = Inr server1" and "newRouter sv mux2 = Inr server2"
    and std: "transparent (svRecover sv)" "transparent (svOrigin sv)"
    and m: "\<not> isSafeMethod (rqMethod rq)" "\<not> (svClientMode sv \<and> rqPath rq = ssoBackChannelLogoutPath)" and t: "\<not> carries_token rq"
  shows "server1 rq s = server2 rq s"
proof -
  let ?usage = "if svUsage sv = None then [] else [Some (Usage (svNet sv) (svUsage sv) NormalizeUsageRoute)]"
  obtain inner1 inner2 where s1: "server1 = foldr the (outer_chain sv) (foldr the ?usage (svOrigin sv (CSRF (server_csrf sv) inner1)))"
    and s2: "server2 = foldr the (outer_chain sv) (foldr the ?usage (svOrigin sv (CSRF (server_csrf sv) inner2)))"
    using newRouter_Inr [OF assms(1)] newRouter_Inr [OF assms(2)] by metis
  have stop: "CSRF (server_csrf sv) inner1 rq' s' = CSRF (server_csrf sv) inner2 rq' s'" if w: "wire rq' = wire rq" for rq' s'
  proof -
    note f = wire_fields [OF w]
    have "rqPath rq' \<notin> set (cfExempt (server_csrf sv))" using m(2) f by (auto simp: server_csrf_simps)
    with m(1) t show ?thesis by (simp add: CSRF_stops f carries_token_wire [OF w])
  qed
  have "svOrigin sv (CSRF (server_csrf sv) inner1) rq' s' = svOrigin sv (CSRF (server_csrf sv) inner2) rq' s'"
    if "wire rq' = wire rq" for rq' s' by (rule transparentD [OF std(2)]) (simp add: stop that)
  then have "foldr the ?usage (svOrigin sv (CSRF (server_csrf sv) inner1)) rq' s'
      = foldr the ?usage (svOrigin sv (CSRF (server_csrf sv) inner2)) rq' s'" if "wire rq' = wire rq" for rq' s'
    by (rule foldr_transparent [rotated]) (use that in \<open>simp_all add: transparent_observers\<close>)
  then show ?thesis
    unfolding s1 s2 by (rule foldr_transparent [OF outer_chain_transparent [OF std(1)]])
qed

text \<open>
  What the standard library's boundaries do with the request object: hand it on, so that it comes back as the callee left
  it, or leave it alone.
\<close>

definition hands_back :: "'w middleware \<Rightarrow> bool" where
  "hands_back m \<longleftrightarrow> (\<forall>n rq s. fst (m n rq s) = rq \<or> (\<exists>s'. fst (m n rq s) = fst (n rq s')))"


lemma forwarded_client:
  assumes "parseAddress N hop = Some ip" "\<not> trusted ip" "\<forall>p \<in> set proxies. \<exists>q. parseAddress N p = Some q \<and> trusted q"
  shows "forwarded N trusted peer (proxies @ hop # client) = ip"
  using assms(3) by (induction proxies) (auto simp: assms(1,2))

text \<open>
  C36: Clients cannot choose the address their limits are counted under. A direct peer that is not the trusted proxy is
  itself the client, whatever forwarding headers it sends. Behind trusted proxies the client is the last forwarded address
  that is not one of them, whatever a client put in front of it.
\<close>

theorem client_address_unspoofable:
  fixes N :: net_lib and proxy :: string
  defines "trusted \<equiv> parseTrustedProxy N proxy"
  assumes peer: "parseAddress N (rqRemoteAddr rq) = Some peer" and shown: "\<And>a. nlString N a \<noteq> []"
    and client: "\<not> trusted peer \<and> ip = peer
      \<or> trusted peer \<and> split_on (CHR '','') (Join_with '','' (Header_Values rq ''X-Forwarded-For'')) = spoofed @ hop # proxies
        \<and> parseAddress N hop = Some ip \<and> \<not> trusted ip \<and> (\<forall>p \<in> set proxies. \<exists>q. parseAddress N p = Some q \<and> trusted q)"
  shows "\<exists>copy. ClientIP N proxy next rq s = with_copy next copy rq s \<and> requestOrigin N copy = nlString N ip"
proof -
  have "resolveClientIP N trusted rq = nlString N ip"
    using client
  proof (elim disjE conjE)
    assume "trusted peer" and split: "split_on (CHR '','') (Join_with '','' (Header_Values rq ''X-Forwarded-For'')) = spoofed @ hop # proxies"
      and hop: "parseAddress N hop = Some ip" "\<not> trusted ip" "\<forall>p \<in> set proxies. \<exists>q. parseAddress N p = Some q \<and> trusted q"
    have "forwarded N trusted peer (rev proxies @ hop # rev spoofed) = ip"
      using hop by (intro forwarded_client) auto
    with \<open>trusted peer\<close> peer split show ?thesis by (simp add: resolveClientIP_def)
  qed (simp add: resolveClientIP_def peer)
  then have "ClientIP N proxy next rq s = with_copy next (rq\<lparr>cxClientIP := Some (nlString N ip)\<rparr>) rq s"
    by (simp add: ClientIP_def trusted_def)
  then show ?thesis using shown by (auto simp: requestOrigin_def ClientIPFromContext_def)
qed

text \<open>A guard runs its handler only for a principal, an administrator's where it asks for one.\<close>

lemma guards_admit:
  "RequireAdmin parse a path n1 rq s \<noteq> RequireAdmin parse a path n2 rq s \<Longrightarrow>
    \<exists>f p w. a = Some f \<and> f rq (snd s) = (Inr p, w) \<and> prIsAdmin p"
  "RequireAuthenticated parse a path n1 rq s \<noteq> RequireAuthenticated parse a path n2 rq s \<Longrightarrow>
    \<exists>f p w. a = Some f \<and> f rq (snd s) = (Inr p, w)"
  "RequireAuth a n1 rq s \<noteq> RequireAuth a n2 rq s \<Longrightarrow> \<exists>f p w. a = Some f \<and> f rq (snd s) = (Inr p, w)"
  "RequireAnonymous parse a path n1 rq s \<noteq> RequireAnonymous parse a path n2 rq s \<Longrightarrow>
    \<exists>f w. a = Some f \<and> f rq (snd s) = (Inl ErrUnauthenticated, w)"
  by (auto simp: RequireAdmin_def RequireAuthenticated_def RequireAuth_def RequireAnonymous_def
      split: option.splits prod.splits sum.splits authn_err.splits if_splits)

lemma hex_char_plain:
  "is_hex_char c \<Longrightarrow> cookie_value_byte c"
  "is_hex_char c \<Longrightarrow> \<not> ((of_char c :: nat) < 0x21 \<or> 0x7F \<le> (of_char c :: nat) \<or> c = CHR '';'' \<or> c = CHR 0x5C \<or> c = CHR 0x22)"
  by (auto simp: is_hex_char_def cookie_value_byte_def Let_def)

lemma hex_digit_plain: "list_all is_hex_char v \<Longrightarrow> validSessionCookieValue v \<longleftrightarrow> v \<noteq> [] \<and> length v \<le> 64"
  using hex_char_plain(2) by (auto simp: validSessionCookieValue_def list_all_iff Let_def)


section \<open>A small server\<close>

text \<open>Its state is the list of recorded events; its router matches every request and names an account on the way.\<close>

definition demo_net :: net_lib where
  "demo_net = \<lparr>nlParseIP = map_of [(''10.0.0.1'', 1), (''10.0.0.2'', 2), (''9.9.9.9'', 9), (''6.6.6.6'', 6)],
     nlString = (\<lambda>a. if a = 9 then ''9.9.9.9'' else if a = 6 then ''6.6.6.6'' else ''10.0.0.1''),
     nlParseCIDR = (\<lambda>s. if s = ''10.0.0.0/8'' then Some (\<lambda>a. a < 5) else None), nlSplitHostPort = (\<lambda>_. None)\<rparr>"

definition demo_cookie_config :: session_cookie_config where
  "demo_cookie_config = \<lparr>scName = [], scPath = [], scSecure = True, scLifetime = 3600000000000, scSameSite = SameSiteUnset\<rparr>"

definition demo_server :: "observation list server" where
  "demo_server = \<lparr>svRequestIDs = ret ''r1'', svNet = demo_net, svTrustedProxy = ''10.0.0.0/8'', svRecover = (\<lambda>n. n), svTracer = None,
     svSecurityLogger = None, svUsage = Some (\<lambda>e w. (Inr (), w @ [e])), svOrigin = (\<lambda>n. n),
     svCSRFTokens = ret (replicate 64 (CHR ''a'')), svCookie = demo_cookie_config, svClientMode = False, svLogger = None, svExtra = []\<rparr>"

definition demo_request :: http_request where
  "demo_request = \<lparr>rqMethod = ''GET'', rqPath = ''/en/groups/7'', rqQuery = [], rqPattern = [], rqRemoteAddr = ''10.0.0.1'', rqTLS = True,
     rqHeaders = [(''X-Forwarded-For'', ''6.6.6.6,9.9.9.9,10.0.0.2'')], rqCookies = [], rqForm = Some [], rqPathValues = [],
     cxRequestID = None, cxClientIP = None, cxCSRF = None, cxPrincipal = None, cxTraceID = None\<rparr>"

definition demo_response :: http_response where
  "demo_response = \<lparr>rsStatus = 0, rsHeaders = [], rsCookies = [], rsBody = []\<rparr>"

definition demo_mux :: "observation list handler" where
  "demo_mux rq s = withPrincipal (\<lambda>rq s. (rq, Write ''ok'' (fst s), snd s)) \<lparr>prID = ''3'', prIsAdmin = False\<rparr>
     (rq\<lparr>rqPattern := ''GET /en/groups/{id}''\<rparr>) s"

lemma transparent_id: "transparent (\<lambda>n. n)" "hands_back (\<lambda>n. n)"
  unfolding transparent_def hands_back_def by blast+

lemma demo_router: "\<exists>h. newRouter demo_server mux = Inr h" "svExtra sv = [] \<Longrightarrow> \<exists>h. newRouter sv mux = Inr h"
  by (auto simp: newRouter_def Chain_Inr shared_chain_def demo_server_def)

text \<open>What is recorded of a request whose handler knows both the account and the route.\<close>

lemma demo_recorded:
  "\<exists>h. newRouter demo_server demo_mux = Inr h
     \<and> map (\<lambda>e. (obUserID e, obRoute e, obIP e)) (snd (snd (h demo_request (demo_response, []))))
       = [(None, ''/{language}/groups/7'', ''10.0.0.1'')]"
proof (intro exI conjI)
  let ?h = "WithRequestID (svRequestIDs demo_server) (WithRequestInfo (ClientIP demo_net ''10.0.0.0/8'' (SecurityHeaders
      (Usage demo_net (Some (\<lambda>e w. (Inr (), w @ [e]))) NormalizeUsageRoute (CSRF (server_csrf demo_server) demo_mux)))))"
  show "newRouter demo_server demo_mux = Inr ?h"
    by (simp add: newRouter_def Chain_Inr shared_chain_def demo_server_def)
  show "map (\<lambda>e. (obUserID e, obRoute e, obIP e)) (snd (snd (?h demo_request (demo_response, [])))) = [(None, ''/{language}/groups/7'', ''10.0.0.1'')]"
    by code_simp
qed

theorem forged_requests_stop_witness:
  "\<exists>h1 h2. newRouter demo_server demo_mux = Inr h1 \<and> newRouter demo_server (\<lambda>rq s. (rq, fst s, [])) = Inr h2
     \<and> h1 (demo_request\<lparr>rqMethod := ''POST''\<rparr>) (demo_response, []) = h2 (demo_request\<lparr>rqMethod := ''POST''\<rparr>) (demo_response, [])"
proof -
  obtain h1 h2 where h: "newRouter demo_server demo_mux = Inr h1" "newRouter demo_server (\<lambda>rq s. (rq, fst s, [])) = Inr h2"
    using demo_router(1) by blast
  have "svRecover demo_server = (\<lambda>n. n)" "svOrigin demo_server = (\<lambda>n. n)" by (simp_all add: demo_server_def)
  then have "h1 (demo_request\<lparr>rqMethod := ''POST''\<rparr>) (demo_response, []) = h2 (demo_request\<lparr>rqMethod := ''POST''\<rparr>) (demo_response, [])"
    by (intro forged_requests_stop [OF h])
      (simp_all add: transparent_id isSafeMethod_def demo_request_def demo_server_def carries_token_def Cookie_def)
  with h show ?thesis by blast
qed


theorem client_address_unspoofable_witness:
  "\<exists>copy. ClientIP demo_net ''10.0.0.0/8'' demo_mux demo_request (demo_response, []) = with_copy demo_mux copy demo_request (demo_response, [])
     \<and> requestOrigin demo_net copy = ''9.9.9.9''"
proof -
  have "\<exists>copy. ClientIP demo_net ''10.0.0.0/8'' demo_mux demo_request (demo_response, []) = with_copy demo_mux copy demo_request (demo_response, [])
      \<and> requestOrigin demo_net copy = nlString demo_net 9"
  proof (rule client_address_unspoofable [where peer = 1 and spoofed = "[''6.6.6.6'']" and hop = "''9.9.9.9''" and proxies = "[''10.0.0.2'']"])
    show "parseAddress demo_net (rqRemoteAddr demo_request) = Some 1" by code_simp
    show "nlString demo_net a \<noteq> []" for a by (simp add: demo_net_def)
    have "split_on (CHR '','') (Join_with '','' (Header_Values demo_request ''X-Forwarded-For'')) = [''6.6.6.6''] @ ''9.9.9.9'' # [''10.0.0.2'']"
      "parseAddress demo_net ''9.9.9.9'' = Some 9" "parseAddress demo_net ''10.0.0.2'' = Some 2"
      "parseTrustedProxy demo_net ''10.0.0.0/8'' 1" "parseTrustedProxy demo_net ''10.0.0.0/8'' 2" "\<not> parseTrustedProxy demo_net ''10.0.0.0/8'' 9"
      by code_simp+
    then show "\<not> parseTrustedProxy demo_net ''10.0.0.0/8'' 1 \<and> 9 = (1::nat)
      \<or> parseTrustedProxy demo_net ''10.0.0.0/8'' 1 \<and> split_on (CHR '','') (Join_with '','' (Header_Values demo_request ''X-Forwarded-For''))
          = [''6.6.6.6''] @ ''9.9.9.9'' # [''10.0.0.2''] \<and> parseAddress demo_net ''9.9.9.9'' = Some 9
        \<and> \<not> parseTrustedProxy demo_net ''10.0.0.0/8'' 9
        \<and> (\<forall>p \<in> set [''10.0.0.2'']. \<exists>q. parseAddress demo_net p = Some q \<and> parseTrustedProxy demo_net ''10.0.0.0/8'' q)"
      by simp
  qed
  moreover have "nlString demo_net 9 = ''9.9.9.9''" by (simp add: demo_net_def)
  ultimately show ?thesis by simp
qed


end
