(* ===== verification/Pages.thy ===== *)
theory Pages
  imports System Transport
begin

text \<open>
  What the page handlers share (\<^verbatim>\<open>internal/adapter/http/dependencies.go\<close>, \<^verbatim>\<open>page.go\<close>, \<^verbatim>\<open>settings.go\<close>, \<^verbatim>\<open>recovery.go\<close>,
  \<^verbatim>\<open>admin.go\<close>): the account behind a session cookie, the language of a page, path and form values, redirects, and how a
  page or its fragment is written. Executing templates and looking messages up in the catalogues is the parameter
  \<open>pgTemplate\<close>: a page carries the identifiers of its messages, and everything the handlers read from the services.
\<close>

section \<open>Pages\<close>

datatype page_state =
    PageStateNotFound | PageStateAccessDenied | PageStateValidation | PageStateConflict | PageStateSessionExpired

record form_data =
  fdSubmitted :: bool
  fdValues :: "(string \<times> string) list"
  fdErrors :: "(string \<times> string) list"

definition no_form :: form_data where
  "no_form = \<lparr>fdSubmitted = False, fdValues = [], fdErrors = []\<rparr>"

record alert =
  alLevel :: string
  alMessage :: string

definition good_news :: "string \<Rightarrow> alert list" where
  "good_news message = [\<lparr>alLevel = ''success'', alMessage = message\<rparr>]"

definition bad_news :: "string \<Rightarrow> alert list" where
  "bad_news message = [\<lparr>alLevel = ''error'', alMessage = message\<rparr>]"

record account_form =
  afEmail :: string
  afIsAdmin :: bool
  afVersion :: int
  afIsSelf :: bool

datatype page_view =
    StateView page_state
  | GroupsView "group_summary list" bool
  | GroupView group_detail
  | SettingsView "oauth_identity list" "string list"
  | PasswordView string "string list" string
  | RecoveryView string
  | GuestView string "user option" bool bool string
  | AccountView admin_user_detail "lockout_status option"
  | AccountsView string admin_query "admin_page option" "account_form option"
  | IssuerErrorView string
  | HomeView
  | AboutView
  | AdminView
  | LimitsView "(rate_limit_action_info \<times> rate_limit_bucket_info list) list"

record page_data =
  pdLanguage :: string
  pdView :: page_view
  pdForm :: form_data
  pdAlerts :: "alert list"
  pdUser :: "user option"

text \<open>The text of a document or of a fragment, when its template can be executed.\<close>

record pages =
  pgGraph :: graph
  pgCookie :: session_cookie_config
  pgNet :: net_lib
  pgWeights :: "string \<Rightarrow> weight option"
  pgParseURL :: "string \<Rightarrow> url option"
  pgCollation :: "string \<Rightarrow> string \<Rightarrow> bool"
  pgSSOLogoutURL :: string
  pgTemplate :: "bool \<Rightarrow> page_data \<Rightarrow> string option"

abbreviation pgLib :: "pages \<Rightarrow> golib" where "pgLib E \<equiv> grLib (pgGraph E)"

section \<open>Handlers\<close>

text \<open>A handler writes the response and changes the world; it leaves the request object alone.\<close>

type_synonym pager = "http_response \<Rightarrow> world \<Rightarrow> http_response \<times> world"

definition page_handler :: "(http_request \<Rightarrow> pager) \<Rightarrow> world handler" where
  "page_handler page rq s = (rq, page rq (fst s) (snd s))"

definition asking :: "'a prog \<Rightarrow> (error + 'a \<Rightarrow> pager) \<Rightarrow> pager" where
  "asking m k rs w = (case m w of (r, w') \<Rightarrow> k r rs w')"

definition answering :: "(http_response \<Rightarrow> http_response) \<Rightarrow> pager" where
  "answering f rs w = (f rs, w)"

definition changing :: "(http_response \<Rightarrow> http_response) \<Rightarrow> pager \<Rightarrow> pager" where
  "changing f k rs w = k (f rs) w"

section \<open>Requests\<close>

definition PathValue :: "http_request \<Rightarrow> string \<Rightarrow> string" where
  "PathValue rq name = first_value (rqPathValues rq) name"

definition Query_Get :: "http_request \<Rightarrow> string \<Rightarrow> string" where
  "Query_Get rq name = first_value (rqQuery rq) name"

definition positive_number :: "string \<Rightarrow> int option" where
  "positive_number v = (case ParseInt64 (TrimSpace v) of Some n \<Rightarrow> if n \<le> 0 then None else Some n | None \<Rightarrow> None)"

text \<open>\<^verbatim>\<open>strconv.Atoi\<close> and \<^verbatim>\<open>strconv.ParseInt\<close> with their error ignored: the value, or 0 where it does not parse; a number past the range is cut to its bound.\<close>

definition Atoi_value :: "string \<Rightarrow> int" where
  "Atoi_value s =
     (case ParseInt64 s of
        Some n \<Rightarrow> n
      | None \<Rightarrow>
          let negative = (take 1 s = ''-''); digits = (if take 1 s = ''-'' \<or> take 1 s = ''+'' then drop 1 s else s) in
          if digits = [] \<or> \<not> list_all is_digit digits then 0 else if negative then - (2 ^ 63) else 2 ^ 63 - 1)"

definition pathID :: "http_request \<Rightarrow> int option" where
  "pathID rq = positive_number (PathValue rq ''id'')"

definition pathMemberID :: "http_request \<Rightarrow> int option" where
  "pathMemberID rq = positive_number (PathValue rq ''memberID'')"

definition pathIdentityID :: "http_request \<Rightarrow> int option" where
  "pathIdentityID rq = positive_number (PathValue rq ''identityID'')"

definition parseVersion :: "string \<Rightarrow> int option" where
  "parseVersion raw = (case ParseInt64 (TrimSpace raw) of Some v \<Rightarrow> if v < 0 then None else Some v | None \<Rightarrow> None)"

definition isChecked :: "golib \<Rightarrow> string \<Rightarrow> bool" where
  "isChecked L v \<longleftrightarrow> ToLower L (TrimSpace v) \<in> {''on'', ''true'', ''1'', ''yes''}"

text \<open>\<^verbatim>\<open>strings.EqualFold\<close> with \<^verbatim>\<open>true\<close>, whose letters fold to nothing past ASCII.\<close>

definition IsHTMX :: "http_request \<Rightarrow> bool" where
  "IsHTMX rq \<longleftrightarrow> map (\<lambda>c. ascii_lower (of_char c)) (TrimSpace (Header_Get rq ''Hx-Request'')) = map of_char ''true''"

definition formFailureStatus :: "http_request \<Rightarrow> nat \<Rightarrow> nat" where
  "formFailureStatus rq status = (if IsHTMX rq then 422 else status)"

definition localeCookieName :: string where "localeCookieName = ''goweb_locale''"

definition resolveRequestLanguage :: "pages \<Rightarrow> http_request \<Rightarrow> string \<Rightarrow> string" where
  "resolveRequestLanguage E rq accountLanguage =
     fst (Resolve (pgLib E) (pgWeights E)
       \<lparr>pfURL = (case ParsePath (rqPath rq) of Some (language, _) \<Rightarrow> language | None \<Rightarrow> []), pfAccount = accountLanguage,
         pfBrowser = text_of (Cookie rq localeCookieName), pfAcceptLanguage = Header_Get rq ''Accept-Language''\<rparr>)"

definition recoveryLanguage :: "pages \<Rightarrow> http_request \<Rightarrow> string" where
  "recoveryLanguage E rq =
     (case ParsePath (rqPath rq) of Some (language, _) \<Rightarrow> language | None \<Rightarrow> resolveRequestLanguage E rq [])"

definition requestLanguage :: "http_request \<Rightarrow> string option" where
  "requestLanguage rq = map_option fst (ParsePath (rqPath rq))"

definition localizedPath :: "pages \<Rightarrow> string \<Rightarrow> string \<Rightarrow> string" where
  "localizedPath E language route = (case localized_path (pgParseURL E) language route of Inl _ \<Rightarrow> [] | Inr path \<Rightarrow> path)"

section \<open>Responses\<close>

definition StatusText :: "nat \<Rightarrow> string" where
  "StatusText status =
     (if status = 401 then ''Unauthorized'' else if status = 404 then ''Not Found''
      else if status = 422 then ''Unprocessable Entity'' else if status = 500 then ''Internal Server Error'' else [])"

definition renderSimpleError :: "nat \<Rightarrow> http_response \<Rightarrow> http_response" where
  "renderSimpleError status = http_Error (StatusText status) status"

definition refuse_method :: "string \<Rightarrow> http_response \<Rightarrow> http_response" where
  "refuse_method allowed rs = WriteHeader 405 (set_header ''Allow'' allowed rs)"

text \<open>A redirect that HTMX performs as a full navigation.\<close>

definition hx_redirect :: "string \<Rightarrow> http_response \<Rightarrow> http_response" where
  "hx_redirect target rs = WriteHeader 200 (set_header ''HX-Redirect'' target rs)"

definition redirectLocalized :: "pages \<Rightarrow> string \<Rightarrow> string \<Rightarrow> http_response \<Rightarrow> http_response" where
  "redirectLocalized E language route rs =
     (case localized_path (pgParseURL E) language route of
        Inl _ \<Rightarrow> renderSimpleError 500 rs
      | Inr path \<Rightarrow> http_Redirect path 303 rs)"

definition to_sign_in :: "pages \<Rightarrow> http_request \<Rightarrow> http_response \<Rightarrow> http_response" where
  "to_sign_in E rq rs =
     (let language = recoveryLanguage E rq in
      if IsHTMX rq then hx_redirect (localizedPath E language ''/sign-in'') rs else redirectLocalized E language ''/sign-in'' rs)"

definition add_header :: "string \<Rightarrow> string \<Rightarrow> http_response \<Rightarrow> http_response" where
  "add_header name v rs = (if rsStatus rs \<noteq> 0 then rs else rs\<lparr>rsHeaders := rsHeaders rs @ [(name, v)]\<rparr>)"

text \<open>The page is written once its template has been executed; the first component says whether it was.\<close>

definition RenderRequestStatus :: "pages \<Rightarrow> http_request \<Rightarrow> page_data \<Rightarrow> nat \<Rightarrow> http_response \<Rightarrow> bool \<times> http_response" where
  "RenderRequestStatus E rq page status rs =
     (let rs = add_header ''Vary'' ''HX-Request'' rs in
      case pgTemplate E (IsHTMX rq) page of
        None \<Rightarrow> (False, rs)
      | Some output \<Rightarrow> (True, Write output (WriteHeader status (set_header ''Content-Type'' ''text/html; charset=utf-8'' rs))))"

definition render :: "pages \<Rightarrow> http_request \<Rightarrow> page_data \<Rightarrow> nat \<Rightarrow> http_response \<Rightarrow> http_response" where
  "render E rq page status rs =
     (case RenderRequestStatus E rq page status rs of (ok, rs) \<Rightarrow> if ok then rs else renderSimpleError 500 rs)"

definition stateStatus :: "page_state \<Rightarrow> nat" where
  "stateStatus state =
     (case state of PageStateNotFound \<Rightarrow> 404 | PageStateAccessDenied \<Rightarrow> 403 | PageStateConflict \<Rightarrow> 409
      | PageStateSessionExpired \<Rightarrow> 401 | PageStateValidation \<Rightarrow> 422)"

definition RenderState :: "pages \<Rightarrow> http_request \<Rightarrow> page_state \<Rightarrow> http_response \<Rightarrow> http_response" where
  "RenderState E rq state =
     render E rq \<lparr>pdLanguage = recoveryLanguage E rq, pdView = StateView state, pdForm = no_form, pdAlerts = [], pdUser = None\<rparr>
       (stateStatus state)"

section \<open>The account behind a request\<close>

definition Authenticate :: "golib \<Rightarrow> session_cookie_config \<Rightarrow> world authenticator" where
  "Authenticate L c rq w =
     (case cookie_Read c rq of
        None \<Rightarrow> (Inl ErrUnauthenticated, w)
      | Some sessionID \<Rightarrow> (case Lookup L sessionID w of
          (Inl _, w) \<Rightarrow> (Inl ErrUnauthenticated, w)
        | (Inr session, w) \<Rightarrow> (case FindUserByID (sUserID session) w of
            (Inl _, w) \<Rightarrow> (Inl ErrSessionAuthentication, w)
          | (Inr user, w) \<Rightarrow>
              if uID user \<noteq> sUserID session then (Inl ErrSessionAuthentication, w)
              else (Inr \<lparr>prID = FormatInt (uID user), prIsAdmin = uIsAdmin user\<rparr>, w))))"

definition currentUser :: "pages \<Rightarrow> http_request \<Rightarrow> (user option \<Rightarrow> pager) \<Rightarrow> pager" where
  "currentUser E rq k rs w =
     (case Authenticate (pgLib E) (pgCookie E) rq w of
        (Inl _, w) \<Rightarrow> k None rs w
      | (Inr p, w) \<Rightarrow> (case ParseInt64 (prID p) of
          None \<Rightarrow> k None rs w
        | Some userID \<Rightarrow> (case FindUserByID userID w of
            (Inl _, w) \<Rightarrow> k None rs w
          | (Inr user, w) \<Rightarrow> k (if uID user = userID then Some user else None) rs w)))"

text \<open>The part \<^verbatim>\<open>authenticatePageUser\<close> and \<^verbatim>\<open>adminHandler.authorize\<close> have in common.\<close>

definition page_account :: "pages \<Rightarrow> http_request \<Rightarrow> (int \<Rightarrow> bool) \<Rightarrow> (user \<Rightarrow> pager) \<Rightarrow> pager" where
  "page_account E rq numbered k rs w =
     (case Authenticate (pgLib E) (pgCookie E) rq w of
        (Inl ErrUnauthenticated, w) \<Rightarrow> (to_sign_in E rq rs, w)
      | (Inl _, w) \<Rightarrow> (renderSimpleError 500 rs, w)
      | (Inr p, w) \<Rightarrow> (case ParseInt64 (prID p) of
          None \<Rightarrow> (renderSimpleError 500 rs, w)
        | Some userID \<Rightarrow>
            if \<not> numbered userID then (renderSimpleError 500 rs, w)
            else (case FindUserByID userID w of
                (Inl _, w) \<Rightarrow> (renderSimpleError 500 rs, w)
              | (Inr user, w) \<Rightarrow> if uID user \<noteq> userID then (renderSimpleError 500 rs, w) else k user rs w)))"

definition authenticatePageUser :: "pages \<Rightarrow> http_request \<Rightarrow> (user \<Rightarrow> pager) \<Rightarrow> pager" where
  "authenticatePageUser E rq k = page_account E rq (\<lambda>_. True) k"

definition authorize :: "pages \<Rightarrow> http_request \<Rightarrow> (user \<Rightarrow> pager) \<Rightarrow> pager" where
  "authorize E rq k =
     page_account E rq (\<lambda>userID. 0 < userID) (\<lambda>user.
       if \<not> uIsAdmin user then answering (RenderState E rq PageStateAccessDenied) else k user)"

definition only_method :: "string \<Rightarrow> http_request \<Rightarrow> pager \<Rightarrow> pager" where
  "only_method m rq k = (if rqMethod rq \<noteq> m then answering (refuse_method m) else k)"

definition get_or_post :: "http_request \<Rightarrow> pager \<Rightarrow> pager \<Rightarrow> pager" where
  "get_or_post rq get post =
     (if rqMethod rq = ''GET'' then get else if rqMethod rq = ''POST'' then post else answering (refuse_method ''GET, POST''))"


section \<open>Who acts\<close>

text \<open>A stored session row that accepts the credential now, and the account a request acts for through its cookie.\<close>

definition live_session :: "golib \<Rightarrow> string \<Rightarrow> world \<Rightarrow> int \<Rightarrow> bool" where
  "live_session L credential w uid \<longleftrightarrow> (\<exists>row \<in> set (sessions (tables w)).
     rID row = sessionDigest L credential \<and> rRevokedAt row = None \<and> unix_now w < rExpiresAt row \<and> rUserID row = uid)"

definition acts_for :: "pages \<Rightarrow> http_request \<Rightarrow> world \<Rightarrow> user \<Rightarrow> bool" where
  "acts_for E rq w u \<longleftrightarrow> u \<in> set (users (tables w)) \<and>
     (\<exists>credential. cookie_Read (pgCookie E) rq = Some credential \<and> live_session (pgLib E) credential w (uID u))"

lemma ParseInt64_FormatInt: "0 < n \<Longrightarrow> ParseInt64 (FormatInt n) = Some m \<Longrightarrow> m = n"
proof -
  assume n: "0 < n" and m: "ParseInt64 (FormatInt n) = Some m"
  have d: "format_nat (nat n) \<noteq> []" "list_all is_digit (format_nat (nat n))" using format_nat_digits by blast+
  then obtain c r where cr: "format_nat (nat n) = c # r" by (cases "format_nat (nat n)") auto
  with d have "is_digit c" by simp
  then have "c \<noteq> CHR ''-''" "c \<noteq> CHR ''+''" by (auto simp: is_digit_def)
  with m n cr have "ParseUint 64 (format_nat (nat n)) = Some (nat m) \<and> 0 \<le> m"
    by (auto simp: ParseInt64_def FormatInt_def split: option.splits if_splits)
  then show "m = n" using n by (auto simp: ParseUint_def decimal_value_format split: if_splits)
qed

lemma Authenticate_reads: "Authenticate L c rq w = (r, w') \<Longrightarrow> tables w' = tables w"
  using evolves_eqD [OF evolves_Lookup [OF preord_eq]] evolves_eqD [OF evolves_FindUserByID [OF preord_eq]]
  by (fastforce simp: Authenticate_def split: option.splits prod.splits sum.splits if_splits)

lemma Authenticate_Inr:
  assumes "Authenticate L c rq w = (Inr p, w')"
  shows "\<exists>u credential. cookie_Read c rq = Some credential \<and> live_session L credential w (uID u) \<and> 0 < uID u
    \<and> prID p = FormatInt (uID u) \<and> prIsAdmin p = uIsAdmin u \<and> u \<in> set (users (tables w))"
proof -
  from assms obtain credential session w1 u where c: "cookie_Read c rq = Some credential"
    and l: "Lookup L credential w = (Inr session, w1)" and f: "FindUserByID (sUserID session) w1 = (Inr u, w')"
    and u: "uID u = sUserID session" "p = \<lparr>prID = FormatInt (uID u), prIsAdmin = uIsAdmin u\<rparr>"
    by (auto simp: Authenticate_def split: option.splits prod.splits sum.splits if_splits)
  from l obtain row where "row \<in> set (sessions (tables w))" "rID row = sessionDigest L credential" "sUserID session = rUserID row"
    "rRevokedAt row = None" "unix_now w < rExpiresAt row" "tables w1 = tables w"
    by (rule Lookup_Inr) blast
  with FindUserByID_Inr [OF f] u c show ?thesis
    by (intro exI [of _ u] exI [of _ credential]) (auto simp: live_session_def dest: find_Some_iff')
qed

text \<open>A page behind a session either answers on its own, leaving the tables alone, or runs for the account of a live session.\<close>

lemma page_account_cases:
  assumes "page_account E rq numbered k rs w = (rs', w')"
  shows "tables w' = tables w \<or>
    (\<exists>u w1. acts_for E rq w u \<and> tables w1 = tables w \<and> k u rs w1 = (rs', w'))"
proof -
  obtain r w1 where a: "Authenticate (pgLib E) (pgCookie E) rq w = (r, w1)" by fastforce
  have t1: "tables w1 = tables w" by (rule Authenticate_reads [OF a])
  show ?thesis
  proof (cases r)
    case (Inl e)
    with a t1 assms show ?thesis by (cases e) (auto simp: page_account_def)
  next
    case (Inr p)
    show ?thesis
    proof (cases "ParseInt64 (prID p)")
      case None
      with a Inr t1 assms show ?thesis by (auto simp: page_account_def)
    next
      case (Some userID)
      obtain r2 w2 where f: "FindUserByID userID w1 = (r2, w2)" by fastforce
      have t2: "tables w2 = tables w1" by (rule evolves_eqD [OF evolves_FindUserByID [OF preord_eq] f])
      from Authenticate_Inr [OF a [unfolded Inr]] obtain v :: user and credential where v: "cookie_Read (pgCookie E) rq = Some credential"
        "live_session (pgLib E) credential w (uID v)" "0 < uID v" "prID p = FormatInt (uID v)" by blast
      with Some have id: "userID = uID v" using ParseInt64_FormatInt by auto
      show ?thesis
      proof (cases r2)
        case (Inl e)
        with a Inr Some f t1 t2 assms show ?thesis by (auto simp: page_account_def split: if_splits)
      next
        fix u assume r2: "r2 = Inr u"
        from FindUserByID_Inr [OF f [unfolded r2]] have "u \<in> set (users (tables w1))" "uID u = userID"
          by (auto dest: find_Some_iff')
        then have "acts_for E rq w u" using v id t1 by (auto simp: acts_for_def)
        with a Inr Some f r2 t1 t2 assms show ?thesis by (auto simp: page_account_def split: if_splits)
      qed
    qed
  qed
qed

section \<open>What pages keep\<close>

definition pager_keeps :: "(db \<Rightarrow> db \<Rightarrow> bool) \<Rightarrow> pager \<Rightarrow> bool" where
  "pager_keeps R page \<longleftrightarrow> (\<forall>rs w. R (tables w) (tables (snd (page rs w))))"

named_theorems pager_intro \<open>composition rules for pager_keeps\<close>

lemma pager_keepsD: "pager_keeps R page \<Longrightarrow> page rs w = (rs', w') \<Longrightarrow> R (tables w) (tables w')"
  unfolding pager_keeps_def by (metis snd_conv)

lemma pager_answering [pager_intro]: "preord R \<Longrightarrow> pager_keeps R (answering f)"
  by (simp add: pager_keeps_def answering_def preord_refl)

lemma pager_changing [pager_intro]: "pager_keeps R k \<Longrightarrow> pager_keeps R (changing f k)"
  by (simp add: pager_keeps_def changing_def)

lemma pager_asking [pager_intro]:
  assumes "preord R" and "evolves (on_tables R) m" and "\<And>r. pager_keeps R (k r)"
  shows "pager_keeps R (asking m k)"
  unfolding pager_keeps_def
proof (intro allI)
  fix rs w
  obtain r w' where m: "m w = (r, w')" by fastforce
  have "R (tables w) (tables w')" using evolvesD [OF assms(2) m] by (simp add: on_tables_def)
  moreover have "R (tables w') (tables (snd (k r rs w')))" using assms(3) by (simp add: pager_keeps_def)
  ultimately show "R (tables w) (tables (snd (asking m k rs w)))"
    using preord_trans [OF assms(1)] by (auto simp: asking_def m)
qed

lemma pager_splits [pager_intro]:
  "(\<And>x. pager_keeps R (f x)) \<Longrightarrow> (\<And>y. pager_keeps R (g y)) \<Longrightarrow> pager_keeps R (case s of Inl x \<Rightarrow> f x | Inr y \<Rightarrow> g y)"
  "pager_keeps R p \<Longrightarrow> (\<And>z. pager_keeps R (k z)) \<Longrightarrow> pager_keeps R (case v of None \<Rightarrow> p | Some z \<Rightarrow> k z)"
  "pager_keeps R p \<Longrightarrow> pager_keeps R q \<Longrightarrow> pager_keeps R (if b then p else q)"
  "(\<And>t. pager_keeps R (h t)) \<Longrightarrow> pager_keeps R (let t = a in h t)"
  by (auto split: sum.splits option.splits)

lemma pager_methods [pager_intro]:
  "preord R \<Longrightarrow> pager_keeps R p \<Longrightarrow> pager_keeps R (only_method m rq p)"
  "preord R \<Longrightarrow> pager_keeps R p \<Longrightarrow> pager_keeps R q \<Longrightarrow> pager_keeps R (get_or_post rq p q)"
  by (simp_all add: only_method_def get_or_post_def pager_answering)

end
