(* ===== verification/GroupPages.thy ===== *)
theory GroupPages
  imports Pages
begin

text \<open>
  The group pages (\<^verbatim>\<open>internal/adapter/http/group.go\<close>): one handler per route, each behind the session of an account, with
  the identifiers and the revision it reads from the request and the page or redirect it answers with.
\<close>

section \<open>Views\<close>

definition renderError :: "nat \<Rightarrow> pager" where
  "renderError status = answering (renderSimpleError status)"

definition renderGroupNotFound :: "pages \<Rightarrow> http_request \<Rightarrow> pager" where
  "renderGroupNotFound E rq = answering (RenderState E rq PageStateNotFound)"

definition renderGroupError :: "pages \<Rightarrow> http_request \<Rightarrow> error \<Rightarrow> pager" where
  "renderGroupError E rq err =
     (if errors_is err (Grp ErrGroupNotFound) then renderGroupNotFound E rq else renderError 500)"

definition renderGroups :: "pages \<Rightarrow> http_request \<Rightarrow> user \<Rightarrow> group_summary list \<Rightarrow> form_data \<Rightarrow> alert list \<Rightarrow> nat \<Rightarrow> bool \<Rightarrow> pager" where
  "renderGroups E rq user summaries form alerts status creating =
     answering (render E rq \<lparr>pdLanguage = recoveryLanguage E rq, pdView = GroupsView summaries creating, pdForm = form,
       pdAlerts = alerts, pdUser = Some user\<rparr> status)"

text \<open>\<^verbatim>\<open>loweredRequest\<close> changes the method of a copy, which the page does not show.\<close>

definition renderGroupDetail :: "pages \<Rightarrow> http_request \<Rightarrow> user \<Rightarrow> group_detail \<Rightarrow> form_data \<Rightarrow> alert list \<Rightarrow> nat \<Rightarrow> pager" where
  "renderGroupDetail E rq user detail form alerts status =
     answering (render E rq \<lparr>pdLanguage = recoveryLanguage E rq, pdView = GroupView detail, pdForm = form, pdAlerts = alerts,
       pdUser = Some user\<rparr> status)"

definition group_renderDetail :: "pages \<Rightarrow> http_request \<Rightarrow> user \<Rightarrow> int \<Rightarrow> form_data \<Rightarrow> alert list \<Rightarrow> nat \<Rightarrow> pager" where
  "group_renderDetail E rq user groupID form alerts status =
     asking (Detail (pgLib E) (uID user) groupID) (\<lambda>r. case r of
       Inl err \<Rightarrow> renderGroupError E rq err
     | Inr detail \<Rightarrow> renderGroupDetail E rq user detail form alerts status)"

definition renderGroupDetailError :: "pages \<Rightarrow> http_request \<Rightarrow> user \<Rightarrow> int \<Rightarrow> form_data \<Rightarrow> string \<Rightarrow> nat \<Rightarrow> pager" where
  "renderGroupDetailError E rq user groupID form message status =
     group_renderDetail E rq user groupID form (bad_news message) status"

definition renderGroupWriteError :: "pages \<Rightarrow> http_request \<Rightarrow> user \<Rightarrow> int \<Rightarrow> error \<Rightarrow> form_data \<Rightarrow> pager" where
  "renderGroupWriteError E rq user groupID err form =
     (if errors_is err (Repo ErrOptimisticLockConflict)
      then renderGroupDetailError E rq user groupID form ''groups.error.conflict'' 409
      else if errors_is err (Grp ErrGroupNotFound) \<or> errors_is err (Grp ErrMembershipNotFound)
      then renderGroupError E rq (Grp ErrGroupNotFound)
      else if errors_is err (Grp ErrNotGroupAdmin)
      then renderGroupDetailError E rq user groupID form ''groups.error.not_admin'' 403
      else if errors_is err (Grp ErrLastGroupAdmin)
      then renderGroupDetailError E rq user groupID form ''groups.error.last_admin'' 422
      else if errors_is err (Grp ErrInvalidGroupName)
      then renderGroupDetailError E rq user groupID form ''groups.error.invalid_name'' 422
      else renderError 500)"

definition group_redirectLocalized :: "pages \<Rightarrow> http_request \<Rightarrow> string \<Rightarrow> pager" where
  "group_redirectLocalized E rq route =
     (let language = recoveryLanguage E rq in
      if IsHTMX rq then
        (case localized_path (pgParseURL E) language route of
           Inl _ \<Rightarrow> renderError 500
         | Inr path \<Rightarrow> answering (hx_redirect path))
      else answering (redirectLocalized E language route))"

section \<open>Handlers\<close>

definition groups_list :: "pages \<Rightarrow> http_request \<Rightarrow> pager" where
  "groups_list E rq = authenticatePageUser E rq (\<lambda>user. only_method ''GET'' rq (
     asking (group_List (uID user)) (\<lambda>r. case r of
       Inl _ \<Rightarrow> renderGroups E rq user [] no_form (bad_news ''groups.error.generic'') 500 False
     | Inr summaries \<Rightarrow> renderGroups E rq user summaries no_form [] 200 False)))"

definition groups_create :: "pages \<Rightarrow> http_request \<Rightarrow> pager" where
  "groups_create E rq = authenticatePageUser E rq (\<lambda>user. only_method ''POST'' rq (
     let name = PostFormValue rq ''name'' in
     asking (group_Create (pgLib E) (uID user) name) (\<lambda>r. case r of
       Inr summary \<Rightarrow> group_redirectLocalized E rq (''/groups/'' @ FormatInt (gID (suGroup summary)))
     | Inl err \<Rightarrow>
         let invalid = errors_is err (Grp ErrInvalidGroupName) in
         renderGroups E rq user []
           \<lparr>fdSubmitted = True, fdValues = [(''name'', name)],
             fdErrors = (if invalid then [(''name'', ''groups.error.invalid_name'')] else [])\<rparr>
           (bad_news (if invalid then ''groups.error.invalid_name'' else ''groups.error.generic'')) 422 True)))"

definition groups_detail :: "pages \<Rightarrow> http_request \<Rightarrow> pager" where
  "groups_detail E rq = authenticatePageUser E rq (\<lambda>user. only_method ''GET'' rq (
     case pathID rq of
       None \<Rightarrow> renderGroupNotFound E rq
     | Some groupID \<Rightarrow> asking (Detail (pgLib E) (uID user) groupID) (\<lambda>r. case r of
         Inl err \<Rightarrow> if errors_is err (Grp ErrGroupNotFound) then renderGroupNotFound E rq else renderError 500
       | Inr detail \<Rightarrow> renderGroupDetail E rq user detail no_form [] 200)))"

definition groups_join :: "pages \<Rightarrow> http_request \<Rightarrow> pager" where
  "groups_join E rq = authenticatePageUser E rq (\<lambda>user. get_or_post rq (renderGroups E rq user [] no_form [] 200 False) (
     let code = PostFormValue rq ''code'' in
     asking (RateLimited_Join (pgLib E) (grJoinLimiter (pgGraph E)) (uID user) code) (\<lambda>r. case r of
       Inr membership \<Rightarrow> group_redirectLocalized E rq (''/groups/'' @ FormatInt (mGroupID membership))
     | Inl err \<Rightarrow>
         let form = \<lparr>fdSubmitted = True, fdValues = [(''code'', code)], fdErrors = []\<rparr> in
         if errors_is err (Grp ErrGroupInviteNotFound)
         then renderGroups E rq user [] (form\<lparr>fdErrors := [(''code'', ''groups.error.invalid_code'')]\<rparr>)
           (bad_news ''groups.error.invalid_code'') 422 False
         else if errors_is err (Grp ErrMembershipExists)
         then renderGroups E rq user [] form (bad_news ''groups.error.already_member'') 422 False
         else if errors_is err (Auth ErrRateLimited)
         then renderGroups E rq user [] form (bad_news ''groups.error.rate_limited'') 429 False
         else renderGroups E rq user [] form (bad_news ''groups.error.generic'') 422 False)))"

definition groups_rename :: "pages \<Rightarrow> http_request \<Rightarrow> pager" where
  "groups_rename E rq = authenticatePageUser E rq (\<lambda>user. only_method ''POST'' rq (
     case pathID rq of
       None \<Rightarrow> renderGroupError E rq (Grp ErrGroupNotFound)
     | Some groupID \<Rightarrow> (case parseVersion (PostFormValue rq ''version'') of
         None \<Rightarrow> renderGroupDetailError E rq user groupID
           \<lparr>fdSubmitted = True, fdValues = [], fdErrors = [(''name'', ''groups.error.invalid_name'')]\<rparr> ''groups.error.invalid_name'' 422
       | Some version \<Rightarrow>
           let name = PostFormValue rq ''name'' in
           asking (Rename (pgLib E) (grGroup (pgGraph E)) (uID user) groupID version name) (\<lambda>r. case r of
             Inl err \<Rightarrow> renderGroupWriteError E rq user groupID err \<lparr>fdSubmitted = True, fdValues = [(''name'', name)], fdErrors = []\<rparr>
           | Inr _ \<Rightarrow> group_renderDetail E rq user groupID no_form [] 200))))"

definition groups_rotateInvite :: "pages \<Rightarrow> http_request \<Rightarrow> pager" where
  "groups_rotateInvite E rq = authenticatePageUser E rq (\<lambda>user. only_method ''POST'' rq (
     case pathID rq of
       None \<Rightarrow> renderGroupError E rq (Grp ErrGroupNotFound)
     | Some groupID \<Rightarrow> asking (RotateInvite (pgLib E) (grGroup (pgGraph E)) (uID user) groupID) (\<lambda>r. case r of
         Inl err \<Rightarrow> renderGroupWriteError E rq user groupID err no_form
       | Inr _ \<Rightarrow> group_renderDetail E rq user groupID no_form (good_news ''groups.invite.rotated'') 200)))"

definition requireVersion :: "pages \<Rightarrow> http_request \<Rightarrow> user \<Rightarrow> int \<Rightarrow> (int \<Rightarrow> pager) \<Rightarrow> pager" where
  "requireVersion E rq user groupID k =
     (case parseVersion (PostFormValue rq ''version'') of
        None \<Rightarrow> renderGroupDetailError E rq user groupID no_form ''groups.error.conflict'' 422
      | Some version \<Rightarrow> k version)"

definition groups_changeRole :: "pages \<Rightarrow> http_request \<Rightarrow> pager" where
  "groups_changeRole E rq = authenticatePageUser E rq (\<lambda>user. only_method ''POST'' rq (
     case pathID rq of
       None \<Rightarrow> renderGroupError E rq (Grp ErrGroupNotFound)
     | Some groupID \<Rightarrow> (case pathMemberID rq of
         None \<Rightarrow> renderGroupError E rq (Grp ErrGroupNotFound)
       | Some targetUserID \<Rightarrow> requireVersion E rq user groupID (\<lambda>version.
           asking (ChangeRole (grGroup (pgGraph E)) (uID user) groupID targetUserID version (PostFormValue rq ''role'')) (\<lambda>r. case r of
             Inl err \<Rightarrow> renderGroupWriteError E rq user groupID err no_form
           | Inr _ \<Rightarrow> group_renderDetail E rq user groupID no_form (good_news ''groups.roster.updated'') 200)))))"

definition groups_removeMember :: "pages \<Rightarrow> http_request \<Rightarrow> pager" where
  "groups_removeMember E rq = authenticatePageUser E rq (\<lambda>user. only_method ''POST'' rq (
     case pathID rq of
       None \<Rightarrow> renderGroupError E rq (Grp ErrGroupNotFound)
     | Some groupID \<Rightarrow> (case pathMemberID rq of
         None \<Rightarrow> renderGroupError E rq (Grp ErrGroupNotFound)
       | Some targetUserID \<Rightarrow> requireVersion E rq user groupID (\<lambda>version.
           asking (RemoveMember (grGroup (pgGraph E)) (uID user) groupID targetUserID version) (\<lambda>r. case r of
             Inl err \<Rightarrow> renderGroupWriteError E rq user groupID err no_form
           | Inr _ \<Rightarrow> group_renderDetail E rq user groupID no_form (good_news ''groups.roster.removed'') 200)))))"

definition groups_leave :: "pages \<Rightarrow> http_request \<Rightarrow> pager" where
  "groups_leave E rq = authenticatePageUser E rq (\<lambda>user. only_method ''POST'' rq (
     case pathID rq of
       None \<Rightarrow> renderGroupError E rq (Grp ErrGroupNotFound)
     | Some groupID \<Rightarrow> asking (Leave (uID user) groupID) (\<lambda>r. case r of
         Inl err \<Rightarrow> renderGroupWriteError E rq user groupID err no_form
       | Inr _ \<Rightarrow> group_redirectLocalized E rq ''/groups'')))"

end
