(* ===== verification/AdminPages.thy ===== *)
theory AdminPages
  imports Pages
begin

text \<open>
  The administrator area (\<^verbatim>\<open>internal/adapter/http/admin.go\<close>, \<^verbatim>\<open>admin_state.go\<close>): the account list and its URL state, one
  account's diagnostics, and every handler that changes something, each behind \<^verbatim>\<open>authorize\<close>. The report pages, which only
  read, and the maintenance run are left out.
\<close>

section \<open>List state\<close>

definition parseAdminListState :: "golib \<Rightarrow> http_request \<Rightarrow> admin_query" where
  "parseAdminListState L rq =
     Normalize L \<lparr>aqSearch = Query_Get rq ''q'', aqAdmin = Query_Get rq ''admin'', aqGuest = Query_Get rq ''guest'',
       aqConfirmed = Query_Get rq ''confirmed'', aqSort = Query_Get rq ''sort'', aqDirection = Query_Get rq ''dir'',
       aqPage = Atoi_value (Query_Get rq ''page''), aqSize = Atoi_value (Query_Get rq ''size'')\<rparr>"

section \<open>Views\<close>

definition adminActionContext :: "pages \<Rightarrow> user \<Rightarrow> http_request \<Rightarrow> admin_actor" where
  "adminActionContext E user rq = \<lparr>acActorID = uID user, acOrigin = requestOrigin (pgNet E) rq\<rparr>"

definition admin_page_of :: "pages \<Rightarrow> http_request \<Rightarrow> user \<Rightarrow> page_view \<Rightarrow> form_data \<Rightarrow> alert list \<Rightarrow> nat \<Rightarrow> pager" where
  "admin_page_of E rq user view form alerts status =
     answering (render E rq \<lparr>pdLanguage = recoveryLanguage E rq, pdView = view, pdForm = form, pdAlerts = alerts, pdUser = Some user\<rparr> status)"

definition admin_renderState :: "pages \<Rightarrow> http_request \<Rightarrow> page_state \<Rightarrow> pager" where
  "admin_renderState E rq state = answering (RenderState E rq state)"

definition admin_renderDetail :: "pages \<Rightarrow> http_request \<Rightarrow> user \<Rightarrow> int \<Rightarrow> alert list \<Rightarrow> nat \<Rightarrow> pager" where
  "admin_renderDetail E rq user accountID alerts status =
     asking (diagnostics_Detail accountID) (\<lambda>r. case r of
       Inl err \<Rightarrow>
         if errors_is err (Repo ErrRecordNotFound) then admin_renderState E rq PageStateNotFound
         else answering (renderSimpleError 500)
     | Inr detail \<Rightarrow>
         asking (lockout_Status (pgLib E) (grSignInLimiter (pgGraph E)) (adUser detail)) (\<lambda>l.
           admin_page_of E rq user (AccountView detail (case l of Inl _ \<Rightarrow> None | Inr lockout \<Rightarrow> Some lockout)) no_form alerts status))"

definition renderUsers :: "pages \<Rightarrow> http_request \<Rightarrow> user \<Rightarrow> string \<Rightarrow> admin_page option \<Rightarrow> account_form option
    \<Rightarrow> form_data \<Rightarrow> alert list \<Rightarrow> nat \<Rightarrow> pager" where
  "renderUsers E rq user mode rows account form alerts status =
     admin_page_of E rq user (AccountsView mode (parseAdminListState (pgLib E) rq) rows account) form alerts status"

definition admin_redirectLocalized :: "pages \<Rightarrow> http_request \<Rightarrow> string \<Rightarrow> pager" where
  "admin_redirectLocalized E rq route =
     (let language = recoveryLanguage E rq in
      if IsHTMX rq then answering (hx_redirect (localizedPath E language route))
      else answering (redirectLocalized E language route))"

definition is_weak_password :: "error \<Rightarrow> bool" where
  "is_weak_password err \<longleftrightarrow> errors_is err (Account ErrPasswordTooShort) \<or> errors_is err (Account ErrPasswordTooLong)
     \<or> errors_is err (Account ErrInvalidPassword)"

definition adminAccountErrorMessage :: "error \<Rightarrow> string" where
  "adminAccountErrorMessage err =
     (if errors_is err (Account ErrInvalidEmail) then ''admin.account.error.invalid_email''
      else if errors_is err (Account ErrDuplicateEmail) then ''admin.account.error.duplicate_email''
      else if is_weak_password err then ''admin.account.error.weak_password''
      else if errors_is err (Repo ErrOptimisticLockConflict) then ''admin.account.error.conflict''
      else if errors_is err (Repo ErrRecordNotFound) then ''admin.account.error.not_found''
      else if errors_is err (Adm ErrAdminSelfAction) then ''admin.account.error.self_action''
      else if errors_is err (Adm ErrLastAdministrator) then ''admin.account.error.last_admin''
      else ''admin.account.error.generic'')"

definition adminAccountFieldErrors :: "error \<Rightarrow> (string \<times> string) list" where
  "adminAccountFieldErrors err =
     (if errors_is err (Account ErrInvalidEmail) then [(''email'', ''admin.account.error.invalid_email'')]
      else if errors_is err (Account ErrDuplicateEmail) then [(''email'', ''admin.account.error.duplicate_email'')]
      else if is_weak_password err then [(''password'', ''admin.account.error.weak_password'')]
      else [])"

definition accountFormData :: "http_request \<Rightarrow> form_data" where
  "accountFormData rq = \<lparr>fdSubmitted = True,
     fdValues = [(''email'', PostFormValue rq ''email''), (''is_admin'', PostFormValue rq ''is_admin'')], fdErrors = []\<rparr>"

section \<open>Reading\<close>

definition admin_index :: "pages \<Rightarrow> http_request \<Rightarrow> pager" where
  "admin_index E rq = authorize E rq (\<lambda>user. only_method ''GET'' rq (admin_page_of E rq user AdminView no_form [] 200))"

definition admin_list :: "pages \<Rightarrow> http_request \<Rightarrow> pager" where
  "admin_list E rq = authorize E rq (\<lambda>user. only_method ''GET'' rq (
     asking (admin_List (pgLib E) (pgCollation E) (parseAdminListState (pgLib E) rq)) (\<lambda>r. case r of
       Inl _ \<Rightarrow> renderUsers E rq user ''list'' None None no_form (bad_news ''admin.error.generic'') 500
     | Inr rows \<Rightarrow> renderUsers E rq user ''list'' (Some rows) None no_form [] 200)))"

definition admin_detail :: "pages \<Rightarrow> http_request \<Rightarrow> pager" where
  "admin_detail E rq = authorize E rq (\<lambda>user. only_method ''GET'' rq (
     case pathID rq of
       None \<Rightarrow> admin_renderState E rq PageStateNotFound
     | Some accountID \<Rightarrow> admin_renderDetail E rq user accountID [] 200))"

section \<open>Sessions, confirmations, identities, lockouts\<close>

definition admin_revokeSessions :: "pages \<Rightarrow> http_request \<Rightarrow> pager" where
  "admin_revokeSessions E rq = authorize E rq (\<lambda>user. only_method ''POST'' rq (
     case pathID rq of
       None \<Rightarrow> admin_renderState E rq PageStateNotFound
     | Some accountID \<Rightarrow>
         asking (RevokeSessions (grAdminAccounts (pgGraph E)) (adminActionContext E user rq) accountID) (\<lambda>r. case r of
           Inr _ \<Rightarrow> admin_renderDetail E rq user accountID (good_news ''admin.sessions.revoked'') 200
         | Inl err \<Rightarrow>
             if errors_is err (Repo ErrRecordNotFound) then admin_renderState E rq PageStateNotFound
             else answering (renderSimpleError 500))))"

definition adminConfirmationAction :: "pages \<Rightarrow> http_request \<Rightarrow> string \<Rightarrow> (admin_actor \<Rightarrow> int \<Rightarrow> unit prog) \<Rightarrow> pager" where
  "adminConfirmationAction E rq successMessage action = authorize E rq (\<lambda>user. only_method ''POST'' rq (
     case pathID rq of
       None \<Rightarrow> admin_renderState E rq PageStateNotFound
     | Some accountID \<Rightarrow>
         asking (action (adminActionContext E user rq) accountID) (\<lambda>r. case r of
           Inr _ \<Rightarrow> admin_renderDetail E rq user accountID (good_news successMessage) 200
         | Inl err \<Rightarrow>
             if errors_is err (Repo ErrRecordNotFound) then admin_renderState E rq PageStateNotFound
             else if errors_is err (Adm ErrInvalidConfirmationAccount)
             then admin_renderDetail E rq user accountID (bad_news ''admin.account.error.no_email'') 422
             else answering (renderSimpleError 500))))"

definition admin_confirmEmailAccount :: "pages \<Rightarrow> http_request \<Rightarrow> pager" where
  "admin_confirmEmailAccount E rq =
     adminConfirmationAction E rq ''admin.confirmation.confirmed'' (ConfirmEmail (pgLib E) (grAuditor (pgGraph E)))"

definition admin_sendConfirmation :: "pages \<Rightarrow> http_request \<Rightarrow> pager" where
  "admin_sendConfirmation E rq =
     adminConfirmationAction E rq ''admin.confirmation.sent''
       (SendConfirmation (pgLib E) (grConfirmation (pgGraph E)) (grAuditor (pgGraph E)))"

definition admin_removeIdentity :: "pages \<Rightarrow> http_request \<Rightarrow> pager" where
  "admin_removeIdentity E rq = authorize E rq (\<lambda>user. only_method ''POST'' rq (
     case pathID rq of
       None \<Rightarrow> admin_renderState E rq PageStateNotFound
     | Some accountID \<Rightarrow> (case pathIdentityID rq of
         None \<Rightarrow> admin_renderState E rq PageStateNotFound
       | Some identityID \<Rightarrow>
           asking (RemoveIdentity (grAuditor (pgGraph E)) (adminActionContext E user rq) accountID identityID) (\<lambda>r. case r of
             Inr _ \<Rightarrow> admin_renderDetail E rq user accountID (good_news ''admin.identity.removed'') 200
           | Inl err \<Rightarrow>
               if errors_is err (Repo ErrRecordNotFound) then admin_renderState E rq PageStateNotFound
               else if errors_is err (OAuth ErrOAuthLastSignInMethod)
               then admin_renderDetail E rq user accountID (bad_news ''admin.error.last_identity'') 422
               else if errors_is err (OAuth ErrOAuthIdentityNotFound)
               then admin_renderDetail E rq user accountID (bad_news ''admin.error.identity_not_found'') 404
               else answering (renderSimpleError 500)))))"

definition admin_clearLockout :: "pages \<Rightarrow> http_request \<Rightarrow> pager" where
  "admin_clearLockout E rq = authorize E rq (\<lambda>user. only_method ''POST'' rq (
     case pathID rq of
       None \<Rightarrow> admin_renderState E rq PageStateNotFound
     | Some accountID \<Rightarrow> asking (admin_Find accountID) (\<lambda>r. case r of
         Inl err \<Rightarrow>
           if errors_is err (Repo ErrRecordNotFound) then admin_renderState E rq PageStateNotFound
           else answering (renderSimpleError 500)
       | Inr account \<Rightarrow>
           asking (lockout_Clear (pgLib E) (grSignInLimiter (pgGraph E)) (grAuditor (pgGraph E)) (adminActionContext E user rq) account)
             (\<lambda>c. case c of
               Inl _ \<Rightarrow> answering (renderSimpleError 500)
             | Inr _ \<Rightarrow> admin_renderDetail E rq user accountID (good_news ''admin.lockout.cleared'') 200))))"

section \<open>Accounts\<close>

definition submitCreateAccount :: "pages \<Rightarrow> http_request \<Rightarrow> user \<Rightarrow> pager" where
  "submitCreateAccount E rq user =
     (let form = accountFormData rq;
          account = \<lparr>afEmail = PostFormValue rq ''email'', afIsAdmin = isChecked (pgLib E) (PostFormValue rq ''is_admin''),
            afVersion = 0, afIsSelf = False\<rparr> in
      asking (admin_Create (pgLib E) (grAdminAccounts (pgGraph E)) (adminActionContext E user rq)
          \<lparr>aiEmail = PostFormValue rq ''email'', aiPassword = PostFormValue rq ''password'', aiIsAdmin = afIsAdmin account\<rparr>) (\<lambda>r. case r of
        Inl err \<Rightarrow> renderUsers E rq user ''create'' None (Some account) (form\<lparr>fdErrors := adminAccountFieldErrors err\<rparr>)
          (bad_news (adminAccountErrorMessage err)) 422
      | Inr _ \<Rightarrow> admin_redirectLocalized E rq ''/admin/users''))"

definition admin_createAccount :: "pages \<Rightarrow> http_request \<Rightarrow> pager" where
  "admin_createAccount E rq = authorize E rq (\<lambda>user. get_or_post rq
     (renderUsers E rq user ''create'' None (Some \<lparr>afEmail = [], afIsAdmin = False, afVersion = 0, afIsSelf = False\<rparr>)
       \<lparr>fdSubmitted = True, fdValues = [], fdErrors = []\<rparr> [] 200)
     (submitCreateAccount E rq user))"

definition renderEditAccount :: "pages \<Rightarrow> http_request \<Rightarrow> user \<Rightarrow> int \<Rightarrow> pager" where
  "renderEditAccount E rq user accountID =
     asking (admin_Find accountID) (\<lambda>r. case r of
       Inl err \<Rightarrow>
         if errors_is err (Repo ErrRecordNotFound) then admin_renderState E rq PageStateNotFound
         else answering (renderSimpleError 500)
     | Inr account \<Rightarrow>
         let email = text_of (uEmail account) in
         renderUsers E rq user ''edit'' None
           (Some \<lparr>afEmail = email, afIsAdmin = uIsAdmin account, afVersion = uVersion account, afIsSelf = (accountID = uID user)\<rparr>)
           \<lparr>fdSubmitted = True, fdValues = [(''email'', email), (''is_admin'', if uIsAdmin account then ''true'' else [])], fdErrors = []\<rparr>
           [] 200)"

definition submitEditAccount :: "pages \<Rightarrow> http_request \<Rightarrow> user \<Rightarrow> int \<Rightarrow> pager" where
  "submitEditAccount E rq user accountID =
     (let form = accountFormData rq;
          account = \<lparr>afEmail = PostFormValue rq ''email'', afIsAdmin = isChecked (pgLib E) (PostFormValue rq ''is_admin''),
            afVersion = Atoi_value (TrimSpace (PostFormValue rq ''version'')), afIsSelf = False\<rparr> in
      case parseVersion (PostFormValue rq ''version'') of
        None \<Rightarrow> renderUsers E rq user ''edit'' None (Some account) (form\<lparr>fdErrors := adminAccountFieldErrors (Account ErrInvalidEmail)\<rparr>)
          (bad_news ''admin.account.error.generic'') 422
      | Some version \<Rightarrow>
          asking (admin_Update (pgLib E) (grAdminAccounts (pgGraph E)) (adminActionContext E user rq) accountID
              \<lparr>aiEmail = PostFormValue rq ''email'', aiPassword = PostFormValue rq ''password'', aiIsAdmin = afIsAdmin account,
                aiVersion = version\<rparr>) (\<lambda>r. case r of
            Inl err \<Rightarrow>
              if errors_is err (Repo ErrRecordNotFound) then admin_renderState E rq PageStateNotFound
              else renderUsers E rq user ''edit'' None (Some account) (form\<lparr>fdErrors := adminAccountFieldErrors err\<rparr>)
                (bad_news (adminAccountErrorMessage err))
                (if errors_is err (Repo ErrOptimisticLockConflict) \<or> errors_is err (Account ErrDuplicateEmail) then 409 else 422)
          | Inr _ \<Rightarrow> admin_redirectLocalized E rq (''/admin/users/'' @ FormatInt accountID)))"

definition admin_editAccount :: "pages \<Rightarrow> http_request \<Rightarrow> pager" where
  "admin_editAccount E rq = authorize E rq (\<lambda>user.
     case pathID rq of
       None \<Rightarrow> admin_renderState E rq PageStateNotFound
     | Some accountID \<Rightarrow> get_or_post rq (renderEditAccount E rq user accountID) (submitEditAccount E rq user accountID))"

definition admin_deleteAccount :: "pages \<Rightarrow> http_request \<Rightarrow> pager" where
  "admin_deleteAccount E rq = authorize E rq (\<lambda>user. only_method ''POST'' rq (
     case pathID rq of
       None \<Rightarrow> admin_renderState E rq PageStateNotFound
     | Some accountID \<Rightarrow>
         if \<not> isChecked (pgLib E) (PostFormValue rq ''confirm'')
         then renderUsers E rq user ''list'' None None no_form (bad_news ''admin.account.error.confirm_required'') 422
         else (case parseVersion (PostFormValue rq ''version'') of
             None \<Rightarrow> answering (renderSimpleError 500)
           | Some version \<Rightarrow>
               asking (admin_Delete (grAdminAccounts (pgGraph E)) (adminActionContext E user rq) accountID version) (\<lambda>r. case r of
                 Inr _ \<Rightarrow> admin_redirectLocalized E rq ''/admin/users''
               | Inl err \<Rightarrow>
                   if errors_is err (Adm ErrAdminSelfAction) \<or> errors_is err (Adm ErrLastAdministrator)
                   then renderUsers E rq user ''list'' None None no_form (bad_news (adminAccountErrorMessage err)) 422
                   else if errors_is err (Repo ErrRecordNotFound) then admin_renderState E rq PageStateNotFound
                   else if errors_is err (Repo ErrOptimisticLockConflict)
                   then renderUsers E rq user ''list'' None None no_form (bad_news ''admin.account.error.conflict'') 409
                   else answering (renderSimpleError 500)))))"

section \<open>Budgets\<close>

text \<open>The entries of each action; an action whose entries cannot be read shows none. A failing overview is an empty one.\<close>

fun action_entries :: "world rate_limiter list \<Rightarrow> rate_limit_action_info list \<Rightarrow>
    (rate_limit_action_info \<times> rate_limit_bucket_info list) list prog" where
  "action_entries ls [] = ret []"
| "action_entries ls (a # as) =
     attempt (limits_Buckets ls (aiAction a)) (\<lambda>r.
     call (action_entries ls as) id (\<lambda>rest. ret ((a, case r of Inl _ \<Rightarrow> [] | Inr entries \<Rightarrow> entries) # rest)))"

definition renderRateLimits :: "pages \<Rightarrow> http_request \<Rightarrow> user \<Rightarrow> alert list \<Rightarrow> nat \<Rightarrow> pager" where
  "renderRateLimits E rq user alerts status =
     asking (call (Overview (limiters (pgGraph E))) id (action_entries (limiters (pgGraph E)))) (\<lambda>r.
       admin_page_of E rq user (LimitsView (case r of Inl _ \<Rightarrow> [] | Inr entries \<Rightarrow> entries)) no_form alerts status)"

definition admin_rateLimits :: "pages \<Rightarrow> http_request \<Rightarrow> pager" where
  "admin_rateLimits E rq = authorize E rq (\<lambda>user. only_method ''GET'' rq (renderRateLimits E rq user [] 200))"

definition admin_clearRateLimit :: "pages \<Rightarrow> http_request \<Rightarrow> pager" where
  "admin_clearRateLimit E rq = authorize E rq (\<lambda>user. only_method ''POST'' rq (
     let action = TrimSpace (PostFormValue rq ''action''); actor = adminActionContext E user rq in
     asking (if action = [] then limits_ClearAll (limiters (pgGraph E)) (grAuditor (pgGraph E)) actor
             else limits_ClearAction (limiters (pgGraph E)) (grAuditor (pgGraph E)) actor action) (\<lambda>r. case r of
       Inr _ \<Rightarrow> renderRateLimits E rq user (good_news ''admin.ratelimits.cleared'') 200
     | Inl err \<Rightarrow>
         if errors_is err (Auth ErrUnknownRateLimitAction)
         then renderRateLimits E rq user (bad_news ''admin.ratelimits.unknown'') 404
         else answering (renderSimpleError 500))))"

end
