(* ===== verification/AccountPages.thy ===== *)
theory AccountPages
  imports Pages
begin

text \<open>
  The pages of accounts (\<^verbatim>\<open>internal/adapter/http/auth.go\<close>, \<^verbatim>\<open>settings.go\<close>, and the cookies of \<^verbatim>\<open>oauth.go\<close> and \<^verbatim>\<open>sso.go\<close>): sign-up,
  sign-in and sign-out with the session cookie, the completion of a flow the issuer waits for, and the settings. Signing out is proved to
  end the session of the cookie.
\<close>

section \<open>Cookies and redirects\<close>

text \<open>A \<^verbatim>\<open>SessionCookie.Set\<close> or \<^verbatim>\<open>Clear\<close> whose error the handler answers itself, or ignores.\<close>

definition setting_session :: "pages \<Rightarrow> string \<Rightarrow> pager \<Rightarrow> pager" where
  "setting_session E sessionID k rs w =
     (case cookie_Set (pgCookie E) sessionID (now_ns w) rs of Inl _ \<Rightarrow> (renderSimpleError 500 rs, w) | Inr rs \<Rightarrow> k rs w)"

definition clearing_session :: "pages \<Rightarrow> pager \<Rightarrow> pager" where
  "clearing_session E k rs w =
     (case cookie_Clear (pgCookie E) (now_ns w) rs of Inl _ \<Rightarrow> (renderSimpleError 500 rs, w) | Inr rs \<Rightarrow> k rs w)"

definition try_clearing_session :: "pages \<Rightarrow> pager \<Rightarrow> pager" where
  "try_clearing_session E k rs w =
     k (case cookie_Clear (pgCookie E) (now_ns w) rs of Inl _ \<Rightarrow> rs | Inr rs \<Rightarrow> rs) w"

definition replaceSession :: "pages \<Rightarrow> http_request \<Rightarrow> string \<Rightarrow> pager \<Rightarrow> pager" where
  "replaceSession E rq sessionID k =
     (case cookie_Read (pgCookie E) rq of
        Some previous \<Rightarrow>
          if previous \<noteq> sessionID then asking (SignOut (pgLib E) previous) (\<lambda>_. setting_session E sessionID k)
          else setting_session E sessionID k
      | None \<Rightarrow> setting_session E sessionID k)"

definition lax_cookie :: "pages \<Rightarrow> string \<Rightarrow> string \<Rightarrow> int \<Rightarrow> http_cookie" where
  "lax_cookie E name v maxAge = \<lparr>ckName = name, ckValue = v, ckPath = ''/'', ckExpires = None, ckMaxAge = maxAge,
     ckHttpOnly = True, ckSecure = scSecure (pgCookie E), ckSameSite = SameSiteLaxMode\<rparr>"

definition oauthStateCookieName :: string where "oauthStateCookieName = ''goweb_oauth_state''"

definition setOAuthStateCookie :: "pages \<Rightarrow> string \<Rightarrow> http_response \<Rightarrow> http_response" where
  "setOAuthStateCookie E state = SetCookie (lax_cookie E oauthStateCookieName state (DefaultOAuthStateLifetime div time_Second))"

definition clearOAuthStateCookie :: "pages \<Rightarrow> http_response \<Rightarrow> http_response" where
  "clearOAuthStateCookie E = SetCookie (lax_cookie E oauthStateCookieName [] (- 1))"

definition oauthStateBound :: "http_request \<Rightarrow> string \<Rightarrow> bool" where
  "oauthStateBound rq state \<longleftrightarrow> (case Cookie rq oauthStateCookieName of None \<Rightarrow> False | Some v \<Rightarrow> state \<noteq> [] \<and> v = state)"

definition auth_redirect :: "pages \<Rightarrow> http_request \<Rightarrow> string \<Rightarrow> pager" where
  "auth_redirect E rq route = answering (redirectLocalized E (recoveryLanguage E rq) route)"

text \<open>The localized path with a query appended.\<close>

definition redirect_with_query :: "pages \<Rightarrow> string \<Rightarrow> string \<Rightarrow> string \<Rightarrow> http_response \<Rightarrow> http_response" where
  "redirect_with_query E language route tail rs =
     (case localized_path (pgParseURL E) language route of
        Inl _ \<Rightarrow> renderSimpleError 500 rs
      | Inr path \<Rightarrow> http_Redirect (path @ tail) 303 rs)"

section \<open>Pending sign-ins at the issuer\<close>

definition loginChallengeCookieName :: string where "loginChallengeCookieName = ''goweb_login_challenge''"
definition loginChallengeLifetime :: int where "loginChallengeLifetime = 30 * time_Minute"
definition maxLoginChallengeBytes :: nat where "maxLoginChallengeBytes = 4096"

definition validLoginChallenge :: "string \<Rightarrow> bool" where
  "validLoginChallenge v \<longleftrightarrow> v \<noteq> [] \<and> length v \<le> maxLoginChallengeBytes
     \<and> list_all (\<lambda>c. c \<in> set ''abcdefghijklmnopqrstuvwxyzABCDEFGHIJKLMNOPQRSTUVWXYZ0123456789-_.~='') v"

text \<open>Finishing a pending flow; \<open>k\<close> goes on where there is nothing to finish.\<close>

definition completeSSOLogin :: "pages \<Rightarrow> http_request \<Rightarrow> string \<Rightarrow> pager \<Rightarrow> pager" where
  "completeSSOLogin E rq sessionID k =
     (case grSSOProvider (pgGraph E) of
        None \<Rightarrow> k
      | Some provider \<Rightarrow> (case Cookie rq loginChallengeCookieName of
          None \<Rightarrow> k
        | Some challenge \<Rightarrow> changing (SetCookie (lax_cookie E loginChallengeCookieName [] (- 1))) (
            if \<not> validLoginChallenge challenge then k
            else asking (Lookup (pgLib E) sessionID) (\<lambda>r. case r of
              Inl _ \<Rightarrow> k
            | Inr session \<Rightarrow> asking (CompleteLogin provider challenge (sUserID session)) (\<lambda>r. case r of
                Inl _ \<Rightarrow> k
              | Inr target \<Rightarrow>
                  if target = [] then k
                  else if IsHTMX rq then answering (hx_redirect target)
                  else answering (http_Redirect target 303))))))"

definition finishSignIn :: "pages \<Rightarrow> http_request \<Rightarrow> string \<Rightarrow> string \<Rightarrow> pager" where
  "finishSignIn E rq sessionID destination =
     replaceSession E rq sessionID (completeSSOLogin E rq sessionID (
       if IsHTMX rq then answering (hx_redirect (localizedPath E (recoveryLanguage E rq) destination))
       else auth_redirect E rq destination))"

section \<open>Sign-up and sign-in\<close>

definition visitor_page :: "pages \<Rightarrow> http_request \<Rightarrow> string \<Rightarrow> page_view \<Rightarrow> form_data \<Rightarrow> alert list \<Rightarrow> nat \<Rightarrow> pager" where
  "visitor_page E rq language view form alerts status =
     answering (render E rq \<lparr>pdLanguage = language, pdView = view, pdForm = form, pdAlerts = alerts, pdUser = None\<rparr> status)"

definition oauthProviders :: "pages \<Rightarrow> string list" where
  "oauthProviders E = registry_Names (oaProviders (grOAuth (pgGraph E)))"

definition renderPasswordPage :: "pages \<Rightarrow> http_request \<Rightarrow> string \<Rightarrow> string \<Rightarrow> form_data \<Rightarrow> nat \<Rightarrow> alert list \<Rightarrow> pager" where
  "renderPasswordPage E rq language kind form status alerts =
     (let alerts = alerts
            @ (if kind = ''sign-in'' \<and> Query_Get rq ''oauth'' = ''error'' then bad_news ''oauth.error.generic'' else [])
            @ (if kind = ''sign-in'' \<and> Query_Get rq ''sso'' = ''expired'' then bad_news ''sso.error.expired'' else []);
          page = (\<lambda>client. visitor_page E rq language (PasswordView kind (oauthProviders E) client) form alerts status) in
      case (grSSOProvider (pgGraph E), Cookie rq loginChallengeCookieName) of
        (Some provider, Some challenge) \<Rightarrow>
          if validLoginChallenge challenge
          then asking (LoginClientName provider challenge) (\<lambda>r. page (case r of Inl _ \<Rightarrow> [] | Inr client \<Rightarrow> client))
          else page []
      | _ \<Rightarrow> page [])"

definition passwordForm :: "http_request \<Rightarrow> string \<Rightarrow> form_data" where
  "passwordForm rq kind = \<lparr>fdSubmitted = True, fdValues =
     (if kind = ''sign-up'' then [(''email'', PostFormValue rq ''email''), (''username'', PostFormValue rq ''username'')]
      else [(''identifier'', PostFormValue rq ''identifier'')]), fdErrors = []\<rparr>"

definition weak_password :: "error \<Rightarrow> bool" where
  "weak_password err \<longleftrightarrow> errors_is err (Account ErrPasswordTooShort) \<or> errors_is err (Account ErrPasswordTooLong)
     \<or> errors_is err (Account ErrInvalidPassword)"

text \<open>The message of a refused sign-up and the field it belongs to; later cases override earlier ones.\<close>

definition signUpError :: "error \<Rightarrow> string \<times> string" where
  "signUpError err =
     (let message = ''auth.error.invalid''; field = [];
          (message, field) = (if errors_is err (Account ErrDuplicateEmail) then (''auth.error.duplicate_email'', ''email'') else (message, field));
          (message, field) = (if errors_is err (Account ErrDuplicateUsername) then (''auth.error.duplicate_username'', ''username'') else (message, field));
          field = (if errors_is err (Account ErrInvalidEmail) then ''email'' else field);
          field = (if weak_password err then ''password'' else field);
          message = (if errors_is err (Auth ErrRateLimited) then ''auth.error.rate_limited'' else message) in
      (message, field))"

definition submitSignUp :: "pages \<Rightarrow> http_request \<Rightarrow> string \<Rightarrow> pager" where
  "submitSignUp E rq language =
     asking (limited_SignUp (pgLib E) (grSignUp (pgGraph E)) (grSignInLimiter (pgGraph E))
         \<lparr>suEmail = PostFormValue rq ''email'', suPassword = PostFormValue rq ''password'', suUsername = PostFormValue rq ''username'',
           suDisplayName = PostFormValue rq ''display_name'', suOrigin = requestOrigin (pgNet E) rq\<rparr>) (\<lambda>r. case r of
       Inl err \<Rightarrow> (case signUpError err of (message, field) \<Rightarrow>
         renderPasswordPage E rq language ''sign-up''
           ((passwordForm rq ''sign-up'')\<lparr>fdErrors := (if field \<noteq> [] then [(field, message)] else [])\<rparr>) 422 (bad_news message))
     | Inr result \<Rightarrow>
         if upConfirmationRequired result then
           asking (Issue (pgLib E) (grConfirmation (pgGraph E)) (uID (upUser result))) (\<lambda>_.
             if IsHTMX rq then answering (hx_redirect (localizedPath E language ''/check-inbox''))
             else answering (redirectLocalized E language ''/check-inbox''))
         else finishSignIn E rq (case upSession result of None \<Rightarrow> [] | Some session \<Rightarrow> sID session) ''/home'')"

definition submitSignIn :: "pages \<Rightarrow> http_request \<Rightarrow> string \<Rightarrow> pager" where
  "submitSignIn E rq language =
     asking (limited_SignIn (pgLib E) (grSignIn (pgGraph E))
         \<lparr>inIdentifier = PostFormValue rq ''identifier'', inPassword = PostFormValue rq ''password''\<rparr> (requestOrigin (pgNet E) rq)) (\<lambda>r. case r of
       Inl err \<Rightarrow>
         renderPasswordPage E rq language ''sign-in'' (passwordForm rq ''sign-in'') (formFailureStatus rq 401)
           (bad_news (if errors_is err (Auth ErrEmailUnconfirmed) then ''auth.error.unconfirmed'' else ''auth.error.invalid_credentials''))
     | Inr result \<Rightarrow> finishSignIn E rq (sID (srSession result)) ''/home'')"

definition handlePasswordPage :: "pages \<Rightarrow> http_request \<Rightarrow> string \<Rightarrow> pager" where
  "handlePasswordPage E rq kind =
     (case requestLanguage rq of
        None \<Rightarrow> answering (renderSimpleError 404)
      | Some language \<Rightarrow> get_or_post rq
          (\<lambda>rs w. case Authenticate (pgLib E) (pgCookie E) rq w of
             (Inr _, w) \<Rightarrow> answering (redirectLocalized E language ''/home'') rs w
           | (Inl _, w) \<Rightarrow> renderPasswordPage E rq language kind no_form 200 [] rs w)
          (if rqForm rq = None then renderPasswordPage E rq language kind (no_form\<lparr>fdSubmitted := True\<rparr>) 422 (bad_news ''auth.error.invalid'')
           else if kind = ''sign-up'' then submitSignUp E rq language
           else submitSignIn E rq language))"

definition auth_signOut :: "pages \<Rightarrow> http_request \<Rightarrow> pager" where
  "auth_signOut E rq = only_method ''POST'' rq (
     let leave = (\<lambda>issuerLogout. clearing_session E (
           if issuerLogout \<noteq> [] then answering (http_Redirect issuerLogout 303)
           else if pgSSOLogoutURL E \<noteq> [] then answering (http_Redirect (pgSSOLogoutURL E) 303)
           else answering (redirectLocalized E (case requestLanguage rq of None \<Rightarrow> Default | Some language \<Rightarrow> language) ''/sign-in'')));
         sign_out = (\<lambda>sessionID issuerLogout. asking (SignOut (pgLib E) sessionID) (\<lambda>r. case r of
           Inl _ \<Rightarrow> answering (renderSimpleError 500)
         | Inr _ \<Rightarrow> leave issuerLogout)) in
     case cookie_Read (pgCookie E) rq of
       None \<Rightarrow> leave []
     | Some sessionID \<Rightarrow> (case grSSOClient (pgGraph E) of
         None \<Rightarrow> sign_out sessionID []
       | Some client \<Rightarrow> asking (SignOutURL (pgLib E) client sessionID) (\<lambda>r.
           sign_out sessionID (case r of Inl _ \<Rightarrow> [] | Inr target \<Rightarrow> target))))"

section \<open>Settings\<close>

definition renderSettings :: "pages \<Rightarrow> http_request \<Rightarrow> user \<Rightarrow> form_data \<Rightarrow> alert list \<Rightarrow> nat \<Rightarrow> pager" where
  "renderSettings E rq user form alerts status =
     asking (ListOAuthIdentities (uID user)) (\<lambda>r.
       answering (\<lambda>rs. snd (RenderRequestStatus E rq
         \<lparr>pdLanguage = recoveryLanguage E rq,
           pdView = (case r of Inl _ \<Rightarrow> SettingsView [] [] | Inr identities \<Rightarrow> SettingsView identities (oauthProviders E)),
           pdForm = form, pdAlerts = alerts @ (case r of Inl _ \<Rightarrow> bad_news ''settings.error.generic'' | Inr _ \<Rightarrow> []),
           pdUser = Some user\<rparr> status rs)))"

definition settings_page :: "pages \<Rightarrow> http_request \<Rightarrow> pager" where
  "settings_page E rq = only_method ''GET'' rq (authenticatePageUser E rq (\<lambda>user.
     renderSettings E rq user no_form
       (if Query_Get rq ''identity'' = ''linked'' then good_news ''settings.success.identity_linked'' else []) 200))"

definition settings_updateProfile :: "pages \<Rightarrow> http_request \<Rightarrow> pager" where
  "settings_updateProfile E rq = authenticatePageUser E rq (\<lambda>user. only_method ''POST'' rq (
     let form = \<lparr>fdSubmitted = True, fdValues = [(''username'', PostFormValue rq ''username''),
           (''display_name'', PostFormValue rq ''display_name'')], fdErrors = []\<rparr> in
     asking (profile_Update (pgLib E) (uID user)
         \<lparr>piUsername = PostFormValue rq ''username'', piDisplayName = PostFormValue rq ''display_name''\<rparr>) (\<lambda>r. case r of
       Inr updated \<Rightarrow> renderSettings E rq updated no_form (good_news ''settings.success.profile'') 200
     | Inl err \<Rightarrow>
         if errors_is err (Account ErrUsernameUnavailable) then
           renderSettings E rq user (form\<lparr>fdErrors := [(''username'', ''settings.error.username_unavailable'')]\<rparr>)
             (bad_news ''settings.error.username_unavailable'') 422
         else if errors_is err (Account ErrInvalidUsername) then
           renderSettings E rq user (form\<lparr>fdErrors := [(''username'', ''settings.error.invalid_username'')]\<rparr>)
             (bad_news ''settings.error.invalid_username'') 422
         else if errors_is err (Account ErrInvalidDisplayName) then
           renderSettings E rq user (form\<lparr>fdErrors := [(''display_name'', ''settings.error.invalid_display_name'')]\<rparr>)
             (bad_news ''settings.error.invalid_display_name'') 422
         else if errors_is err (Repo ErrOptimisticLockConflict) then
           renderSettings E rq user form (bad_news ''settings.error.conflict'') 422
         else if errors_is err (Repo ErrRecordNotFound) then
           renderSettings E rq user form (bad_news ''settings.error.not_found'') 404
         else renderSettings E rq user form (bad_news ''settings.error.generic'') 422)))"

definition settings_updatePassword :: "pages \<Rightarrow> http_request \<Rightarrow> pager" where
  "settings_updatePassword E rq = authenticatePageUser E rq (\<lambda>user. only_method ''POST'' rq (
     let submitted = no_form\<lparr>fdSubmitted := True\<rparr>;
         done_page = asking (FindUserByID (uID user)) (\<lambda>r.
           renderSettings E rq (case r of Inl _ \<Rightarrow> user | Inr fresh \<Rightarrow> fresh) no_form (good_news ''settings.success.password'') 200) in
     asking (password_Update (pgLib E) (grPasswordSettings (pgGraph E)) (uID user)
         \<lparr>pwCurrent = PostFormValue rq ''current_password'', pwNew = PostFormValue rq ''new_password'',
           pwSessionID = text_of (cookie_Read (pgCookie E) rq)\<rparr>) (\<lambda>r. case r of
       Inr result \<Rightarrow> (case pwSession result of
           None \<Rightarrow> done_page
         | Some session \<Rightarrow> if sID session = [] then done_page else setting_session E (sID session) done_page)
     | Inl err \<Rightarrow>
         if errors_is err (Auth ErrCurrentPasswordRequired) then
           renderSettings E rq user (submitted\<lparr>fdErrors := [(''current_password'', ''settings.error.current_required'')]\<rparr>)
             (bad_news ''settings.error.current_required'') 422
         else if errors_is err (Auth ErrCurrentPasswordMismatch) then
           renderSettings E rq user (submitted\<lparr>fdErrors := [(''current_password'', ''settings.error.current_mismatch'')]\<rparr>)
             (bad_news ''settings.error.current_mismatch'') 422
         else if errors_is err (Auth ErrRecentSignInRequired) then
           renderSettings E rq user submitted (bad_news ''settings.error.recent_sign_in'') 422
         else if weak_password err then
           renderSettings E rq user (submitted\<lparr>fdErrors := [(''new_password'', ''settings.error.weak_password'')]\<rparr>)
             (bad_news ''settings.error.weak_password'') 422
         else if errors_is err (Repo ErrOptimisticLockConflict) then
           renderSettings E rq user submitted (bad_news ''settings.error.conflict'') 422
         else if errors_is err (Repo ErrRecordNotFound) then
           renderSettings E rq user submitted (bad_news ''settings.error.not_found'') 404
         else renderSettings E rq user submitted (bad_news ''settings.error.generic'') 422)))"

definition redirectWithStatus :: "http_request \<Rightarrow> string \<Rightarrow> nat \<Rightarrow> pager" where
  "redirectWithStatus rq destination status =
     (if IsHTMX rq then answering (hx_redirect destination) else answering (http_Redirect destination status))"

definition settings_updateLocale :: "pages \<Rightarrow> http_request \<Rightarrow> pager" where
  "settings_updateLocale E rq = authenticatePageUser E rq (\<lambda>user. only_method ''POST'' rq (
     let selected = TrimSpace (PostFormValue rq ''locale''); submitted = no_form\<lparr>fdSubmitted := True\<rparr> in
     asking (locale_Update (pgLib E) (uID user) selected) (\<lambda>r. case r of
       Inr _ \<Rightarrow> (case localized_path (pgParseURL E) selected ''/account/settings'' of
           Inl _ \<Rightarrow> renderSettings E rq user no_form (bad_news ''settings.error.generic'') 500
         | Inr destination \<Rightarrow> redirectWithStatus rq destination 303)
     | Inl err \<Rightarrow>
         if errors_is err (Account ErrInvalidLocale) then
           renderSettings E rq user (submitted\<lparr>fdErrors := [(''locale'', ''settings.error.invalid_locale'')]\<rparr>)
             (bad_news ''settings.error.invalid_locale'') 422
         else if errors_is err (Repo ErrOptimisticLockConflict) then
           renderSettings E rq user submitted (bad_news ''settings.error.conflict'') 422
         else if errors_is err (Repo ErrRecordNotFound) then
           renderSettings E rq user submitted (bad_news ''settings.error.not_found'') 404
         else renderSettings E rq user submitted (bad_news ''settings.error.generic'') 422)))"

definition settings_unlinkIdentity :: "pages \<Rightarrow> http_request \<Rightarrow> pager" where
  "settings_unlinkIdentity E rq = authenticatePageUser E rq (\<lambda>user. only_method ''POST'' rq (
     case positive_number (PostFormValue rq ''identity_id'') of
       None \<Rightarrow> renderSettings E rq user no_form (bad_news ''settings.error.identity_not_found'') 404
     | Some identityID \<Rightarrow> asking (Unlink (uID user) identityID) (\<lambda>r. case r of
         Inr _ \<Rightarrow> renderSettings E rq user no_form (good_news ''settings.success.identity_removed'') 200
       | Inl err \<Rightarrow>
           if errors_is err (OAuth ErrOAuthIdentityNotFound)
           then renderSettings E rq user no_form (bad_news ''settings.error.identity_not_found'') 404
           else if errors_is err (OAuth ErrOAuthLastSignInMethod)
           then renderSettings E rq user no_form (bad_news ''settings.error.last_identity'') 422
           else renderSettings E rq user no_form (bad_news ''settings.error.generic'') 422)))"

definition settings_linkIdentity :: "pages \<Rightarrow> http_request \<Rightarrow> pager" where
  "settings_linkIdentity E rq = authenticatePageUser E rq (\<lambda>user. only_method ''POST'' rq (
     let provider = ToLower (pgLib E) (TrimSpace (PostFormValue rq ''provider'')) in
     if provider = [] then renderSettings E rq user no_form (bad_news ''settings.error.generic'') 422
     else asking (StartLink (pgLib E) (grOAuth (pgGraph E)) (uID user) provider) (\<lambda>r. case r of
       Inl _ \<Rightarrow> renderSettings E rq user no_form (bad_news ''settings.error.identity_link'') 422
     | Inr (target, state) \<Rightarrow> changing (setOAuthStateCookie E state) (redirectWithStatus rq target 302))))"

definition settings_updateTheme :: "pages \<Rightarrow> http_request \<Rightarrow> pager" where
  "settings_updateTheme E rq = only_method ''POST'' rq (authenticatePageUser E rq (\<lambda>user.
     asking (UpdateTheme (pgLib E) (uID user) (PostFormValue rq ''theme'')) (\<lambda>r. case r of
       Inl err \<Rightarrow> answering (renderSimpleError (if errors_is err (Account ErrInvalidTheme) then 422 else 500))
     | Inr _ \<Rightarrow> answering (\<lambda>rs. WriteHeader 204 (set_header ''HX-Trigger'' ''theme-updated'' rs)))))"

section \<open>Signing out\<close>

text \<open>No row would accept the credential: it is malformed, unknown, or revoked in every row.\<close>

definition credential_dead :: "golib \<Rightarrow> string \<Rightarrow> db \<Rightarrow> bool" where
  "credential_dead L credential d \<longleftrightarrow> validateSessionID credential \<noteq> Inr () \<or> 64 < length credential
     \<or> (\<forall>row \<in> set (sessions d). rID row = sessionDigest L credential \<longrightarrow> rRevokedAt row \<noteq> None)"

lemma credential_dead_refused:
  assumes "credential_dead L credential (tables w)"
  shows "\<exists>e w'. Lookup L credential w = (Inl e, w')"
proof (rule ccontr)
  assume "\<not> ?thesis"
  then obtain ses w' where l: "Lookup L credential w = (Inr ses, w')" by (metis sumE surj_pair)
  then have "validateSessionID credential = Inr ()" "length credential \<le> 64"
    by (auto simp: Lookup_def FindSession_def check_def call_def fail_def split: sum.splits if_splits)
  moreover from l obtain row where "row \<in> set (sessions (tables w))" "rID row = sessionDigest L credential" "rRevokedAt row = None"
    by (rule Lookup_Inr) blast
  ultimately show False using assms by (auto simp: credential_dead_def)
qed

lemma dead_credential_unauthenticated:
  assumes "cookie_Read c rq = Some credential" and "credential_dead L credential (tables w)"
  shows "fst (Authenticate L c rq w) = Inl ErrUnauthenticated"
proof -
  obtain e w' where "Lookup L credential w = (Inl e, w')" using credential_dead_refused [OF assms(2)] by blast
  with assms(1) show ?thesis by (simp add: Authenticate_def)
qed

lemma RevokeSession_ends:
  assumes "RevokeSession L credential t w = (r, w')" and "r = Inr () \<or> (\<exists>e. r = Inl e \<and> (errors_is e (Ses ErrSessionNotFound) \<or> errors_is e (Ses ErrInvalidSessionID)))"
  shows "credential_dead L credential (tables w')"
proof (cases "credential = [] \<or> 64 < length credential")
  case True
  then show ?thesis by (auto simp: credential_dead_def validateSessionID_def)
next
  case False
  obtain q w1 where q: "query (revoke_sessions_where (\<lambda>s. rID s = sessionDigest L credential) t) w = (q, w1)" by fastforce
  then show ?thesis
  proof (cases rule: query_cases)
    case (fault e)
    then have "\<not> errors_is (mapSessionError e) (Ses ErrSessionNotFound)" "\<not> errors_is (mapSessionError e) (Ses ErrInvalidSessionID)"
      by (auto simp: is_fault_def mapSessionError_def ClassifyError_def)
    with fault q False assms show ?thesis by (auto simp: RevokeSession_def call_def)
  next
    case (err e d)
    then show ?thesis by (simp add: revoke_sessions_where_def)
  next
    case (ok x d)
    then have d: "sessions d = update_where (\<lambda>s. rID s = sessionDigest L credential) (coalesce_revoked t) (sessions (tables w))"
      by (auto simp: revoke_sessions_where_def)
    from ok q False assms(1) have "tables w' = d" by (auto simp: RevokeSession_def call_def split: if_splits)
    with d show ?thesis by (auto simp: credential_dead_def coalesce_revoked_def ball_update_where split: option.splits)
  qed
qed

lemma SignOut_ends:
  assumes "SignOut L credential w = (Inr x, w')"
  shows "credential_dead L credential (tables w')"
proof (cases "TrimSpace credential = []")
  case True
  then show ?thesis by (simp add: credential_dead_def validateSessionID_def)
next
  case False
  obtain r w1 where r: "Revoke L credential w = (r, w1)" by fastforce
  with False assms have w: "w' = w1" and ok: "r = Inr () \<or> (\<exists>e. r = Inl e \<and> (errors_is e (Ses ErrSessionNotFound) \<or> errors_is e (Ses ErrInvalidSessionID)))"
    by (auto simp: SignOut_def attempt_def split: sum.splits if_splits)
  show ?thesis
  proof (cases "validateSessionID credential")
    case (Inl e)
    then show ?thesis by (simp add: credential_dead_def)
  next
    fix u assume v: "validateSessionID credential = Inr u"
    obtain r2 w2 where r2: "RevokeSession L credential (unix_now w) w = (r2, w2)" by fastforce
    have "w2 = w1 \<and> (r2 = Inr () \<or> (\<exists>e. r2 = Inl e \<and> (errors_is e (Ses ErrSessionNotFound) \<or> errors_is e (Ses ErrInvalidSessionID))))"
      using r r2 v ok by (auto simp: Revoke_def check_def reading_def call_def split: sum.splits)
    with RevokeSession_ends [OF r2] w show ?thesis by blast
  qed
qed

lemma answered_simps:
  "rsCookies (http_Redirect target status rs) = rsCookies rs" "rsCookies (renderSimpleError status rs) = rsCookies rs"
  "rsCookies (redirectLocalized E language route rs) = rsCookies rs"
  "rsStatus rs = 0 \<Longrightarrow> status \<noteq> 0 \<Longrightarrow> rsStatus (renderSimpleError status rs) = status"
  by (auto simp: http_Redirect_def renderSimpleError_def redirectLocalized_def http_Error_def Write_def WriteHeader_def set_header_def
      Let_def split: sum.split)


section \<open>A browser that is signed in\<close>

definition demo_pages :: "graph \<Rightarrow> pages" where
  "demo_pages g = \<lparr>pgGraph = g, pgCookie = demo_cookie_config\<lparr>scName := ''goweb_session''\<rparr>, pgNet = demo_net, pgWeights = (\<lambda>_. None),
     pgParseURL = demo_url, pgCollation = string_less, pgSSOLogoutURL = ''https://id.test/'', pgTemplate = (\<lambda>_ _. None)\<rparr>"

definition demo_site_world :: world where
  "demo_site_world = demo_world\<lparr>tables := demo_db\<lparr>sessions := [\<lparr>rID = sessionDigest ascii_lib ''abc'', rUserID = 2, rCreatedAt = 900,
     rExpiresAt = 2000, rRevokedAt = None, rSSOSid = None, rSSOIDToken = None\<rparr>]\<rparr>\<rparr>"

definition demo_posted :: "string \<Rightarrow> http_request" where
  "demo_posted path = demo_request\<lparr>rqMethod := ''POST'', rqPath := path, rqHeaders := [],
     rqCookies := [(CSRFCookieName, replicate 64 (CHR ''a'')), (''goweb_session'', ''abc'')],
     rqForm := Some [(CSRFFieldName, replicate 64 (CHR ''a'')), (''theme'', ''dark'')]\<rparr>"


end
