(* ===== verification/VisitorPages.thy ===== *)
theory VisitorPages
  imports AccountPages
begin

text \<open>
  The pages around an account (\<^verbatim>\<open>internal/adapter/http/guest.go\<close>, \<^verbatim>\<open>recovery.go\<close>, \<^verbatim>\<open>oauth.go\<close>, \<^verbatim>\<open>sso.go\<close>,
  \<^verbatim>\<open>sso_client.go\<close>): guest accounts, recovery by mail, and the browser's side of sign-in through a provider or the issuer.
\<close>

section \<open>Guests\<close>

definition renderGuest :: "pages \<Rightarrow> http_request \<Rightarrow> string \<Rightarrow> user option \<Rightarrow> bool \<Rightarrow> bool \<Rightarrow> string \<Rightarrow> form_data \<Rightarrow> nat \<Rightarrow> alert list \<Rightarrow> pager" where
  "renderGuest E rq kind user guest owned code form status alerts =
     answering (render E rq \<lparr>pdLanguage = recoveryLanguage E rq, pdView = GuestView kind user guest owned code, pdForm = form,
       pdAlerts = alerts, pdUser = user\<rparr> status)"

definition renderGuestAlert :: "pages \<Rightarrow> http_request \<Rightarrow> string \<Rightarrow> nat \<Rightarrow> form_data \<Rightarrow> string \<Rightarrow> pager" where
  "renderGuestAlert E rq kind status form message = renderGuest E rq kind None False False [] form status (bad_news message)"

definition is_guest :: "user option \<Rightarrow> bool" where
  "is_guest user = (case user of None \<Rightarrow> False | Some u \<Rightarrow> uIsGuest u)"

definition guestWrite :: "pages \<Rightarrow> http_request \<Rightarrow> pager" where
  "guestWrite E rq = currentUser E rq (\<lambda>user. get_or_post rq
     (renderGuest E rq ''guest-write'' user (is_guest user) False [] no_form 200 [])
     (if user \<noteq> None then renderGuest E rq ''guest-write'' user (is_guest user) True [] no_form 200 []
      else
        let posted = TrimSpace (PostFormValue rq ''theme''); theme = (if posted = [] then ''light'' else posted) in
        asking (limited_guest_Create (pgLib E) (grSessions (pgGraph E)) (grGuestLimiter (pgGraph E)) (requestOrigin (pgNet E) rq) theme)
          (\<lambda>r. case r of
            Inl _ \<Rightarrow> renderGuestAlert E rq ''guest-write'' 422 no_form ''guest.error.create''
          | Inr result \<Rightarrow> replaceSession E rq (sID (gsSession result))
              (renderGuest E rq ''guest-write'' (Some (gsUser result)) True True [] no_form 200 []))))"

definition guestTransfer :: "pages \<Rightarrow> http_request \<Rightarrow> pager" where
  "guestTransfer E rq = currentUser E rq (\<lambda>user. get_or_post rq
     (renderGuest E rq ''guest-transfer'' user (is_guest user) False [] no_form 200 [])
     (let action = PostFormValue rq ''action'';
          invalid = renderGuestAlert E rq ''guest-transfer'' 422 no_form ''guest.error.invalid'' in
      if action = ''request'' then
        (case user of
           None \<Rightarrow> invalid
         | Some u \<Rightarrow>
             if \<not> uIsGuest u then invalid
             else asking (claim_Issue (uID u)) (\<lambda>r. case r of
               Inl _ \<Rightarrow> invalid
             | Inr claim \<Rightarrow> renderGuest E rq ''guest-transfer'' user True False (ccCode claim) no_form 200 []))
      else if action = ''redeem'' then
        asking (limited_guest_Redeem (pgLib E) (grSessions (pgGraph E)) (grGuestLimiter (pgGraph E)) (requestOrigin (pgNet E) rq)
            (PostFormValue rq ''code'')) (\<lambda>r. case r of
          Inl _ \<Rightarrow> renderGuest E rq ''guest-transfer'' user False False []
            \<lparr>fdSubmitted = True, fdValues = [], fdErrors = [(''code'', ''guest.error.invalid_code'')]\<rparr> 422 (bad_news ''guest.error.invalid_code'')
        | Inr result \<Rightarrow> replaceSession E rq (sID (gsSession result))
            (renderGuest E rq ''guest-transfer'' (Some (gsUser result)) True True [] no_form 200 []))
      else invalid))"

definition guestUpgrade :: "pages \<Rightarrow> http_request \<Rightarrow> pager" where
  "guestUpgrade E rq = currentUser E rq (\<lambda>user. get_or_post rq
     (renderGuest E rq ''guest-upgrade'' user (is_guest user) False [] no_form 200 [])
     (let form = \<lparr>fdSubmitted = True, fdValues = [(''email'', PostFormValue rq ''email'')], fdErrors = []\<rparr> in
      if \<not> is_guest user then renderGuestAlert E rq ''guest-upgrade'' (formFailureStatus rq 401) form ''guest.error.invalid''
      else asking (Upgrade (pgLib E) (grGuestUpgrade (pgGraph E)) (uID (the user))
          \<lparr>guEmail = PostFormValue rq ''email'', guPassword = PostFormValue rq ''password''\<rparr>) (\<lambda>r. case r of
        Inl err \<Rightarrow> renderGuest E rq ''guest-upgrade'' user True False []
          (form\<lparr>fdErrors := (if errors_is err (Account ErrDuplicateEmail) then [(''email'', ''guest.error.duplicate_email'')]
             else if weak_password err then [(''password'', ''auth.error.invalid'')] else [])\<rparr>) 422 (bad_news ''guest.error.invalid'')
      | Inr result \<Rightarrow> setting_session E (sID (gsSession result))
          (renderGuest E rq ''guest-upgrade'' (Some (gsUser result)) False True [] no_form 200 []))))"

section \<open>Recovery\<close>

definition renderRecovery :: "pages \<Rightarrow> http_request \<Rightarrow> string \<Rightarrow> form_data \<Rightarrow> nat \<Rightarrow> alert list \<Rightarrow> pager" where
  "renderRecovery E rq kind form status alerts =
     visitor_page E rq (recoveryLanguage E rq) (RecoveryView kind) form alerts status"

text \<open>Asking for a mail: the answer does not depend on whether the address has an account.\<close>

definition mail_request_page :: "pages \<Rightarrow> http_request \<Rightarrow> string \<Rightarrow> (string \<Rightarrow> unit prog) \<Rightarrow> pager" where
  "mail_request_page E rq kind request = get_or_post rq (renderRecovery E rq kind no_form 200 [])
     (let form = \<lparr>fdSubmitted = True, fdValues = [(''email'', PostFormValue rq ''email'')], fdErrors = []\<rparr> in
      asking (request (PostFormValue rq ''email'')) (\<lambda>r. case r of
        Inl err \<Rightarrow> renderRecovery E rq kind form (if errors_is err (Auth ErrRateLimited) then formFailureStatus rq 429 else 422)
          (bad_news ''auth.error.invalid'')
      | Inr _ \<Rightarrow> renderRecovery E rq kind form 200 [\<lparr>alLevel = ''info'', alMessage = ''recovery.request.accepted''\<rparr>]))"

definition resendConfirmation :: "pages \<Rightarrow> http_request \<Rightarrow> pager" where
  "resendConfirmation E rq =
     mail_request_page E rq ''resend-confirmation'' (Resend (pgLib E) (grConfirmation (pgGraph E)) (grConfirmationLimiter (pgGraph E)))"

definition forgotPassword :: "pages \<Rightarrow> http_request \<Rightarrow> pager" where
  "forgotPassword E rq = mail_request_page E rq ''forgot-password'' (Request (pgLib E) (grPasswordResetter (pgGraph E)))"

definition confirmEmail_page :: "pages \<Rightarrow> http_request \<Rightarrow> pager" where
  "confirmEmail_page E rq =
     (if rqMethod rq \<noteq> ''GET'' then renderRecovery E rq ''confirm-email'' no_form 200 (bad_news ''recovery.confirm.failure'')
      else asking (Confirm (pgLib E) (Query_Get rq ''token'')) (\<lambda>r. case r of
        Inl _ \<Rightarrow> renderRecovery E rq ''confirm-email'' no_form 200 (bad_news ''recovery.confirm.failure'')
      | Inr _ \<Rightarrow> renderRecovery E rq ''confirm-email'' no_form 200 (good_news ''recovery.confirm.success'')))"

definition resetPassword :: "pages \<Rightarrow> http_request \<Rightarrow> pager" where
  "resetPassword E rq = get_or_post rq (renderRecovery E rq ''reset-password'' no_form 200 [])
     (asking (Redeem (pgLib E) (grPasswordConsumer (pgGraph E)) (Query_Get rq ''token'') (PostFormValue rq ''password'')) (\<lambda>r. case r of
        Inl err \<Rightarrow> renderRecovery E rq ''reset-password''
          \<lparr>fdSubmitted = True, fdValues = [], fdErrors = (if weak_password err then [(''password'', ''auth.error.invalid'')] else [])\<rparr> 422
          (bad_news (if weak_password err then ''auth.error.invalid'' else ''recovery.reset.failure''))
      | Inr _ \<Rightarrow> try_clearing_session E (renderRecovery E rq ''reset-password'' no_form 200 (good_news ''recovery.reset.success''))))"

section \<open>Providers\<close>

definition oauthFailureRedirect :: "pages \<Rightarrow> http_request \<Rightarrow> http_response \<Rightarrow> http_response" where
  "oauthFailureRedirect E rq rs =
     (case localized_path (pgParseURL E) (recoveryLanguage E rq) ''/sign-in'' of
        Inl _ \<Rightarrow> renderSimpleError 500 rs
      | Inr path \<Rightarrow>
          if IsHTMX rq then hx_redirect (path @ ''?oauth=error'') rs else http_Redirect (path @ ''?oauth=error'') 303 rs)"

definition oauthStart :: "pages \<Rightarrow> string \<Rightarrow> http_request \<Rightarrow> pager" where
  "oauthStart E provider rq =
     (if rqMethod rq \<noteq> ''GET'' then answering (\<lambda>rs. renderSimpleError 404 (set_header ''Allow'' ''GET'' rs))
      else asking (Start (pgLib E) (grOAuth (pgGraph E)) provider) (\<lambda>r. case r of
        Inl _ \<Rightarrow> answering (oauthFailureRedirect E rq)
      | Inr (target, state) \<Rightarrow> answering (\<lambda>rs. http_Redirect target 302 (setOAuthStateCookie E state rs))))"

text \<open>The number of the signed-in account, 0 for a visitor.\<close>

definition actor_number :: "authn_err + principal \<Rightarrow> int" where
  "actor_number r = (case r of Inl _ \<Rightarrow> 0 | Inr p \<Rightarrow> Atoi_value (prID p))"

definition oauthCallback :: "pages \<Rightarrow> string \<Rightarrow> http_request \<Rightarrow> pager" where
  "oauthCallback E provider rq =
     (if rqMethod rq \<noteq> ''GET'' then answering (oauthFailureRedirect E rq)
      else
        let state = Query_Get rq ''state'' in
        changing (clearOAuthStateCookie E) (
          if \<not> oauthStateBound rq state then answering (oauthFailureRedirect E rq)
          else (\<lambda>rs w. case Authenticate (pgLib E) (pgCookie E) rq w of (who, w) \<Rightarrow>
            asking (CompleteCallback (pgLib E) (grOAuth (pgGraph E)) (actor_number who) provider (Query_Get rq ''code'') state) (\<lambda>r. case r of
              Inl _ \<Rightarrow> answering (oauthFailureRedirect E rq)
            | Inr result \<Rightarrow>
                if crLinked result then auth_redirect E rq ''/account/settings?identity=linked''
                else finishSignIn E rq (case crSignIn result of None \<Rightarrow> [] | Some s \<Rightarrow> sID (srSession s)) ''/home'') rs w)))"

section \<open>The issuer\<close>

definition ssoFailureRedirect :: "pages \<Rightarrow> http_request \<Rightarrow> http_response \<Rightarrow> http_response" where
  "ssoFailureRedirect E rq = redirect_with_query E (resolveRequestLanguage E rq []) ''/sign-in'' ''?sso=expired''"

definition bad_request :: "http_response \<Rightarrow> http_response" where
  "bad_request = http_Error ''Bad Request'' 400"

definition ssoLogin :: "pages \<Rightarrow> sso_provider \<Rightarrow> http_request \<Rightarrow> pager" where
  "ssoLogin E provider rq =
     (let challenge = Query_Get rq ''login_challenge'' in
      if \<not> validLoginChallenge challenge then answering bad_request
      else (\<lambda>rs w. case Authenticate (pgLib E) (pgCookie E) rq w of (who, w) \<Rightarrow>
        asking (BeginLogin provider challenge (actor_number who)) (\<lambda>r. case r of
          Inl _ \<Rightarrow> answering (ssoFailureRedirect E rq)
        | Inr target \<Rightarrow>
            if target \<noteq> [] then answering (http_Redirect target 302)
            else answering (\<lambda>rs. redirectLocalized E (resolveRequestLanguage E rq []) ''/sign-in''
              (SetCookie (lax_cookie E loginChallengeCookieName challenge (loginChallengeLifetime div time_Second)) rs))) rs w))"

definition ssoConsent :: "pages \<Rightarrow> sso_provider \<Rightarrow> http_request \<Rightarrow> pager" where
  "ssoConsent E provider rq =
     (let challenge = Query_Get rq ''consent_challenge'' in
      if \<not> validLoginChallenge challenge then answering bad_request
      else asking (Consent provider challenge) (\<lambda>r. case r of
        Inl _ \<Rightarrow> answering (ssoFailureRedirect E rq)
      | Inr target \<Rightarrow> answering (http_Redirect target 302)))"

definition ssoLogout :: "pages \<Rightarrow> sso_provider \<Rightarrow> http_request \<Rightarrow> pager" where
  "ssoLogout E provider rq =
     (let challenge = Query_Get rq ''logout_challenge'' in
      if \<not> validLoginChallenge challenge then answering bad_request
      else asking (sso_Logout provider challenge) (\<lambda>r.
        let leave = try_clearing_session E (case r of
              Inl _ \<Rightarrow> answering (redirectLocalized E (resolveRequestLanguage E rq []) ''/sign-in'')
            | Inr target \<Rightarrow> answering (http_Redirect target 302)) in
        case cookie_Read (pgCookie E) rq of
          None \<Rightarrow> leave
        | Some sessionID \<Rightarrow> asking (SignOut (pgLib E) sessionID) (\<lambda>_. leave)))"

definition ssoErrorMessages :: "(string \<times> string) list" where
  "ssoErrorMessages =
     [(''invalid_client'', ''sso.error_page.invalid_client''), (''unauthorized_client'', ''sso.error_page.invalid_client''),
      (''invalid_request'', ''sso.error_page.invalid_request''), (''invalid_scope'', ''sso.error_page.invalid_request''),
      (''unsupported_response_type'', ''sso.error_page.invalid_request''), (''access_denied'', ''sso.error_page.access_denied''),
      (''login_required'', ''sso.error_page.access_denied''), (''request_forbidden'', ''sso.error_page.access_denied'')]"

definition ssoError :: "pages \<Rightarrow> http_request \<Rightarrow> pager" where
  "ssoError E rq =
     visitor_page E rq (resolveRequestLanguage E rq [])
       (IssuerErrorView (case map_of ssoErrorMessages (Query_Get rq ''error'') of None \<Rightarrow> ''sso.error_page.generic'' | Some m \<Rightarrow> m))
       no_form [] 400"

definition ssoClientFailure :: "pages \<Rightarrow> http_request \<Rightarrow> http_response \<Rightarrow> http_response" where
  "ssoClientFailure E rq = redirect_with_query E (recoveryLanguage E rq) ''/sign-in'' ''?sso=error''"

definition ssoCallbackFailure :: "pages \<Rightarrow> http_request \<Rightarrow> bool \<Rightarrow> error option \<Rightarrow> pager" where
  "ssoCallbackFailure E rq guest err =
     (if \<not> guest then answering (ssoClientFailure E rq)
      else auth_redirect E rq (''/guest/upgrade?sso='' @
        (case err of
           None \<Rightarrow> ''error''
         | Some e \<Rightarrow> if errors_is e (OAuth ErrSSOGuestIdentityTaken) then ''taken''
                    else if errors_is e (OAuth ErrOAuthEmailConflict) then ''conflict'' else ''error'')))"

definition ssoSignIn :: "pages \<Rightarrow> http_request \<Rightarrow> pager" where
  "ssoSignIn E rq =
     (case requestLanguage rq of
        None \<Rightarrow> answering (renderSimpleError 404)
      | Some language \<Rightarrow> (\<lambda>rs w. case Authenticate (pgLib E) (pgCookie E) rq w of
          (Inr _, w) \<Rightarrow> answering (redirectLocalized E language ''/home'') rs w
        | (Inl _, w) \<Rightarrow> visitor_page E rq language (PasswordView ''sign-in'' [] []) no_form
            (if Query_Get rq ''sso'' = ''error'' then bad_news ''sso.error.generic''
             else if Query_Get rq ''sso'' = ''expired'' then bad_news ''sso.error.expired'' else []) 200 rs w))"

definition ssoStart :: "pages \<Rightarrow> sso_client \<Rightarrow> http_request \<Rightarrow> pager" where
  "ssoStart E client rq =
     asking (sso_Start (pgLib E) client) (\<lambda>r. case r of
       Inl _ \<Rightarrow> answering (ssoClientFailure E rq)
     | Inr (target, state) \<Rightarrow> answering (\<lambda>rs. http_Redirect target 302 (setOAuthStateCookie E state rs)))"

definition ssoCallback :: "pages \<Rightarrow> sso_client \<Rightarrow> http_request \<Rightarrow> pager" where
  "ssoCallback E client rq =
     (let state = Query_Get rq ''state'' in
      changing (clearOAuthStateCookie E) (currentUser E rq (\<lambda>actor.
        if \<not> oauthStateBound rq state \<or> Query_Get rq ''error'' \<noteq> [] then ssoCallbackFailure E rq (is_guest actor) None
        else asking (sso_Callback (pgLib E) client (case actor of None \<Rightarrow> 0 | Some u \<Rightarrow> uID u) (Query_Get rq ''code'') state) (\<lambda>r. case r of
          Inl err \<Rightarrow> ssoCallbackFailure E rq (is_guest actor) (Some err)
        | Inr result \<Rightarrow> finishSignIn E rq (sID (cbSession result)) ''/home''))))"

definition ssoGuestUpgrade :: "pages \<Rightarrow> sso_client \<Rightarrow> http_request \<Rightarrow> pager" where
  "ssoGuestUpgrade E client rq = currentUser E rq (\<lambda>user. get_or_post rq
     (renderGuest E rq ''guest-upgrade'' user (is_guest user) False [] no_form 200
       (if Query_Get rq ''sso'' = ''taken'' then bad_news ''guest.error.sso_taken''
        else if Query_Get rq ''sso'' = ''conflict'' then bad_news ''guest.error.duplicate_email''
        else if Query_Get rq ''sso'' = ''error'' then bad_news ''sso.error.generic'' else []))
     (if \<not> is_guest user then renderGuestAlert E rq ''guest-upgrade'' (formFailureStatus rq 401) no_form ''guest.error.invalid''
      else asking (StartUpgrade (pgLib E) client (uID (the user))) (\<lambda>r. case r of
        Inl _ \<Rightarrow> auth_redirect E rq ''/guest/upgrade?sso=error''
      | Inr (target, state) \<Rightarrow> answering (\<lambda>rs. http_Redirect target 303 (setOAuthStateCookie E state rs)))))"

definition ssoBackChannelLogout :: "pages \<Rightarrow> sso_client \<Rightarrow> http_request \<Rightarrow> pager" where
  "ssoBackChannelLogout E client rq = changing (set_header ''Cache-Control'' ''no-store'') (
     case rqForm rq of
       None \<Rightarrow> answering (WriteHeader 400)
     | Some form \<Rightarrow> asking (BackChannelLogout client (first_value form ''logout_token'')) (\<lambda>r. case r of
         Inl _ \<Rightarrow> answering (WriteHeader 400)
       | Inr _ \<Rightarrow> answering (WriteHeader 200)))"

end
