(* ===== verification/SitePages.thy ===== *)
theory SitePages
  imports GroupPages AdminPages VisitorPages
begin

text \<open>
  The router (\<^verbatim>\<open>internal/adapter/http/handler.go\<close>): the public pages, the table of routes in each deployment role, and the
  theorems about every route at once: which requests change the tables, and for whom.
\<close>

section \<open>Public pages\<close>

definition renderNotFound :: "pages \<Rightarrow> http_request \<Rightarrow> pager" where
  "renderNotFound E rq =
     (case ParsePath (rqPath rq) of
        None \<Rightarrow> answering (http_Error ''404 page not found'' 404)
      | Some _ \<Rightarrow> answering (RenderState E rq PageStateNotFound))"

definition public_page :: "pages \<Rightarrow> http_request \<Rightarrow> string \<Rightarrow> page_view \<Rightarrow> pager" where
  "public_page E rq language view = currentUser E rq (\<lambda>user.
     answering (render E rq \<lparr>pdLanguage = language, pdView = view, pdForm = no_form, pdAlerts = [], pdUser = user\<rparr> 200))"

definition defaultLocale :: "pages \<Rightarrow> http_request \<Rightarrow> pager" where
  "defaultLocale E rq = answering (\<lambda>rs.
     case localized_path (pgParseURL E) (resolveRequestLanguage E rq []) ''/'' of
       Inl _ \<Rightarrow> internal_error rs
     | Inr path \<Rightarrow> http_Redirect path 302 rs)"

definition HasSuffix :: "string \<Rightarrow> string \<Rightarrow> bool" where
  "HasSuffix s suffix' \<longleftrightarrow> HasPrefix (rev s) (rev suffix')"

definition home_page :: "pages \<Rightarrow> http_request \<Rightarrow> pager" where
  "home_page E rq =
     (case ParsePath (rqPath rq) of
        None \<Rightarrow> renderNotFound E rq
      | Some (language, route) \<Rightarrow>
          if route \<noteq> ''/'' then renderNotFound E rq
          else if \<not> HasSuffix (rqPath rq) ''/'' then answering (\<lambda>rs.
            case localized_path (pgParseURL E) language ''/'' of
              Inl _ \<Rightarrow> internal_error rs
            | Inr path \<Rightarrow> http_Redirect path 302 rs)
          else public_page E rq language HomeView)"

definition localized_page :: "pages \<Rightarrow> http_request \<Rightarrow> pager" where
  "localized_page E rq =
     (case ParsePath (rqPath rq) of
        Some (_, route) \<Rightarrow> if route = ''/'' then home_page E rq else renderNotFound E rq
      | None \<Rightarrow> renderNotFound E rq)"

definition about_page :: "pages \<Rightarrow> http_request \<Rightarrow> pager" where
  "about_page E rq = public_page E rq (resolveRequestLanguage E rq []) AboutView"

definition auth_home :: "pages \<Rightarrow> http_request \<Rightarrow> pager" where
  "auth_home E rq =
     (case requestLanguage rq of
        None \<Rightarrow> answering (renderSimpleError 401)
      | Some language \<Rightarrow> currentUser E rq (\<lambda>user. case user of
          None \<Rightarrow> answering (redirectLocalized E language ''/sign-in'')
        | Some u \<Rightarrow> answering (render E rq \<lparr>pdLanguage = language, pdView = HomeView, pdForm = no_form, pdAlerts = [], pdUser = Some u\<rparr> 200)))"

definition health :: "http_request \<Rightarrow> pager" where
  "health rq = answering (\<lambda>rs. Write (''ok'' @ [CHR 0x0A]) (WriteHeader 200 (set_header ''Content-Type'' ''text/plain; charset=utf-8'' rs)))"

section \<open>Routes\<close>

text \<open>
  Method, pattern below the language prefix, and handler. The report pages of the administrator area, the maintenance run,
  the static files and the link that forwards to the page for a new password are not in the table.
\<close>

type_synonym route = "string \<times> string \<times> (http_request \<Rightarrow> pager)"

definition session_routes :: "pages \<Rightarrow> route list" where
  "session_routes E =
     [(''GET'', ''/account/settings'', settings_page E),
      (''POST'', ''/account/settings/locale'', settings_updateLocale E),
      (''POST'', ''/account/theme'', settings_updateTheme E),
      (''GET'', ''/groups'', groups_list E),
      (''POST'', ''/groups'', groups_create E),
      (''GET'', ''/groups/join'', groups_join E),
      (''POST'', ''/groups/join'', groups_join E),
      (''GET'', ''/groups/{id}'', groups_detail E),
      (''POST'', ''/groups/{id}/rename'', groups_rename E),
      (''POST'', ''/groups/{id}/invite'', groups_rotateInvite E),
      (''POST'', ''/groups/{id}/leave'', groups_leave E),
      (''POST'', ''/groups/{id}/members/{memberID}/role'', groups_changeRole E),
      (''POST'', ''/groups/{id}/members/{memberID}/remove'', groups_removeMember E)]"

definition admin_routes :: "pages \<Rightarrow> route list" where
  "admin_routes E =
     [(''GET'', ''/admin'', admin_index E),
      (''GET'', ''/admin/users'', admin_list E),
      (''GET'', ''/admin/ratelimits'', admin_rateLimits E),
      (''POST'', ''/admin/ratelimits/clear'', admin_clearRateLimit E),
      (''GET'', ''/admin/users/{id}'', admin_detail E),
      (''GET'', ''/admin/users/{id}/edit'', admin_editAccount E),
      (''POST'', ''/admin/users/{id}/edit'', admin_editAccount E),
      (''POST'', ''/admin/users/{id}/delete'', admin_deleteAccount E),
      (''POST'', ''/admin/users/{id}/sessions/revoke'', admin_revokeSessions E),
      (''POST'', ''/admin/users/{id}/lockout/clear'', admin_clearLockout E)]"

text \<open>The routes of a deployment with its own credentials, split as above.\<close>

definition own_session_routes :: "pages \<Rightarrow> route list" where
  "own_session_routes E =
     [(''POST'', ''/account/settings/profile'', settings_updateProfile E),
      (''POST'', ''/account/settings/password'', settings_updatePassword E),
      (''POST'', ''/account/settings/identity'', settings_unlinkIdentity E),
      (''POST'', ''/account/settings/identity/link'', settings_linkIdentity E)]"

definition own_admin_routes :: "pages \<Rightarrow> route list" where
  "own_admin_routes E =
     [(''GET'', ''/admin/users/new'', admin_createAccount E),
      (''POST'', ''/admin/users/new'', admin_createAccount E),
      (''POST'', ''/admin/users/{id}/confirm-email'', admin_confirmEmailAccount E),
      (''POST'', ''/admin/users/{id}/send-confirmation'', admin_sendConfirmation E),
      (''POST'', ''/admin/users/{id}/identities/{identityID}/remove'', admin_removeIdentity E)]"

text \<open>Routes a visitor may use.\<close>

definition visitor_routes :: "pages \<Rightarrow> route list" where
  "visitor_routes E =
     [(''GET'', ''/home'', auth_home E),
      (''GET'', ''/about'', about_page E),
      (''POST'', ''/sign-out'', auth_signOut E),
      (''GET'', ''/guest/write'', guestWrite E),
      (''POST'', ''/guest/write'', guestWrite E),
      (''GET'', ''/guest/transfer'', guestTransfer E),
      (''POST'', ''/guest/transfer'', guestTransfer E)]
     @ (case grSSOClient (pgGraph E) of
          Some client \<Rightarrow>
            [(''GET'', ''/sign-in'', ssoSignIn E),
             (''GET'', ''/oauth/sso'', ssoStart E client),
             (''GET'', ''/oauth/sso/callback'', ssoCallback E client),
             (''GET'', ''/guest/upgrade'', ssoGuestUpgrade E client),
             (''POST'', ''/guest/upgrade'', ssoGuestUpgrade E client)]
        | None \<Rightarrow>
            [(''GET'', ''/sign-up'', \<lambda>rq. handlePasswordPage E rq ''sign-up''),
             (''POST'', ''/sign-up'', \<lambda>rq. handlePasswordPage E rq ''sign-up''),
             (''GET'', ''/sign-in'', \<lambda>rq. handlePasswordPage E rq ''sign-in''),
             (''POST'', ''/sign-in'', \<lambda>rq. handlePasswordPage E rq ''sign-in''),
             (''GET'', ''/resend-confirmation'', resendConfirmation E),
             (''POST'', ''/resend-confirmation'', resendConfirmation E),
             (''GET'', ''/forgot-password'', forgotPassword E),
             (''POST'', ''/forgot-password'', forgotPassword E),
             (''GET'', ''/password-forgotten'', forgotPassword E),
             (''POST'', ''/password-forgotten'', forgotPassword E),
             (''GET'', ''/check-inbox'', resendConfirmation E),
             (''GET'', ''/confirm-email'', confirmEmail_page E),
             (''GET'', ''/reset-password'', resetPassword E),
             (''POST'', ''/reset-password'', resetPassword E),
             (''GET'', ''/password-reset'', resetPassword E),
             (''POST'', ''/password-reset'', resetPassword E),
             (''GET'', ''/guest/upgrade'', guestUpgrade E),
             (''POST'', ''/guest/upgrade'', guestUpgrade E)]
            @ concat (map (\<lambda>provider.
                [(''GET'', ''/oauth/'' @ provider, oauthStart E provider),
                 (''GET'', ''/oauth/'' @ provider @ ''/callback'', oauthCallback E provider)]) (oauthProviders E)))"

definition language_routes :: "pages \<Rightarrow> route list" where
  "language_routes E =
     session_routes E @ admin_routes E @ visitor_routes E
     @ (if grSSOClient (pgGraph E) = None then own_session_routes E @ own_admin_routes E else [])"

definition fixed_routes :: "pages \<Rightarrow> route list" where
  "fixed_routes E =
     [(''GET'', ''/'', defaultLocale E),
      (''GET'', ''/{language}'', home_page E),
      (''GET'', ''/{language}/{path...}'', localized_page E)]
     @ (case grSSOProvider (pgGraph E) of
          None \<Rightarrow> []
        | Some provider \<Rightarrow>
            [(''GET'', ''/sso/login'', ssoLogin E provider),
             (''GET'', ''/sso/consent'', ssoConsent E provider),
             (''GET'', ''/sso/logout'', ssoLogout E provider),
             (''GET'', ''/sso/error'', ssoError E)])
     @ (case grSSOClient (pgGraph E) of
          Some client \<Rightarrow> [(''POST'', ssoBackChannelLogoutPath, ssoBackChannelLogout E client)]
        | None \<Rightarrow> [(''GET'', ''/confirm-email'', confirmEmail_page E)])
     @ [(''GET'', ''/healthz'', health)]"

definition site_routes :: "pages \<Rightarrow> route list" where
  "site_routes E = fixed_routes E
     @ concat (map (\<lambda>language. map (\<lambda>(m, pattern, handler). (m, CHR ''/'' # language @ pattern, handler)) (language_routes E)) Codes)"

text \<open>
  Matching a request against the registered patterns is the standard library's: \<open>match\<close> yields the number of the route and
  the values of its wildcards. The router notes both on the request object.
\<close>

type_synonym matcher = "(string \<times> string) list \<Rightarrow> http_request \<Rightarrow> (nat \<times> (string \<times> string) list) option"

definition pattern_of :: "route \<Rightarrow> string \<times> string" where
  "pattern_of r = (fst r, fst (snd r))"

definition site :: "pages \<Rightarrow> matcher \<Rightarrow> world handler" where
  "site E match rq s =
     (case match (map pattern_of (site_routes E)) rq of
        None \<Rightarrow> (rq, http_Error ''404 page not found'' 404 (fst s), snd s)
      | Some (i, values) \<Rightarrow> (case site_routes E ! i of (m, pattern, handler) \<Rightarrow>
          page_handler handler (rq\<lparr>rqPattern := m @ '' '' @ pattern, rqPathValues := values\<rparr>) s))"


section \<open>What the pages read\<close>

lemma evolves_pg_reads:
  assumes l: "pg_limiter l"
  shows "evolves (on_tables (=)) (Snapshot l now action key)" "evolves (on_tables (=)) (Actions l now)"
    "evolves (on_tables (=)) (Buckets l now action)"
proof -
  from l obtain L scope where st: "rlStore l = PostgresRateLimitStore L scope" by (auto simp: pg_limiter_def)
  have g: "evolves (on_tables (=)) (pg_Get L scope a k t)" for a k t
    unfolding pg_Get_def
    by (intro evolves_intro preord_intro evolves_read_query preord_eq) (auto simp: select_bucket_def split: option.splits)
  have s: "evolves (on_tables (=)) (pg_List scope t)" for t
    unfolding pg_List_def by (intro evolves_intro preord_intro evolves_read_query preord_eq) simp
  show "evolves (on_tables (=)) (Snapshot l now action key)" "evolves (on_tables (=)) (Actions l now)"
    "evolves (on_tables (=)) (Buckets l now action)"
    unfolding Snapshot_def Actions_def live_def Buckets_def st PostgresRateLimitStore_def rate_limit_store.simps
    by (intro evolves_intro preord_intro preord_eq g s)+
qed

lemma evolves_budget_views:
  assumes ls: "list_all pg_limiter ls"
  shows "evolves (on_tables (=)) (Overview ls)" "evolves (on_tables (=)) (action_entries ls as)"
proof -
  have "evolves (on_tables (=)) (overview ls' seen)" if "list_all pg_limiter ls'" for ls' seen
    using that
  proof (induction ls' arbitrary: seen)
    case (Cons l ls')
    then have l: "pg_limiter l" "list_all pg_limiter ls'" by simp_all
    show ?case unfolding overview.simps by (intro evolves_intro preord_intro preord_eq evolves_pg_reads [OF l(1)] Cons.IH l)
  qed (simp add: evolves_ret preord_on_tables preord_eq)
  then show "evolves (on_tables (=)) (Overview ls)" by (simp add: Overview_def ls)
  have b: "evolves (on_tables (=)) (limits_Buckets ls' action)" if "list_all pg_limiter ls'" for ls' action
    using that
  proof (induction ls')
    case (Cons l ls')
    then have l: "pg_limiter l" and ih: "evolves (on_tables (=)) (limits_Buckets ls' action)" by simp_all
    show ?case unfolding limits_Buckets.simps by (intro evolves_intro preord_intro preord_eq evolves_pg_reads [OF l] ih)
  qed (simp add: evolves_fail preord_on_tables preord_eq)
  show "evolves (on_tables (=)) (action_entries ls as)"
  proof (induction as)
    case (Cons a as)
    show ?case unfolding action_entries.simps by (intro evolves_intro preord_intro preord_eq b [OF ls] Cons.IH)
  qed (simp add: evolves_ret preord_on_tables preord_eq)
qed

lemma evolves_lockout_Status:
  assumes l: "pg_limiter l"
  shows "evolves (on_tables (=)) (lockout_Status L l u)"
proof -
  have i: "evolves (on_tables (=)) (identifier_status l keys status)" for keys status
  proof (induction keys arbitrary: status)
    case (Cons key keys)
    show ?case unfolding identifier_status.simps by (intro evolves_intro preord_intro preord_eq evolves_pg_reads [OF l] Cons.IH)
  qed (simp add: evolves_ret preord_on_tables preord_eq)
  have oo: "evolves (on_tables (=)) (origin_status L l origins status)" for origins status
  proof (induction origins arbitrary: status)
    case (Cons x origins)
    show ?case unfolding origin_status.simps by (intro evolves_intro preord_intro preord_eq evolves_pg_reads [OF l] Cons.IH)
  qed (simp add: evolves_ret preord_on_tables preord_eq)
  have "evolves (on_tables (=)) (recentOrigins u)"
    unfolding recentOrigins_def ListLoginAttemptsForEmail_def
    by (intro evolves_intro preord_intro preord_eq evolves_read_query; simp add: select_attempts_def)
  then show ?thesis
    unfolding lockout_Status_def identifierLimit_def
    by (intro evolves_intro preord_intro preord_eq i oo evolves_pg_reads [OF l])
qed

lemma evolves_diagnostics: "evolves (on_tables (=)) (diagnostics_Detail uid)"
  unfolding diagnostics_Detail_def Let_def ListActiveSessions_def ListLoginAttemptsForUser_def
  by (intro evolves_intro preord_intro preord_eq evolves_read_query; simp add: select_attempts_def)

lemma evolves_admin_List: "evolves (on_tables (=)) (admin_List L coll q)"
  unfolding admin_List_def ListUsers_def Let_def
  by (intro evolves_intro preord_intro preord_eq evolves_read_query; simp add: count_users_def select_users_def)


section \<open>Who may change something\<close>

text \<open>A handler that changes the tables only for a posted request of an account with a property.\<close>

definition opened_by :: "(user \<Rightarrow> bool) \<Rightarrow> pages \<Rightarrow> (http_request \<Rightarrow> pager) \<Rightarrow> bool" where
  "opened_by P E handler \<longleftrightarrow> (\<forall>rq rs w. tables (snd (handler rq rs w)) \<noteq> tables w \<longrightarrow>
     rqMethod rq = ''POST'' \<and> (\<exists>u. acts_for E rq w u \<and> P u))"

lemma unposted [pager_intro]:
  "rqMethod rq \<noteq> ''POST'' \<Longrightarrow> pager_keeps (=) (only_method ''POST'' rq k)"
  "rqMethod rq \<noteq> ''POST'' \<Longrightarrow> pager_keeps (=) p \<Longrightarrow> pager_keeps (=) (get_or_post rq p k)"
  by (simp_all add: only_method_def get_or_post_def pager_answering preord_eq)

lemma page_account_changes:
  "tables (snd (page_account E rq numbered k rs w)) \<noteq> tables w \<Longrightarrow> \<exists>u. acts_for E rq w u"
  using page_account_cases [of E rq numbered k rs w] by (cases "page_account E rq numbered k rs w") fastforce

lemma opened_user:
  assumes "\<And>rq u. rqMethod rq \<noteq> ''POST'' \<Longrightarrow> pager_keeps (=) (body rq u)"
  shows "opened_by (\<lambda>_. True) E (\<lambda>rq. authenticatePageUser E rq (body rq))"
  unfolding opened_by_def
proof (intro allI impI)
  fix rq rs w assume ch: "tables (snd (authenticatePageUser E rq (body rq) rs w)) \<noteq> tables w"
  obtain rs' w' where run: "page_account E rq (\<lambda>_. True) (body rq) rs w = (rs', w')" by fastforce
  with ch have ch': "tables w' \<noteq> tables w" by (simp add: authenticatePageUser_def)
  with page_account_cases [OF run] obtain u w1 where u: "acts_for E rq w u" "tables w1 = tables w" "body rq u rs w1 = (rs', w')"
    by blast
  have "rqMethod rq = ''POST''"
  proof (rule ccontr)
    assume "rqMethod rq \<noteq> ''POST''"
    from pager_keepsD [OF assms [OF this] u(3)] u(2) ch' show False by simp
  qed
  with u show "rqMethod rq = ''POST'' \<and> (\<exists>u. acts_for E rq w u \<and> True)" by blast
qed

lemma opened_admin:
  assumes "\<And>rq u. rqMethod rq \<noteq> ''POST'' \<Longrightarrow> pager_keeps (=) (body rq u)"
  shows "opened_by uIsAdmin E (\<lambda>rq. authorize E rq (body rq))"
  unfolding opened_by_def
proof (intro allI impI)
  fix rq rs w assume ch: "tables (snd (authorize E rq (body rq) rs w)) \<noteq> tables w"
  let ?k = "\<lambda>user. if \<not> uIsAdmin user then answering (RenderState E rq PageStateAccessDenied) else body rq user"
  obtain rs' w' where run: "page_account E rq (\<lambda>userID. 0 < userID) ?k rs w = (rs', w')" by fastforce
  with ch have ch': "tables w' \<noteq> tables w" by (simp add: authorize_def)
  with page_account_cases [OF run] obtain u w1 where u: "acts_for E rq w u" "tables w1 = tables w" "?k u rs w1 = (rs', w')"
    by blast
  have a: "uIsAdmin u" using u ch' by (rule_tac ccontr) (simp add: answering_def)
  have "rqMethod rq = ''POST''"
  proof (rule ccontr)
    assume "rqMethod rq \<noteq> ''POST''"
    from pager_keepsD [OF assms [OF this], of u rs w1 rs' w'] u a ch' show False by simp
  qed
  with u a show "rqMethod rq = ''POST'' \<and> (\<exists>u. acts_for E rq w u \<and> uIsAdmin u)" by blast
qed

lemma opened_method:
  assumes "opened_by P E h"
  shows "opened_by P E (\<lambda>rq. only_method m rq (h rq))"
  unfolding opened_by_def
proof (intro allI impI)
  fix rq rs w assume ch: "tables (snd (only_method m rq (h rq) rs w)) \<noteq> tables w"
  then have "tables (snd (h rq rs w)) \<noteq> tables w" by (auto simp: only_method_def answering_def split: if_splits)
  with assms show "rqMethod rq = ''POST'' \<and> (\<exists>u. acts_for E rq w u \<and> P u)" unfolding opened_by_def by blast
qed

lemmas views = renderError_def renderGroupNotFound_def renderGroupError_def renderGroups_def renderGroupDetail_def
  group_renderDetail_def renderGroupDetailError_def renderSettings_def admin_page_of_def admin_renderState_def
  admin_renderDetail_def renderUsers_def renderEditAccount_def renderRateLimits_def

lemma opened_groups:
  "opened_by (\<lambda>_. True) E (groups_list E)" "opened_by (\<lambda>_. True) E (groups_create E)" "opened_by (\<lambda>_. True) E (groups_detail E)"
  "opened_by (\<lambda>_. True) E (groups_join E)" "opened_by (\<lambda>_. True) E (groups_rename E)" "opened_by (\<lambda>_. True) E (groups_rotateInvite E)"
  "opened_by (\<lambda>_. True) E (groups_changeRole E)" "opened_by (\<lambda>_. True) E (groups_removeMember E)"
  "opened_by (\<lambda>_. True) E (groups_leave E)"
  unfolding groups_list_def groups_create_def groups_detail_def groups_join_def groups_rename_def groups_rotateInvite_def
    groups_changeRole_def groups_removeMember_def groups_leave_def views
  by (rule opened_user; intro pager_intro preord_eq evolves_group_views; assumption)+


lemma opened_settings:
  "opened_by (\<lambda>_. True) E (settings_page E)" "opened_by (\<lambda>_. True) E (settings_updateProfile E)"
  "opened_by (\<lambda>_. True) E (settings_updatePassword E)" "opened_by (\<lambda>_. True) E (settings_updateLocale E)"
  "opened_by (\<lambda>_. True) E (settings_unlinkIdentity E)" "opened_by (\<lambda>_. True) E (settings_linkIdentity E)"
  "opened_by (\<lambda>_. True) E (settings_updateTheme E)"
proof -
  show "opened_by (\<lambda>_. True) E (settings_page E)"
    unfolding settings_page_def views
    by (rule opened_method, rule opened_user) (intro pager_intro preord_eq evolves_intro preord_intro)
  show "opened_by (\<lambda>_. True) E (settings_updateTheme E)"
    unfolding opened_by_def
  proof (intro allI impI)
    fix rq rs w assume ch: "tables (snd (settings_updateTheme E rq rs w)) \<noteq> tables w"
    then have m: "rqMethod rq = ''POST''"
      by (rule_tac ccontr) (simp add: settings_updateTheme_def only_method_def answering_def)
    with ch show "rqMethod rq = ''POST'' \<and> (\<exists>u. acts_for E rq w u \<and> True)"
      by (auto simp: settings_updateTheme_def only_method_def authenticatePageUser_def dest!: page_account_changes)
  qed
qed (unfold settings_updateProfile_def settings_updatePassword_def settings_updateLocale_def settings_unlinkIdentity_def
    settings_linkIdentity_def views, (rule opened_user; intro pager_intro preord_eq; assumption)+)

lemma opened_admin_pages:
  assumes g: "graph_ok (pgGraph E)"
  shows "opened_by uIsAdmin E (admin_index E)" "opened_by uIsAdmin E (admin_list E)" "opened_by uIsAdmin E (admin_detail E)"
    "opened_by uIsAdmin E (admin_revokeSessions E)" "opened_by uIsAdmin E (admin_confirmEmailAccount E)"
    "opened_by uIsAdmin E (admin_sendConfirmation E)" "opened_by uIsAdmin E (admin_removeIdentity E)"
    "opened_by uIsAdmin E (admin_clearLockout E)" "opened_by uIsAdmin E (admin_createAccount E)"
    "opened_by uIsAdmin E (admin_editAccount E)" "opened_by uIsAdmin E (admin_deleteAccount E)"
    "opened_by uIsAdmin E (admin_rateLimits E)" "opened_by uIsAdmin E (admin_clearRateLimit E)"
proof -
  have l: "pg_limiter (grSignInLimiter (pgGraph E))" "list_all pg_limiter (limiters (pgGraph E))"
    using g by (simp_all add: graph_ok_def limiters_def)
  have f: "evolves (on_tables (=)) (admin_Find uid)" for uid
    unfolding admin_Find_def by (intro evolves_intro preord_intro preord_eq)
  have o: "evolves (on_tables (=)) (call (Overview (limiters (pgGraph E))) id (action_entries (limiters (pgGraph E))))"
    by (intro evolves_call preord_on_tables preord_eq evolves_budget_views [OF l(2)])
  show "opened_by uIsAdmin E (admin_index E)" "opened_by uIsAdmin E (admin_list E)" "opened_by uIsAdmin E (admin_detail E)"
    "opened_by uIsAdmin E (admin_revokeSessions E)" "opened_by uIsAdmin E (admin_confirmEmailAccount E)"
    "opened_by uIsAdmin E (admin_sendConfirmation E)" "opened_by uIsAdmin E (admin_removeIdentity E)"
    "opened_by uIsAdmin E (admin_clearLockout E)" "opened_by uIsAdmin E (admin_createAccount E)"
    "opened_by uIsAdmin E (admin_editAccount E)" "opened_by uIsAdmin E (admin_deleteAccount E)"
    "opened_by uIsAdmin E (admin_rateLimits E)" "opened_by uIsAdmin E (admin_clearRateLimit E)"
    unfolding admin_index_def admin_list_def admin_detail_def admin_revokeSessions_def admin_confirmEmailAccount_def
      admin_sendConfirmation_def adminConfirmationAction_def admin_removeIdentity_def admin_clearLockout_def admin_createAccount_def
      admin_editAccount_def admin_deleteAccount_def admin_rateLimits_def admin_clearRateLimit_def views
    by (rule opened_admin; intro pager_intro preord_eq evolves_diagnostics evolves_lockout_Status [OF l(1)] evolves_admin_List f o; assumption)+
qed


section \<open>Areas of the site\<close>

definition in_area :: "string \<Rightarrow> string \<Rightarrow> bool" where
  "in_area area pattern \<longleftrightarrow> (\<exists>language \<in> set Codes. HasPrefix pattern (CHR ''/'' # language @ area))"

lemma acts_for_routed [simp]: "acts_for E (rq\<lparr>rqPattern := a, rqPathValues := b\<rparr>) w u = acts_for E rq w u"
  by (simp add: acts_for_def cookie_Read_def Cookie_def)

lemma HasPrefix_language:
  "language \<in> set Codes \<Longrightarrow> other \<in> set Codes \<Longrightarrow>
    HasPrefix (CHR ''/'' # language @ p) (CHR ''/'' # other @ area) \<longleftrightarrow> language = other \<and> HasPrefix p area"
  by (auto simp: HasPrefix_def Codes_def English_def Hungarian_def)

lemma admin_route:
  assumes g: "graph_ok (pgGraph E)" and r: "(m, p, h) \<in> set (language_routes E)" "HasPrefix p ''/admin''"
  shows "opened_by uIsAdmin E h"
proof -
  have "\<not> HasPrefix (fst (snd x)) ''/admin''" if "x \<in> set (session_routes E @ visitor_routes E @ own_session_routes E)" for x
    using that by (auto simp: session_routes_def visitor_routes_def own_session_routes_def HasPrefix_def split: option.splits)
  with r have "(m, p, h) \<in> set (admin_routes E @ own_admin_routes E)"
    by (fastforce simp: language_routes_def split: if_splits)
  then show ?thesis
    by (auto simp: admin_routes_def own_admin_routes_def opened_admin_pages [OF g])
qed

lemma session_route:
  assumes r: "(m, p, h) \<in> set (language_routes E)" "HasPrefix p ''/groups'' \<or> HasPrefix p ''/account''"
  shows "opened_by (\<lambda>_. True) E h"
proof -
  have "\<not> HasPrefix (fst (snd x)) ''/groups'' \<and> \<not> HasPrefix (fst (snd x)) ''/account''"
    if "x \<in> set (admin_routes E @ visitor_routes E @ own_admin_routes E)" for x
    using that by (auto simp: admin_routes_def visitor_routes_def own_admin_routes_def HasPrefix_def split: option.splits)
  with r have "(m, p, h) \<in> set (session_routes E @ own_session_routes E)"
    by (fastforce simp: language_routes_def split: if_splits)
  then show ?thesis
    by (auto simp: session_routes_def own_session_routes_def opened_groups opened_settings)
qed

lemma area_route:
  assumes "x \<in> set (site_routes E)" "in_area area (fst (snd x))" "area \<in> {''/admin'', ''/groups'', ''/account''}"
  obtains m p h where "(m, p, h) \<in> set (language_routes E)" "HasPrefix p area" "snd (snd x) = h"
proof -
  have "\<not> in_area area (fst (snd y))" if "y \<in> set (fixed_routes E)" for y
    using that assms(3) by (auto simp: fixed_routes_def in_area_def Codes_def English_def Hungarian_def HasPrefix_def
        ssoBackChannelLogoutPath_def split: option.splits)
  with assms(1,2) obtain language m p h where l: "language \<in> set Codes" "(m, p, h) \<in> set (language_routes E)"
    and x: "x = (m, CHR ''/'' # language @ p, h)"
    unfolding site_routes_def by (cases "x \<in> set (fixed_routes E)") auto
  with assms(2) have "HasPrefix p area" unfolding in_area_def by (auto simp: HasPrefix_language)
  with that l x show thesis by auto
qed


section \<open>Boundaries that run the handler once\<close>

text \<open>
  A world that differs neither in the tables nor in the clock; and a middleware that leaves the world so, or runs the
  handler once on a request that came over the same wire, provided the request passes a check.
\<close>

definition calm :: "world \<Rightarrow> world \<Rightarrow> bool" where
  "calm w w' \<longleftrightarrow> tables w' = tables w \<and> now_ns w' = now_ns w"

definition runs_once :: "(http_request \<Rightarrow> bool) \<Rightarrow> world middleware \<Rightarrow> bool" where
  "runs_once passes m \<longleftrightarrow> (\<forall>n rq s. calm (snd s) (snd (snd (m n rq s)))
     \<or> passes rq \<and> (\<exists>rq1 s1. wire rq1 = wire rq \<and> calm (snd s) (snd s1) \<and> calm (snd (snd (n rq1 s1))) (snd (snd (m n rq s)))))"

lemma calm_refl [simp]: "calm w w"
  by (simp add: calm_def)

lemma calm_trans: "calm a b \<Longrightarrow> calm b c \<Longrightarrow> calm a c"
  by (simp add: calm_def)

lemma runs_once_compose:
  assumes m: "runs_once p m" and k: "runs_once q k" and wire: "\<And>rq rq'. wire rq' = wire rq \<Longrightarrow> q rq' = q rq"
  shows "runs_once (\<lambda>rq. p rq \<and> q rq) (\<lambda>n. m (k n))"
  unfolding runs_once_def
proof (intro allI)
  fix n rq s
  let ?out = "snd (snd (m (k n) rq s))"
  show "calm (snd s) ?out \<or> (p rq \<and> q rq) \<and> (\<exists>rq1 s1. wire rq1 = wire rq \<and> calm (snd s) (snd s1) \<and> calm (snd (snd (n rq1 s1))) ?out)"
  proof (cases "calm (snd s) ?out")
    case False
    with m obtain rq1 s1 where 1: "p rq" "wire rq1 = wire rq" "calm (snd s) (snd s1)" "calm (snd (snd (k n rq1 s1))) ?out"
      unfolding runs_once_def by blast
    have "\<not> calm (snd s1) (snd (snd (k n rq1 s1)))"
    proof
      assume "calm (snd s1) (snd (snd (k n rq1 s1)))"
      from calm_trans [OF calm_trans [OF 1(3) this] 1(4)] False show False by simp
    qed
    with k obtain rq2 s2 where 2: "q rq1" "wire rq2 = wire rq1" "calm (snd s1) (snd s2)"
      "calm (snd (snd (n rq2 s2))) (snd (snd (k n rq1 s1)))"
      unfolding runs_once_def by blast
    have "q rq" using wire [OF 1(2)] 2(1) by simp
    then show ?thesis
      using 1(1,2) 2(2) calm_trans [OF 1(3) 2(3)] calm_trans [OF 2(4) 1(4)]
      by (intro disjI2 conjI exI [of _ rq2] exI [of _ s2]) simp_all
  qed simp
qed

text \<open>The handler ran on a request over the same wire, and what followed was calm.\<close>

lemma ran:
  assumes "p rq" and "wire rq1 = wire rq" and "calm (snd s) (snd s1)" and "calm (snd (snd (n rq1 s1))) w'"
  shows "calm (snd s) w' \<or> p rq \<and> (\<exists>rq1 s1. wire rq1 = wire rq \<and> calm (snd s) (snd s1) \<and> calm (snd (snd (n rq1 s1))) w')"
  using assms by (intro disjI2 conjI exI [of _ rq1] exI [of _ s1])

lemma runs_once_foldr:
  assumes "\<forall>m \<in> set ms. runs_once (\<lambda>_. True) (the m)"
  shows "runs_once (\<lambda>_. True) (foldr the ms)"
  using assms
proof (induction ms)
  case Nil
  show ?case unfolding runs_once_def
  proof (intro allI)
    fix n rq and s :: "http_response \<times> world"
    show "calm (snd s) (snd (snd (foldr the [] n rq s))) \<or> True \<and> (\<exists>rq1 s1. wire rq1 = wire rq \<and> calm (snd s) (snd s1)
        \<and> calm (snd (snd (n rq1 s1))) (snd (snd (foldr the [] n rq s))))"
      by (rule ran [of "\<lambda>_. True" rq rq s s n]) simp_all
  qed
next
  case (Cons m ms)
  then have "runs_once (\<lambda>_. True) (the m)" "runs_once (\<lambda>_. True) (foldr the ms)" by simp_all
  from runs_once_compose [OF this] show ?case by (simp add: comp_def)
qed

text \<open>What the parties around the handlers do leaves the tables and the clock alone.\<close>

definition calm_act :: "(world, 'a) act \<Rightarrow> bool" where
  "calm_act f \<longleftrightarrow> (\<forall>w. calm w (snd (f w)))"

definition quiet_server :: "world server \<Rightarrow> bool" where
  "quiet_server sv \<longleftrightarrow> calm_act (svRequestIDs sv) \<and> calm_act (svCSRFTokens sv)
     \<and> runs_once (\<lambda>_. True) (svRecover sv) \<and> runs_once (\<lambda>_. True) (svOrigin sv)
     \<and> (\<forall>m \<in> set (svExtra sv). runs_once (\<lambda>_. True) (the m))
     \<and> (\<forall>f e. svUsage sv = Some f \<longrightarrow> calm_act (f e))
     \<and> (\<forall>f e w. svSecurityLogger sv = Some f \<longrightarrow> calm w (f e w)) \<and> (\<forall>f e w. svLogger sv = Some f \<longrightarrow> calm w (f e w))
     \<and> (\<forall>f rq w. svTracer sv = Some f \<longrightarrow> calm w (snd (f rq w))
          \<and> (\<forall>g route status v. snd (fst (f rq w)) = Some g \<longrightarrow> calm v (g route status v)))"

lemma runs_once_request_id:
  assumes c: "calm_act generator"
  shows "runs_once (\<lambda>_. True) (WithRequestID generator)"
  unfolding runs_once_def
proof (intro allI)
  fix n rq and s :: "http_response \<times> world"
  let ?out = "snd (snd (WithRequestID generator n rq s))"
  obtain r w where g: "generator (snd s) = (r, w)" by fastforce
  from c have "calm (snd s) (snd (generator (snd s)))" unfolding calm_act_def by blast
  with g have w: "calm (snd s) w" by simp
  show "calm (snd s) ?out \<or> True \<and> (\<exists>rq1 s1. wire rq1 = wire rq \<and> calm (snd s) (snd s1) \<and> calm (snd (snd (n rq1 s1))) ?out)"
  proof (cases "\<exists>i. r = Inr i \<and> validRequestID i")
    case True
    then obtain i where i: "r = Inr i" "validRequestID i" by blast
    show ?thesis
      by (rule ran [where p = "\<lambda>_. True" and ?rq1.0 = "rq\<lparr>cxRequestID := Some i\<rparr>" and ?s1.0 = "(set_header ''X-Request-ID'' i (fst s), w)"])
        (simp_all add: w WithRequestID_def g i with_copy_def)
  next
    case False
    with w g have "calm (snd s) ?out" by (auto simp: WithRequestID_def split: sum.split)
    then show ?thesis ..
  qed
qed

lemma runs_onceI:
  assumes "\<And>n rq s. \<exists>rq1 rs1 w1. wire rq1 = wire rq \<and> calm (snd s) w1 \<and> calm (snd (snd (n rq1 (rs1, w1)))) (snd (snd (m n rq s)))"
  shows "runs_once (\<lambda>_. True) m"
  unfolding runs_once_def
proof (intro allI)
  fix n rq s
  from assms obtain rq1 rs1 w1 where "wire rq1 = wire rq" "calm (snd s) w1" "calm (snd (snd (n rq1 (rs1, w1)))) (snd (snd (m n rq s)))"
    by blast
  then show "calm (snd s) (snd (snd (m n rq s))) \<or> True \<and> (\<exists>rq1 s1. wire rq1 = wire rq \<and> calm (snd s) (snd s1)
      \<and> calm (snd (snd (n rq1 s1))) (snd (snd (m n rq s))))"
    by (intro ran [of "\<lambda>_. True" rq rq1 s "(rs1, w1)" n]) simp_all
qed

lemma runs_once_context:
  "runs_once (\<lambda>_. True) WithRequestInfo" "runs_once (\<lambda>_. True) (ClientIP N proxy)" "runs_once (\<lambda>_. True) SecurityHeaders"
proof -
  show "runs_once (\<lambda>_. True) WithRequestInfo"
    by (rule runs_onceI, simp add: WithRequestInfo_def with_copy_def) (metis calm_refl prod.collapse)
  show "runs_once (\<lambda>_. True) (ClientIP N proxy)"
    by (rule runs_onceI, simp add: ClientIP_def with_copy_def) (metis calm_refl prod.collapse wire_context(2))
  show "runs_once (\<lambda>_. True) SecurityHeaders"
    by (rule runs_onceI, simp add: SecurityHeaders_def Let_def) (blast intro: calm_refl)
qed

lemma observing_world: "snd (snd (snd (observing n rq s))) = snd (snd (n rq ((fst s)\<lparr>rsStatus := 0\<rparr>, snd s)))"
  by (simp add: observing_def split: prod.split)

lemma runs_once_observers:
  "(\<forall>f e. recorder = Some f \<longrightarrow> calm_act (f e)) \<Longrightarrow> runs_once (\<lambda>_. True) (Usage N recorder name_route)"
  "(\<forall>f e w. logger = Some f \<longrightarrow> calm w (f e w)) \<Longrightarrow> runs_once (\<lambda>_. True) (SecurityEvents logger name_route)"
  "(\<forall>f e w. requests = Some f \<longrightarrow> calm w (f e w)) \<Longrightarrow> runs_once (\<lambda>_. True) (Log requests)"
proof -
  have seen: "runs_once (\<lambda>_. True) m"
    if "\<And>n rq s. (\<exists>rs1. snd (snd (m n rq s)) = snd (snd (n rq (rs1, snd s))))
        \<or> calm (snd (snd (snd (observing n rq s)))) (snd (snd (m n rq s)))" for m :: "world middleware"
  proof (rule runs_onceI)
    fix n rq and s :: "http_response \<times> world"
    from that [of n rq s] obtain rs1 where "calm (snd (snd (n rq (rs1, snd s)))) (snd (snd (m n rq s)))"
      unfolding observing_world by (metis calm_refl)
    then show "\<exists>rq1 rs1 w1. wire rq1 = wire rq \<and> calm (snd s) w1 \<and> calm (snd (snd (n rq1 (rs1, w1)))) (snd (snd (m n rq s)))"
      by (intro exI [of _ rq] exI [of _ rs1] exI [of _ "snd s"]) simp
  qed
  show "runs_once (\<lambda>_. True) (Usage N recorder name_route)" if "\<forall>f e. recorder = Some f \<longrightarrow> calm_act (f e)"
    by (rule seen) (use that in \<open>auto simp: Usage_def calm_act_def Let_def split: option.split prod.split intro: exI [of _ "fst _"]\<close>)
  show "runs_once (\<lambda>_. True) (SecurityEvents logger name_route)" if "\<forall>f e w. logger = Some f \<longrightarrow> calm w (f e w)"
    by (rule seen) (use that in \<open>auto simp: SecurityEvents_def split: option.split prod.split\<close>)
  show "runs_once (\<lambda>_. True) (Log requests)" if "\<forall>f e w. requests = Some f \<longrightarrow> calm w (f e w)"
    by (rule seen) (use that in \<open>auto simp: Log_def split: option.split prod.split\<close>)
qed


lemma runs_once_span:
  assumes "\<forall>f rq w. tracer = Some f \<longrightarrow> calm w (snd (f rq w))
    \<and> (\<forall>g route status v. snd (fst (f rq w)) = Some g \<longrightarrow> calm v (g route status v))"
  shows "runs_once (\<lambda>_. True) (Span tracer name_route)"
proof (rule runs_onceI)
  fix n rq and s :: "http_response \<times> world"
  show "\<exists>rq1 rs1 w1. wire rq1 = wire rq \<and> calm (snd s) w1 \<and> calm (snd (snd (n rq1 (rs1, w1)))) (snd (snd (Span tracer name_route n rq s)))"
  proof (cases tracer)
    case None
    then show ?thesis by (intro exI [of _ rq] exI [of _ "fst s"] exI [of _ "snd s"]) (simp add: Span_def)
  next
    case (Some f)
    obtain trace finish w where t: "f rq (snd s) = ((trace, finish), w)" by (metis prod.collapse)
    let ?rq = "case trace of None \<Rightarrow> rq | Some i \<Rightarrow> rq\<lparr>cxTraceID := Some i\<rparr>"
    obtain status copy rs w' where ob: "observing n ?rq (fst s, w) = (status, copy, rs, w')" by (metis prod.collapse)
    have c: "calm (snd s) w" "\<And>g route st v. finish = Some g \<Longrightarrow> calm v (g route st v)"
      using assms Some t by (metis fst_conv snd_conv)+
    have "w' = snd (snd (n ?rq ((fst s)\<lparr>rsStatus := 0\<rparr>, w)))" using observing_world [of n ?rq "(fst s, w)"] ob by simp
    moreover have "calm w' (snd (snd (Span tracer name_route n rq s)))"
      using c(2) by (simp add: Span_def Some t ob split: option.split)
    ultimately show ?thesis
      using c(1) by (intro exI [of _ ?rq] exI [of _ "(fst s)\<lparr>rsStatus := 0\<rparr>"] exI [of _ w]) (simp split: option.split)
  qed
qed

lemma runs_once_csrf:
  assumes c: "calm_act (cfGenerator cfg)"
  shows "runs_once (\<lambda>rq. isSafeMethod (rqMethod rq) \<or> rqPath rq \<in> set (cfExempt cfg) \<or> carries_token rq) (CSRF cfg)"
  unfolding runs_once_def
proof (intro allI)
  fix n rq and s :: "http_response \<times> world"
  let ?p = "\<lambda>rq. isSafeMethod (rqMethod rq) \<or> rqPath rq \<in> set (cfExempt cfg) \<or> carries_token rq"
  let ?out = "snd (snd (CSRF cfg n rq s))"
  have pass: "calm (snd s) ?out \<or> ?p rq \<and> (\<exists>rq1 s1. wire rq1 = wire rq \<and> calm (snd s) (snd s1) \<and> calm (snd (snd (n rq1 s1))) ?out)"
    if "?p rq" "?out = snd (snd (n rq1 s1))" "wire rq1 = wire rq" "calm (snd s) (snd s1)" for rq1 s1
    using that by (intro ran [of ?p rq rq1 s s1 n]) simp_all
  have copy: "snd (snd (with_copy n rq1 rq t)) = snd (snd (n rq1 t))" for rq1 t by (simp add: with_copy_def)
  show "calm (snd s) ?out \<or> ?p rq \<and> (\<exists>rq1 s1. wire rq1 = wire rq \<and> calm (snd s) (snd s1) \<and> calm (snd (snd (n rq1 s1))) ?out)"
  proof (cases "isSafeMethod (rqMethod rq)")
    case True
    show ?thesis
    proof (cases "case Cookie rq CSRFCookieName of None \<Rightarrow> False | Some t \<Rightarrow> validCSRFToken t")
      case valid: True
      with True have "?out = snd (snd (n (rq\<lparr>cxCSRF := Cookie rq CSRFCookieName\<rparr>) s))" by (simp add: CSRF_def Let_def copy)
      then show ?thesis by (rule pass [rotated]) (simp_all add: True)
    next
      case invalid: False
      obtain r w where g: "cfGenerator cfg (snd s) = (r, w)" by fastforce
      from c have "calm (snd s) (snd (cfGenerator cfg (snd s)))" unfolding calm_act_def by blast
      with g have w: "calm (snd s) w" by simp
      show ?thesis
      proof (cases "\<exists>fresh. r = Inr fresh \<and> validCSRFToken fresh")
        case True
        then obtain fresh where f: "r = Inr fresh" "validCSRFToken fresh" by blast
        with \<open>isSafeMethod (rqMethod rq)\<close> invalid g have "?out = snd (snd (n (rq\<lparr>cxCSRF := Some fresh\<rparr>)
            (setCSRFCookie fresh (cfSecure cfg \<or> rqTLS rq) (fst s), w)))"
          by (simp add: CSRF_def Let_def copy)
        then show ?thesis by (rule pass [rotated]) (simp_all add: w \<open>isSafeMethod (rqMethod rq)\<close>)
      next
        case False
        with \<open>isSafeMethod (rqMethod rq)\<close> invalid g w have "calm (snd s) ?out" by (auto simp: CSRF_def Let_def split: sum.split)
        then show ?thesis ..
      qed
    qed
  next
    case unsafe: False
    show ?thesis
    proof (cases "rqPath rq \<in> set (cfExempt cfg)")
      case True
      with unsafe have "?out = snd (snd (n rq s))" by (simp add: CSRF_def Let_def)
      then show ?thesis by (rule pass [rotated]) (simp_all add: True)
    next
      case False
      show ?thesis
      proof (cases "carries_token rq")
        case True
        from CSRF_passes [OF unsafe False True] have "?out = snd (snd (n (rq\<lparr>cxCSRF := Cookie rq CSRFCookieName\<rparr>) s))" by (simp add: copy)
        then show ?thesis by (rule pass [rotated]) (simp_all add: True)
      next
        case stop: False
        then show ?thesis by (simp add: CSRF_stops [OF unsafe False stop])
      qed
    qed
  qed
qed


lemma server_runs_once:
  assumes new: "newRouter sv mux = Inr server" and q: "quiet_server sv"
    and changed: "tables (snd (snd (server rq s))) \<noteq> tables (snd s)"
  obtains rq1 s1 where "isSafeMethod (rqMethod rq) \<or> rqPath rq \<in> set (cfExempt (server_csrf sv)) \<or> carries_token rq"
    "wire rq1 = wire rq" "calm (snd s) (snd s1)" "calm (snd (snd (mux rq1 s1))) (snd (snd (server rq s)))"
proof -
  let ?usage = "if svUsage sv = None then [] else [Some (Usage (svNet sv) (svUsage sv) NormalizeUsageRoute)]"
  let ?inside = "(if svLogger sv = None then [] else [Some (Log (svLogger sv))]) @ svExtra sv"
  let ?p = "\<lambda>rq. isSafeMethod (rqMethod rq) \<or> rqPath rq \<in> set (cfExempt (server_csrf sv)) \<or> carries_token rq"
  have "\<forall>m \<in> set (outer_chain sv @ ?usage @ ?inside). runs_once (\<lambda>_. True) (the m)"
    using q by (auto simp: outer_chain_def quiet_server_def
        intro: runs_once_request_id runs_once_context runs_once_observers runs_once_span)
  then have outer: "runs_once (\<lambda>_. True) (foldr the (outer_chain sv))" "runs_once (\<lambda>_. True) (foldr the ?usage)"
    "runs_once (\<lambda>_. True) (foldr the ?inside)" "runs_once (\<lambda>_. True) (svOrigin sv)"
    using q by (simp_all add: runs_once_foldr quiet_server_def)
  have csrf: "runs_once ?p (CSRF (server_csrf sv))"
    using q by (intro runs_once_csrf) (simp add: server_csrf_simps quiet_server_def)
  have stable: "?p rq' = ?p rq" if "wire rq' = wire rq" for rq' rq
    by (simp add: wire_fields [OF that] carries_token_wire [OF that])
  have "runs_once ?p (\<lambda>n. CSRF (server_csrf sv) (foldr the ?inside n))"
    using runs_once_compose [OF csrf outer(3)] by simp
  then have "runs_once ?p (\<lambda>n. svOrigin sv (CSRF (server_csrf sv) (foldr the ?inside n)))"
    using runs_once_compose [OF outer(4) _ stable] by simp
  then have "runs_once ?p (\<lambda>n. foldr the ?usage (svOrigin sv (CSRF (server_csrf sv) (foldr the ?inside n))))"
    using runs_once_compose [OF outer(2) _ stable] by simp
  then have all: "runs_once ?p (\<lambda>n. foldr the (outer_chain sv) (foldr the ?usage (svOrigin sv (CSRF (server_csrf sv) (foldr the ?inside n)))))"
    using runs_once_compose [OF outer(1) _ stable] by simp
  have server: "server = foldr the (outer_chain sv) (foldr the ?usage (svOrigin sv (CSRF (server_csrf sv) (foldr the ?inside mux))))"
    using newRouter_Inr [OF new] by metis
  have "\<not> calm (snd s) (snd (snd (server rq s)))" using changed by (simp add: calm_def)
  with all that show thesis unfolding runs_once_def server by blast
qed

section \<open>Properties\<close>


section \<open>A small site\<close>

text \<open>Its router matches the registered patterns literally.\<close>

definition demo_match :: matcher where
  "demo_match ps rq =
     (let i = length (takeWhile (\<lambda>p. p \<noteq> (rqMethod rq, rqPath rq)) ps) in if i < length ps then Some (i, []) else None)"

definition demo_site_server :: "world server" where
  "demo_site_server = \<lparr>svRequestIDs = ret ''r1'', svNet = demo_net, svTrustedProxy = [], svRecover = (\<lambda>n. n), svTracer = None,
     svSecurityLogger = None, svUsage = None, svOrigin = (\<lambda>n. n), svCSRFTokens = ret (replicate 64 (CHR ''a'')),
     svCookie = demo_cookie_config, svClientMode = False, svLogger = None, svExtra = []\<rparr>"

definition demo_theme_request :: http_request where
  "demo_theme_request = demo_posted ''/en/account/theme''"

lemma demo_site_server_quiet: "quiet_server demo_site_server"
proof -
  have "runs_once (\<lambda>_. True) (\<lambda>n. n)" using runs_once_foldr [of "[]"] by (simp add: id_def)
  then show ?thesis by (simp add: quiet_server_def demo_site_server_def calm_act_def calm_def ret_def)
qed

lemma demo_match_ok: "demo_match ps rq = Some (i, values) \<Longrightarrow> i < length ps" "demo_match ps (wire rq) = demo_match ps rq"
  by (auto simp: demo_match_def Let_def wire_def split: if_splits)

lemma demo_theme_route:
  "(m, p, h) \<in> set (language_routes E) \<Longrightarrow> p = ''/account/theme'' \<Longrightarrow> h = settings_updateTheme E"
proof -
  assume r: "(m, p, h) \<in> set (language_routes E)" and p: "p = ''/account/theme''"
  have "(m, p, h) \<notin> set (admin_routes E)" "(m, p, h) \<notin> set (own_admin_routes E)" "(m, p, h) \<notin> set (own_session_routes E)"
    using p by (simp_all add: admin_routes_def own_admin_routes_def own_session_routes_def)
  moreover have "(m, p, h) \<notin> set (visitor_routes E)"
    using p by (cases "grSSOClient (pgGraph E)") (simp_all add: visitor_routes_def)
  ultimately have "(m, p, h) \<in> set (session_routes E)" using r by (auto simp: language_routes_def split: if_splits)
  with p show ?thesis by (simp add: session_routes_def)
qed

lemma demo_route:
  assumes "rqMethod rq = ''POST''" and "rqPath rq = ''/en/account/theme''"
  shows "\<exists>i. demo_match (map pattern_of (site_routes E)) rq = Some (i, []) \<and> fst (snd (site_routes E ! i)) = ''/en/account/theme''
    \<and> snd (snd (site_routes E ! i)) = settings_updateTheme E"
proof -
  let ?p = "(''POST'', ''/en/account/theme'')" and ?ps = "map pattern_of (site_routes E)"
  let ?i = "length (takeWhile (\<lambda>p. p \<noteq> ?p) ?ps)"
  have only: "snd (snd r) = settings_updateTheme E" if "r \<in> set (site_routes E)" "pattern_of r = ?p" for r
  proof -
    obtain m p h where x: "r = (m, p, h)" by (cases r)
    with that have p: "p = ''/en/account/theme''" by (simp add: pattern_of_def)
    have "r \<notin> set (fixed_routes E)"
      unfolding x p by (cases "grSSOClient (pgGraph E)"; cases "grSSOProvider (pgGraph E)")
        (simp_all add: fixed_routes_def ssoBackChannelLogoutPath_def)
    with that(1) x obtain language p' where "(m, p', h) \<in> set (language_routes E)" "language \<in> set Codes" "p = CHR ''/'' # language @ p'"
      by (auto simp: site_routes_def)
    with p have "(m, p', h) \<in> set (language_routes E)" "p' = ''/account/theme''" by (auto simp: Codes_def English_def Hungarian_def)
    with x show ?thesis using demo_theme_route by simp
  qed
  have "(''POST'', ''/account/theme'', settings_updateTheme E) \<in> set (language_routes E)"
    by (simp add: language_routes_def session_routes_def)
  then have "(''POST'', ''/en/account/theme'', settings_updateTheme E) \<in> set (site_routes E)"
    unfolding site_routes_def by (simp add: Codes_def English_def) force
  then have "?p \<in> set ?ps" by (force simp: pattern_of_def)
  moreover have "length (takeWhile (\<lambda>p. p \<noteq> x) ps) < length ps" if "x \<in> set ps" for x :: "string \<times> string" and ps
    using that by (induction ps) auto
  ultimately have i: "?i < length ?ps" by blast
  from nth_length_takeWhile [OF i] have "?ps ! ?i = ?p" by simp
  moreover from i have "?ps ! ?i = pattern_of (site_routes E ! ?i)" "site_routes E ! ?i \<in> set (site_routes E)" by simp_all
  ultimately have "pattern_of (site_routes E ! ?i) = ?p" "site_routes E ! ?i \<in> set (site_routes E)" by simp_all
  with only have "fst (snd (site_routes E ! ?i)) = ''/en/account/theme''" "snd (snd (site_routes E ! ?i)) = settings_updateTheme E"
    by (simp_all add: pattern_of_def)
  moreover from i assms have "demo_match ?ps rq = Some (?i, [])" by (simp add: demo_match_def Let_def)
  ultimately show ?thesis by blast
qed

lemma demo_chain:
  assumes "newRouter demo_site_server mux = Inr server"
  shows "\<exists>a b c rs. snd (snd (server demo_theme_request (demo_response, w)))
    = snd (snd (mux (demo_theme_request\<lparr>cxRequestID := a, cxClientIP := b, cxCSRF := c\<rparr>) (rs, w)))"
proof -
  let ?sv = demo_site_server
  have "server = WithRequestID (svRequestIDs ?sv) (WithRequestInfo (ClientIP (svNet ?sv) [] (SecurityHeaders (CSRF (server_csrf ?sv) mux))))"
    using assms by (auto simp: newRouter_def Chain_Inr shared_chain_def demo_site_server_def)
  moreover have "validRequestID ''r1''" "\<not> isSafeMethod (rqMethod demo_theme_request)"
    "rqPath demo_theme_request = ''/en/account/theme''" "rqMethod demo_theme_request = ''POST''"
    by code_simp+
  moreover have "carries_token demo_theme_request" unfolding carries_token_iff by code_simp
  moreover have "carries_token (rq\<lparr>cxRequestID := a, cxClientIP := b\<rparr>) = carries_token rq" for rq :: http_request and a b
    by (rule carries_token_wire) (simp add: wire_def)
  moreover have "\<not> HasPrefix ''/en/account/theme'' ''/static/''" by (simp add: HasPrefix_def)
  moreover have "CSRFCookieName \<noteq> []" "svRequestIDs demo_site_server = ret ''r1''" "cfExempt (server_csrf demo_site_server) = []"
    by (simp_all add: CSRFCookieName_def server_csrf_simps demo_site_server_def)
  ultimately show ?thesis
    by (simp add: WithRequestID_def WithRequestInfo_def ClientIP_def SecurityHeaders_def CSRF_passes Let_def with_copy_def ret_def)
      (intro exI, rule refl)
qed

lemma demo_theme_change:
  assumes "rqMethod rq = ''POST''" "rqCookies rq = rqCookies demo_theme_request" "rqForm rq = rqForm demo_theme_request"
    and "pgLib E = ascii_lib" and "pgCookie E = demo_cookie_config\<lparr>scName := ''goweb_session''\<rparr>"
  shows "tables (snd (settings_updateTheme E rq rs demo_site_world)) \<noteq> tables demo_site_world"
proof -
  let ?c = "demo_cookie_config\<lparr>scName := ''goweb_session''\<rparr>"
  have run: "case Authenticate ascii_lib ?c demo_theme_request demo_site_world of (Inl _, _) \<Rightarrow> False
      | (Inr p, w1) \<Rightarrow> prID p = ''2'' \<and> (case FindUserByID 2 w1 of (Inl _, _) \<Rightarrow> False
        | (Inr u, w2) \<Rightarrow> uID u = 2 \<and> map uTheme (users (tables (snd (UpdateTheme ascii_lib 2 ''dark'' w2))))
            \<noteq> map uTheme (users (tables demo_site_world)))"
    by code_simp
  have "cookie_Read ?c rq = cookie_Read ?c demo_theme_request" using assms(2) by (simp add: cookie_Read_def Cookie_def)
  then have "Authenticate ascii_lib ?c rq = Authenticate ascii_lib ?c demo_theme_request" by (simp add: Authenticate_def fun_eq_iff)
  moreover have "ParseInt64 ''2'' = Some 2" by (simp add: ParseInt64_def ParseUint_def decimal_value_def digit_value_def is_digit_def)
  moreover have "PostFormValue rq ''theme'' = ''dark''" using assms(3) by (simp add: PostFormValue_def demo_theme_request_def demo_posted_def first_value_def CSRFFieldName_def)
  ultimately show ?thesis
    using run assms(1,4,5)
    by (auto simp: settings_updateTheme_def only_method_def authenticatePageUser_def page_account_def asking_def answering_def
        split: prod.splits sum.splits)
qed


end
