(* ===== verification/Spec2Isabelle.thy ===== *)
theory Spec2Isabelle
  imports RateLimitMemory Guests Settings AdminAccounts SSOClient UsageQueue Maintenance System Bootstrap Transport SitePages
begin

text \<open>
  Verification of goweb, an account server in Go with server-rendered pages: sign-up and sign-in with passwords and external
  providers, sessions, groups, guests, account recovery by mail, an administrator area, and single sign-on in both roles
  (the identity deployment behind Hydra, and client apps that send their visitors there). Every definition translates code
  under \<^verbatim>\<open>src/internal\<close> and the constraints of \<^verbatim>\<open>src/migrations\<close>.

  \<^bold>\<open>How the parts interact.\<close> A request passes the shared middleware chain (\<open>Transport\<close>), is matched by the router
  (\<open>SitePages\<close>) and answered by a page handler (\<open>Pages\<close>, \<open>GroupPages\<close>, \<open>AdminPages\<close>, \<open>AccountPages\<close>, \<open>VisitorPages\<close>). Handlers
  resolve the session cookie to an account and call services; services check, call repositories and other services, and
  translate errors; repositories run SQL statements in PostgreSQL. \<open>App\<close> builds the graph of services from a loaded
  configuration as \<^verbatim>\<open>app.New\<close> does, and \<open>System\<close> lets requests, scheduled jobs and outside events happen in any order.

  \<^bold>\<open>State and computations.\<close> A \<open>world\<close> (\<open>Database\<close>) holds the tables as lists of rows with their sequences, the clock, the
  random bytes to come, the sent mail, and a script of failures: each database access first consumes one entry, so the
  theorems hold under every pattern of lost connections, ended contexts and refused commits. A fallible Go function is a
  \<open>prog\<close> (\<open>Prelude\<close>): world to error or value, and world. \<^verbatim>\<open>call\<close>, \<^verbatim>\<open>check\<close> and \<^verbatim>\<open>attempt\<close> are the three ways the code treats
  an error: wrap and return, validate, inspect. Errors keep what \<^verbatim>\<open>errors.Is\<close> and \<^verbatim>\<open>errors.As\<close> can see; their texts are
  not kept. A transaction commits its tables or none. Statements check the constraints of the migrations
  (\<^verbatim>\<open>*_violation\<close>) in the order of PostgreSQL and report the constraint by name, since the repositories map those names.
  Writes that must respect an invariant are covered by composition rules for \<open>evolves\<close>, collected in \<open>evolves_intro\<close>:
  a component proves that its statements respect a relation, and every operation composed of them does.
\<close>

text \<open>
  \<^bold>\<open>Theories and sources.\<close>
  \<^item> \<open>Prelude\<close>, \<open>GoStrings\<close>, \<open>GoText\<close>: errors, computations, lists as tables; Go strings as bytes with UTF-8 decoding, trimming, case
    mapping, numbers, Base64, hex and the other standard text formats.
  \<^item> \<open>Identity\<close>: validation of submitted values (\<^verbatim>\<open>service/identity.go\<close> and its neighbours). \<open>Locale\<close>: languages and localized
    paths (\<^verbatim>\<open>locale/locale.go\<close>). \<open>Config\<close>: reading the environment (\<^verbatim>\<open>config/config.go\<close>).
  \<^item> \<open>Database\<close>: the schema (\<^verbatim>\<open>migrations/*.up.sql\<close>) and the well-formedness \<open>db_ok\<close> of its tables.
  \<^item> \<open>UserStore\<close>, \<open>SessionStore\<close>, \<open>GroupStore\<close>, \<open>TokenStore\<close>, \<open>OAuthStore\<close>, \<open>RateLimitStore\<close>, and parts of \<open>AuditTrail\<close>,
    \<open>SignIn\<close>, \<open>Guests\<close>, \<open>SSOProvider\<close>, \<open>Maintenance\<close>, \<open>UsageQueue\<close>, \<open>AdminUsers\<close>: the repositories of \<^verbatim>\<open>store/postgres\<close>.
  \<^item> \<open>SessionService\<close> (\<^verbatim>\<open>session.go\<close>), \<open>PasswordHash\<close> (\<^verbatim>\<open>password_hash.go\<close>), \<open>SignIn\<close> (\<^verbatim>\<open>signin.go\<close>, \<^verbatim>\<open>signup.go\<close>, \<^verbatim>\<open>login_attempt.go\<close>, \<^verbatim>\<open>lockout.go\<close>),
    \<open>GroupService\<close> (\<^verbatim>\<open>group.go\<close>, \<^verbatim>\<open>group_join.go\<close>), \<open>Recovery\<close> (\<^verbatim>\<open>confirmation.go\<close>, \<^verbatim>\<open>resend.go\<close>, \<^verbatim>\<open>password_reset.go\<close>),
    \<open>Guests\<close> (\<^verbatim>\<open>guest*.go\<close>), \<open>Settings\<close> (\<^verbatim>\<open>settings.go\<close>, \<^verbatim>\<open>password_settings.go\<close>, \<^verbatim>\<open>theme.go\<close>), \<open>OAuthService\<close> (\<^verbatim>\<open>oauth.go\<close>,
    \<^verbatim>\<open>provider_registry.go\<close>), \<open>SSOProvider\<close>, \<open>SSOClient\<close> (\<^verbatim>\<open>sso_provider.go\<close>, \<^verbatim>\<open>sso_client.go\<close>), \<open>AdminUsers\<close>, \<open>AdminAccounts\<close>,
    \<open>AuditTrail\<close> (\<^verbatim>\<open>admin_*.go\<close>, \<^verbatim>\<open>audit.go\<close>), \<open>Maintenance\<close> (\<^verbatim>\<open>retention.go\<close>, \<^verbatim>\<open>maintenance.go\<close>): the services of
    \<^verbatim>\<open>internal/service\<close>.
  \<^item> \<open>RateLimit\<close>, \<open>RateLimitMemory\<close>, \<open>RateLimitStore\<close>: fixed-window limits over a store, and the two stores (\<^verbatim>\<open>rate_limit*.go\<close>).
  \<^item> \<open>UsageQueue\<close>: usage recording and its bounded queue between requests and a worker (\<^verbatim>\<open>usage.go\<close>), one step per action on
    shared memory.
  \<^item> \<open>Invariants\<close>, \<open>App\<close>, \<open>System\<close>, \<open>Bootstrap\<close>: the invariants across services, the graph of \<^verbatim>\<open>app/app.go\<close>, its runs, and the first
    administrator (\<^verbatim>\<open>app/bootstrap.go\<close>).
  \<^item> \<open>Transport\<close>: \<^verbatim>\<open>adapter/http/middleware\<close> and the chain of \<^verbatim>\<open>handler.go\<close>. \<open>Pages\<close>, \<open>GroupPages\<close>, \<open>AdminPages\<close>, \<open>AccountPages\<close>,
    \<open>VisitorPages\<close>, \<open>SitePages\<close>: the handlers of \<^verbatim>\<open>adapter/http\<close> and the route table.
\<close>

text \<open>
  \<^bold>\<open>What the lemmas show.\<close>
  \<^item> Sessions: a lookup is decided by the stored row; revocation, password changes, resets, sign-out and deletion end the sessions
    they should, through the handler and its cookie.
  \<^item> Sign-in and recovery: only the right password of a confirmed account opens a session, failures look alike, budgets bound
    the attempts per window, links are single-use and bound to their account.
  \<^item> Groups and administration: only members see a group, only those who lead it change it, and the last administrator stays;
    the paged account list covers every account exactly once.
  \<^item> External sign-in and single sign-on: callbacks complete only for the browser and account that began them; the issuer
    vouches for stored, confirmed accounts only.
  \<^item> Queue and worker: the queue refines a first-in-first-out specification, draining ends, and every due job runs.
  \<^item> Configuration and transport: a production configuration is safe to start with; forged requests reach no handler; the client address cannot
    be chosen by the client; the session cookie round-trips.
  \<^item> The whole application: well-formedness of the database, an administrator, and the leadership of groups are invariants of every
    run; a request to an area of the site changes the database only for an account entitled to it.

  \<^bold>\<open>Interfaces.\<close> Locales state what one part relies on from another: the store behind a rate limiter (\<open>rate_limit_store\<close>), storage of
  links and states that are redeemed once (\<open>single_use\<close>), and what an invariant has to survive to hold in every run
  (\<open>account_invariant\<close>). Each is interpreted on the definitions of the components that provide it: two stores, three tables, three
  invariants.

  \<^bold>\<open>Bounds.\<close> Machine integers are \<^typ>\<open>int\<close> with \<open>wrap64\<close> where the code tests or may reach an overflow; counters of \<^verbatim>\<open>uint64\<close> are \<^typ>\<open>nat\<close>. Recursions
  follow a list or a number of attempts that the code bounds itself; the drain of the queue uses
  \<open>while_option\<close> and is proved to end. \<^verbatim>\<open>sort.Slice\<close> breaks ties by the order of the list, which the standard library leaves open.
\<close>

text \<open>
  \<^bold>\<open>Parameters.\<close> \<open>golib\<close> holds what depends on Unicode tables, SHA-256, mail addresses, network prefixes and the database's \<^verbatim>\<open>lower\<close>; \<open>argon2\<close> the
  password hash; \<open>config_lib\<close> and \<open>net_lib\<close> the parsing of URLs, durations and addresses. Hydra, the OpenID Connect client and the
  providers are functions of the application (\<open>externals\<close>), with hypotheses (\<open>outside_ok\<close>) that they leave the tables alone. Matching
  of patterns is a function that names a registered route; templates and catalogues are \<open>pgTemplate\<close>, which may fail. Panic recovery,
  the limit on bodies and the cross-origin check are middlewares with hypotheses (\<open>transparent\<close>, \<open>hands_back\<close>, \<open>runs_once\<close>).

  \<^bold>\<open>Simplifications.\<close> The clock stands still during one operation; requests and jobs are atomic in the runs of \<open>System\<close> (the code serialises
  the critical ones by advisory locks and row versions); a failed insert does not use up a sequence number; nil receivers and contexts
  have no value; the zero \<^verbatim>\<open>Session\<close> of a result is \<open>None\<close>; iteration over a Go map is in list order; usage events have a store of their own;
  a response whose header is written ignores later headers, and status 0 means that it is not written yet. Log output is
  an event handed to a parameter. Slots that bound concurrent hashing are not modelled.

  \<^bold>\<open>Not modelled.\<close> The report pages of the administrator area (audit, system, usage, suspicious accounts) with their services, and the button that runs
  the jobs; labels, menus and links of pages (\<^verbatim>\<open>PageData\<close>, \<^verbatim>\<open>admin.go\<close>), which are texts of the catalogue; the message catalogues, logger and tracer;
  the clients of Hydra, Google, the issuer and the mail relays, which translate between their protocols and the functions above;
  the migrator and \<^verbatim>\<open>cmd/web\<close>, which are input and output at start-up; static files.
\<close>

end
